(* ===== verification/Prelude.thy ===== *)
theory Prelude
  imports Main "HOL-Library.Char_ord" "HOL-Library.List_Lexorder"
begin

text \<open>
  Shared vocabulary of the development: the result type that stands for JavaScript
  exceptions, the slice of \<^verbatim>\<open>String.prototype\<close> and \<^verbatim>\<open>BigInt\<close> the
  SDK uses, and the list lemmas the component theories rest on.

  A JavaScript string is a \<^typ>\<open>string\<close>, one \<^typ>\<open>char\<close> per code unit (code
  units below 256); a \<^verbatim>\<open>bigint\<close> is an \<^typ>\<open>int\<close>; a \<^verbatim>\<open>number\<close> used as
  an index, a length or a time is an exact \<^typ>\<open>nat\<close> or \<^typ>\<open>int\<close>. A \<^verbatim>\<open>throw\<close>
  is a value \<open>Inl e\<close>.
\<close>

section \<open>Collections of simplification rules\<close>

named_theorems strops \<open>lengths and character sets of the string operations\<close>
named_theorems result_simps \<open>unfolding of the error monad\<close>

section \<open>Exceptions as values\<close>

text \<open>One constructor per \<^verbatim>\<open>throw\<close> site; the payload is what the message interpolates.\<close>

datatype js_error =
    BigIntSyntaxError string
  | NotHex string
  | OddHexLength
  | CalldataTooShort nat
  | NotAnAddress string
  | InvalidPolicyAmount string
  | TooMuchPrecision string nat
  | InvalidBaseUnitAmount string
  | LooksLikeDisplayUnits string
  | PolicyValidationError string
  | SelectorClaimedTwice string string string
  | StreamError string
  | InputTooShort nat
  | LengthMismatch
  | PolicyRevert string string
  | Erc20ExceedsBalance
  | TypeErrorUndefined
  | StateUnavailable string
  | UpstreamError string
  | PolicyBindingError string string string
  | AgentNotActive string string
  | HookReturnedNoConfig
  | HookNotInstalled
  | NoOwnerExecutor
  | ENSRecordError string string string
  | LabelTooLong string
  | PreflightError "string list"
  | BadRequest string
  | PaymentRefused string
  | HttpStatus nat
  | ErrorMessage string

type_synonym 'a result = "js_error + 'a"

definition bindR :: "'a result \<Rightarrow> ('a \<Rightarrow> 'b result) \<Rightarrow> 'b result" where
  "bindR m f = (case m of Inl e \<Rightarrow> Inl e | Inr x \<Rightarrow> f x)"

fun mapR :: "('a \<Rightarrow> 'b result) \<Rightarrow> 'a list \<Rightarrow> 'b list result" where
  "mapR f [] = Inr []"
| "mapR f (x # xs) = bindR (f x) (\<lambda>y. bindR (mapR f xs) (\<lambda>ys. Inr (y # ys)))"

lemma bindR_Inr [simp, result_simps]: "bindR (Inr x) f = f x"
  by (simp add: bindR_def)

lemma bindR_Inl [simp, result_simps]: "bindR (Inl e) f = Inl e"
  by (simp add: bindR_def)

lemma bindR_eq_Inr: "bindR m f = Inr y \<longleftrightarrow> (\<exists>x. m = Inr x \<and> f x = Inr y)"
  by (cases m) auto

lemma bindR_eq_Inl: "bindR m f = Inl e \<longleftrightarrow> m = Inl e \<or> (\<exists>x. m = Inr x \<and> f x = Inl e)"
  by (cases m) auto

lemma bindR_cong [fundef_cong]:
  assumes "m = m'" and "\<And>x. m' = Inr x \<Longrightarrow> f x = g x"
  shows "bindR m f = bindR m' g"
  using assms by (cases m') auto

lemma mapR_eq_Inr: "mapR f xs = Inr ys \<longleftrightarrow> list_all2 (\<lambda>x y. f x = Inr y) xs ys"
proof (induction xs arbitrary: ys)
  case Nil
  then show ?case by auto
next
  case (Cons x xs)
  show ?case
    by (cases ys) (auto simp: bindR_eq_Inr Cons.IH)
qed

lemma mapR_length: "mapR f xs = Inr ys \<Longrightarrow> length ys = length xs"
  by (auto simp: mapR_eq_Inr dest: list_all2_lengthD)

lemma mapR_Inr_map: "(\<And>x. x \<in> set xs \<Longrightarrow> f x = Inr (g x)) \<Longrightarrow> mapR f xs = Inr (map g xs)"
  by (induction xs) auto

section \<open>String operations\<close>

text \<open>\<^verbatim>\<open>s.slice(a, b)\<close> for non-negative indices: an end beyond the string is clipped.\<close>

definition js_slice :: "string \<Rightarrow> nat \<Rightarrow> nat \<Rightarrow> string" where
  "js_slice s a b = take (b - a) (drop a s)"

definition padStart :: "nat \<Rightarrow> char \<Rightarrow> string \<Rightarrow> string" where
  "padStart n c s = replicate (n - length s) c @ s"

definition padEnd :: "nat \<Rightarrow> char \<Rightarrow> string \<Rightarrow> string" where
  "padEnd n c s = s @ replicate (n - length s) c"

text \<open>White space of \<^verbatim>\<open>String.prototype.trim\<close> among the code units below 256.\<close>

definition is_space :: "char \<Rightarrow> bool" where
  "is_space c = (let n = (of_char c :: nat) in n = 32 \<or> n = 160 \<or> (9 \<le> n \<and> n \<le> 13))"

definition trimEnd :: "string \<Rightarrow> string" where
  "trimEnd s = rev (dropWhile is_space (rev s))"

definition trim :: "string \<Rightarrow> string" where
  "trim s = trimEnd (dropWhile is_space s)"

text \<open>\<^verbatim>\<open>toLowerCase\<close> on ASCII letters.\<close>

definition lower_char :: "char \<Rightarrow> char" where
  "lower_char c = (let n = (of_char c :: nat) in if 65 \<le> n \<and> n \<le> 90 then char_of (n + 32) else c)"

definition toLowerCase :: "string \<Rightarrow> string" where
  "toLowerCase s = map lower_char s"

text \<open>\<^verbatim>\<open>xs.join(sep)\<close> and \<^verbatim>\<open>s.split(c)\<close> for a one-character separator.\<close>

fun join :: "string \<Rightarrow> string list \<Rightarrow> string" where
  "join sep [] = []"
| "join sep [x] = x"
| "join sep (x # y # ys) = x @ sep @ join sep (y # ys)"

fun splitOn :: "char \<Rightarrow> string \<Rightarrow> string list" where
  "splitOn c [] = [[]]"
| "splitOn c (x # xs) =
     (if x = c then [] # splitOn c xs
      else (case splitOn c xs of [] \<Rightarrow> [[x]] | w # ws \<Rightarrow> (x # w) # ws))"

lemma splitOn_nonempty: "splitOn c s \<noteq> []"
  by (induction s) (auto split: list.splits)

lemma splitOn_free: "c \<notin> set s \<Longrightarrow> splitOn c s = [s]"
  by (induction s) auto

lemma splitOn_once: "c \<notin> set a \<Longrightarrow> splitOn c (a @ c # b) = a # splitOn c b"
  by (induction a) auto

lemma join_splitOn: "join [c] (splitOn c s) = s"
proof (induction s)
  case (Cons x xs)
  then show ?case
    by (cases "splitOn c xs" rule: list.exhaust; cases "tl (splitOn c xs)")
      (auto simp: splitOn_nonempty)
qed simp

lemma length_js_slice [strops]: "length (js_slice s a b) = min (b - a) (length s - a)"
  by (simp add: js_slice_def)

lemma js_slice_full: "b = length s \<Longrightarrow> js_slice s 0 b = s"
  by (simp add: js_slice_def)

lemma set_js_slice: "set (js_slice s a b) \<subseteq> set s"
  by (auto simp: js_slice_def dest: in_set_takeD in_set_dropD)

lemma js_slice_append_left:
  "b \<le> length u \<Longrightarrow> js_slice (u @ v) a b = js_slice u a b"
  by (simp add: js_slice_def)

lemma js_slice_append_right:
  "length u \<le> a \<Longrightarrow> js_slice (u @ v) a b = js_slice v (a - length u) (b - length u)"
  by (simp add: js_slice_def)

lemma js_slice_mid:
  "length u = a \<Longrightarrow> length v = n \<Longrightarrow> b = a + n \<Longrightarrow> js_slice (u @ v @ w) a b = v"
  by (simp add: js_slice_def)

lemma length_padStart [strops]: "length (padStart n c s) = max n (length s)"
  by (simp add: padStart_def)

lemma length_padEnd [strops]: "length (padEnd n c s) = max n (length s)"
  by (simp add: padEnd_def)

lemma set_padStart: "set (padStart n c s) \<subseteq> insert c (set s)"
  by (auto simp: padStart_def)

lemma set_padEnd: "set (padEnd n c s) \<subseteq> insert c (set s)"
  by (auto simp: padEnd_def)

lemma padStart_id [simp]: "n \<le> length s \<Longrightarrow> padStart n c s = s"
  by (simp add: padStart_def)

lemma padEnd_id [simp]: "n \<le> length s \<Longrightarrow> padEnd n c s = s"
  by (simp add: padEnd_def)

lemma trimEnd_id: "s = [] \<or> \<not> is_space (last s) \<Longrightarrow> trimEnd s = s"
  by (cases s rule: rev_cases) (auto simp: trimEnd_def)

lemma trim_id: "\<forall>c \<in> set s. \<not> is_space c \<Longrightarrow> trim s = s"
  by (cases s) (auto simp: trim_def trimEnd_id)

lemma length_toLowerCase [strops, simp]: "length (toLowerCase s) = length s"
  by (simp add: toLowerCase_def)

lemma toLowerCase_append [simp]: "toLowerCase (a @ b) = toLowerCase a @ toLowerCase b"
  by (simp add: toLowerCase_def)

lemma toLowerCase_Cons [simp]: "toLowerCase (c # s) = lower_char c # toLowerCase s"
  by (simp add: toLowerCase_def)

lemma toLowerCase_Nil [simp]: "toLowerCase [] = []"
  by (simp add: toLowerCase_def)

lemma lower_char_idem [simp]: "lower_char (lower_char c) = lower_char c"
  by (auto simp: lower_char_def Let_def of_char_of)

lemma toLowerCase_idem [simp]: "toLowerCase (toLowerCase s) = toLowerCase s"
  by (simp add: toLowerCase_def comp_def)

lemma map_fixpoint: "map f xs = xs \<longleftrightarrow> (\<forall>x \<in> set xs. f x = x)"
  by (induction xs) auto

lemma toLowerCase_id: "(\<And>c. c \<in> set s \<Longrightarrow> lower_char c = c) \<Longrightarrow> toLowerCase s = s"
  unfolding toLowerCase_def by (rule map_idI)

end
