(* ===== verification/Numerals.thy ===== *)
theory Numerals
  imports Prelude
begin

text \<open>
  Positional notation: \<^verbatim>\<open>n.toString(base)\<close> and \<^verbatim>\<open>BigInt(s)\<close> for the two bases
  the SDK uses, 10 and 16. The printer and the reader are mutually inverse, and the
  length of the printed form is bounded by the power of the base that bounds the number.
\<close>

section \<open>Digits\<close>

definition digit_char :: "nat \<Rightarrow> char" where
  "digit_char n = (if n < 10 then char_of (48 + n) else char_of (87 + n))"

definition is_digit :: "char \<Rightarrow> bool" where
  "is_digit c = (let n = (of_char c :: nat) in 48 \<le> n \<and> n \<le> 57)"

definition is_hex_digit :: "char \<Rightarrow> bool" where
  "is_hex_digit c = (let n = (of_char c :: nat) in
     (48 \<le> n \<and> n \<le> 57) \<or> (65 \<le> n \<and> n \<le> 70) \<or> (97 \<le> n \<and> n \<le> 102))"

definition digit_val :: "char \<Rightarrow> nat" where
  "digit_val c = (let n = (of_char c :: nat) in
     if n \<le> 57 then n - 48 else if n \<le> 70 then n - 55 else n - 87)"

lemma digit_val_char [simp]: "n < 16 \<Longrightarrow> digit_val (digit_char n) = n"
  by (auto simp: digit_val_def digit_char_def Let_def)

lemma digit_char_is_digit: "n < 10 \<Longrightarrow> is_digit (digit_char n)"
  by (auto simp: is_digit_def digit_char_def Let_def)

lemma digit_char_is_hex [simp]: "n < 16 \<Longrightarrow> is_hex_digit (digit_char n)"
  by (auto simp: is_hex_digit_def digit_char_def Let_def)

lemma is_digit_is_hex: "is_digit c \<Longrightarrow> is_hex_digit c"
  by (auto simp: is_hex_digit_def is_digit_def Let_def)

lemma digit_val_less16: "is_hex_digit c \<Longrightarrow> digit_val c < 16"
  by (auto simp: is_hex_digit_def digit_val_def Let_def)

lemma digit_val_less10: "is_digit c \<Longrightarrow> digit_val c < 10"
  by (auto simp: is_digit_def digit_val_def Let_def)

lemma digit_char_val: "is_digit c \<Longrightarrow> digit_char (digit_val c) = c"
  by (auto simp: is_digit_def digit_val_def digit_char_def Let_def)

lemma digit_char_lower [simp]: "n < 16 \<Longrightarrow> lower_char (digit_char n) = digit_char n"
  by (auto simp: lower_char_def digit_char_def Let_def)

lemma digit_char_inj: "m < 16 \<Longrightarrow> n < 16 \<Longrightarrow> digit_char m = digit_char n \<longleftrightarrow> m = n"
  by (metis digit_val_char)

lemma digit_char_not_space [simp]: "n < 16 \<Longrightarrow> \<not> is_space (digit_char n)"
  by (auto simp: is_space_def digit_char_def Let_def)

lemma hex_digit_not_space: "is_hex_digit c \<Longrightarrow> \<not> is_space c"
  by (auto simp: is_space_def is_hex_digit_def Let_def)

lemma lower_hex_digit [simp]: "is_hex_digit (lower_char c) \<longleftrightarrow> is_hex_digit c"
  by (auto simp: is_hex_digit_def lower_char_def Let_def)

lemma digit_char_0 [simp]: "digit_char 0 = CHR ''0''"
  by code_simp

section \<open>Printing and reading\<close>

fun to_base :: "nat \<Rightarrow> nat \<Rightarrow> string" where
  "to_base b n = (if b < 2 \<or> n < b then [digit_char n] else to_base b (n div b) @ [digit_char (n mod b)])"

declare to_base.simps [simp del]

definition of_base :: "nat \<Rightarrow> string \<Rightarrow> nat" where
  "of_base b s = foldl (\<lambda>a c. a * b + digit_val c) 0 s"

abbreviation "to_hex \<equiv> to_base 16"
abbreviation "of_hex \<equiv> of_base 16"
abbreviation "to_dec \<equiv> to_base 10"
abbreviation "of_dec \<equiv> of_base 10"

lemma of_base_Nil [simp]: "of_base b [] = 0"
  by (simp add: of_base_def)

lemma of_base_snoc [simp]: "of_base b (s @ [c]) = of_base b s * b + digit_val c"
  by (simp add: of_base_def)

lemma of_base_append: "of_base b (s @ t) = of_base b s * b ^ length t + of_base b t"
  by (induction t rule: rev_induct) (simp_all add: algebra_simps flip: append_assoc)

lemma of_base_Cons: "of_base b (c # s) = digit_val c * b ^ length s + of_base b s"
  using of_base_append [of b "[c]" s] by (simp add: of_base_def)

lemma of_base_zeros [simp]: "of_base b (replicate k (CHR ''0'')) = 0"
  by (induction k) (simp_all add: of_base_Cons digit_val_def)

lemma of_base_padStart [simp]: "of_base b (padStart k (CHR ''0'') s) = of_base b s"
  by (simp add: padStart_def of_base_append)

lemma of_base_less:
  assumes "0 < b" and "\<forall>c \<in> set s. digit_val c < b"
  shows "of_base b s < b ^ length s"
  using assms(2)
proof (induction s)
  case (Cons c s)
  then have c: "digit_val c + 1 \<le> b" and "of_base b s < b ^ length s" by auto
  then have "of_base b (c # s) < digit_val c * b ^ length s + b ^ length s"
    by (simp add: of_base_Cons)
  also have "\<dots> = (digit_val c + 1) * b ^ length s" by (simp add: algebra_simps)
  also have "\<dots> \<le> b * b ^ length s" using c by (rule mult_le_mono1)
  finally show ?case by simp
qed simp

lemma of_to_base [simp]:
  assumes "2 \<le> b" and "b \<le> 16"
  shows "of_base b (to_base b n) = n"
  using assms
proof (induction b n rule: to_base.induct)
  case (1 b n)
  show ?case
  proof (cases "n < b")
    case True
    with 1(2,3) show ?thesis
      by (simp add: to_base.simps [of b n] of_base_Cons)
  next
    case False
    have m: "n mod b < 16" using 1(2,3) by (metis mod_less_divisor less_le_trans zero_less_numeral)
    from False 1(2,3) have "of_base b (to_base b (n div b)) = n div b"
      by (intro 1(1)) auto
    with False 1(2,3) m show ?thesis
      by (simp add: to_base.simps [of b n])
  qed
qed

lemma to_base_nonempty [simp]: "to_base b n \<noteq> []"
  by (subst to_base.simps) simp

lemma set_to_base: "2 \<le> b \<Longrightarrow> set (to_base b n) \<subseteq> digit_char ` {..<b}"
proof (induction b n rule: to_base.induct)
  case (1 b n)
  then show ?case
    by (cases "n < b") (auto simp: to_base.simps [of b n])
qed

lemma to_hex_digits: "c \<in> set (to_hex n) \<Longrightarrow> is_hex_digit c \<and> lower_char c = c"
  using set_to_base [of 16 n] by auto

lemma to_dec_digits: "c \<in> set (to_dec n) \<Longrightarrow> is_digit c"
  using set_to_base [of 10 n] by (auto intro: digit_char_is_digit)

lemma length_to_base: "2 \<le> b \<Longrightarrow> 0 < k \<Longrightarrow> n < b ^ k \<Longrightarrow> length (to_base b n) \<le> k"
proof (induction b n arbitrary: k rule: to_base.induct)
  case (1 b n)
  show ?case
  proof (cases "n < b")
    case True
    with 1(3) show ?thesis by (simp add: to_base.simps [of b n] Suc_leI)
  next
    case False
    then have "k \<noteq> 1" using 1(4) by auto
    then obtain j where k: "k = Suc j" and j: "0 < j" using 1(3) by (cases k) auto
    have "n div b < b ^ j"
      using 1(2,4) k by (simp add: less_mult_imp_div_less mult.commute)
    with False 1(2) j have "length (to_base b (n div b)) \<le> j"
      by (intro 1(1)) auto
    with False 1(2) k show ?thesis by (simp add: to_base.simps [of b n])
  qed
qed

lemma to_base_inj: "2 \<le> b \<Longrightarrow> b \<le> 16 \<Longrightarrow> to_base b m = to_base b n \<longleftrightarrow> m = n"
  by (metis of_to_base)

text \<open>A printed number other than zero does not start with the digit zero.\<close>

lemma hd_to_base: "2 \<le> b \<Longrightarrow> b \<le> 16 \<Longrightarrow> 0 < n \<Longrightarrow> hd (to_base b n) \<noteq> CHR ''0''"
proof (induction b n rule: to_base.induct)
  case (1 b n)
  show ?case
  proof (cases "n < b")
    case True
    then have "digit_char n \<noteq> digit_char 0" using 1(3,4) by (subst digit_char_inj) auto
    with True show ?thesis by (simp add: to_base.simps [of b n])
  next
    case False
    then have "0 < n div b" using 1(2) by (simp add: div_greater_zero_iff)
    with False 1(1,2,3) show ?thesis by (simp add: to_base.simps [of b n])
  qed
qed

text \<open>
  Printing undoes reading up to leading zeros: a digit string without a leading zero is the
  printed form of its value.
\<close>

lemma to_base_of_base_snoc:
  assumes "2 \<le> b" and "0 < m" and "d < b"
  shows "to_base b (m * b + d) = to_base b m @ [digit_char d]"
proof -
  have "\<not> m * b + d < b" using assms(1,2) by (cases m) auto
  moreover have "(m * b + d) div b = m" "(m * b + d) mod b = d" using assms by auto
  ultimately show ?thesis using assms(1) by (simp add: to_base.simps [of b "m * b + d"])
qed

lemma to_dec_of_dec:
  assumes "s \<noteq> []" and "\<forall>c \<in> set s. is_digit c" and "hd s \<noteq> CHR ''0''"
  shows "to_dec (of_dec s) = s"
  using assms
proof (induction s rule: rev_induct)
  case (snoc c s)
  show ?case
  proof (cases "s = []")
    case True
    with snoc.prems show ?thesis
      by (simp add: of_base_Cons to_base.simps [of 10 "digit_val c"] digit_val_less10 digit_char_val)
  next
    case False
    with snoc have IH: "to_dec (of_dec s) = s" by simp
    have "0 < of_dec s"
    proof (rule ccontr)
      assume "\<not> ?thesis"
      then have "s = ''0''" using IH by (simp add: to_base.simps [of 10 0])
      with snoc.prems(3) show False by simp
    qed
    with IH snoc.prems(2) show ?thesis
      by (simp add: to_base_of_base_snoc digit_val_less10 digit_char_val)
  qed
qed simp

section \<open>BigInt literals\<close>

text \<open>
  \<^verbatim>\<open>BigInt(`0x${s}`)\<close>: trailing white space is ignored, an empty or non-hexadecimal
  body is a \<^verbatim>\<open>SyntaxError\<close>.
\<close>

definition bigint_hex :: "string \<Rightarrow> int result" where
  "bigint_hex s =
     (let t = trimEnd s in
      if t \<noteq> [] \<and> list_all is_hex_digit t then Inr (int (of_hex t)) else Inl (BigIntSyntaxError s))"

text \<open>\<^verbatim>\<open>v.toString(16)\<close> and \<^verbatim>\<open>v.toString()\<close> of a \<^verbatim>\<open>bigint\<close>.\<close>

definition int_to_base :: "nat \<Rightarrow> int \<Rightarrow> string" where
  "int_to_base b v = (if v < 0 then ''-'' @ to_base b (nat (- v)) else to_base b (nat v))"

abbreviation "bigint_to_hex \<equiv> int_to_base 16"
abbreviation "bigint_to_string \<equiv> int_to_base 10"

lemma list_all_hex_trimEnd: "list_all is_hex_digit s \<Longrightarrow> trimEnd s = s"
  by (cases s rule: rev_cases) (auto simp: list_all_iff intro!: trimEnd_id dest: hex_digit_not_space)

lemma bigint_hex_ok:
  "s \<noteq> [] \<Longrightarrow> list_all is_hex_digit s \<Longrightarrow> bigint_hex s = Inr (int (of_hex s))"
  by (simp add: bigint_hex_def list_all_hex_trimEnd)

lemma bigint_hex_Inr_nonneg: "bigint_hex s = Inr v \<Longrightarrow> 0 \<le> v"
  by (auto simp: bigint_hex_def Let_def split: if_splits)

lemma length_trimEnd: "length (trimEnd s) \<le> length s"
  by (simp add: trimEnd_def) (metis length_dropWhile_le length_rev)

lemma bigint_hex_bound: "bigint_hex s = Inr v \<Longrightarrow> v < 16 ^ length s"
proof -
  assume "bigint_hex s = Inr v"
  then have v: "v = int (of_hex (trimEnd s))" and h: "list_all is_hex_digit (trimEnd s)"
    by (auto simp: bigint_hex_def Let_def split: if_splits)
  have "of_hex (trimEnd s) < 16 ^ length (trimEnd s)"
    by (rule of_base_less) (use h in \<open>auto simp: list_all_iff digit_val_less16\<close>)
  also have "\<dots> \<le> (16::nat) ^ length s"
    by (rule power_increasing) (auto simp: length_trimEnd)
  finally have "int (of_hex (trimEnd s)) < int (16 ^ length s)"
    by (simp only: of_nat_less_iff)
  with v show ?thesis by simp
qed

lemma bigint_hex_padStart [simp]:
  "bigint_hex (padStart k (CHR ''0'') (to_hex n)) = Inr (int n)"
proof -
  have "list_all is_hex_digit (padStart k (CHR ''0'') (to_hex n))"
    using to_hex_digits [of _ n] set_padStart [of k "CHR ''0''" "to_hex n"]
    by (auto simp: list_all_iff is_hex_digit_def)
  moreover have "padStart k (CHR ''0'') (to_hex n) \<noteq> []" by (simp add: padStart_def)
  ultimately show ?thesis by (simp add: bigint_hex_ok)
qed

end
