(* ===== verification/Hex.thy ===== *)
theory Hex
  imports Numerals "HOL-Library.Word"
begin

text \<open>
  \<^verbatim>\<open>packages/sdk/src/utils/hex.ts\<close>: the slice of ABI decoding the SDK needs. The
  interface \<open>codec\<close> collects what a client of an encoder/decoder pair relies on; it is
  interpreted on the byte, word and address encodings below.
\<close>

section \<open>Hexadecimal strings and bytes\<close>

type_synonym Address = string
type_synonym Hex = string
type_synonym byte = "8 word"

definition isHex :: "string \<Rightarrow> bool" where
  "isHex s = (take 2 s = ''0x'' \<and> list_all is_hex_digit (drop 2 s))"

definition assertHex :: "string \<Rightarrow> Hex result" where
  "assertHex s = (if isHex s then Inr s else Inl (NotHex s))"

text \<open>
  \<^verbatim>\<open>parseInt(s, 16)\<close>: leading white space, an optional sign, an optional
  \<^verbatim>\<open>0x\<close>, then the longest run of digits; \<open>None\<close> is \<^verbatim>\<open>NaN\<close>, which a
  \<^verbatim>\<open>Uint8Array\<close> stores as 0.
\<close>

definition parseInt16 :: "string \<Rightarrow> int option" where
  "parseInt16 s =
     (let t = dropWhile is_space s;
          neg = (take 1 t = ''-'');
          u = (if neg \<or> take 1 t = ''+'' then drop 1 t else t);
          v = (if toLowerCase (take 2 u) = ''0x'' then drop 2 u else u);
          d = takeWhile is_hex_digit v
      in if d = [] then None else Some (if neg then - int (of_hex d) else int (of_hex d)))"

definition parse_byte :: "string \<Rightarrow> byte" where
  "parse_byte s = (case parseInt16 s of None \<Rightarrow> 0 | Some v \<Rightarrow> word_of_int v)"

fun pairs_to_bytes :: "string \<Rightarrow> byte list" where
  "pairs_to_bytes (a # b # s) = parse_byte [a, b] # pairs_to_bytes s"
| "pairs_to_bytes _ = []"

definition hexToBytes :: "Hex \<Rightarrow> byte list result" where
  "hexToBytes hex =
     (let body = drop 2 hex in
      if length body mod 2 \<noteq> 0 then Inl OddHexLength else Inr (pairs_to_bytes body))"

definition byte_hex :: "byte \<Rightarrow> string" where
  "byte_hex b = padStart 2 (CHR ''0'') (to_hex (unat b))"

definition bytesToHex :: "byte list \<Rightarrow> Hex" where
  "bytesToHex bytes = ''0x'' @ concat (map byte_hex bytes)"

section \<open>Calldata\<close>

definition selectorOf :: "Hex \<Rightarrow> Hex" where
  "selectorOf data = (if 10 \<le> length data then js_slice data 0 10 else ''0x'')"

definition wordCount :: "Hex \<Rightarrow> int" where
  "wordCount data = (int (length data) - 10) div 64"

definition readWord :: "Hex \<Rightarrow> nat \<Rightarrow> int result" where
  "readWord data index =
     (let start = 10 + index * 64;
          word = js_slice data start (start + 64)
      in if length word \<noteq> 64 then Inl (CalldataTooShort index) else bigint_hex word)"

definition is_address :: "string \<Rightarrow> bool" where
  "is_address v = (length v = 42 \<and> isHex v)"

definition normalizeAddress :: "string \<Rightarrow> Address result" where
  "normalizeAddress v = (if is_address v then Inr (toLowerCase v) else Inl (NotAnAddress v))"

definition readAddress :: "Hex \<Rightarrow> nat \<Rightarrow> Address result" where
  "readAddress data index =
     bindR (readWord data index)
       (\<lambda>v. normalizeAddress (''0x'' @ padStart 40 (CHR ''0'') (bigint_to_hex v)))"

text \<open>A JavaScript \<^verbatim>\<open>Set\<close> built from a list: insertion order, first occurrence kept.\<close>

fun js_set :: "'a list \<Rightarrow> 'a list" where
  "js_set [] = []"
| "js_set (x # xs) = x # filter (\<lambda>y. y \<noteq> x) (js_set xs)"

definition addressSet :: "string list \<Rightarrow> Address list result" where
  "addressSet values = bindR (mapR normalizeAddress values) (\<lambda>l. Inr (js_set l))"

definition UINT256_MAX :: int where
  "UINT256_MAX = 2 ^ 256 - 1"

definition isUnlimitedApproval :: "int \<Rightarrow> bool" where
  "isUnlimitedApproval amount = (amount \<ge> 2 ^ 128 - 1)"

section \<open>The codec interface\<close>

locale codec =
  fixes valid :: "'a \<Rightarrow> bool"
    and enc :: "'a \<Rightarrow> string"
    and dec :: "string \<Rightarrow> 'a result"
  assumes dec_enc: "valid x \<Longrightarrow> dec (enc x) = Inr x"
begin

lemma enc_inj: "valid x \<Longrightarrow> valid y \<Longrightarrow> enc x = enc y \<Longrightarrow> x = y"
  by (metis dec_enc sum.inject(2))

end

section \<open>Lemmas\<close>

lemma set_js_set [simp]: "set (js_set xs) = set xs"
  by (induction xs) auto

lemma distinct_js_set [simp]: "distinct (js_set xs)"
  by (induction xs) auto

lemma js_set_distinct_id: "distinct xs \<Longrightarrow> js_set xs = xs"
proof (induction xs)
  case (Cons x xs)
  then have "filter (\<lambda>y. y \<noteq> x) xs = xs" by (intro filter_True) auto
  with Cons show ?case by simp
qed simp

lemma isHex_append: "isHex s \<Longrightarrow> list_all is_hex_digit t \<Longrightarrow> isHex (s @ t)"
  by (cases s rule: list.exhaust; cases "tl s") (auto simp: isHex_def)

lemma is_addressE:
  assumes "is_address v"
  obtains s where "v = ''0x'' @ s" "length s = 40" "list_all is_hex_digit s"
proof
  show "v = ''0x'' @ drop 2 v"
    using assms append_take_drop_id [of 2 v] by (simp add: is_address_def isHex_def)
qed (use assms in \<open>auto simp: is_address_def isHex_def\<close>)

lemma is_addressI: "length s = 40 \<Longrightarrow> list_all is_hex_digit s \<Longrightarrow> is_address (''0x'' @ s)"
  by (simp add: is_address_def isHex_def)

lemma lower_x [simp]: "lower_char (CHR ''x'') = CHR ''x''" "lower_char (CHR ''0'') = CHR ''0''"
  by (simp_all add: lower_char_def)

lemma list_all_hex_lower [simp]: "list_all is_hex_digit (toLowerCase s) = list_all is_hex_digit s"
  by (simp add: toLowerCase_def list_all_iff)

lemma is_address_lower: "is_address v \<Longrightarrow> is_address (toLowerCase v)"
  by (elim is_addressE) (simp add: is_address_def isHex_def)

lemma normalizeAddress_idem:
  "normalizeAddress v = Inr a \<Longrightarrow> normalizeAddress a = Inr a"
  by (auto simp: normalizeAddress_def is_address_lower split: if_splits)

text \<open>Well-formed addresses: what \<^const>\<open>normalizeAddress\<close> returns.\<close>

definition wf_address :: "Address \<Rightarrow> bool" where
  "wf_address a = (is_address a \<and> toLowerCase a = a)"

lemma normalizeAddress_wf: "normalizeAddress v = Inr a \<Longrightarrow> wf_address a"
  by (auto simp: normalizeAddress_def wf_address_def is_address_lower split: if_splits)

lemma normalizeAddress_id [simp]: "wf_address a \<Longrightarrow> normalizeAddress a = Inr a"
  by (simp add: normalizeAddress_def wf_address_def)

lemma readAddress_wf: "readAddress data i = Inr a \<Longrightarrow> wf_address a"
  by (auto simp: readAddress_def bindR_eq_Inr dest: normalizeAddress_wf)

lemma readWord_nonneg: "readWord data i = Inr v \<Longrightarrow> 0 \<le> v"
  by (auto simp: readWord_def Let_def dest: bigint_hex_Inr_nonneg split: if_splits)

lemma readWord_bound: "readWord data i = Inr v \<Longrightarrow> v \<le> UINT256_MAX"
proof -
  assume a: "readWord data i = Inr v"
  let ?w = "js_slice data (10 + i * 64) (10 + i * 64 + 64)"
  from a have "length ?w = 64" and "bigint_hex ?w = Inr v"
    by (auto simp: readWord_def Let_def split: if_splits)
  with bigint_hex_bound [of ?w v] show ?thesis by (simp add: UINT256_MAX_def)
qed

subsection \<open>Bytes\<close>

lemma byte_hex_eq: "byte_hex b = [digit_char (unat b div 16), digit_char (unat b mod 16)]"
proof -
  have b: "unat b < 256" using unsigned_less [of b] by simp
  then have "unat b div 16 < 16" by (simp add: less_mult_imp_div_less)
  then show ?thesis
    by (cases "unat b < 16")
      (simp_all add: byte_hex_def padStart_def to_base.simps [of 16 "unat b"]
        to_base.simps [of 16 "unat b div 16"])
qed

lemma digit_char_not_sign: "n < 16 \<Longrightarrow> digit_char n \<noteq> CHR ''-'' \<and> digit_char n \<noteq> CHR ''+'' \<and> digit_char n \<noteq> CHR ''x''"
proof -
  assume "n < 16"
  then have "is_hex_digit (digit_char n)" by simp
  then show ?thesis by (auto simp: is_hex_digit_def)
qed

lemma parseInt16_digits:
  "m < 16 \<Longrightarrow> n < 16 \<Longrightarrow> parseInt16 [digit_char m, digit_char n] = Some (int (m * 16 + n))"
  using digit_char_not_sign [of m] digit_char_not_sign [of n]
  by (simp add: parseInt16_def Let_def of_base_Cons)

lemma parse_byte_digits:
  "m < 16 \<Longrightarrow> n < 16 \<Longrightarrow> parse_byte [digit_char m, digit_char n] = word_of_nat (m * 16 + n)"
  by (simp add: parse_byte_def parseInt16_digits)

lemma parse_byte_hex [simp]: "parse_byte (byte_hex b) = b"
proof -
  have b: "unat b < 256" using unsigned_less [of b] by simp
  then have "unat b div 16 < 16" by (simp add: less_mult_imp_div_less)
  then have "parse_byte (byte_hex b) = word_of_nat (unat b div 16 * 16 + unat b mod 16)"
    unfolding byte_hex_eq by (rule parse_byte_digits) simp
  then show ?thesis by simp
qed

lemma length_byte_hex [simp, strops]: "length (byte_hex b) = 2"
  by (simp add: byte_hex_eq)

lemma pairs_to_bytes_hex: "pairs_to_bytes (concat (map byte_hex bs)) = bs"
proof (induction bs)
  case (Cons b bs)
  obtain x y where xy: "byte_hex b = [x, y]" by (simp add: byte_hex_eq)
  with parse_byte_hex [of b] Cons show ?case by simp
qed simp

lemma length_concat_byte_hex [strops]: "length (concat (map byte_hex bs)) = 2 * length bs"
  by (induction bs) auto

lemma hex_digit_byte_hex: "list_all is_hex_digit (byte_hex b)"
proof -
  have "unat b < 256" using unsigned_less [of b] by simp
  then show ?thesis by (simp add: byte_hex_eq less_mult_imp_div_less)
qed

lemma hex_digit_concat_byte_hex: "list_all is_hex_digit (concat (map byte_hex bs))"
  by (induction bs) (auto simp: hex_digit_byte_hex)

lemma bytesToHex_isHex: "isHex (bytesToHex bs)"
  by (simp add: isHex_def bytesToHex_def hex_digit_concat_byte_hex)

interpretation hex_bytes: codec "\<lambda>_. True" bytesToHex hexToBytes
  by unfold_locales (simp add: hexToBytes_def bytesToHex_def length_concat_byte_hex pairs_to_bytes_hex)

subsection \<open>Words\<close>

text \<open>
  \<^verbatim>\<open>BigInt(v).toString(16).padStart(64, '0')\<close>, the word encoder of
  \<^verbatim>\<open>testing/calldata.ts\<close>, \<^verbatim>\<open>adapters/executors.ts\<close> and \<^verbatim>\<open>decode/x402.ts\<close>.
\<close>

definition abi_word :: "int \<Rightarrow> string" where
  "abi_word v = padStart 64 (CHR ''0'') (bigint_to_hex v)"

definition uint256 :: "int \<Rightarrow> bool" where
  "uint256 v = (0 \<le> v \<and> v \<le> UINT256_MAX)"

lemma abi_word_nat: "0 \<le> v \<Longrightarrow> abi_word v = padStart 64 (CHR ''0'') (to_hex (nat v))"
  by (simp add: abi_word_def int_to_base_def)

lemma length_abi_word [simp, strops]:
  assumes "uint256 v"
  shows "length (abi_word v) = 64"
proof -
  have v: "0 \<le> v" "v < 16 ^ 64" using assms by (simp_all add: uint256_def UINT256_MAX_def)
  then have "nat v < 16 ^ 64" by (simp add: nat_less_iff)
  then have "length (to_hex (nat v)) \<le> 64"
    by (intro length_to_base) auto
  with v show ?thesis by (simp add: abi_word_nat length_padStart)
qed

lemma bigint_hex_abi_word [simp]: "0 \<le> v \<Longrightarrow> bigint_hex (abi_word v) = Inr v"
  by (simp add: abi_word_nat)

lemma abi_word_hex: "0 \<le> v \<Longrightarrow> list_all is_hex_digit (abi_word v)"
  using to_hex_digits [of _ "nat v"] set_padStart [of 64 "CHR ''0''" "to_hex (nat v)"]
  by (auto simp: abi_word_nat list_all_iff is_hex_digit_def)

interpretation abi_words: codec uint256 abi_word bigint_hex
  by unfold_locales (simp add: uint256_def)

lemma length_concat_abi_word [strops]:
  "list_all uint256 ws \<Longrightarrow> length (concat (map abi_word ws)) = 64 * length ws"
  by (induction ws) auto

lemma concat_abi_word_split:
  "i < length ws \<Longrightarrow> concat (map abi_word ws) =
     concat (map abi_word (take i ws)) @ abi_word (ws ! i) @ concat (map abi_word (drop (Suc i) ws))"
  by (subst id_take_nth_drop [of i ws]) auto

lemma slice_words:
  assumes "list_all uint256 ws" and "i < length ws"
  shows "js_slice (concat (map abi_word ws) @ rest) (i * 64) (i * 64 + 64) = abi_word (ws ! i)"
proof -
  have "list_all uint256 (take i ws)" using assms(1) by (simp add: list_all_iff) (meson in_set_takeD)
  then have "length (concat (map abi_word (take i ws))) = i * 64"
    using assms(2) by (simp add: length_concat_abi_word)
  moreover have "length (abi_word (ws ! i)) = 64" using assms by (simp add: list_all_length)
  ultimately show ?thesis
    using concat_abi_word_split [OF assms(2)] by (simp add: js_slice_mid)
qed

text \<open>Reading word \<open>i\<close> of an encoded argument list returns argument \<open>i\<close>.\<close>

lemma readWord_words:
  assumes "length sel = 10" and "list_all uint256 ws" and "i < length ws"
  shows "readWord (sel @ concat (map abi_word ws) @ rest) i = Inr (ws ! i)"
proof -
  have "js_slice (sel @ concat (map abi_word ws) @ rest) (10 + i * 64) (10 + i * 64 + 64) = abi_word (ws ! i)"
    using slice_words [OF assms(2,3), of rest] assms(1) by (simp add: js_slice_append_right add.commute)
  moreover have "uint256 (ws ! i)" using assms(2,3) by (simp add: list_all_length)
  ultimately show ?thesis by (simp add: readWord_def Let_def uint256_def)
qed

subsection \<open>Addresses as words\<close>

text \<open>\<^verbatim>\<open>BigInt(address)\<close> for a 0x-prefixed address.\<close>

definition address_value :: "Address \<Rightarrow> int" where
  "address_value a = int (of_hex (drop 2 a))"

lemma digit_char_val_lower:
  assumes "is_hex_digit c" and "lower_char c = c"
  shows "digit_char (digit_val c) = c"
proof -
  have "\<not> (65 \<le> (of_char c :: nat) \<and> (of_char c :: nat) \<le> 90)"
  proof
    assume n: "65 \<le> (of_char c :: nat) \<and> (of_char c :: nat) \<le> 90"
    then have "(of_char (lower_char c) :: nat) = of_char c + 32"
      by (simp add: lower_char_def)
    with assms(2) show False by simp
  qed
  with assms(1) consider "48 \<le> (of_char c :: nat) \<and> (of_char c :: nat) \<le> 57"
    | "97 \<le> (of_char c :: nat) \<and> (of_char c :: nat) \<le> 102"
    by (auto simp: is_hex_digit_def Let_def)
  then show ?thesis
    by cases (auto simp: digit_val_def digit_char_def)
qed

lemma padStart_to_hex_of_hex:
  assumes "\<forall>c \<in> set s. is_hex_digit c \<and> lower_char c = c" and "s \<noteq> []"
  shows "padStart (length s) (CHR ''0'') (to_hex (of_hex s)) = s"
  using assms
proof (induction s rule: rev_induct)
  case (snoc c s)
  then have c: "digit_char (digit_val c) = c" "digit_val c < 16"
    by (simp_all add: digit_char_val_lower digit_val_less16)
  show ?case
  proof (cases "of_hex s = 0")
    case True
    have "s = replicate (length s) (CHR ''0'')"
    proof (cases "s = []")
      case False
      with snoc have "s = padStart (length s) (CHR ''0'') (to_hex 0)" using True by simp
      then show ?thesis
        using False by (simp add: padStart_def to_base.simps [of 16 0])
          (metis Suc_pred length_greater_0_conv replicate_Suc replicate_append_same)
    qed simp
    with True c show ?thesis
      by (simp add: to_base.simps [of 16 "digit_val c"] padStart_def)
  next
    case False
    then have "s \<noteq> []" by auto
    with snoc have IH: "padStart (length s) (CHR ''0'') (to_hex (of_hex s)) = s" by simp
    from False c have "to_hex (of_hex s * 16 + digit_val c) = to_hex (of_hex s) @ [c]"
      by (simp add: to_base_of_base_snoc)
    with IH show ?thesis by (simp add: padStart_def)
  qed
qed simp

lemma wf_addressE:
  assumes "wf_address a"
  obtains s where "a = ''0x'' @ s" "length s = 40" "\<forall>c \<in> set s. is_hex_digit c \<and> lower_char c = c"
proof -
  from assms obtain s where s: "a = ''0x'' @ s" "length s = 40" "list_all is_hex_digit s"
    by (auto simp: wf_address_def elim: is_addressE)
  moreover have "toLowerCase s = s" using assms s(1) by (simp add: wf_address_def)
  then have "\<forall>c \<in> set s. lower_char c = c"
    by (simp add: toLowerCase_def map_fixpoint)
  ultimately show ?thesis using that by (auto simp: list_all_iff)
qed

definition address_string :: "int \<Rightarrow> Address" where
  "address_string v = ''0x'' @ padStart 40 (CHR ''0'') (bigint_to_hex v)"

lemma address_string_value: "wf_address a \<Longrightarrow> address_string (address_value a) = a"
proof (elim wf_addressE)
  fix s assume s: "a = ''0x'' @ s" "length s = 40" "\<forall>c \<in> set s. is_hex_digit c \<and> lower_char c = c"
  then have "s \<noteq> []" by auto
  with s padStart_to_hex_of_hex [of s] show ?thesis
    by (simp add: address_string_def address_value_def int_to_base_def)
qed

lemma readAddress_eq:
  "readAddress data i = bindR (readWord data i) (\<lambda>v. normalizeAddress (address_string v))"
  by (simp add: readAddress_def address_string_def)

lemma uint256_address_value [simp]: "is_address a \<Longrightarrow> uint256 (address_value a)"
proof (elim is_addressE)
  fix s assume s: "a = ''0x'' @ s" "length s = 40" "list_all is_hex_digit s"
  have "of_hex s < 16 ^ length s"
    by (rule of_base_less) (use s in \<open>auto simp: list_all_iff digit_val_less16\<close>)
  then have "int (of_hex s) < int (16 ^ 40)" using s(2) by (simp only: of_nat_less_iff)
  then show ?thesis
    using s(1) by (simp add: uint256_def UINT256_MAX_def address_value_def)
qed

lemma wf_address_is_address [simp]: "wf_address a \<Longrightarrow> is_address a"
  by (simp add: wf_address_def)

lemma readAddress_word:
  "readWord data i = Inr (address_value a) \<Longrightarrow> wf_address a \<Longrightarrow> readAddress data i = Inr a"
  by (simp add: readAddress_eq address_string_value)

interpretation addresses: codec wf_address "\<lambda>a. abi_word (address_value a)"
  "\<lambda>s. bindR (bigint_hex s) (\<lambda>v. normalizeAddress (address_string v))"
proof
  fix a assume a: "wf_address a"
  then have "0 \<le> address_value a" by (simp add: address_value_def)
  with a show "bindR (bigint_hex (abi_word (address_value a))) (\<lambda>v. normalizeAddress (address_string v)) = Inr a"
    by (simp add: address_string_value)
qed

section \<open>Sample addresses\<close>

text \<open>Concrete addresses for the witnesses.\<close>

definition sample_address :: "char \<Rightarrow> Address" where
  "sample_address c = ''0x'' @ replicate 40 c"

abbreviation sample_token :: Address where "sample_token \<equiv> sample_address (CHR ''a'')"
abbreviation sample_account :: Address where "sample_account \<equiv> sample_address (CHR ''b'')"
abbreviation sample_payee :: Address where "sample_payee \<equiv> sample_address (CHR ''c'')"
abbreviation sample_router :: Address where "sample_router \<equiv> sample_address (CHR ''d'')"

abbreviation sample_hook :: Address where "sample_hook \<equiv> sample_address (CHR ''e'')"

lemma sample_wf [simp]:
  "wf_address sample_token" "wf_address sample_account" "wf_address sample_payee" "wf_address sample_router" "wf_address sample_hook"
  by code_simp+

end
