(* ===== verification/Units.thy ===== *)
theory Units
  imports Numerals
begin

text \<open>
  \<^verbatim>\<open>packages/sdk/src/utils/units.ts\<close> (policy amounts in USDC base units, UTC days) and
  its reimplementation for the settings form, \<^verbatim>\<open>apps/console/lib/usdc.ts\<close>. Printing
  and parsing amounts are inverse, and the two parsers agree.
\<close>

section \<open>units.ts\<close>

definition UNBOUNDED :: int where
  "UNBOUNDED = 2 ^ 255"

definition isUnbounded :: "int \<Rightarrow> bool" where
  "isUnbounded amount = (amount \<ge> UNBOUNDED)"

definition USDC_DECIMALS :: nat where
  "USDC_DECIMALS = 6"

definition USDC_SCALE :: int where
  "USDC_SCALE = 10 ^ USDC_DECIMALS"

text \<open>The regular expressions \<^verbatim>\<open>/^\d+(\.\d+)?$/\<close> and \<^verbatim>\<open>/^-?\d+(\.\d+)?$/\<close>.\<close>

definition is_unsigned_decimal :: "string \<Rightarrow> bool" where
  "is_unsigned_decimal s =
     (let rest = dropWhile is_digit s in
      takeWhile is_digit s \<noteq> [] \<and>
      (rest = [] \<or> (hd rest = CHR ''.'' \<and> tl rest \<noteq> [] \<and> list_all is_digit (tl rest))))"

definition startsMinus :: "string \<Rightarrow> bool" where
  "startsMinus s = (take 1 s = ''-'')"

definition is_decimal :: "string \<Rightarrow> bool" where
  "is_decimal s = is_unsigned_decimal (if startsMinus s then drop 1 s else s)"

text \<open>\<^verbatim>\<open>const [whole, fraction = ''] = s.split('.')\<close>\<close>

definition whole_fraction :: "string \<Rightarrow> string \<times> string" where
  "whole_fraction s = (case splitOn (CHR ''.'') s of [] \<Rightarrow> ([], []) | [w] \<Rightarrow> (w, []) | w # f # _ \<Rightarrow> (w, f))"

definition parsePolicyAmount :: "string \<Rightarrow> nat \<Rightarrow> int result" where
  "parsePolicyAmount value decimals =
     (let trimmed = trim value in
      if \<not> is_decimal trimmed then Inl (InvalidPolicyAmount value)
      else
        let negative = startsMinus trimmed;
            (whole, fraction) = whole_fraction (if negative then drop 1 trimmed else trimmed)
        in if length fraction > decimals then Inl (TooMuchPrecision value decimals)
           else let scaled = int (of_dec (whole @ padEnd decimals (CHR ''0'') fraction))
                in Inr (if negative then - scaled else scaled))"

definition usdc :: "string \<Rightarrow> int result" where
  "usdc whole = parsePolicyAmount whole USDC_DECIMALS"

definition parseBaseUnitPolicyAmount :: "string \<Rightarrow> int result" where
  "parseBaseUnitPolicyAmount value =
     (let trimmed = trim value in
      if trimmed = [] \<or> \<not> list_all is_digit trimmed then Inl (InvalidBaseUnitAmount value)
      else if hd trimmed \<noteq> CHR ''0'' \<and> length trimmed \<le> 6 then Inl (LooksLikeDisplayUnits value)
      else Inr (int (of_dec trimmed)))"

text \<open>\<^verbatim>\<open>s.replace(/0+$/, '')\<close>\<close>

definition stripZeros :: "string \<Rightarrow> string" where
  "stripZeros s = rev (dropWhile (\<lambda>c. c = CHR ''0'') (rev s))"

definition formatUsdc :: "int \<Rightarrow> nat \<Rightarrow> string" where
  "formatUsdc amount decimals =
     (let scale = (10::int) ^ decimals;
          negative = (amount < 0);
          absolute = (if negative then - amount else amount);
          whole = absolute div scale;
          fraction = stripZeros (padStart decimals (CHR ''0'') (bigint_to_string (absolute mod scale)));
          body = (if fraction \<noteq> [] then bigint_to_string whole @ ''.'' @ fraction else bigint_to_string whole)
      in if negative then ''-'' @ body else body)"

text \<open>BigInt division truncates towards zero; the remainder takes the dividend's sign.\<close>

definition tdiv :: "int \<Rightarrow> int \<Rightarrow> int" where
  "tdiv a b = sgn a * sgn b * (\<bar>a\<bar> div \<bar>b\<bar>)"

definition trem :: "int \<Rightarrow> int \<Rightarrow> int" where
  "trem a b = a - tdiv a b * b"

text \<open>\<^verbatim>\<open>toLocaleString('en-US')\<close> of a bigint: commas every three digits.\<close>

fun group3 :: "string \<Rightarrow> string" where
  "group3 s = (if length s \<le> 3 then s else group3 (take (length s - 3) s) @ '','' @ drop (length s - 3) s)"

declare group3.simps [simp del]

definition toLocaleString :: "int \<Rightarrow> string" where
  "toLocaleString v = (if v < 0 then ''-'' @ group3 (to_dec (nat (- v))) else group3 (to_dec (nat v)))"

definition displayUsdc :: "int \<Rightarrow> string" where
  "displayUsdc amount =
     (if isUnbounded amount then ''an UNBOUNDED amount''
      else let whole = tdiv amount USDC_SCALE;
               cents = padStart 2 (CHR ''0'') (bigint_to_string (tdiv (trem amount USDC_SCALE) 10000))
           in toLocaleString whole @ ''.'' @ cents @ '' USDC'')"

definition utcDay :: "int \<Rightarrow> int" where
  "utcDay timestampMs = timestampMs div (1000 * 86400)"

section \<open>apps/console/lib/usdc.ts\<close>

definition toBaseUnits :: "string \<Rightarrow> string result" where
  "toBaseUnits display =
     (let trimmed = trim display in
      if \<not> is_unsigned_decimal trimmed then Inl (InvalidPolicyAmount display)
      else
        let (whole, fraction) = whole_fraction trimmed
        in if length fraction > 6 then Inl (TooMuchPrecision display 6)
           else let padded = padEnd 6 (CHR ''0'') fraction
                in Inr (bigint_to_string
                     (int (of_dec whole) * 10 ^ 6 + int (of_dec (if padded = [] then ''0'' else padded)))))"

definition toDisplay :: "string \<Rightarrow> string" where
  "toDisplay baseUnits =
     (if baseUnits = [] \<or> \<not> list_all is_digit baseUnits then baseUnits
      else let value = int (of_dec baseUnits);
               whole = value div 10 ^ 6;
               fraction = stripZeros (padStart 6 (CHR ''0'') (bigint_to_string (value mod 10 ^ 6)))
           in if length fraction > 0 then bigint_to_string whole @ ''.'' @ fraction
              else bigint_to_string whole)"

text \<open>\<^verbatim>\<open>text.split(/[\n,]/).map(trim).filter(nonempty)\<close>\<close>

definition parseAddressList :: "string \<Rightarrow> string list" where
  "parseAddressList text =
     filter (\<lambda>l. l \<noteq> [])
       (map trim (concat (map (splitOn (CHR '','')) (splitOn (char_of (10::nat)) text))))"

section \<open>Lemmas\<close>

lemma is_digit_not_dot: "is_digit c \<Longrightarrow> c \<noteq> CHR ''.'' \<and> c \<noteq> CHR ''-'' \<and> \<not> is_space c"
  by (auto simp: is_digit_def is_space_def Let_def)

lemma dot_not_space: "\<not> is_space (CHR ''.'')" "\<not> is_space (CHR ''-'')" "\<not> is_digit (CHR ''.'')"
    "\<not> is_digit (CHR ''-'')"
  by (simp_all add: is_space_def is_digit_def)

lemma stripZeros_split: "\<exists>k. s = stripZeros s @ replicate k (CHR ''0'')"
proof -
  have "rev s = takeWhile (\<lambda>c. c = CHR ''0'') (rev s) @ dropWhile (\<lambda>c. c = CHR ''0'') (rev s)"
    by simp
  then have "s = stripZeros s @ rev (takeWhile (\<lambda>c. c = CHR ''0'') (rev s))"
    unfolding stripZeros_def by (metis rev_append rev_rev_ident)
  moreover have "rev (takeWhile (\<lambda>c. c = CHR ''0'') (rev s)) =
      replicate (length (takeWhile (\<lambda>c. c = CHR ''0'') (rev s))) (CHR ''0'')"
    by (rule replicate_eqI) (auto dest: set_takeWhileD)
  ultimately show ?thesis by (rule_tac x = "length (takeWhile (\<lambda>c. c = CHR ''0'') (rev s))" in exI) simp
qed

lemma padEnd_stripZeros: "padEnd (length s) (CHR ''0'') (stripZeros s) = s"
proof -
  obtain k where k: "s = stripZeros s @ replicate k (CHR ''0'')" using stripZeros_split by blast
  then have "length s = length (stripZeros s) + k" by (metis length_append length_replicate)
  then show ?thesis using k by (simp add: padEnd_def)
qed

lemma set_stripZeros: "set (stripZeros s) \<subseteq> set s"
  by (metis append_Nil2 set_append stripZeros_split Un_upper1)

lemma length_stripZeros: "length (stripZeros s) \<le> length s"
  by (metis le_add1 length_append stripZeros_split)

lemma is_unsigned_decimal_digits:
  "s \<noteq> [] \<Longrightarrow> list_all is_digit s \<Longrightarrow> is_unsigned_decimal s"
  by (simp add: is_unsigned_decimal_def list_all_iff takeWhile_eq_all_conv [THEN iffD2]
      dropWhile_eq_Nil_conv [THEN iffD2])

lemma is_unsigned_decimal_point:
  assumes "s \<noteq> []" "list_all is_digit s" "t \<noteq> []" "list_all is_digit t"
  shows "is_unsigned_decimal (s @ ''.'' @ t)"
  using assms
  by (simp add: is_unsigned_decimal_def list_all_iff takeWhile_append2 dropWhile_append2 dot_not_space)

lemma whole_fraction_digits: "list_all is_digit s \<Longrightarrow> whole_fraction s = (s, [])"
proof -
  assume "list_all is_digit s"
  then have "CHR ''.'' \<notin> set s" by (auto simp: list_all_iff dest: is_digit_not_dot)
  then show ?thesis by (simp add: whole_fraction_def splitOn_free)
qed

lemma whole_fraction_point:
  assumes "list_all is_digit s" "list_all is_digit t"
  shows "whole_fraction (s @ ''.'' @ t) = (s, t)"
proof -
  have "CHR ''.'' \<notin> set s" "CHR ''.'' \<notin> set t"
    using assms by (auto simp: list_all_iff dest: is_digit_not_dot)
  then show ?thesis by (simp add: whole_fraction_def splitOn_once splitOn_free)
qed

text \<open>
  The printed form of a non-negative amount: digits, or digits, a point and at most
  \<open>decimals\<close> further digits, whose concatenation (padded) reads back as the amount.
\<close>

lemma fraction_digits:
  fixes r :: nat
  assumes "r < 10 ^ d"
  defines "f \<equiv> stripZeros (padStart d (CHR ''0'') (to_dec r))"
  shows "length f \<le> d" and "list_all is_digit f" and "of_dec (padEnd d (CHR ''0'') f) = r"
    and "length (padEnd d (CHR ''0'') f) = d"
proof -
  let ?s = "padStart d (CHR ''0'') (to_dec r)"
  have "set ?s \<subseteq> insert (CHR ''0'') (set (to_dec r))" by (rule set_padStart)
  then have "list_all is_digit ?s" by (auto simp: list_all_iff is_digit_def dest!: subsetD to_dec_digits)
  then show dig: "list_all is_digit f"
    unfolding f_def using set_stripZeros [of ?s] by (auto simp: list_all_iff)
  show "length f \<le> d" "of_dec (padEnd d (CHR ''0'') f) = r" "length (padEnd d (CHR ''0'') f) = d"
  proof -
    have *: "length f \<le> d \<and> of_dec (padEnd d (CHR ''0'') f) = r"
    proof (cases "d = 0")
      case True
      with assms(1) show ?thesis
        by (simp add: f_def to_base.simps [of 10 0] stripZeros_def)
    next
      case False
      with assms(1) have "length (to_dec r) \<le> d" by (intro length_to_base) auto
      then have s: "length ?s = d" by (simp add: length_padStart)
      then have "padEnd d (CHR ''0'') f = ?s"
        unfolding f_def by (metis padEnd_stripZeros)
      with s length_stripZeros [of ?s] show ?thesis by (simp add: f_def)
    qed
    then show "length f \<le> d" "of_dec (padEnd d (CHR ''0'') f) = r" by auto
    from * show "length (padEnd d (CHR ''0'') f) = d" by (simp add: length_padEnd)
  qed
qed

lemma to_dec_all: "list_all is_digit (to_dec n)"
  by (auto simp: list_all_iff dest: to_dec_digits)

lemma decimal_trim: "list_all is_digit s \<Longrightarrow> list_all is_digit t \<Longrightarrow>
    trim s = s \<and> trim (s @ ''.'' @ t) = s @ ''.'' @ t \<and> trim (''-'' @ s) = ''-'' @ s \<and>
    trim (''-'' @ s @ ''.'' @ t) = ''-'' @ s @ ''.'' @ t"
proof -
  assume "list_all is_digit s" "list_all is_digit t"
  then have "\<forall>c \<in> set s. \<not> is_space c" "\<forall>c \<in> set t. \<not> is_space c"
    by (meson is_digit_not_dot list_all_iff)+
  then show ?thesis by (intro conjI trim_id) (auto simp: dot_not_space)
qed

lemma not_startsMinus: "s \<noteq> [] \<Longrightarrow> list_all is_digit s \<Longrightarrow> \<not> startsMinus (s @ t)"
  by (cases s) (auto simp: startsMinus_def dest: is_digit_not_dot)

text \<open>The body of \<^const>\<open>formatUsdc\<close> and how \<^const>\<open>parsePolicyAmount\<close> reads it.\<close>

definition amount_body :: "nat \<Rightarrow> nat \<Rightarrow> string" where
  "amount_body n d =
     (let f = stripZeros (padStart d (CHR ''0'') (to_dec (n mod 10 ^ d)))
      in if f \<noteq> [] then to_dec (n div 10 ^ d) @ ''.'' @ f else to_dec (n div 10 ^ d))"

lemma amount_body_shape:
  obtains w f where "amount_body n d = w \<and> f = [] \<or> amount_body n d = w @ ''.'' @ f \<and> f \<noteq> []"
    and "w \<noteq> []" "list_all is_digit w" "list_all is_digit f" "length f \<le> d"
    and "of_dec (w @ padEnd d (CHR ''0'') f) = n"
proof -
  define f where "f = stripZeros (padStart d (CHR ''0'') (to_dec (n mod 10 ^ d)))"
  have m: "n mod 10 ^ d < 10 ^ d" by simp
  note fr = fraction_digits [OF m, folded f_def]
  have "of_dec (to_dec (n div 10 ^ d) @ padEnd d (CHR ''0'') f) = n"
    using fr by (simp add: of_base_append div_mult_mod_eq)
  with that [of "to_dec (n div 10 ^ d)" f] fr show ?thesis
    by (auto simp: amount_body_def Let_def f_def to_dec_all)
qed

lemma bigint_string_int [simp]: "int_to_base b (int n) = to_base b n"
  by (simp add: int_to_base_def)

lemma bigint_string_div:
  "bigint_to_string (int n div 10 ^ d) = to_dec (n div 10 ^ d)"
  "bigint_to_string (int n mod 10 ^ d) = to_dec (n mod 10 ^ d)"
  using zdiv_int [of n "10 ^ d"] zmod_int [of n "10 ^ d"] bigint_string_int [of 10]
  by (metis of_nat_numeral of_nat_power)+

lemma formatUsdc_eq:
  "formatUsdc a d = (if a < 0 then ''-'' @ amount_body (nat (- a)) d else amount_body (nat a) d)"
proof (cases "a < 0")
  case True
  then obtain n where "a = - int n" by (metis int_cases2 less_le_not_le of_nat_0_le_iff)
  with True show ?thesis by (simp add: formatUsdc_def amount_body_def Let_def bigint_string_div)
next
  case False
  then obtain n where "a = int n" by (metis nonneg_int_cases linorder_not_less)
  then show ?thesis by (simp add: formatUsdc_def amount_body_def Let_def bigint_string_div)
qed

lemma parse_unsigned:
  assumes "u = w \<and> f = [] \<or> u = w @ ''.'' @ f \<and> f \<noteq> []"
    and "w \<noteq> []" "list_all is_digit w" "list_all is_digit f"
  shows "is_unsigned_decimal u" and "whole_fraction u = (w, f)" and "trim u = u"
    and "trim (''-'' @ u) = ''-'' @ u" and "\<not> startsMinus u"
  using assms is_unsigned_decimal_digits is_unsigned_decimal_point whole_fraction_digits
    whole_fraction_point decimal_trim not_startsMinus [of w "[]"] not_startsMinus [of w "''.'' @ f"]
  by auto

lemma parse_amount_body:
  "parsePolicyAmount (amount_body n d) d = Inr (int n)"
  "parsePolicyAmount (''-'' @ amount_body n d) d = Inr (- int n)"
proof -
  obtain w f where b: "amount_body n d = w \<and> f = [] \<or> amount_body n d = w @ ''.'' @ f \<and> f \<noteq> []"
    and w: "w \<noteq> []" "list_all is_digit w" "list_all is_digit f" and l: "length f \<le> d"
    and v: "of_dec (w @ padEnd d (CHR ''0'') f) = n"
    by (rule amount_body_shape)
  note p = parse_unsigned [OF b w]
  show "parsePolicyAmount (amount_body n d) d = Inr (int n)"
    using p l v by (simp add: parsePolicyAmount_def is_decimal_def Let_def)
  have "startsMinus (''-'' @ amount_body n d)" by (simp add: startsMinus_def)
  then show "parsePolicyAmount (''-'' @ amount_body n d) d = Inr (- int n)"
    using p l v by (simp add: parsePolicyAmount_def is_decimal_def Let_def)
qed

lemma parse_format: "parsePolicyAmount (formatUsdc a d) d = Inr a"
  using parse_amount_body [of "nat a" d] parse_amount_body [of "nat (- a)" d]
  by (simp add: formatUsdc_eq)

subsection \<open>The settings form agrees with the SDK\<close>

lemma unsigned_no_minus: "is_unsigned_decimal s \<Longrightarrow> \<not> startsMinus s"
  by (cases s) (auto simp: is_unsigned_decimal_def startsMinus_def dot_not_space)

lemma padEnd_nonempty: "0 < n \<Longrightarrow> padEnd n c s \<noteq> []"
  by (auto simp: padEnd_def)

lemma toBaseUnits_parse:
  "toBaseUnits s =
     (if startsMinus (trim s) then Inl (InvalidPolicyAmount s)
      else bindR (parsePolicyAmount s 6) (\<lambda>v. Inr (bigint_to_string v)))"
proof (cases "is_unsigned_decimal (trim s)")
  case True
  obtain w f where wf: "whole_fraction (trim s) = (w, f)" by fastforce
  have "int (of_dec w) * 10 ^ 6 + int (of_dec (padEnd 6 (CHR ''0'') f)) =
      int (of_dec (w @ padEnd 6 (CHR ''0'') f))" if "length f \<le> 6"
    using that by (simp add: of_base_append length_padEnd)
  with True wf show ?thesis
    by (simp add: toBaseUnits_def parsePolicyAmount_def is_decimal_def unsigned_no_minus padEnd_nonempty Let_def)
next
  case False
  then show ?thesis
    by (simp add: toBaseUnits_def parsePolicyAmount_def is_decimal_def)
qed

lemma toDisplay_format:
  "s \<noteq> [] \<Longrightarrow> list_all is_digit s \<Longrightarrow> toDisplay s = formatUsdc (int (of_dec s)) 6"
  by (simp add: toDisplay_def formatUsdc_def Let_def)

lemma formatUsdc_no_minus: "0 \<le> a \<Longrightarrow> \<not> startsMinus (trim (formatUsdc a d))"
proof -
  assume "0 \<le> a"
  obtain w f where b: "amount_body (nat a) d = w \<and> f = [] \<or> amount_body (nat a) d = w @ ''.'' @ f \<and> f \<noteq> []"
    and w: "w \<noteq> []" "list_all is_digit w" "list_all is_digit f"
    by (rule amount_body_shape)
  with \<open>0 \<le> a\<close> parse_unsigned [OF b w] show ?thesis by (simp add: formatUsdc_eq)
qed

lemma toBaseUnits_toDisplay:
  assumes "s \<noteq> []" and "list_all is_digit s"
  shows "toBaseUnits (toDisplay s) = Inr (to_dec (of_dec s))"
  using assms formatUsdc_no_minus [of "int (of_dec s)" 6]
  by (simp add: toDisplay_format toBaseUnits_parse parse_format)

lemma length_to_dec_iff: "0 < k \<Longrightarrow> length (to_dec n) \<le> k \<longleftrightarrow> n < 10 ^ k"
proof
  assume "length (to_dec n) \<le> k"
  have "of_dec (to_dec n) < 10 ^ length (to_dec n)"
    by (rule of_base_less) (auto dest: to_dec_digits digit_val_less10)
  also have "\<dots> \<le> (10::nat) ^ k" using \<open>length (to_dec n) \<le> k\<close> by (rule power_increasing) simp
  finally show "n < 10 ^ k" by simp
qed (simp add: length_to_base)

lemma parseBaseUnit_to_dec:
  "parseBaseUnitPolicyAmount (to_dec n) =
     (if 0 < n \<and> n < 10 ^ 6 then Inl (LooksLikeDisplayUnits (to_dec n)) else Inr (int n))"
proof -
  have "trim (to_dec n) = to_dec n" using decimal_trim [OF to_dec_all to_dec_all] by blast
  moreover have "hd (to_dec n) = CHR ''0'' \<longleftrightarrow> n = 0"
    using hd_to_base [of 10 n] by (cases "n = 0") (auto simp: to_base.simps [of 10 0])
  moreover have "length (to_dec n) \<le> 6 \<longleftrightarrow> n < 10 ^ 6" by (rule length_to_dec_iff) simp
  ultimately show ?thesis
    by (auto simp: parseBaseUnitPolicyAmount_def Let_def to_dec_all)
qed

end
