(* ===== verification/Types.thy ===== *)
theory Types
  imports Complex_Main Hex Units
begin

text \<open>
  \<^verbatim>\<open>packages/sdk/src/core/types.ts\<close>: the data every component exchanges. Interfaces
  are records (fields prefixed with the record's initials), string unions are datatypes,
  optional fields are options. Decisions are ordered by severity, so that the engine's verdict
  is a maximum.
\<close>

section \<open>Provenance, decisions, intents\<close>

datatype Provenance = DECLARED | DECODED | MEASURED

datatype Decision = ALLOW | BLOCK | REQUIRE_APPROVAL

definition NATIVE_ASSET :: Address where
  "NATIVE_ASSET = ''0xEeeeeEeeeEeEeeEeEeEeeEEEeeeeEeeeeeeeEEeE''"

record AssetAmount =
  aa_asset :: Address
  aa_amount :: int
  aa_provenance :: Provenance

record Action =
  act_to :: Address
  act_data :: Hex
  act_value :: int
  act_chainId :: int
  act_metadata :: "(string \<times> string) list option"

datatype IntentKind = TRANSFER | APPROVE | SWAP | X402_PAYMENT | NATIVE_TRANSFER | UNKNOWN

record NormalizedIntent =
  in_kind :: IntentKind
  in_target :: Address
  in_selector :: Hex
  in_nativeValue :: int
  in_outflow :: "AssetAmount list"
  in_counterparty :: "Address option"
  in_notionalUSDC :: int
  in_summary :: string
  in_raw :: Action

section \<open>Verdicts\<close>

record PolicyViolation =
  pv_policy :: string
  pv_limit :: int
  pv_observed :: int
  pv_provenance :: Provenance
  pv_message :: string

record PolicyRow =
  pr_id :: string
  pr_name :: string
  pr_decision :: Decision
  pr_passed :: bool
  pr_formallyVerified :: bool
  pr_reason :: string
  pr_limit :: "int option"
  pr_observed :: "int option"
  pr_provenance :: "Provenance option"

datatype ProofProperty = MAX_TRANSFER | DAILY_SPEND

datatype ProofStatus = PROVEN | UNPROVEN | COUNTEREXAMPLE | NOT_RUN

datatype ProofTool = SolcSmtchecker | Certora

record ProofReference =
  pf_property :: ProofProperty
  pf_status :: ProofStatus
  pf_tool :: ProofTool
  pf_solverTimeMs :: int
  pf_artifactPath :: string
  pf_counterexample :: "string option"

record ApprovalRequest =
  ar_id :: string
  ar_intent :: NormalizedIntent
  ar_reason :: string
  ar_threshold :: int
  ar_expiresAt :: int

record ApprovalOutcome =
  ao_approved :: bool
  ao_signature :: "Hex option"
  ao_by :: string

record PolicyCheck =
  pc_policy :: string
  pc_decision :: Decision
  pc_reason :: "string option"
  pc_provenance :: "Provenance option"

record PolicyResult =
  res_decision :: Decision
  res_reason :: string
  res_intent :: NormalizedIntent
  res_violations :: "PolicyViolation list"
  res_policyRows :: "PolicyRow list"
  res_checks :: "PolicyCheck list"
  res_proof :: "ProofReference option"
  res_approvalRequest :: "ApprovalRequest option"
  res_txHash :: "Hex option"
  res_sequence :: nat
  res_evaluatedAt :: int

section \<open>State and policies\<close>

text \<open>\<^verbatim>\<open>PoolState\<close> of \<^verbatim>\<open>state/UniswapPoolProvider.ts\<close>; its numbers are rationals.\<close>

record PoolState =
  ps_totalValueLockedUSD :: rat
  ps_volumeUSD :: rat
  ps_feeTier :: rat
  ps_id :: string

text \<open>The three-valued \<^verbatim>\<open>pool\<close> field: \<open>None\<close> is \<^verbatim>\<open>undefined\<close>, \<open>Some None\<close> is \<^verbatim>\<open>null\<close>.\<close>

record PolicyState =
  st_account :: Address
  st_dayUtc :: int
  st_dailySpend :: int
  st_balance :: int
  st_asset :: Address
  st_now :: int
  st_pool :: "PoolState option option"

record PolicyEvaluation =
  pe_decision :: Decision
  pe_violation :: "PolicyViolation option"
  pe_reason :: "string option"

record Policy =
  pol_id :: string
  pol_formallyVerified :: bool
  pol_evaluate :: "NormalizedIntent \<Rightarrow> PolicyState \<Rightarrow> PolicyEvaluation"

section \<open>Policy documents\<close>

text \<open>
  The amounts of a parsed JSON document: \<open>None\<close> is a value that is not a string. An absent
  \<^verbatim>\<open>asset.address\<close> is the empty string (the code rejects both with one test).
\<close>

record PolicyLimits =
  pl_maxTransaction :: "string option"
  pl_dailySpend :: "string option"
  pl_approvalThreshold :: "string option"
  pl_minBalance :: "string option"
  pl_allowedContracts :: "string list option"
  pl_allowedRecipients :: "string list option"

record PolicyDocument =
  doc_version :: string
  doc_agent :: string
  doc_chainId :: int
  doc_assetAddress :: string
  doc_assetDecimals :: int
  doc_policies :: PolicyLimits
  doc_hook :: string
  doc_account :: string

record ResolvedPolicy =
  rp_document :: PolicyDocument
  rp_hash :: Hex
  rp_maxTransaction :: int
  rp_dailySpend :: int
  rp_approvalThreshold :: int
  rp_minBalance :: int
  rp_allowedContracts :: "Address list"
  rp_allowedRecipients :: "Address list"
  rp_asset :: Address
  rp_decimals :: int
  rp_account :: Address
  rp_hook :: Address

section \<open>The severity order\<close>

fun severity :: "Decision \<Rightarrow> nat" where
  "severity ALLOW = 0"
| "severity REQUIRE_APPROVAL = 1"
| "severity BLOCK = 2"

lemma severity_inject: "severity a = severity b \<longleftrightarrow> a = b"
  by (cases a; cases b) auto

instantiation Decision :: linorder
begin

definition less_eq_Decision :: "Decision \<Rightarrow> Decision \<Rightarrow> bool" where
  "less_eq_Decision a b = (severity a \<le> severity b)"

definition less_Decision :: "Decision \<Rightarrow> Decision \<Rightarrow> bool" where
  "less_Decision a b = (severity a < severity b)"

instance
  by standard (auto simp: less_eq_Decision_def less_Decision_def severity_inject)

end

instantiation Decision :: order_bot
begin

definition bot_Decision :: Decision where
  "bot_Decision = ALLOW"

instance
  by standard (simp add: less_eq_Decision_def bot_Decision_def)

end

lemma ALLOW_least [simp]: "ALLOW \<le> d" "max ALLOW d = d" "max d ALLOW = d"
  by (cases d; auto simp: less_eq_Decision_def max_def)+

lemma BLOCK_greatest [simp]: "d \<le> BLOCK" "max BLOCK d = BLOCK" "max d BLOCK = BLOCK"
  by (cases d; auto simp: less_eq_Decision_def max_def)+

lemma max_eq_ALLOW [simp]: "max a b = ALLOW \<longleftrightarrow> a = ALLOW \<and> b = (ALLOW :: Decision)"
  by (cases a; cases b) (auto simp: less_eq_Decision_def max_def)

lemma max_eq_BLOCK [simp]: "max a b = BLOCK \<longleftrightarrow> a = BLOCK \<or> b = (BLOCK :: Decision)"
  by (cases a; cases b) (auto simp: less_eq_Decision_def max_def)

section \<open>Non-ASCII literals of the reasons\<close>

text \<open>The UTF-8 bytes of the em dash and of the ellipsis; nothing computes over them.\<close>

definition em_dash :: string where
  "em_dash = map char_of [226, 128, 148 :: nat]"

definition ellipsis :: string where
  "ellipsis = map char_of [226, 128, 166 :: nat]"

end
