(* ===== verification/Decode.thy ===== *)
theory Decode
  imports Types "HOL-Library.AList"
begin

text \<open>
  \<^verbatim>\<open>packages/sdk/src/decode/registry.ts\<close>: the selector registry, and the decoders whose
  calldata is a list of static words: \<^verbatim>\<open>erc20.ts\<close>, \<^verbatim>\<open>native.ts\<close>, \<^verbatim>\<open>x402.ts\<close>.

  The locale \<open>selector_decoder\<close> is the contract a decoder owes its clients: the intent is
  about the action decoded, its notional is exactly the tracked asset's part of the outflow, and
  an unreadable call is unbounded. It is interpreted on each decoder; the registry's lemmas are
  proved once for every registry of lawful decoders.
\<close>

section \<open>registry.ts\<close>

record DecoderContext =
  dc_account :: Address
  dc_trackedAsset :: Address
  dc_decimals :: int

record SelectorDecoder =
  sd_name :: string
  sd_selectors :: "string list"
  sd_decode :: "Action \<Rightarrow> DecoderContext \<Rightarrow> NormalizedIntent option result"

record DecoderRegistry =
  reg_bySelector :: "(string \<times> SelectorDecoder) list"
  reg_wildcards :: "SelectorDecoder list"

definition empty_registry :: DecoderRegistry where
  "empty_registry = \<lparr>reg_bySelector = [], reg_wildcards = []\<rparr>"

fun register_selectors :: "SelectorDecoder \<Rightarrow> string list \<Rightarrow> DecoderRegistry \<Rightarrow> DecoderRegistry result" where
  "register_selectors d [] reg = Inr reg"
| "register_selectors d (s # ss) reg =
     (if s = ''*'' then register_selectors d ss (reg\<lparr>reg_wildcards := reg_wildcards reg @ [d]\<rparr>)
      else case map_of (reg_bySelector reg) (toLowerCase s) of
          Some existing \<Rightarrow>
            if sd_name existing \<noteq> sd_name d
            then Inl (SelectorClaimedTwice s (sd_name existing) (sd_name d))
            else register_selectors d ss
              (reg\<lparr>reg_bySelector := AList.update (toLowerCase s) d (reg_bySelector reg)\<rparr>)
        | None \<Rightarrow> register_selectors d ss
              (reg\<lparr>reg_bySelector := AList.update (toLowerCase s) d (reg_bySelector reg)\<rparr>))"

definition register :: "SelectorDecoder \<Rightarrow> DecoderRegistry \<Rightarrow> DecoderRegistry result" where
  "register d reg = register_selectors d (sd_selectors d) reg"

fun try_decoders :: "SelectorDecoder list \<Rightarrow> Action \<Rightarrow> DecoderContext \<Rightarrow> NormalizedIntent option result" where
  "try_decoders [] action ctx = Inr None"
| "try_decoders (d # ds) action ctx =
     bindR (sd_decode d action ctx)
       (\<lambda>r. case r of Some intent \<Rightarrow> Inr (Some intent) | None \<Rightarrow> try_decoders ds action ctx)"

definition candidates :: "DecoderRegistry \<Rightarrow> Hex \<Rightarrow> SelectorDecoder list" where
  "candidates reg selector =
     (case map_of (reg_bySelector reg) (toLowerCase selector) of
        Some d \<Rightarrow> d # reg_wildcards reg | None \<Rightarrow> reg_wildcards reg)"

definition unknown_intent :: "Action \<Rightarrow> DecoderContext \<Rightarrow> Address \<Rightarrow> NormalizedIntent" where
  "unknown_intent action ctx target =
     \<lparr>in_kind = UNKNOWN, in_target = target, in_selector = selectorOf (act_data action),
      in_nativeValue = act_value action,
      in_outflow = [\<lparr>aa_asset = dc_trackedAsset ctx, aa_amount = UNBOUNDED, aa_provenance = DECLARED\<rparr>],
      in_counterparty = None, in_notionalUSDC = UNBOUNDED,
      in_summary = ''Unrecognised call '' @ selectorOf (act_data action) @ '' to '' @ act_to action,
      in_raw = action\<rparr>"

definition registry_decode :: "DecoderRegistry \<Rightarrow> Action \<Rightarrow> DecoderContext \<Rightarrow> NormalizedIntent result" where
  "registry_decode reg action ctx =
     bindR (try_decoders (candidates reg (selectorOf (act_data action))) action ctx)
       (\<lambda>r. case r of
          Some intent \<Rightarrow> Inr intent
        | None \<Rightarrow> bindR (normalizeAddress (act_to action)) (\<lambda>t. Inr (unknown_intent action ctx t)))"

definition knownSelectors :: "DecoderRegistry \<Rightarrow> string list" where
  "knownSelectors reg = sort (map fst (reg_bySelector reg))"

section \<open>erc20.ts\<close>

definition SELECTOR_TRANSFER :: Hex where "SELECTOR_TRANSFER = ''0xa9059cbb''"
definition SELECTOR_TRANSFER_FROM :: Hex where "SELECTOR_TRANSFER_FROM = ''0x23b872dd''"
definition SELECTOR_APPROVE :: Hex where "SELECTOR_APPROVE = ''0x095ea7b3''"
definition SELECTOR_INCREASE_ALLOWANCE :: Hex where "SELECTOR_INCREASE_ALLOWANCE = ''0x39509351''"
definition SELECTOR_PERMIT2_APPROVE :: Hex where "SELECTOR_PERMIT2_APPROVE = ''0x87517c45''"

lemmas erc20_selectors = SELECTOR_TRANSFER_def SELECTOR_TRANSFER_FROM_def SELECTOR_APPROVE_def
  SELECTOR_INCREASE_ALLOWANCE_def SELECTOR_PERMIT2_APPROVE_def

definition approvalOutflow :: "int \<Rightarrow> int" where
  "approvalOutflow amount = (if isUnlimitedApproval amount then UNBOUNDED else amount)"

definition erc20_transfer :: "Action \<Rightarrow> DecoderContext \<Rightarrow> Address \<Rightarrow> NormalizedIntent result" where
  "erc20_transfer action ctx asset =
     bindR (readAddress (act_data action) 0) (\<lambda>to.
     bindR (readWord (act_data action) 1) (\<lambda>amount.
       Inr \<lparr>in_kind = TRANSFER, in_target = asset, in_selector = selectorOf (act_data action),
            in_nativeValue = act_value action,
            in_outflow = [\<lparr>aa_asset = asset, aa_amount = amount, aa_provenance = DECODED\<rparr>],
            in_counterparty = Some to,
            in_notionalUSDC = (if asset = dc_trackedAsset ctx then amount else 0),
            in_summary = ''Send '' @ displayUsdc amount @ '' to '' @ to,
            in_raw = action\<rparr>))"

definition erc20_transferFrom :: "Action \<Rightarrow> DecoderContext \<Rightarrow> Address \<Rightarrow> NormalizedIntent result" where
  "erc20_transferFrom action ctx asset =
     bindR (readAddress (act_data action) 0) (\<lambda>from.
     bindR (readAddress (act_data action) 1) (\<lambda>to.
     bindR (readWord (act_data action) 2) (\<lambda>amount.
       let leavesUs = (from = dc_account ctx) in
       Inr \<lparr>in_kind = TRANSFER, in_target = asset, in_selector = selectorOf (act_data action),
            in_nativeValue = act_value action,
            in_outflow = (if leavesUs
              then [\<lparr>aa_asset = asset, aa_amount = amount, aa_provenance = DECODED\<rparr>] else []),
            in_counterparty = Some to,
            in_notionalUSDC = (if asset = dc_trackedAsset ctx \<and> leavesUs then amount else 0),
            in_summary = ''Pull '' @ displayUsdc amount @ '' from '' @ from @ '' to '' @ to,
            in_raw = action\<rparr>)))"

definition erc20_approve :: "Action \<Rightarrow> DecoderContext \<Rightarrow> Address \<Rightarrow> NormalizedIntent result" where
  "erc20_approve action ctx asset =
     bindR (readAddress (act_data action) 0) (\<lambda>spender.
     bindR (readWord (act_data action) 1) (\<lambda>allowance.
       let worstCase = approvalOutflow allowance in
       Inr \<lparr>in_kind = APPROVE, in_target = asset, in_selector = selectorOf (act_data action),
            in_nativeValue = act_value action,
            in_outflow = [\<lparr>aa_asset = asset, aa_amount = worstCase, aa_provenance = DECODED\<rparr>],
            in_counterparty = Some spender,
            in_notionalUSDC = (if asset = dc_trackedAsset ctx then worstCase else 0),
            in_summary = (if isUnlimitedApproval allowance
              then ''Grant UNLIMITED spending approval to '' @ spender
              else ''Approve '' @ displayUsdc allowance @ '' of spending to '' @ spender),
            in_raw = action\<rparr>))"

definition erc20_permit2 :: "Action \<Rightarrow> DecoderContext \<Rightarrow> Address \<Rightarrow> NormalizedIntent result" where
  "erc20_permit2 action ctx asset =
     bindR (readAddress (act_data action) 0) (\<lambda>token.
     bindR (readAddress (act_data action) 1) (\<lambda>spender.
     bindR (readWord (act_data action) 2) (\<lambda>allowance.
       let worstCase = approvalOutflow allowance in
       Inr \<lparr>in_kind = APPROVE, in_target = asset, in_selector = selectorOf (act_data action),
            in_nativeValue = act_value action,
            in_outflow = [\<lparr>aa_asset = token, aa_amount = worstCase, aa_provenance = DECODED\<rparr>],
            in_counterparty = Some spender,
            in_notionalUSDC = (if token = dc_trackedAsset ctx then worstCase else 0),
            in_summary = ''Permit2 approve '' @ displayUsdc allowance @ '' to '' @ spender,
            in_raw = action\<rparr>)))"

definition erc20_decode :: "Action \<Rightarrow> DecoderContext \<Rightarrow> NormalizedIntent option result" where
  "erc20_decode action ctx =
     (let selector = selectorOf (act_data action) in
      bindR (normalizeAddress (act_to action)) (\<lambda>asset.
        if selector = SELECTOR_TRANSFER then bindR (erc20_transfer action ctx asset) (\<lambda>i. Inr (Some i))
        else if selector = SELECTOR_TRANSFER_FROM then bindR (erc20_transferFrom action ctx asset) (\<lambda>i. Inr (Some i))
        else if selector = SELECTOR_APPROVE \<or> selector = SELECTOR_INCREASE_ALLOWANCE
          then bindR (erc20_approve action ctx asset) (\<lambda>i. Inr (Some i))
        else if selector = SELECTOR_PERMIT2_APPROVE then bindR (erc20_permit2 action ctx asset) (\<lambda>i. Inr (Some i))
        else Inr None))"

definition erc20Decoder :: SelectorDecoder where
  "erc20Decoder = \<lparr>sd_name = ''erc20'',
     sd_selectors = [SELECTOR_TRANSFER, SELECTOR_TRANSFER_FROM, SELECTOR_APPROVE,
       SELECTOR_INCREASE_ALLOWANCE, SELECTOR_PERMIT2_APPROVE],
     sd_decode = erc20_decode\<rparr>"

section \<open>native.ts\<close>

definition native_decode :: "Action \<Rightarrow> DecoderContext \<Rightarrow> NormalizedIntent option result" where
  "native_decode action ctx =
     (if length (act_data action) > 2 \<or> act_value action = 0 then Inr None
      else bindR (normalizeAddress (act_to action)) (\<lambda>to.
        Inr (Some \<lparr>in_kind = NATIVE_TRANSFER, in_target = to, in_selector = ''0x'',
          in_nativeValue = act_value action,
          in_outflow = [\<lparr>aa_asset = NATIVE_ASSET, aa_amount = act_value action, aa_provenance = DECODED\<rparr>],
          in_counterparty = Some to, in_notionalUSDC = 0,
          in_summary = ''Send '' @ bigint_to_string (act_value action) @ '' wei to '' @ to,
          in_raw = action\<rparr>)))"

definition nativeDecoder :: SelectorDecoder where
  "nativeDecoder = \<lparr>sd_name = ''native'', sd_selectors = [''*''], sd_decode = native_decode\<rparr>"

section \<open>x402.ts\<close>

definition SELECTOR_X402_SETTLE :: Hex where "SELECTOR_X402_SETTLE = ''0xd4729c72''"

definition x402_decode :: "Action \<Rightarrow> DecoderContext \<Rightarrow> NormalizedIntent option result" where
  "x402_decode action ctx =
     (let selector = selectorOf (act_data action) in
      if selector \<noteq> SELECTOR_X402_SETTLE then Inr None
      else
        bindR (readAddress (act_data action) 0) (\<lambda>token.
        bindR (readAddress (act_data action) 1) (\<lambda>payTo.
        bindR (readWord (act_data action) 2) (\<lambda>amount.
        bindR (normalizeAddress (act_to action)) (\<lambda>target.
          Inr (Some \<lparr>in_kind = X402_PAYMENT, in_target = target, in_selector = selector,
            in_nativeValue = act_value action,
            in_outflow = [\<lparr>aa_asset = token, aa_amount = amount, aa_provenance = DECODED\<rparr>],
            in_counterparty = Some payTo,
            in_notionalUSDC = (if token = dc_trackedAsset ctx then amount else 0),
            in_summary = ''Pay '' @ displayUsdc amount @ '' for a metered API call to '' @ payTo,
            in_raw = action\<rparr>))))))"

definition x402Decoder :: SelectorDecoder where
  "x402Decoder = \<lparr>sd_name = ''x402'', sd_selectors = [SELECTOR_X402_SETTLE], sd_decode = x402_decode\<rparr>"

record X402PaymentParams =
  xp_facilitator :: Address
  xp_token :: Address
  xp_payTo :: Address
  xp_amount :: int
  xp_requestId :: Hex
  xp_chainId :: int

definition x402PaymentAction :: "X402PaymentParams \<Rightarrow> Action result" where
  "x402PaymentAction params =
     bindR (bigint_hex (drop 2 (xp_token params))) (\<lambda>token.
     bindR (bigint_hex (drop 2 (xp_payTo params))) (\<lambda>payTo.
       let data = SELECTOR_X402_SETTLE @ abi_word token @ abi_word payTo @ abi_word (xp_amount params)
             @ padStart 64 (CHR ''0'') (drop 2 (xp_requestId params))
       in Inr \<lparr>act_to = xp_facilitator params, act_data = data, act_value = 0,
               act_chainId = xp_chainId params,
               act_metadata = Some [(''kind'', ''x402''), (''requestId'', xp_requestId params)]\<rparr>))"

section \<open>The decoder contract\<close>

text \<open>What leaves the account in the tracked asset, according to an intent's outflow.\<close>

definition tracked_outflow :: "Address \<Rightarrow> AssetAmount list \<Rightarrow> int" where
  "tracked_outflow asset flows = (\<Sum>f\<leftarrow>flows. if aa_asset f = asset then aa_amount f else 0)"

lemma tracked_outflow_simps [simp]:
  "tracked_outflow a [] = 0"
  "tracked_outflow a (f # fs) = (if aa_asset f = a then aa_amount f else 0) + tracked_outflow a fs"
  by (simp_all add: tracked_outflow_def)

definition wf_context :: "DecoderContext \<Rightarrow> bool" where
  "wf_context ctx = (wf_address (dc_account ctx) \<and> wf_address (dc_trackedAsset ctx))"

locale selector_decoder =
  fixes dec :: "Action \<Rightarrow> DecoderContext \<Rightarrow> NormalizedIntent option result"
  assumes dec_raw: "dec a ctx = Inr (Some i) \<Longrightarrow> in_raw i = a"
    and dec_target: "dec a ctx = Inr (Some i) \<Longrightarrow> normalizeAddress (act_to a) = Inr (in_target i)"
    and dec_selector: "dec a ctx = Inr (Some i) \<Longrightarrow> in_selector i = selectorOf (act_data a)"
    and dec_notional: "wf_context ctx \<Longrightarrow> dec a ctx = Inr (Some i) \<Longrightarrow>
      in_notionalUSDC i = tracked_outflow (dc_trackedAsset ctx) (in_outflow i)"
    and dec_nonneg: "wf_context ctx \<Longrightarrow> dec a ctx = Inr (Some i) \<Longrightarrow> 0 \<le> in_notionalUSDC i"
    and dec_unknown: "dec a ctx = Inr (Some i) \<Longrightarrow> in_kind i = UNKNOWN \<Longrightarrow> in_notionalUSDC i = UNBOUNDED"
begin

lemma target_wf: "dec a ctx = Inr (Some i) \<Longrightarrow> wf_address (in_target i)"
  by (rule normalizeAddress_wf [OF dec_target])

text \<open>An asset other than the tracked one contributes nothing to the notional.\<close>

lemma notional_zero:
  assumes "wf_context ctx" and "dec a ctx = Inr (Some i)"
    and "\<forall>f \<in> set (in_outflow i). aa_asset f \<noteq> dc_trackedAsset ctx"
  shows "in_notionalUSDC i = 0"
proof -
  have "tracked_outflow (dc_trackedAsset ctx) fs = 0"
    if "\<forall>f \<in> set fs. aa_asset f \<noteq> dc_trackedAsset ctx" for fs
    using that by (induction fs) auto
  with assms show ?thesis by (simp add: dec_notional)
qed

end

lemma UNBOUNDED_pos [simp]: "0 \<le> UNBOUNDED" "0 < UNBOUNDED"
  by (simp_all add: UNBOUNDED_def)

lemma approvalOutflow_nonneg: "0 \<le> a \<Longrightarrow> 0 \<le> approvalOutflow a"
  by (simp add: approvalOutflow_def)

lemmas erc20_shapes = erc20_transfer_def erc20_transferFrom_def erc20_approve_def erc20_permit2_def

lemma erc20_decode_cases:
  assumes "erc20_decode a ctx = Inr (Some i)"
  obtains asset where "normalizeAddress (act_to a) = Inr asset"
    and "erc20_transfer a ctx asset = Inr i \<or> erc20_transferFrom a ctx asset = Inr i \<or>
         erc20_approve a ctx asset = Inr i \<or> erc20_permit2 a ctx asset = Inr i"
  using assms by (auto simp: erc20_decode_def Let_def bindR_eq_Inr split: if_splits)

interpretation erc20: selector_decoder erc20_decode
  by unfold_locales
    (erule erc20_decode_cases, auto simp: erc20_shapes bindR_eq_Inr Let_def approvalOutflow_nonneg
      dest: readWord_nonneg)+

lemma NATIVE_ASSET_not_wf: "\<not> wf_address NATIVE_ASSET"
  by code_simp

interpretation native: selector_decoder native_decode
proof
  fix a ctx i assume ctx: "wf_context ctx" and i: "native_decode a ctx = Inr (Some i)"
  then have "NATIVE_ASSET \<noteq> dc_trackedAsset ctx"
    using NATIVE_ASSET_not_wf by (auto simp: wf_context_def)
  with i show "in_notionalUSDC i = tracked_outflow (dc_trackedAsset ctx) (in_outflow i)"
    by (auto simp: native_decode_def bindR_eq_Inr split: if_splits)
qed (auto simp: native_decode_def bindR_eq_Inr selectorOf_def split: if_splits)

interpretation x402: selector_decoder x402_decode
  by unfold_locales
    (auto simp: x402_decode_def Let_def bindR_eq_Inr dest: readWord_nonneg split: if_splits)

section \<open>Registries of lawful decoders\<close>

lemma update_fresh: "k \<notin> fst ` set al \<Longrightarrow> AList.update k v al = al @ [(k, v)]"
  by (induction al) auto

text \<open>Registering unclaimed selectors appends them; it cannot fail.\<close>

lemma register_selectors_fresh:
  assumes "distinct ss" and "\<forall>s \<in> set ss. s \<noteq> ''*'' \<and> toLowerCase s = s \<and> s \<notin> fst ` set (reg_bySelector reg)"
  shows "register_selectors d ss reg =
    Inr (reg\<lparr>reg_bySelector := reg_bySelector reg @ map (\<lambda>s. (s, d)) ss\<rparr>)"
  using assms
proof (induction ss arbitrary: reg)
  case (Cons s ss)
  then have "map_of (reg_bySelector reg) s = None" by (simp add: map_of_eq_None_iff)
  moreover have "\<forall>t \<in> set ss. t \<notin> fst ` set (reg_bySelector reg @ [(s, d)])"
    using Cons.prems by auto
  ultimately show ?case using Cons by (auto simp: update_fresh)
qed simp

definition registry_decoders :: "DecoderRegistry \<Rightarrow> SelectorDecoder list" where
  "registry_decoders reg = map snd (reg_bySelector reg) @ reg_wildcards reg"

definition lawful_registry :: "DecoderRegistry \<Rightarrow> bool" where
  "lawful_registry reg = (\<forall>d \<in> set (registry_decoders reg). selector_decoder (sd_decode d))"

lemma candidates_subset: "set (candidates reg s) \<subseteq> set (registry_decoders reg)"
  by (auto simp: candidates_def registry_decoders_def dest: map_of_SomeD split: option.splits)
    (force dest: map_of_SomeD)

lemma try_decoders_Some:
  "try_decoders ds a ctx = Inr (Some i) \<Longrightarrow> \<exists>d \<in> set ds. sd_decode d a ctx = Inr (Some i)"
  by (induction ds) (auto simp: bindR_eq_Inr split: option.splits)

lemma registry_decode_cases:
  assumes "registry_decode reg a ctx = Inr i"
  obtains (decoder) d where "d \<in> set (registry_decoders reg)" "sd_decode d a ctx = Inr (Some i)"
  | (unknown) t where "normalizeAddress (act_to a) = Inr t" "i = unknown_intent a ctx t"
  using assms try_decoders_Some [of "candidates reg (selectorOf (act_data a))" a ctx i]
    candidates_subset [of reg "selectorOf (act_data a)"]
  by (auto simp: registry_decode_def bindR_eq_Inr split: option.splits)

text \<open>The registry keeps the contract of its decoders.\<close>

lemma lawful_registry_decoder:
  assumes "lawful_registry reg"
  shows "selector_decoder (\<lambda>a ctx. bindR (registry_decode reg a ctx) (\<lambda>i. Inr (Some i)))"
proof -
  have law: "d \<in> set (registry_decoders reg) \<Longrightarrow> selector_decoder (sd_decode d)" for d
    using assms by (simp add: lawful_registry_def)
  show ?thesis
  proof
    fix a ctx i assume "bindR (registry_decode reg a ctx) (\<lambda>i. Inr (Some i)) = Inr (Some i)"
    then have r: "registry_decode reg a ctx = Inr i" by (auto simp: bindR_eq_Inr)
    show "in_raw i = a" "normalizeAddress (act_to a) = Inr (in_target i)"
      "in_selector i = selectorOf (act_data a)"
      using r by (rule registry_decode_cases; auto simp: unknown_intent_def
          dest!: law intro: selector_decoder.dec_raw selector_decoder.dec_target selector_decoder.dec_selector)+
    show "in_notionalUSDC i = tracked_outflow (dc_trackedAsset ctx) (in_outflow i)"
      "0 \<le> in_notionalUSDC i" if "wf_context ctx"
      using r that by (rule_tac registry_decode_cases [OF r]; auto simp: unknown_intent_def
          dest!: law intro: selector_decoder.dec_notional selector_decoder.dec_nonneg)+
    show "in_notionalUSDC i = UNBOUNDED" if "in_kind i = UNKNOWN"
      using r that by (rule_tac registry_decode_cases [OF r]; auto simp: unknown_intent_def
          dest!: law intro: selector_decoder.dec_unknown)
  qed
qed

end
