(* ===== verification/UniswapV4.thy ===== *)
theory UniswapV4
  imports Decode
begin

text \<open>
  \<^verbatim>\<open>packages/sdk/src/decode/uniswapV4.ts\<close>: the Universal Router command stream, decoded
  to a worst-case outflow per asset. An \<^verbatim>\<open>Outflow\<close> object is the insertion-ordered map
  it wraps. A \<^verbatim>\<open>return fail(why)\<close> is the inner \<open>Inl why\<close>; a thrown error is the outer
  \<open>Inl\<close>, which every \<^verbatim>\<open>catch\<close> of the file turns into a failure.
\<close>

section \<open>Selectors, commands and actions\<close>

definition SELECTOR_EXECUTE :: Hex where "SELECTOR_EXECUTE = ''0x3593564c''"
definition SELECTOR_EXECUTE_NO_DEADLINE :: Hex where "SELECTOR_EXECUTE_NO_DEADLINE = ''0x24856bc3''"

definition V4_NATIVE_CURRENCY :: Address where
  "V4_NATIVE_CURRENCY = ''0x0000000000000000000000000000000000000000''"

definition PERMIT2_UNLIMITED :: int where
  "PERMIT2_UNLIMITED = 2 ^ 160 - 1"

text \<open>
  The command type is the low six bits of the byte (\<^verbatim>\<open>commands[i] & 0x3f\<close>; a byte that
  did not parse is \<^verbatim>\<open>NaN\<close>, and \<^verbatim>\<open>NaN & 0x3f\<close> is 0).
\<close>

definition command_type :: "int option \<Rightarrow> nat" where
  "command_type c = (case c of None \<Rightarrow> 0 | Some v \<Rightarrow> nat (v mod 64))"

section \<open>Outflow\<close>

type_synonym Outflow = "(Address \<times> int) list"

definition canonicalAsset :: "Address \<Rightarrow> Address result" where
  "canonicalAsset asset =
     bindR (normalizeAddress asset)
       (\<lambda>n. Inr (if toLowerCase n \<in> {V4_NATIVE_CURRENCY, toLowerCase NATIVE_ASSET} then NATIVE_ASSET else n))"

definition outflow_value :: "Outflow \<Rightarrow> Address \<Rightarrow> int" where
  "outflow_value out key = (case map_of out key of None \<Rightarrow> 0 | Some v \<Rightarrow> v)"

definition outflow_add :: "Address \<Rightarrow> int \<Rightarrow> Outflow \<Rightarrow> Outflow result" where
  "outflow_add asset amount out =
     bindR (canonicalAsset asset) (\<lambda>key. Inr (AList.update key (outflow_value out key + amount) out))"

definition outflow_atLeast :: "Address \<Rightarrow> int \<Rightarrow> Outflow \<Rightarrow> Outflow result" where
  "outflow_atLeast asset amount out =
     bindR (canonicalAsset asset)
       (\<lambda>key. Inr (if amount > outflow_value out key then AList.update key amount out else out))"

fun outflow_merge :: "Outflow \<Rightarrow> Outflow \<Rightarrow> Outflow result" where
  "outflow_merge [] out = Inr out"
| "outflow_merge ((asset, amount) # rest) out = bindR (outflow_add asset amount out) (outflow_merge rest)"

definition outflow_get :: "Outflow \<Rightarrow> Address \<Rightarrow> int result" where
  "outflow_get out asset = bindR (canonicalAsset asset) (\<lambda>key. Inr (outflow_value out key))"

definition outflow_entries :: "Outflow \<Rightarrow> (Address \<times> int) list" where
  "outflow_entries out = filter (\<lambda>(_, amount). amount > 0) out"

section \<open>Reading the stream\<close>

definition readElement :: "string \<Rightarrow> nat \<Rightarrow> nat \<Rightarrow> string result" where
  "readElement body inputsOffset i =
     bindR (bigint_hex (js_slice body (inputsOffset + 64 + i * 64) (inputsOffset + 128 + i * 64))) (\<lambda>rel.
       let start = inputsOffset + 64 + nat rel * 2 in
       bindR (bigint_hex (js_slice body start (start + 64))) (\<lambda>len.
         let element = js_slice body (start + 64) (start + 64 + nat len * 2) in
         if length element \<noteq> nat len * 2 then Inl (StreamError ''an input runs past the end of calldata'')
         else Inr element))"

text \<open>\<^verbatim>\<open>parseInt\<close> of successive character pairs of the command bytes.\<close>

fun parse_pairs :: "string \<Rightarrow> int option list" where
  "parse_pairs (a # b # s) = parseInt16 [a, b] # parse_pairs s"
| "parse_pairs _ = []"

definition readCommandStream :: "Hex \<Rightarrow> bool \<Rightarrow> (int option list \<times> string list) result" where
  "readCommandStream data hasDeadline =
     (let body = drop 10 data;
          word = (\<lambda>index. bigint_hex (js_slice body (index * 64) (index * 64 + 64)))
      in bindR (word 0) (\<lambda>w0.
         bindR (word 1) (\<lambda>w1.
         bindR (if hasDeadline then word 2 else Inr 0) (\<lambda>_.
           let commandsOffset = nat w0 * 2; inputsOffset = nat w1 * 2 in
           bindR (bigint_hex (js_slice body commandsOffset (commandsOffset + 64))) (\<lambda>cl.
             let commandsLength = nat cl;
                 commandsHex = js_slice body (commandsOffset + 64) (commandsOffset + 64 + commandsLength * 2)
             in if length commandsHex \<noteq> commandsLength * 2
                then Inl (StreamError ''commands run past the end of calldata'')
                else
                  bindR (bigint_hex (js_slice body inputsOffset (inputsOffset + 64))) (\<lambda>il.
                  bindR (mapR (readElement body inputsOffset) [0..<nat il]) (\<lambda>inputs.
                    let commands = parse_pairs commandsHex in
                    if length commands \<noteq> length inputs then Inl LengthMismatch
                    else Inr (commands, inputs))))))))"

definition wordAt :: "string \<Rightarrow> nat \<Rightarrow> int result" where
  "wordAt input index =
     (let word = js_slice input (index * 64) (index * 64 + 64) in
      if length word \<noteq> 64 then Inl (InputTooShort index) else bigint_hex word)"

definition wordAsAddress :: "string \<Rightarrow> nat \<Rightarrow> Address result" where
  "wordAsAddress input index = bindR (wordAt input index) (\<lambda>v. normalizeAddress (address_string v))"

text \<open>\<^verbatim>\<open>readPath\<close> catches everything it throws.\<close>

definition readPath :: "string \<Rightarrow> nat \<Rightarrow> string option" where
  "readPath input headIndex =
     (case bindR (wordAt input headIndex) (\<lambda>off.
        let offset = nat off * 2 in
        bindR (bigint_hex (js_slice input offset (offset + 64))) (\<lambda>len.
          let path = js_slice input (offset + 64) (offset + 64 + nat len * 2) in
          Inr (if length path \<noteq> nat len * 2 \<or> nat len < 20 then None else Some path)))
      of Inl _ \<Rightarrow> None | Inr r \<Rightarrow> r)"

definition pathFirstToken :: "string \<Rightarrow> nat \<Rightarrow> Address option result" where
  "pathFirstToken input headIndex =
     (case readPath input headIndex of
        None \<Rightarrow> Inr None
      | Some path \<Rightarrow> bindR (normalizeAddress (''0x'' @ js_slice path 0 40)) (\<lambda>a. Inr (Some a)))"

definition pathLastToken :: "string \<Rightarrow> nat \<Rightarrow> Address option result" where
  "pathLastToken input headIndex =
     (case readPath input headIndex of
        None \<Rightarrow> Inr None
      | Some path \<Rightarrow> bindR (normalizeAddress (''0x'' @ drop (length path - 40) path)) (\<lambda>a. Inr (Some a)))"

section \<open>Nested v4 actions\<close>

text \<open>
  One action: \<open>Inr None\<close> is \<^verbatim>\<open>return undefined\<close>, \<open>Inl\<close> a thrown error (caught by the
  caller, with the same outcome). Bytes: SWAP\_EXACT\_IN\_SINGLE 0x06, SWAP\_EXACT\_OUT\_SINGLE 0x08,
  SETTLE 0x0b, SETTLE\_ALL 0x0c, SETTLE\_PAIR 0x0d, TAKE .. CLEAR\_OR\_TAKE 0x0e .. 0x13;
  the multi-hop swaps 0x07 and 0x09 are refused.
\<close>

definition v4_action :: "int option \<Rightarrow> string \<Rightarrow> Outflow \<Rightarrow> Outflow option result" where
  "v4_action action params out =
     (if action = Some 6 \<or> action = Some 8 then
        bindR (wordAt params 6) (\<lambda>z.
        bindR (wordAsAddress params (if z \<noteq> 0 then 1 else 2)) (\<lambda>currency.
        bindR (wordAt params (if action = Some 6 then 7 else 8)) (\<lambda>amount.
        bindR (outflow_add currency amount out) (\<lambda>out'. Inr (Some out')))))
      else if action = Some 11 then
        bindR (wordAt params 2) (\<lambda>payer.
          if payer \<noteq> 0 then
            bindR (wordAsAddress params 0) (\<lambda>currency.
            bindR (wordAt params 1) (\<lambda>amount.
            bindR (outflow_add currency amount out) (\<lambda>out'. Inr (Some out'))))
          else Inr (Some out))
      else if action = Some 12 then
        bindR (wordAsAddress params 0) (\<lambda>currency.
        bindR (wordAt params 1) (\<lambda>amount.
        bindR (outflow_atLeast currency amount out) (\<lambda>out'. Inr (Some out'))))
      else if action \<in> Some ` {13, 14, 15, 16, 17, 18, 19} then Inr (Some out)
      else Inr None)"

fun v4_actions :: "(int option \<times> string) list \<Rightarrow> Outflow \<Rightarrow> Outflow option" where
  "v4_actions [] out = Some out"
| "v4_actions ((action, params) # rest) out =
     (case v4_action action params out of
        Inr (Some out') \<Rightarrow> v4_actions rest out'
      | _ \<Rightarrow> None)"

definition readV4Outflow :: "string \<Rightarrow> Outflow option" where
  "readV4Outflow input =
     (case readCommandStream (''0x00000000'' @ input) False of
        Inl _ \<Rightarrow> None
      | Inr (commands, inputs) \<Rightarrow> v4_actions (zip commands inputs) [])"

section \<open>The command loop\<close>

record StreamState =
  ss_outflow :: Outflow
  ss_recipient :: "Address option"

text \<open>\<^verbatim>\<open>recipient ??= e\<close>: the right-hand side is evaluated only when nothing is set.\<close>

definition set_recipient :: "Address result \<Rightarrow> StreamState \<Rightarrow> StreamState result" where
  "set_recipient e s =
     (case ss_recipient s of
        Some _ \<Rightarrow> Inr s
      | None \<Rightarrow> bindR e (\<lambda>a. Inr (s\<lparr>ss_recipient := Some a\<rparr>)))"

definition add_outflow :: "Address \<Rightarrow> int result \<Rightarrow> StreamState \<Rightarrow> (string + StreamState) result" where
  "add_outflow currency amount s =
     bindR amount (\<lambda>v. bindR (outflow_add currency v (ss_outflow s)) (\<lambda>out. Inr (Inr (s\<lparr>ss_outflow := out\<rparr>))))"

definition hex2 :: "nat \<Rightarrow> string" where
  "hex2 n = padStart 2 (CHR ''0'') (to_hex n)"

text \<open>
  V3\_SWAP\_EXACT\_IN 0x00, V3\_SWAP\_EXACT\_OUT 0x01, PERMIT2\_TRANSFER\_FROM 0x02, SWEEP 0x04,
  TRANSFER 0x05, PAY\_PORTION 0x06, V2\_SWAP\_EXACT\_IN 0x08, V2\_SWAP\_EXACT\_OUT 0x09,
  PERMIT2\_PERMIT 0x0a, WRAP\_ETH 0x0b, UNWRAP\_WETH 0x0c, V4\_SWAP 0x10.
\<close>

definition router_command :: "nat \<Rightarrow> string \<Rightarrow> StreamState \<Rightarrow> (string + StreamState) result" where
  "router_command command input s =
     (if command = 0 \<or> command = 8 then
        bindR (set_recipient (wordAsAddress input 0) s) (\<lambda>s'.
        bindR (pathFirstToken input 3) (\<lambda>c. case c of
            None \<Rightarrow> Inr (Inl ''swap path is not decodable'')
          | Some currency \<Rightarrow> add_outflow currency (wordAt input 1) s'))
      else if command = 1 \<or> command = 9 then
        bindR (set_recipient (wordAsAddress input 0) s) (\<lambda>s'.
        bindR (pathLastToken input 3) (\<lambda>c. case c of
            None \<Rightarrow> Inr (Inl ''swap path is not decodable'')
          | Some currency \<Rightarrow> add_outflow currency (wordAt input 2) s'))
      else if command = 16 then
        (case readV4Outflow input of
           None \<Rightarrow> Inr (Inl ''v4 action stream is not decodable'')
         | Some nested \<Rightarrow>
             bindR (outflow_merge nested (ss_outflow s)) (\<lambda>out. Inr (Inr (s\<lparr>ss_outflow := out\<rparr>))))
      else if command = 5 \<or> command = 2 then
        bindR (set_recipient (wordAsAddress input 1) s) (\<lambda>s'.
        bindR (wordAsAddress input 0) (\<lambda>token. add_outflow token (wordAt input 2) s'))
      else if command = 10 then
        bindR (wordAt input 1) (\<lambda>allowance.
        bindR (wordAsAddress input 0) (\<lambda>token.
          add_outflow token (Inr (if allowance \<ge> PERMIT2_UNLIMITED then UNBOUNDED else allowance)) s))
      else if command = 11 then
        add_outflow NATIVE_ASSET (wordAt input 1) s
      else if command = 12 \<or> command = 6 \<or> command = 4 then Inr (Inr s)
      else Inr (Inl (''command 0x'' @ hex2 command @ '' is not decodable'')))"

fun router_commands :: "(int option \<times> string) list \<Rightarrow> StreamState \<Rightarrow> string + StreamState" where
  "router_commands [] s = Inr s"
| "router_commands ((c, input) # rest) s =
     (case router_command (command_type c) input s of
        Inl _ \<Rightarrow> Inl (''input for command 0x'' @ hex2 (command_type c) @ '' is malformed'')
      | Inr (Inl why) \<Rightarrow> Inl why
      | Inr (Inr s') \<Rightarrow> router_commands rest s')"

definition unboundedSwap :: "Action \<Rightarrow> Address \<Rightarrow> Hex \<Rightarrow> Address \<Rightarrow> string \<Rightarrow> NormalizedIntent" where
  "unboundedSwap action router selector asset why =
     \<lparr>in_kind = UNKNOWN, in_target = router, in_selector = selector, in_nativeValue = act_value action,
      in_outflow = [\<lparr>aa_asset = asset, aa_amount = UNBOUNDED, aa_provenance = DECLARED\<rparr>],
      in_counterparty = Some router, in_notionalUSDC = UNBOUNDED,
      in_summary = ''Router call could not be bounded: '' @ why, in_raw = action\<rparr>"

definition summarise :: "int \<Rightarrow> (Address \<times> int) list \<Rightarrow> string" where
  "summarise tracked others =
     (let parts = (if tracked > 0 then [''up to '' @ displayUsdc tracked] else []) @
            map (\<lambda>(asset, amount). ''up to '' @ bigint_to_string amount @ '' base units of '' @
                  (if asset = NATIVE_ASSET then ''native ETH'' else asset)) others
      in if parts = [] then ''Router call with no outflow from this account''
         else ''Swap '' @ join '' and '' parts @ '' via Universal Router'')"

definition swap_intent :: "Action \<Rightarrow> DecoderContext \<Rightarrow> Address \<Rightarrow> StreamState \<Rightarrow> NormalizedIntent result" where
  "swap_intent action ctx router s =
     bindR (outflow_get (ss_outflow s) (dc_trackedAsset ctx)) (\<lambda>tracked.
     bindR (outflow_get (ss_outflow s) NATIVE_ASSET) (\<lambda>native.
       let others = filter (\<lambda>(asset, _). asset \<noteq> dc_trackedAsset ctx) (outflow_entries (ss_outflow s)) in
       Inr \<lparr>in_kind = SWAP, in_target = router, in_selector = selectorOf (act_data action),
            in_nativeValue = (if native > act_value action then native else act_value action),
            in_outflow = \<lparr>aa_asset = dc_trackedAsset ctx, aa_amount = tracked, aa_provenance = DECODED\<rparr> #
              map (\<lambda>(asset, amount). \<lparr>aa_asset = asset, aa_amount = amount, aa_provenance = DECODED\<rparr>) others,
            in_counterparty = Some (case ss_recipient s of None \<Rightarrow> router | Some r \<Rightarrow> r),
            in_notionalUSDC = tracked,
            in_summary = summarise tracked others,
            in_raw = action\<rparr>))"

definition uniswap_decode :: "Action \<Rightarrow> DecoderContext \<Rightarrow> NormalizedIntent option result" where
  "uniswap_decode action ctx =
     (let selector = selectorOf (act_data action) in
      bindR (normalizeAddress (act_to action)) (\<lambda>router.
        let failed = (\<lambda>why. Inr (Some (unboundedSwap action router selector (dc_trackedAsset ctx) why))) in
        case readCommandStream (act_data action) (selector = SELECTOR_EXECUTE) of
          Inl _ \<Rightarrow> failed ''command stream is malformed''
        | Inr (commands, inputs) \<Rightarrow>
            (case router_commands (zip commands inputs) \<lparr>ss_outflow = [], ss_recipient = None\<rparr> of
               Inl why \<Rightarrow> failed why
             | Inr s \<Rightarrow> bindR (swap_intent action ctx router s) (\<lambda>i. Inr (Some i)))))"

definition uniswapV4Decoder :: SelectorDecoder where
  "uniswapV4Decoder = \<lparr>sd_name = ''uniswapV4'',
     sd_selectors = [SELECTOR_EXECUTE, SELECTOR_EXECUTE_NO_DEADLINE], sd_decode = uniswap_decode\<rparr>"

text \<open>\<^verbatim>\<open>decode/index.ts\<close>: the registry the SDK uses by default.\<close>

definition createDefaultRegistry :: "DecoderRegistry result" where
  "createDefaultRegistry =
     bindR (register erc20Decoder empty_registry) (\<lambda>r1.
     bindR (register uniswapV4Decoder r1) (\<lambda>r2.
     bindR (register x402Decoder r2) (\<lambda>r3. register nativeDecoder r3)))"

section \<open>Outflow lemmas\<close>

lemma outflow_value_update:
  "outflow_value (AList.update k v out) a = (if a = k then v else outflow_value out a)"
  by (simp add: outflow_value_def update_conv')

lemma outflow_value_nonneg: "\<forall>(a, v) \<in> set out. 0 \<le> v \<Longrightarrow> 0 \<le> outflow_value out a"
  by (auto simp: outflow_value_def dest: map_of_SomeD split: option.splits)

definition nonneg_outflow :: "Outflow \<Rightarrow> bool" where
  "nonneg_outflow out = (distinct (map fst out) \<and> (\<forall>a. 0 \<le> outflow_value out a))"

lemma nonneg_outflow_Nil [simp]: "nonneg_outflow []"
  by (simp add: nonneg_outflow_def outflow_value_def)

lemma outflow_add_eq: "outflow_add a v out = Inr out' \<longleftrightarrow>
    (\<exists>k. canonicalAsset a = Inr k \<and> out' = AList.update k (outflow_value out k + v) out)"
  by (auto simp: outflow_add_def bindR_eq_Inr)

lemma outflow_add_value:
  "outflow_add a v out = Inr out' \<Longrightarrow> canonicalAsset a = Inr k \<Longrightarrow>
     outflow_value out' b = outflow_value out b + (if b = k then v else 0)"
  by (auto simp: outflow_add_eq outflow_value_update)

lemma outflow_add_nonneg:
  "outflow_add a v out = Inr out' \<Longrightarrow> 0 \<le> v \<Longrightarrow> nonneg_outflow out \<Longrightarrow> nonneg_outflow out'"
  by (auto simp: outflow_add_eq nonneg_outflow_def outflow_value_update distinct_update)

lemma outflow_add_mono:
  "outflow_add a v out = Inr out' \<Longrightarrow> 0 \<le> v \<Longrightarrow> outflow_value out b \<le> outflow_value out' b"
  by (auto simp: outflow_add_eq outflow_value_update)

lemma outflow_atLeast_nonneg:
  "outflow_atLeast a v out = Inr out' \<Longrightarrow> 0 \<le> v \<Longrightarrow> nonneg_outflow out \<Longrightarrow> nonneg_outflow out'"
  by (auto simp: outflow_atLeast_def bindR_eq_Inr nonneg_outflow_def outflow_value_update distinct_update
      split: if_splits)

lemma outflow_atLeast_mono:
  "outflow_atLeast a v out = Inr out' \<Longrightarrow> outflow_value out b \<le> outflow_value out' b"
  by (auto simp: outflow_atLeast_def bindR_eq_Inr outflow_value_update split: if_splits)

lemma outflow_entries_nonneg: "nonneg_outflow out \<Longrightarrow> (a, v) \<in> set out \<Longrightarrow> 0 \<le> v"
  by (auto simp: nonneg_outflow_def outflow_value_def) (metis map_of_is_SomeI option.simps(5))

lemma outflow_merge_nonneg_mono:
  assumes "outflow_merge new out = Inr out'" and "\<forall>(a, v) \<in> set new. 0 \<le> v" and "nonneg_outflow out"
  shows "nonneg_outflow out' \<and> (\<forall>b. outflow_value out b \<le> outflow_value out' b)"
  using assms
proof (induction new out rule: outflow_merge.induct)
  case (2 asset amount rest out)
  then obtain mid where mid: "outflow_add asset amount out = Inr mid" "outflow_merge rest mid = Inr out'"
    by (auto simp: bindR_eq_Inr)
  with 2 have "nonneg_outflow mid" by (auto intro: outflow_add_nonneg)
  with 2 mid have "nonneg_outflow out' \<and> (\<forall>b. outflow_value mid b \<le> outflow_value out' b)" by auto
  with 2 mid show ?case by (auto dest: outflow_add_mono [OF mid(1)] intro: order_trans)
qed simp

lemma wordAt_nonneg: "wordAt s i = Inr v \<Longrightarrow> 0 \<le> v"
  by (auto simp: wordAt_def Let_def dest: bigint_hex_Inr_nonneg split: if_splits)

section \<open>Decoding keeps every bound\<close>

text \<open>
  One step of either loop keeps the outflow non-negative and never lowers the bound of any
  asset, so a later command cannot hide what an earlier one authorised.
\<close>

lemma v4_action_mono:
  assumes "v4_action action params out = Inr (Some out')" and "nonneg_outflow out"
  shows "nonneg_outflow out' \<and> (\<forall>b. outflow_value out b \<le> outflow_value out' b)"
  using assms
  by (auto simp: v4_action_def bindR_eq_Inr dest!: wordAt_nonneg
      intro: outflow_add_nonneg outflow_atLeast_nonneg outflow_add_mono outflow_atLeast_mono
      split: if_splits)

lemma v4_actions_mono:
  "v4_actions as out = Some out' \<Longrightarrow> nonneg_outflow out \<Longrightarrow>
     nonneg_outflow out' \<and> (\<forall>b. outflow_value out b \<le> outflow_value out' b)"
proof (induction as out rule: v4_actions.induct)
  case (2 action params rest out)
  then obtain mid where "v4_action action params out = Inr (Some mid)" "v4_actions rest mid = Some out'"
    by (auto split: sum.splits option.splits)
  with 2 v4_action_mono show ?case by (metis order_trans)
qed simp

lemma readV4Outflow_nonneg: "readV4Outflow input = Some out \<Longrightarrow> nonneg_outflow out"
  by (auto simp: readV4Outflow_def dest: v4_actions_mono split: sum.splits)

lemma set_recipient_outflow: "set_recipient e s = Inr s' \<Longrightarrow> ss_outflow s' = ss_outflow s"
  by (auto simp: set_recipient_def bindR_eq_Inr split: option.splits)

lemma add_outflow_mono:
  assumes "add_outflow c amount s = Inr (Inr s')" and "\<And>v. amount = Inr v \<Longrightarrow> 0 \<le> v"
    and "nonneg_outflow (ss_outflow s)"
  shows "nonneg_outflow (ss_outflow s') \<and> (\<forall>b. outflow_value (ss_outflow s) b \<le> outflow_value (ss_outflow s') b)"
  using assms by (auto simp: add_outflow_def bindR_eq_Inr intro: outflow_add_nonneg outflow_add_mono)

text \<open>What a successful command does to the state: at most one addition or one merge.\<close>

lemma router_command_cases:
  assumes "router_command c input s = Inr (Inr s')"
  obtains (word) m cur i where "ss_outflow m = ss_outflow s" "add_outflow cur (wordAt input i) m = Inr (Inr s')"
  | (merge) new where "readV4Outflow input = Some new" "outflow_merge new (ss_outflow s) = Inr (ss_outflow s')"
  | (permit) cur v where "0 \<le> v" "add_outflow cur (Inr v) s = Inr (Inr s')"
  | (same) "s' = s"
proof -
  note set = set_recipient_outflow
  consider "c = 0 \<or> c = 8" | "c = 1 \<or> c = 9" | "c = 16" | "c = 5 \<or> c = 2" | "c = 10" | "c = 11"
    | "c \<notin> {0, 8, 1, 9, 16, 5, 2, 10, 11}" by blast
  then show thesis
  proof cases
    case 1
    with assms obtain m cur where "set_recipient (wordAsAddress input 0) s = Inr m"
      "add_outflow cur (wordAt input 1) m = Inr (Inr s')"
      by (auto simp: router_command_def bindR_eq_Inr split: option.splits)
    then show thesis using that(1) set by blast
  next
    case 2
    with assms obtain m cur where "set_recipient (wordAsAddress input 0) s = Inr m"
      "add_outflow cur (wordAt input 2) m = Inr (Inr s')"
      by (auto simp: router_command_def bindR_eq_Inr split: option.splits)
    then show thesis using that(1) set by blast
  next
    case 3
    with assms that(2) show thesis
      by (auto simp: router_command_def bindR_eq_Inr split: option.splits)
  next
    case 4
    with assms obtain m cur where "set_recipient (wordAsAddress input 1) s = Inr m"
      "add_outflow cur (wordAt input 2) m = Inr (Inr s')"
      by (auto simp: router_command_def bindR_eq_Inr)
    then show thesis using that(1) set by blast
  next
    case 5
    with assms obtain v cur where v: "wordAt input 1 = Inr v"
      "add_outflow cur (Inr (if v \<ge> PERMIT2_UNLIMITED then UNBOUNDED else v)) s = Inr (Inr s')"
      by (auto simp: router_command_def bindR_eq_Inr)
    moreover have "0 \<le> (if v \<ge> PERMIT2_UNLIMITED then UNBOUNDED else v)"
      using wordAt_nonneg [OF v(1)] by simp
    ultimately show thesis using that(3) by blast
  next
    case 6
    with assms that(1) [of s NATIVE_ASSET 1] show thesis by (simp add: router_command_def)
  next
    case 7
    with assms that(4) show thesis by (auto simp: router_command_def split: if_splits)
  qed
qed

lemma router_command_mono:
  assumes "router_command c input s = Inr (Inr s')" and "nonneg_outflow (ss_outflow s)"
  shows "nonneg_outflow (ss_outflow s') \<and> (\<forall>b. outflow_value (ss_outflow s) b \<le> outflow_value (ss_outflow s') b)"
  using assms(1)
proof (cases rule: router_command_cases)
  case (word m cur i)
  with assms(2) add_outflow_mono [OF word(2)] show ?thesis by (simp add: wordAt_nonneg)
next
  case (merge new)
  then have "\<forall>(a, v) \<in> set new. 0 \<le> v" using outflow_entries_nonneg readV4Outflow_nonneg by blast
  with outflow_merge_nonneg_mono [OF merge(2)] assms(2) show ?thesis by blast
next
  case (permit cur v)
  with add_outflow_mono [OF permit(2)] assms(2) show ?thesis by simp
qed (use assms(2) in simp)

lemma router_commands_mono:
  "router_commands cs s = Inr s' \<Longrightarrow> nonneg_outflow (ss_outflow s) \<Longrightarrow>
     nonneg_outflow (ss_outflow s') \<and> (\<forall>b. outflow_value (ss_outflow s) b \<le> outflow_value (ss_outflow s') b)"
proof (induction cs s rule: router_commands.induct)
  case (2 c input rest s)
  then obtain mid where mid: "router_command (command_type c) input s = Inr (Inr mid)"
    "router_commands rest mid = Inr s'"
    by (auto split: sum.splits)
  note m = router_command_mono [OF mid(1) 2(3)]
  then have "nonneg_outflow (ss_outflow s') \<and> (\<forall>b. outflow_value (ss_outflow mid) b \<le> outflow_value (ss_outflow s') b)"
    using 2(1) [OF mid(1) refl mid(2)] by simp
  with m show ?case by (meson order_trans)
qed simp

text \<open>A stream decodes only if every one of its commands does.\<close>

lemma router_commands_append:
  "router_commands (xs @ ys) s = (case router_commands xs s of Inl w \<Rightarrow> Inl w | Inr m \<Rightarrow> router_commands ys m)"
  by (induction xs s rule: router_commands.induct) (auto split: sum.splits)

lemma router_commands_unknown:
  assumes "(c, input) \<in> set cs" and "\<And>s. \<nexists>s'. router_command (command_type c) input s = Inr (Inr s')"
  shows "\<exists>w. router_commands cs s = Inl w"
proof -
  obtain xs ys where "cs = xs @ (c, input) # ys" using assms(1) by (meson split_list)
  moreover have "\<exists>w. router_commands ((c, input) # ys) m = Inl w" for m
    using assms(2) [of m] by (auto split: sum.splits)
  ultimately show ?thesis by (auto simp: router_commands_append split: sum.splits)
qed

section \<open>The decoder contract\<close>

lemma outflow_get_Inr: "outflow_get out a = Inr v \<longleftrightarrow> (\<exists>k. canonicalAsset a = Inr k \<and> v = outflow_value out k)"
  by (auto simp: outflow_get_def bindR_eq_Inr)

lemma tracked_outflow_others:
  "tracked_outflow t (map (\<lambda>(asset, amount). \<lparr>aa_asset = asset, aa_amount = amount, aa_provenance = p\<rparr>)
     (filter (\<lambda>(asset, _). asset \<noteq> t) out)) = 0"
  by (induction out) auto

lemma swap_intent_notional:
  "swap_intent a ctx r s = Inr i \<Longrightarrow>
     in_notionalUSDC i = tracked_outflow (dc_trackedAsset ctx) (in_outflow i) \<and>
     outflow_get (ss_outflow s) (dc_trackedAsset ctx) = Inr (in_notionalUSDC i)"
  by (auto simp: swap_intent_def bindR_eq_Inr Let_def tracked_outflow_others)

lemma uniswap_decode_cases:
  assumes "uniswap_decode a ctx = Inr (Some i)"
  obtains (failed) router why where "normalizeAddress (act_to a) = Inr router"
      "i = unboundedSwap a router (selectorOf (act_data a)) (dc_trackedAsset ctx) why"
  | (swap) router cs ins s where "normalizeAddress (act_to a) = Inr router"
      "readCommandStream (act_data a) (selectorOf (act_data a) = SELECTOR_EXECUTE) = Inr (cs, ins)"
      "router_commands (zip cs ins) \<lparr>ss_outflow = [], ss_recipient = None\<rparr> = Inr s"
      "swap_intent a ctx router s = Inr i"
proof -
  from assms obtain router where r: "normalizeAddress (act_to a) = Inr router"
    by (auto simp: uniswap_decode_def Let_def bindR_eq_Inr)
  show thesis
  proof (cases "readCommandStream (act_data a) (selectorOf (act_data a) = SELECTOR_EXECUTE)")
    case (Inl e)
    with assms r failed show thesis by (auto simp: uniswap_decode_def Let_def)
  next
    case (Inr p)
    obtain cs ins where p: "p = (cs, ins)" by fastforce
    show thesis
    proof (cases "router_commands (zip cs ins) \<lparr>ss_outflow = [], ss_recipient = None\<rparr>")
      case (Inl w)
      with assms r p Inr failed show thesis by (auto simp: uniswap_decode_def Let_def)
    next
      case i: (Inr s)
      with assms r p Inr swap show thesis by (auto simp: uniswap_decode_def Let_def bindR_eq_Inr)
    qed
  qed
qed

interpretation uniswap: selector_decoder uniswap_decode
proof
  fix a ctx i assume d: "uniswap_decode a ctx = Inr (Some i)"
  show "in_raw i = a" "normalizeAddress (act_to a) = Inr (in_target i)"
    "in_selector i = selectorOf (act_data a)"
    using d by (cases rule: uniswap_decode_cases;
        auto simp: unboundedSwap_def swap_intent_def bindR_eq_Inr Let_def)+
  show "in_kind i = UNKNOWN \<Longrightarrow> in_notionalUSDC i = UNBOUNDED"
    using d by (cases rule: uniswap_decode_cases;
        auto simp: unboundedSwap_def swap_intent_def bindR_eq_Inr Let_def)+
  show "in_notionalUSDC i = tracked_outflow (dc_trackedAsset ctx) (in_outflow i)"
    using d by (cases rule: uniswap_decode_cases) (auto simp: unboundedSwap_def dest: swap_intent_notional)
  show "0 \<le> in_notionalUSDC i"
    using d
  proof (cases rule: uniswap_decode_cases)
    case (swap router cs ins s)
    then have "nonneg_outflow (ss_outflow s)" using router_commands_mono by fastforce
    moreover obtain k where "in_notionalUSDC i = outflow_value (ss_outflow s) k"
      using swap_intent_notional [OF swap(4)] unfolding outflow_get_Inr by blast
    ultimately show ?thesis by (simp add: nonneg_outflow_def)
  qed (simp add: unboundedSwap_def)
qed

section \<open>The default registry\<close>

definition default_registry :: DecoderRegistry where
  "default_registry =
     \<lparr>reg_bySelector = map (\<lambda>s. (s, erc20Decoder)) [SELECTOR_TRANSFER, SELECTOR_TRANSFER_FROM,
          SELECTOR_APPROVE, SELECTOR_INCREASE_ALLOWANCE, SELECTOR_PERMIT2_APPROVE] @
        map (\<lambda>s. (s, uniswapV4Decoder)) [SELECTOR_EXECUTE, SELECTOR_EXECUTE_NO_DEADLINE] @
        [(SELECTOR_X402_SETTLE, x402Decoder)],
      reg_wildcards = [nativeDecoder]\<rparr>"

lemmas selector_defs = erc20_selectors SELECTOR_EXECUTE_def SELECTOR_EXECUTE_NO_DEADLINE_def SELECTOR_X402_SETTLE_def

lemma selectors_lower: "map toLowerCase [SELECTOR_TRANSFER, SELECTOR_TRANSFER_FROM,
    SELECTOR_APPROVE, SELECTOR_INCREASE_ALLOWANCE, SELECTOR_PERMIT2_APPROVE, SELECTOR_EXECUTE,
    SELECTOR_EXECUTE_NO_DEADLINE, SELECTOR_X402_SETTLE] =
   [SELECTOR_TRANSFER, SELECTOR_TRANSFER_FROM, SELECTOR_APPROVE, SELECTOR_INCREASE_ALLOWANCE,
    SELECTOR_PERMIT2_APPROVE, SELECTOR_EXECUTE, SELECTOR_EXECUTE_NO_DEADLINE, SELECTOR_X402_SETTLE]"
  by code_simp

lemma selectors_distinct: "distinct [''*'', SELECTOR_TRANSFER, SELECTOR_TRANSFER_FROM,
    SELECTOR_APPROVE, SELECTOR_INCREASE_ALLOWANCE, SELECTOR_PERMIT2_APPROVE, SELECTOR_EXECUTE,
    SELECTOR_EXECUTE_NO_DEADLINE, SELECTOR_X402_SETTLE]"
  by code_simp

lemma createDefaultRegistry_eq: "createDefaultRegistry = Inr default_registry"
proof -
  let ?e = "[SELECTOR_TRANSFER, SELECTOR_TRANSFER_FROM, SELECTOR_APPROVE, SELECTOR_INCREASE_ALLOWANCE,
    SELECTOR_PERMIT2_APPROVE]"
  let ?r1 = "empty_registry\<lparr>reg_bySelector := map (\<lambda>s. (s, erc20Decoder)) ?e\<rparr>"
  let ?r2 = "?r1\<lparr>reg_bySelector := reg_bySelector ?r1 @
    map (\<lambda>s. (s, uniswapV4Decoder)) [SELECTOR_EXECUTE, SELECTOR_EXECUTE_NO_DEADLINE]\<rparr>"
  let ?r3 = "?r2\<lparr>reg_bySelector := reg_bySelector ?r2 @ map (\<lambda>s. (s, x402Decoder)) [SELECTOR_X402_SETTLE]\<rparr>"
  note facts = selectors_lower selectors_distinct
  have "register_selectors erc20Decoder ?e empty_registry = Inr ?r1"
    using facts by (subst register_selectors_fresh) (auto simp: empty_registry_def)
  moreover have "register_selectors uniswapV4Decoder [SELECTOR_EXECUTE, SELECTOR_EXECUTE_NO_DEADLINE] ?r1 = Inr ?r2"
    using facts by (subst register_selectors_fresh) auto
  moreover have "register_selectors x402Decoder [SELECTOR_X402_SETTLE] ?r2 = Inr ?r3"
    using facts by (subst register_selectors_fresh) auto
  moreover have "sd_selectors erc20Decoder = ?e" "sd_selectors x402Decoder = [SELECTOR_X402_SETTLE]"
    "sd_selectors uniswapV4Decoder = [SELECTOR_EXECUTE, SELECTOR_EXECUTE_NO_DEADLINE]"
    "sd_selectors nativeDecoder = [''*'']"
    by (simp_all add: erc20Decoder_def uniswapV4Decoder_def x402Decoder_def nativeDecoder_def)
  ultimately show ?thesis
    by (simp only: createDefaultRegistry_def register_def bindR_Inr)
      (simp add: default_registry_def empty_registry_def)
qed

lemma default_registry_lawful: "lawful_registry default_registry"
  using erc20.selector_decoder_axioms uniswap.selector_decoder_axioms
    x402.selector_decoder_axioms native.selector_decoder_axioms
  by (auto simp: lawful_registry_def registry_decoders_def default_registry_def
      erc20Decoder_def uniswapV4Decoder_def x402Decoder_def nativeDecoder_def)

interpretation default_reg: selector_decoder
  "\<lambda>a ctx. bindR (registry_decode default_registry a ctx) (\<lambda>i. Inr (Some i))"
  by (rule lawful_registry_decoder [OF default_registry_lawful])

end
