(* ===== verification/Calldata.thy ===== *)
theory Calldata
  imports UniswapV4
begin

text \<open>
  \<^verbatim>\<open>packages/sdk/src/testing/calldata.ts\<close> (and the execution wrapper of
  \<^verbatim>\<open>adapters/executors.ts\<close>): the encoders agents, tests and the demo use. The lemmas are
  round trips: the decoders recover what the encoders were given.
\<close>

section \<open>Encoders\<close>

text \<open>\<^verbatim>\<open>BigInt(address)\<close> for a value of the type \<^verbatim>\<open>0x\<close>-string.\<close>

definition bigint_address :: "Address \<Rightarrow> int result" where
  "bigint_address a = bigint_hex (drop 2 a)"

definition padBytes :: "string \<Rightarrow> string" where
  "padBytes hexBody = padEnd (((length hexBody + 63) div 64) * 64) (CHR ''0'') hexBody"

text \<open>\<^verbatim>\<open>BigInt(hexBody.length / 2)\<close> throws on a fraction.\<close>

definition encodeBytes :: "string \<Rightarrow> string result" where
  "encodeBytes hexBody =
     (if odd (length hexBody) then Inl (ErrorMessage ''not an integer'')
      else Inr (abi_word (int (length hexBody div 2)) @ padBytes hexBody))"

definition encodeErc20Transfer :: "Address \<Rightarrow> int \<Rightarrow> Hex result" where
  "encodeErc20Transfer to amount =
     bindR (bigint_address to) (\<lambda>t. Inr (''0xa9059cbb'' @ abi_word t @ abi_word amount))"

definition encodeErc20Approve :: "Address \<Rightarrow> int \<Rightarrow> Hex result" where
  "encodeErc20Approve spender amount =
     bindR (bigint_address spender) (\<lambda>t. Inr (''0x095ea7b3'' @ abi_word t @ abi_word amount))"

definition encodeErc20TransferFrom :: "Address \<Rightarrow> Address \<Rightarrow> int \<Rightarrow> Hex result" where
  "encodeErc20TransferFrom from to amount =
     bindR (bigint_address from) (\<lambda>f. bindR (bigint_address to)
       (\<lambda>t. Inr (''0x23b872dd'' @ abi_word f @ abi_word t @ abi_word amount)))"

definition UNLIMITED_APPROVAL :: int where
  "UNLIMITED_APPROVAL = 2 ^ 256 - 1"

fun element_offsets :: "nat \<Rightarrow> string list \<Rightarrow> string list" where
  "element_offsets cursor [] = []"
| "element_offsets cursor (e # es) = abi_word (int cursor) # element_offsets (cursor + length e div 2) es"

definition encodeUniversalRouterExecute :: "nat list \<Rightarrow> string list \<Rightarrow> Hex result" where
  "encodeUniversalRouterExecute commands inputs =
     (if length commands \<noteq> length inputs then Inl LengthMismatch
      else
        bindR (encodeBytes (concat (map hex2 commands))) (\<lambda>commandsSection.
        bindR (mapR encodeBytes inputs) (\<lambda>elements.
          let inputsSection = abi_word (int (length elements)) @
                concat (element_offsets (length elements * 32) elements) @ concat elements;
              offsetInputs = 64 + length commandsSection div 2
          in Inr (''0x24856bc3'' @ abi_word 64 @ abi_word (int offsetInputs) @ commandsSection @ inputsSection))))"

record ExactParams =
  xe_recipient :: Address
  xe_amount :: int \<comment> \<open>\<^verbatim>\<open>amountIn\<close>, or \<^verbatim>\<open>amountOut\<close> of an exact-output swap\<close>
  xe_bound :: int \<comment> \<open>\<^verbatim>\<open>amountOutMin\<close> (default 0), or \<^verbatim>\<open>amountInMaximum\<close>\<close>
  xe_tokenIn :: Address
  xe_tokenOut :: Address
  xe_fee :: nat \<comment> \<open>default 3000\<close>

definition encode_swap_input :: "ExactParams \<Rightarrow> string \<Rightarrow> string result" where
  "encode_swap_input params path =
     bindR (bigint_address (xe_recipient params)) (\<lambda>r.
     bindR (encodeBytes path) (\<lambda>p.
       Inr (abi_word r @ abi_word (xe_amount params) @ abi_word (xe_bound params) @ abi_word (5 * 32) @ abi_word 1 @ p)))"

definition encodeExactInInput :: "ExactParams \<Rightarrow> string result" where
  "encodeExactInInput params =
     encode_swap_input params (drop 2 (xe_tokenIn params) @ padStart 6 (CHR ''0'') (to_hex (xe_fee params)) @
       drop 2 (xe_tokenOut params))"

definition encodeExactOutInput :: "ExactParams \<Rightarrow> string result" where
  "encodeExactOutInput params =
     encode_swap_input params (drop 2 (xe_tokenOut params) @ padStart 6 (CHR ''0'') (to_hex (xe_fee params)) @
       drop 2 (xe_tokenIn params))"

definition encodeSwapExactIn :: "ExactParams \<Rightarrow> Hex result" where
  "encodeSwapExactIn params = bindR (encodeExactInInput params) (\<lambda>i. encodeUniversalRouterExecute [0] [i])"

definition encodeSwapExactOut :: "ExactParams \<Rightarrow> Hex result" where
  "encodeSwapExactOut params = bindR (encodeExactOutInput params) (\<lambda>i. encodeUniversalRouterExecute [1] [i])"

definition encodeErc7579Execute :: "Address \<Rightarrow> int \<Rightarrow> Hex \<Rightarrow> Hex result" where
  "encodeErc7579Execute target value callData =
     bindR (encodeBytes (drop 2 target @ abi_word value @ drop 2 callData))
       (\<lambda>b. Inr (''0xe9ae5c53'' @ abi_word 0 @ abi_word 64 @ b))"

text \<open>The executors' own copy of the same wrapper.\<close>

definition executor_encodeErc7579Execute :: "Address \<Rightarrow> int \<Rightarrow> Hex \<Rightarrow> Hex result" where
  "executor_encodeErc7579Execute target value callData =
     (let packed = drop 2 target @ abi_word value @ drop 2 callData in
      if odd (length packed) then Inl (ErrorMessage ''not an integer'')
      else
        let len = length packed div 2;
            padded = padEnd (((len + 31) div 32) * 64) (CHR ''0'') packed
        in Inr (''0xe9ae5c53'' @ abi_word 0 @ abi_word 64 @ abi_word (int len) @ padded))"

section \<open>Static calls\<close>

lemma bigint_address_wf [simp]:
  "is_address a \<Longrightarrow> bigint_address a = Inr (address_value a)"
  by (elim is_addressE) (auto simp: bigint_address_def address_value_def intro!: bigint_hex_ok)

lemma selector_words: "length sel = 10 \<Longrightarrow> selectorOf (sel @ w) = sel"
  by (simp add: selectorOf_def js_slice_def)

lemma read_encoded:
  assumes "d = sel @ concat (map abi_word ws) @ rest" and "length sel = 10" and "list_all uint256 ws"
  shows "selectorOf d = sel"
    and "i < length ws \<Longrightarrow> readWord d i = Inr (ws ! i)"
    and "i < length ws \<Longrightarrow> ws ! i = address_value a \<Longrightarrow> wf_address a \<Longrightarrow> readAddress d i = Inr a"
  using assms readWord_words [of sel ws i rest] by (auto simp: selector_words readAddress_word)

section \<open>Byte strings\<close>

lemma padBytes_split: "\<exists>k. padBytes s = s @ replicate k (CHR ''0'')"
  by (auto simp: padBytes_def padEnd_def)

lemma length_padBytes: "length (padBytes s) = ((length s + 63) div 64) * 64"
proof -
  have "length s \<le> ((length s + 63) div 64) * 64" by presburger
  then show ?thesis by (simp add: padBytes_def length_padEnd max_def)
qed

lemma even_length_padBytes: "even (length (padBytes s))"
  by (simp add: length_padBytes)

lemma executor_encode_agrees: "executor_encodeErc7579Execute t v c = encodeErc7579Execute t v c"
proof -
  have "even n \<Longrightarrow> ((n div 2 + 31) div 32) * 64 = ((n + 63) div 64) * (64::nat)" for n
  proof (elim evenE)
    fix k assume n: "n = 2 * k"
    have "(2 * k + 63) div 64 = (2 * k + 63) div 2 div 32" by (simp flip: div_mult2_eq)
    moreover have "(2 * k + 63) div 2 = k + 31" by simp
    ultimately show ?thesis by (simp add: n)
  qed
  moreover define packed where "packed = drop 2 t @ abi_word v @ drop 2 c"
  ultimately show ?thesis
    unfolding executor_encodeErc7579Execute_def encodeErc7579Execute_def encodeBytes_def padBytes_def Let_def
      packed_def [symmetric] by simp
qed

lemma hex2_eq: "n < 256 \<Longrightarrow> hex2 n = [digit_char (n div 16), digit_char (n mod 16)]"
proof -
  assume "n < 256"
  then have "n div 16 < 16" by (simp add: less_mult_imp_div_less)
  then show ?thesis
    by (cases "n < 16") (simp_all add: hex2_def padStart_def to_base.simps [of 16 n] to_base.simps [of 16 "n div 16"])
qed

lemma parse_pairs_hex2: "list_all (\<lambda>c. c < 256) cs \<Longrightarrow> parse_pairs (concat (map hex2 cs)) = map (\<lambda>c. Some (int c)) cs"
proof (induction cs)
  case (Cons c cs)
  then have "c < 256" by simp
  then have "c div 16 < 16" by (simp add: less_mult_imp_div_less)
  with Cons \<open>c < 256\<close> parseInt16_digits [of "c div 16" "c mod 16"] show ?case by (simp add: hex2_eq)
qed simp

lemma length_concat_hex2: "list_all (\<lambda>c. c < 256) cs \<Longrightarrow> length (concat (map hex2 cs)) = 2 * length cs"
  by (induction cs) (auto simp: hex2_eq)

section \<open>Slices of a concatenation\<close>

text \<open>
  A position in a string is described by the text before it: \<open>text_at s k r\<close> says that the suffix
  of \<open>s\<close> from position \<open>k\<close> is \<open>r\<close>.
\<close>

definition text_at :: "string \<Rightarrow> nat \<Rightarrow> string \<Rightarrow> bool" where
  "text_at s k r = (drop k s = r)"

lemma at_start: "text_at s 0 s"
  by (simp add: text_at_def)

lemma at_skip: "text_at s k (u @ r) \<Longrightarrow> text_at s (k + length u) r"
  by (simp add: text_at_def) (metis append_eq_conv_conj drop_drop add.commute)

lemma at_slice: "text_at s k (u @ r) \<Longrightarrow> b = k + length u \<Longrightarrow> js_slice s k b = u"
  by (simp add: text_at_def js_slice_def)

lemma at_word: "text_at s k (abi_word v @ r) \<Longrightarrow> uint256 v \<Longrightarrow> bigint_hex (js_slice s k (k + 64)) = Inr v"
  using at_slice [of s k "abi_word v" r "k + 64"] by (simp add: uint256_def)

lemma at_concat: "text_at s k (concat xs @ r) \<Longrightarrow> i \<le> length xs \<Longrightarrow>
    text_at s (k + length (concat (take i xs))) (concat (drop i xs) @ r)"
  using at_skip [of s k "concat (take i xs)" "concat (drop i xs) @ r"]
  by (metis append.assoc append_take_drop_id concat_append)

definition encoded_bytes :: "string \<Rightarrow> string" where
  "encoded_bytes e = abi_word (int (length e div 2)) @ padBytes e"

lemma encodeBytes_Inr: "encodeBytes e = Inr r \<longleftrightarrow> even (length e) \<and> r = encoded_bytes e"
  by (auto simp: encodeBytes_def encoded_bytes_def split: if_splits)

lemma mapR_encodeBytes:
  "mapR encodeBytes ins = Inr es \<longleftrightarrow> list_all (\<lambda>e. even (length e)) ins \<and> es = map encoded_bytes ins"
  by (induction ins arbitrary: es) (auto simp: bindR_eq_Inr encodeBytes_Inr)

text \<open>A \<^verbatim>\<open>bytes\<close> argument read back from where it was written.\<close>

lemma at_bytes:
  assumes "text_at s k (encoded_bytes e @ r)" and "even (length e)" and "uint256 (int (length e div 2))"
  shows "bigint_hex (js_slice s k (k + 64)) = Inr (int (length e div 2))"
    and "js_slice s (k + 64) (k + 64 + length e div 2 * 2) = e"
proof -
  obtain z where z: "padBytes e = e @ replicate z (CHR ''0'')" using padBytes_split by blast
  have a: "text_at s k (abi_word (int (length e div 2)) @ e @ replicate z (CHR ''0'') @ r)"
    using assms(1) z by (simp add: encoded_bytes_def)
  then show "bigint_hex (js_slice s k (k + 64)) = Inr (int (length e div 2))"
    using assms(3) by (rule at_word)
  have "text_at s (k + 64) (e @ replicate z (CHR ''0'') @ r)"
    using at_skip [OF a] assms(3) by simp
  then show "js_slice s (k + 64) (k + 64 + length e div 2 * 2) = e"
    by (rule at_slice) (use assms(2) in simp)
qed

section \<open>Command streams\<close>

lemma length_element_offsets [simp]: "length (element_offsets c es) = length es"
  by (induction es arbitrary: c) auto

lemma nth_element_offsets:
  assumes "i < length es" and "list_all (\<lambda>e. even (length e)) es"
  shows "element_offsets c es ! i = abi_word (int (c + length (concat (take i es)) div 2))"
  using assms
proof (induction es arbitrary: c i)
  case (Cons e es)
  then show ?case by (cases i) (auto simp: add.assoc)
qed simp

lemma length_concat_take: "length (concat (take i xs)) \<le> length (concat xs)"
  by (metis append_take_drop_id concat_append le_add1 length_append)

lemma length_abi_word_ge: "64 \<le> length (abi_word v)"
  by (simp add: abi_word_def length_padStart)

lemma even_encoded_bytes:
  "uint256 (int (length e div 2)) \<Longrightarrow> even (length (encoded_bytes e))"
  by (simp add: encoded_bytes_def even_length_padBytes)

lemma length_le_encoded_bytes: "length e \<le> length (encoded_bytes e)"
proof -
  obtain z where "padBytes e = e @ replicate z (CHR ''0'')" using padBytes_split by blast
  then show ?thesis by (simp add: encoded_bytes_def)
qed

lemma length_mem_concat: "x \<in> set xs \<Longrightarrow> length x \<le> length (concat xs)"
  by (induction xs) auto

lemma concat_words_length: "\<forall>w \<in> set ws. length w = 64 \<Longrightarrow> length (concat ws) = 64 * length ws"
  by (induction ws) auto

lemma uint256_le: "k < 2 ^ 256 \<Longrightarrow> uint256 (int k)"
proof -
  assume "k < 2 ^ 256"
  then have "int k < int (2 ^ 256)" by (simp only: of_nat_less_iff)
  then show ?thesis by (simp add: uint256_def UINT256_MAX_def)
qed

lemma readElement_encoded:
  assumes body: "text_at body (P + 64) (concat (element_offsets (length ins * 32) (map encoded_bytes ins)) @
      concat (map encoded_bytes ins))"
    and ev: "list_all (\<lambda>e. even (length e)) ins"
    and size: "length body < 2 ^ 256" and P: "P \<le> length body" and i: "i < length ins"
  shows "readElement body P i = Inr (ins ! i)"
proof -
  let ?es = "map encoded_bytes ins"
  let ?off = "element_offsets (length ins * 32) ?es"
  have "length (drop (P + 64) body) = length (concat ?off) + length (concat ?es)"
    using body by (simp add: text_at_def)
  then have lens: "length (concat ?off) + length (concat ?es) \<le> length body"
    by simp
  have len_e: "uint256 (int (length e div 2))" if "e \<in> set ins" for e
  proof (rule uint256_le)
    have "length e \<le> length (concat ?es)"
      using that length_mem_concat [of "encoded_bytes e" ?es] length_le_encoded_bytes [of e] by simp
    with lens size show "length e div 2 < 2 ^ 256" by linarith
  qed
  have ev_es: "list_all (\<lambda>e. even (length e)) ?es"
    using len_e by (auto simp: list_all_iff even_encoded_bytes)
  have "64 * length ins \<le> length (concat ?off)"
  proof -
    have "64 * length ws \<le> length (concat ws)" if "\<forall>w \<in> set ws. 64 \<le> length w" for ws :: "string list"
      using that by (induction ws) auto
    moreover have "\<forall>w \<in> set ?off. 64 \<le> length w"
      by (metis in_set_conv_nth length_element_offsets nth_element_offsets ev_es length_abi_word_ge)
    ultimately show ?thesis by (metis length_element_offsets length_map)
  qed
  then have cur: "uint256 (int (length ins * 32 + length (concat (take j ?es)) div 2))" for j
    using lens size length_concat_take [of j ?es] by (intro uint256_le) linarith
  have off64: "length (concat (take j ?off)) = 64 * j" if "j \<le> length ins" for j
  proof -
    have "\<forall>w \<in> set ?off. length w = 64"
      using cur by (auto simp: in_set_conv_nth nth_element_offsets [OF _ ev_es])
    then have "length (concat (take j ?off)) = 64 * length (take j ?off)"
      by (intro concat_words_length) (meson in_set_takeD)
    with that show ?thesis by simp
  qed
  define rel where "rel = length ins * 32 + length (concat (take i ?es)) div 2"
  have "text_at body (P + 64 + 64 * i) (concat (drop i ?off) @ concat ?es)"
    using at_concat [OF body, of i] off64 [of i] i by simp
  then have "text_at body (P + 64 + 64 * i) (abi_word (int rel) @ concat (drop (Suc i) ?off) @ concat ?es)"
    using i nth_element_offsets [OF _ ev_es, of i "length ins * 32"]
    by (simp add: rel_def Cons_nth_drop_Suc [symmetric])
  from at_word [OF this [unfolded rel_def] cur, folded rel_def]
  have rel: "bigint_hex (js_slice body (P + 64 + i * 64) (P + 128 + i * 64)) = Inr (int rel)"
    by (simp add: add.commute add.left_commute mult.commute)
  have "text_at body (P + 64 + 64 * length ins) (concat ?es)"
    using at_skip [OF body] off64 [of "length ins"] by simp
  then have "text_at body (P + 64 + 64 * length ins + length (concat (take i ?es))) (concat (drop i ?es))"
    using at_concat [of body _ ?es "[]" i] i by simp
  moreover have "even (length (concat (take i ?es)))"
    using ev_es by (induction ins arbitrary: i) (auto simp: take_Cons split: nat.splits)
  then have "P + 64 + 64 * length ins + length (concat (take i ?es)) = P + 64 + rel * 2"
    by (simp add: rel_def algebra_simps)
  ultimately have "text_at body (P + 64 + rel * 2) (encoded_bytes (ins ! i) @ concat (drop (Suc i) ?es))"
    using i by (simp add: Cons_nth_drop_Suc [symmetric])
  note b = at_bytes [OF this _ len_e]
  have "even (length (ins ! i))" using ev i by (simp add: list_all_length)
  with b i show ?thesis by (simp add: readElement_def rel Let_def)
qed

text \<open>A whole call, read back by the decoder's \<^verbatim>\<open>readCommandStream\<close>.\<close>

lemma readCommandStream_encoded:
  assumes enc: "encodeUniversalRouterExecute cs ins = Inr d"
    and cs: "list_all (\<lambda>c. c < 256) cs" and size: "length d < 2 ^ 256"
  shows "readCommandStream d False = Inr (map (\<lambda>c. Some (int c)) cs, ins)"
proof -
  let ?h = "concat (map hex2 cs)" and ?es = "map encoded_bytes ins"
  let ?inputs = "abi_word (int (length ins)) @ concat (element_offsets (length ins * 32) ?es) @ concat ?es"
  define O2 where "O2 = 64 + length (encoded_bytes ?h) div 2"
  define body where "body = abi_word 64 @ abi_word (int O2) @ encoded_bytes ?h @ ?inputs"
  from enc have len: "length cs = length ins"
    by (auto simp: encodeUniversalRouterExecute_def split: if_splits)
  from enc have "mapR encodeBytes ins = Inr ?es" and ev: "list_all (\<lambda>e. even (length e)) ins"
    and d: "d = ''0x24856bc3'' @ body"
    by (auto simp: encodeUniversalRouterExecute_def body_def O2_def bindR_eq_Inr mapR_encodeBytes encodeBytes_Inr
        Let_def split: if_splits)
  have small: "length (encoded_bytes ?h) + length ?inputs + 138 \<le> length d"
    using length_abi_word_ge [of 64] length_abi_word_ge [of "int O2"] by (simp add: d body_def)
  have h: "length ?h = 2 * length cs" using cs by (rule length_concat_hex2)
  have u: "uint256 (int (length ?h div 2))"
    using small size length_le_encoded_bytes [of ?h] by (intro uint256_le) linarith
  have uO: "uint256 (int O2)"
    using small size by (intro uint256_le) (simp add: O2_def)
  have u64: "uint256 64" by (simp add: uint256_def UINT256_MAX_def)
  have un: "uint256 (int (length ins))"
    using u h len by simp
  have b0: "text_at body 0 (abi_word 64 @ abi_word (int O2) @ encoded_bytes ?h @ ?inputs)"
    by (simp add: text_at_def body_def)
  have b1: "text_at body 64 (abi_word (int O2) @ encoded_bytes ?h @ ?inputs)"
    using at_skip [OF b0] u64 by simp
  have b2: "text_at body 128 (encoded_bytes ?h @ ?inputs)"
    using at_skip [OF b1] uO by simp
  have b3: "text_at body (O2 * 2) ?inputs"
    using at_skip [OF b2] even_encoded_bytes [OF u] by (simp add: O2_def algebra_simps)
  have b4: "text_at body (O2 * 2 + 64) (concat (element_offsets (length ins * 32) ?es) @ concat ?es)"
    using at_skip [OF b3] un by simp
  have P: "O2 * 2 \<le> length body"
    using even_encoded_bytes [OF u] u64 uO by (auto simp: O2_def body_def elim!: evenE)
  have el: "readElement body (O2 * 2) i = Inr (ins ! i)" if "i < length ins" for i
    using readElement_encoded [OF b4 ev _ P that] size by (simp add: d)
  have "mapR (readElement body (O2 * 2)) [0..<length ins] = Inr (map ((!) ins) [0..<length ins])"
    by (rule mapR_Inr_map) (simp add: el)
  then have inputs: "mapR (readElement body (O2 * 2)) [0..<length ins] = Inr ins"
    by (simp add: map_nth)
  have w: "bigint_hex (js_slice body 0 64) = Inr 64" "bigint_hex (js_slice body 64 128) = Inr (int O2)"
    "bigint_hex (js_slice body (O2 * 2) (O2 * 2 + 64)) = Inr (int (length ins))"
    using at_word [OF b0 u64] at_word [OF b1 uO] at_word [OF b3 un] by simp_all
  note c = at_bytes [OF b2 _ u]
  have even_h: "even (length ?h)" using h by simp
  have c1: "bigint_hex (js_slice body 128 192) = Inr (int (length ins))"
    using c(1) [OF even_h] h len by simp
  have c2: "js_slice body 192 (192 + length ins * 2) = ?h"
    using c(2) [OF even_h] h len by simp
  show ?thesis
    by (simp add: readCommandStream_def Let_def d w c1 c2 inputs h parse_pairs_hex2 [OF cs] len)
qed

lemma default_registryI: "createDefaultRegistry = Inr reg \<Longrightarrow> reg = default_registry"
  unfolding createDefaultRegistry_eq by (drule sum.inject(2) [THEN iffD1]) (rule sym)

section \<open>ERC-20 calls through the default registry\<close>

lemma candidates_erc20:
  assumes "sel \<in> {SELECTOR_TRANSFER, SELECTOR_TRANSFER_FROM, SELECTOR_APPROVE, SELECTOR_INCREASE_ALLOWANCE,
    SELECTOR_PERMIT2_APPROVE}"
  shows "candidates default_registry sel = [erc20Decoder, nativeDecoder]"
  using assms selectors_lower selectors_distinct
  by (auto simp: candidates_def default_registry_def)

lemma candidates_uniswap:
  assumes "sel \<in> {SELECTOR_EXECUTE, SELECTOR_EXECUTE_NO_DEADLINE}"
  shows "candidates default_registry sel = [uniswapV4Decoder, nativeDecoder]"
  using assms selectors_lower selectors_distinct
  by (auto simp: candidates_def default_registry_def)

lemma candidates_x402: "candidates default_registry SELECTOR_X402_SETTLE = [x402Decoder, nativeDecoder]"
  using selectors_lower selectors_distinct by (auto simp: candidates_def default_registry_def)

lemma registry_first:
  assumes "candidates reg (selectorOf (act_data a)) = d # ds" and "sd_decode d a ctx = Inr (Some i)"
  shows "registry_decode reg a ctx = Inr i"
  using assms by (simp add: registry_decode_def)

lemma read_transfer:
  assumes "encodeErc20Transfer to amount = Inr d" and "wf_address to" and "uint256 amount"
  shows "selectorOf d = SELECTOR_TRANSFER" "readAddress d 0 = Inr to" "readWord d 1 = Inr amount"
  using assms read_encoded [of d "''0xa9059cbb''" "[address_value to, amount]" "[]"]
  by (auto simp: encodeErc20Transfer_def SELECTOR_TRANSFER_def)

lemma read_approve:
  assumes "encodeErc20Approve spender amount = Inr d" and "wf_address spender" and "uint256 amount"
  shows "selectorOf d = SELECTOR_APPROVE" "readAddress d 0 = Inr spender" "readWord d 1 = Inr amount"
  using assms read_encoded [of d "''0x095ea7b3''" "[address_value spender, amount]" "[]"]
  by (auto simp: encodeErc20Approve_def SELECTOR_APPROVE_def)

lemma read_transferFrom:
  assumes "encodeErc20TransferFrom from to amount = Inr d" and "wf_address from" "wf_address to" and "uint256 amount"
  shows "selectorOf d = SELECTOR_TRANSFER_FROM" "readAddress d 0 = Inr from" "readAddress d 1 = Inr to"
    "readWord d 2 = Inr amount"
  using assms read_encoded [of d "''0x23b872dd''" "[address_value from, address_value to, amount]" "[]"]
  by (auto simp: encodeErc20TransferFrom_def SELECTOR_TRANSFER_FROM_def numeral_2_eq_2)

lemma erc20_decode_transfer:
  assumes "selectorOf (act_data a) = SELECTOR_TRANSFER" and "normalizeAddress (act_to a) = Inr asset"
    and "erc20_transfer a ctx asset = Inr i"
  shows "registry_decode default_registry a ctx = Inr i"
  using assms candidates_erc20 [of SELECTOR_TRANSFER]
  by (intro registry_first) (auto simp: erc20Decoder_def erc20_decode_def)

lemma erc20_decode_approve:
  assumes "selectorOf (act_data a) = SELECTOR_APPROVE" and "normalizeAddress (act_to a) = Inr asset"
    and "erc20_approve a ctx asset = Inr i"
  shows "registry_decode default_registry a ctx = Inr i"
  using assms candidates_erc20 [of SELECTOR_APPROVE] selectors_distinct
  by (intro registry_first) (auto simp: erc20Decoder_def erc20_decode_def)

lemma erc20_decode_transferFrom:
  assumes "selectorOf (act_data a) = SELECTOR_TRANSFER_FROM" and "normalizeAddress (act_to a) = Inr asset"
    and "erc20_transferFrom a ctx asset = Inr i"
  shows "registry_decode default_registry a ctx = Inr i"
  using assms candidates_erc20 [of SELECTOR_TRANSFER_FROM] selectors_distinct
  by (intro registry_first) (auto simp: erc20Decoder_def erc20_decode_def)

section \<open>Swaps\<close>

lemma wordAt_words:
  assumes "list_all uint256 ws" and "i < length ws"
  shows "wordAt (concat (map abi_word ws) @ rest) i = Inr (ws ! i)"
proof -
  have "uint256 (ws ! i)" using assms by (simp add: list_all_length)
  then show ?thesis using slice_words [OF assms, of rest] by (simp add: wordAt_def uint256_def)
qed

lemma readPath_words:
  assumes ws: "list_all uint256 ws" "i < length ws" "ws ! i = 32 * int (length ws)"
    and path: "even (length path)" "40 \<le> length path" "uint256 (int (length path div 2))"
  shows "readPath (concat (map abi_word ws) @ encoded_bytes path) i = Some path"
proof -
  let ?s = "concat (map abi_word ws) @ encoded_bytes path"
  have "text_at ?s (64 * length ws) (encoded_bytes path @ [])"
    using ws by (simp add: text_at_def length_concat_abi_word)
  note b = at_bytes [OF this path(1,3)]
  have "nat (32 * int (length ws)) * 2 = 64 * length ws" by simp
  with b path wordAt_words [OF ws(1,2)] ws(3) show ?thesis
    by (simp add: readPath_def Let_def)
qed

lemma uint256_small: "0 \<le> v \<Longrightarrow> v < 2 ^ 64 \<Longrightarrow> uint256 v"
  by (simp add: uint256_def UINT256_MAX_def)

lemma encode_swap_input_eq:
  assumes "wf_address (xe_recipient p)" and "even (length path)"
  shows "encode_swap_input p path = Inr (concat (map abi_word
     [address_value (xe_recipient p), xe_amount p, xe_bound p, 32 * int 5, 1]) @ encoded_bytes path)"
  using assms by (simp add: encode_swap_input_def encodeBytes_def encoded_bytes_def)

text \<open>A path of one pool: two addresses around a 24-bit fee.\<close>

lemma path_tokens:
  assumes "wf_address t" and "wf_address u" and "fee < 2 ^ 24"
  defines "path \<equiv> drop 2 t @ padStart 6 (CHR ''0'') (to_hex fee) @ drop 2 u"
  shows "length path = 86" and "normalizeAddress (''0x'' @ js_slice path 0 40) = Inr t"
    and "normalizeAddress (''0x'' @ drop (length path - 40) path) = Inr u"
proof -
  obtain a b where ab: "t = ''0x'' @ a" "length a = 40" "u = ''0x'' @ b" "length b = 40"
    using assms(1,2) by (metis wf_addressE)
  have "length (to_hex fee) \<le> 6"
    using assms(3) by (intro length_to_base) simp_all
  then have f: "length (padStart 6 (CHR ''0'') (to_hex fee)) = 6" by (simp add: length_padStart)
  show l: "length path = 86" using ab f by (simp add: path_def)
  show "normalizeAddress (''0x'' @ js_slice path 0 40) = Inr t"
    using ab assms(1) by (simp add: path_def js_slice_def)
  have "drop (length path - 40) path = b"
    unfolding l using ab f by (simp add: path_def)
  then show "normalizeAddress (''0x'' @ drop (length path - 40) path) = Inr u"
    using ab assms(2) by simp
qed

definition erc20_token :: "Address \<Rightarrow> bool" where
  "erc20_token a = (wf_address a \<and> canonicalAsset a = Inr a)"

lemma selectorOf_router_execute:
  assumes "encodeUniversalRouterExecute cs ins = Inr d"
  shows "selectorOf d = SELECTOR_EXECUTE_NO_DEADLINE"
proof -
  have "\<exists>w. d = SELECTOR_EXECUTE_NO_DEADLINE @ w"
    using assms by (auto simp: encodeUniversalRouterExecute_def bindR_eq_Inr Let_def
        SELECTOR_EXECUTE_NO_DEADLINE_def split: if_splits)
  then show ?thesis using selector_words [of SELECTOR_EXECUTE_NO_DEADLINE]
    by (auto simp: SELECTOR_EXECUTE_NO_DEADLINE_def)
qed

text \<open>One command with one input, as the decoder sees it.\<close>

lemma router_commands_single:
  assumes enc: "encodeUniversalRouterExecute [c] [inp] = Inr (act_data a)" and c: "c < 64"
    and size: "length (act_data a) < 2 ^ 256"
    and step: "router_command c inp \<lparr>ss_outflow = [], ss_recipient = None\<rparr> =
      Inr (Inr \<lparr>ss_outflow = [(token, v)], ss_recipient = Some r\<rparr>)"
    and token: "erc20_token token" and tracked: "erc20_token (dc_trackedAsset ctx)"
    and target: "is_address (act_to a)"
  shows "\<exists>i. registry_decode default_registry a ctx = Inr i \<and> in_kind i = SWAP \<and> in_counterparty i = Some r \<and>
    in_notionalUSDC i = (if token = dc_trackedAsset ctx then v else 0)"
proof -
  have sel: "selectorOf (act_data a) = SELECTOR_EXECUTE_NO_DEADLINE"
    using enc by (rule selectorOf_router_execute)
  have "readCommandStream (act_data a) False = Inr ([Some (int c)], [inp])"
    using readCommandStream_encoded [OF enc _ size] c by simp
  moreover have "command_type (Some (int c)) = c"
    using c by (simp add: command_type_def nat_mod_distrib)
  moreover have "normalizeAddress (act_to a) = Inr (toLowerCase (act_to a))"
    using target by (simp add: normalizeAddress_def)
  moreover have "SELECTOR_EXECUTE_NO_DEADLINE \<noteq> SELECTOR_EXECUTE" using selectors_distinct by auto
  ultimately have dec: "uniswap_decode a ctx =
      bindR (swap_intent a ctx (toLowerCase (act_to a)) \<lparr>ss_outflow = [(token, v)], ss_recipient = Some r\<rparr>)
        (\<lambda>i. Inr (Some i))"
    using sel step by (simp add: uniswap_decode_def Let_def)
  have "\<exists>n. canonicalAsset NATIVE_ASSET = Inr n"
    by (intro exI [of _ NATIVE_ASSET]) code_simp
  then obtain i where i: "swap_intent a ctx (toLowerCase (act_to a))
      \<lparr>ss_outflow = [(token, v)], ss_recipient = Some r\<rparr> = Inr i"
    and props: "in_kind i = SWAP" "in_counterparty i = Some r"
      "in_notionalUSDC i = (if token = dc_trackedAsset ctx then v else 0)"
    using tracked by (auto simp: swap_intent_def outflow_get_def erc20_token_def Let_def outflow_value_def)
  have "registry_decode default_registry a ctx = Inr i"
    by (rule registry_first [where d = uniswapV4Decoder])
      (use sel candidates_uniswap i dec in \<open>auto simp: uniswapV4Decoder_def\<close>)
  with props show ?thesis by blast
qed

lemma length_encoded_path: "length path = 86 \<Longrightarrow> length (encoded_bytes path) = 192"
  using length_padBytes [of path] by (simp add: encoded_bytes_def uint256_small)

lemma length_single:
  assumes "encodeUniversalRouterExecute [c] [inp] = Inr d" and "c < 64" and "length inp = 512"
  shows "length d < 2 ^ 256"
proof -
  have "length (hex2 c) = 2" using assms(2) by (simp add: hex2_eq)
  moreover have "length (padBytes (hex2 c)) = 64" "length (padBytes inp) = 512"
    using length_padBytes [of "hex2 c"] length_padBytes [of inp] calculation assms(3) by simp_all
  ultimately have "length d = 10 + 64 * 2 + 128 + 64 + 64 + 64 + 512"
    using assms by (auto simp: encodeUniversalRouterExecute_def bindR_eq_Inr mapR_encodeBytes Let_def
        encodeBytes_Inr encoded_bytes_def uint256_small)
  then show ?thesis by simp
qed

lemma swap_step:
  assumes wf: "wf_address (xe_recipient p)" "erc20_token token"
    and words: "uint256 (xe_amount p)" "uint256 (xe_bound p)"
    and path: "length path = 86"
    and inp: "encode_swap_input p path = Inr inp"
  shows "normalizeAddress (''0x'' @ js_slice path 0 40) = Inr token \<Longrightarrow>
      router_command 0 inp \<lparr>ss_outflow = [], ss_recipient = None\<rparr> =
      Inr (Inr \<lparr>ss_outflow = [(token, xe_amount p)], ss_recipient = Some (xe_recipient p)\<rparr>)"
    and "normalizeAddress (''0x'' @ drop (length path - 40) path) = Inr token \<Longrightarrow>
      router_command 1 inp \<lparr>ss_outflow = [], ss_recipient = None\<rparr> =
      Inr (Inr \<lparr>ss_outflow = [(token, xe_bound p)], ss_recipient = Some (xe_recipient p)\<rparr>)"
    and "length inp = 512"
proof -
  let ?ws = "[address_value (xe_recipient p), xe_amount p, xe_bound p, 32 * int 5, 1]"
  have i: "inp = concat (map abi_word ?ws) @ encoded_bytes path"
    using inp encode_swap_input_eq [OF wf(1), of path] path by simp
  have ws: "list_all uint256 ?ws" using wf words by (simp add: uint256_small)
  have w: "wordAt inp 0 = Inr (address_value (xe_recipient p))" "wordAt inp 1 = Inr (xe_amount p)"
    "wordAt inp 2 = Inr (xe_bound p)"
    unfolding i using wordAt_words [OF ws, of 0] wordAt_words [OF ws, of 1] wordAt_words [OF ws, of 2] by simp_all
  have "readPath inp 3 = Some path"
    unfolding i by (rule readPath_words [OF ws]) (use path in \<open>auto simp: uint256_small\<close>)
  moreover have "wordAsAddress inp 0 = Inr (xe_recipient p)"
    using w wf by (simp add: wordAsAddress_def address_string_value)
  moreover have "canonicalAsset token = Inr token" using wf by (simp add: erc20_token_def)
  ultimately show "normalizeAddress (''0x'' @ js_slice path 0 40) = Inr token \<Longrightarrow>
      router_command 0 inp \<lparr>ss_outflow = [], ss_recipient = None\<rparr> =
      Inr (Inr \<lparr>ss_outflow = [(token, xe_amount p)], ss_recipient = Some (xe_recipient p)\<rparr>)"
    "normalizeAddress (''0x'' @ drop (length path - 40) path) = Inr token \<Longrightarrow>
      router_command 1 inp \<lparr>ss_outflow = [], ss_recipient = None\<rparr> =
      Inr (Inr \<lparr>ss_outflow = [(token, xe_bound p)], ss_recipient = Some (xe_recipient p)\<rparr>)"
    using w by (simp_all add: router_command_def set_recipient_def pathFirstToken_def pathLastToken_def
        add_outflow_def outflow_add_def outflow_value_def)
  show "length inp = 512"
    using length_concat_abi_word [OF ws] length_encoded_path [OF path] by (simp add: i)
qed

lemma encodes_single:
  assumes "wf_address (xe_recipient p)" "uint256 (xe_amount p)" "uint256 (xe_bound p)"
    and "length path = 86" and "c < 64"
  shows "\<exists>d. bindR (encode_swap_input p path) (\<lambda>i. encodeUniversalRouterExecute [c] [i]) = Inr d"
proof -
  let ?x = "concat (map abi_word [address_value (xe_recipient p), xe_amount p, xe_bound p, 32 * int 5, 1]) @
    encoded_bytes path"
  have "encode_swap_input p path = Inr ?x" using encode_swap_input_eq [OF assms(1)] assms(4) by simp
  moreover have "even (length ?x)"
    using assms length_encoded_path [OF assms(4)] by (simp add: uint256_small)
  then obtain e where "encodeBytes ?x = Inr e" by (simp only: encodeBytes_def) simp
  moreover obtain h where "encodeBytes (hex2 c) = Inr h" using assms(5) by (simp add: encodeBytes_def hex2_eq)
  ultimately show ?thesis by (simp add: encodeUniversalRouterExecute_def Let_def)
qed

section \<open>Sample values\<close>

text \<open>Concrete addresses, actions and contexts for the witnesses of this and later theories.\<close>

definition sample_action :: "Address \<Rightarrow> Hex \<Rightarrow> Action" where
  "sample_action to data = \<lparr>act_to = to, act_data = data, act_value = 0, act_chainId = 84532, act_metadata = None\<rparr>"

definition sample_ctx :: DecoderContext where
  "sample_ctx = \<lparr>dc_account = sample_account, dc_trackedAsset = sample_token, dc_decimals = 6\<rparr>"

lemma sample_action_simps [simp]: "act_to (sample_action t d) = t" "act_data (sample_action t d) = d"
  "act_value (sample_action t d) = 0"
  by (simp_all add: sample_action_def)

lemma sample_ctx_simps [simp]: "dc_account sample_ctx = sample_account" "dc_trackedAsset sample_ctx = sample_token"
  by (simp_all add: sample_ctx_def)

lemma sample_token_erc20 [simp]: "erc20_token sample_token" "erc20_token sample_payee"
  by code_simp+

section \<open>Round trips\<close>

text \<open>
  A \<^verbatim>\<open>transfer\<close> call built by the encoder and decoded by the default registry is a
  transfer of exactly that amount of that token to exactly that recipient, and its notional is the
  amount when the token is the tracked asset and nothing otherwise.
\<close>

theorem erc20_transfer_roundtrip:
  assumes "createDefaultRegistry = Inr reg"
    and "encodeErc20Transfer to amount = Inr (act_data a)" and "wf_address to" and "uint256 amount"
    and "normalizeAddress (act_to a) = Inr asset"
  shows "\<exists>i. registry_decode reg a ctx = Inr i \<and> in_kind i = TRANSFER \<and> in_counterparty i = Some to \<and>
    in_outflow i = [\<lparr>aa_asset = asset, aa_amount = amount, aa_provenance = DECODED\<rparr>] \<and>
    in_notionalUSDC i = (if asset = dc_trackedAsset ctx then amount else 0)"
proof -
  note r = read_transfer [OF assms(2-4)]
  obtain i where "erc20_transfer a ctx asset = Inr i" and i: "in_kind i = TRANSFER"
    "in_counterparty i = Some to" "in_outflow i = [\<lparr>aa_asset = asset, aa_amount = amount, aa_provenance = DECODED\<rparr>]"
    "in_notionalUSDC i = (if asset = dc_trackedAsset ctx then amount else 0)"
    using r by (simp add: erc20_transfer_def)
  moreover have "reg = default_registry" by (rule default_registryI [OF assms(1)])
  ultimately show ?thesis using erc20_decode_transfer [OF r(1) assms(5)] by blast
qed

theorem erc20_transfer_roundtrip_witness:
  "\<exists>d i. encodeErc20Transfer sample_payee 50000000 = Inr d \<and>
     registry_decode default_registry (sample_action sample_token d) sample_ctx = Inr i \<and>
     in_counterparty i = Some sample_payee \<and> in_notionalUSDC i = 50000000"
proof -
  obtain d where d: "encodeErc20Transfer sample_payee 50000000 = Inr d"
    by (simp add: encodeErc20Transfer_def)
  with erc20_transfer_roundtrip [OF createDefaultRegistry_eq, of sample_payee 50000000
      "sample_action sample_token d" sample_token sample_ctx]
  show ?thesis by (auto simp: uint256_small)
qed

text \<open>
  An \<^verbatim>\<open>approve\<close> call is decoded as the whole allowance leaving the account for the
  spender; an allowance in the unlimited range is unbounded.
\<close>

theorem erc20_approve_roundtrip:
  assumes "createDefaultRegistry = Inr reg"
    and "encodeErc20Approve spender amount = Inr (act_data a)" and "wf_address spender" and "uint256 amount"
    and "normalizeAddress (act_to a) = Inr asset"
  shows "\<exists>i. registry_decode reg a ctx = Inr i \<and> in_kind i = APPROVE \<and> in_counterparty i = Some spender \<and>
    in_outflow i = [\<lparr>aa_asset = asset, aa_amount = approvalOutflow amount, aa_provenance = DECODED\<rparr>] \<and>
    in_notionalUSDC i = (if asset = dc_trackedAsset ctx then approvalOutflow amount else 0) \<and>
    (2 ^ 128 - 1 \<le> amount \<longrightarrow> approvalOutflow amount = UNBOUNDED)"
proof -
  note r = read_approve [OF assms(2-4)]
  obtain i where "erc20_approve a ctx asset = Inr i" and i: "in_kind i = APPROVE"
    "in_counterparty i = Some spender"
    "in_outflow i = [\<lparr>aa_asset = asset, aa_amount = approvalOutflow amount, aa_provenance = DECODED\<rparr>]"
    "in_notionalUSDC i = (if asset = dc_trackedAsset ctx then approvalOutflow amount else 0)"
    using r by (simp add: erc20_approve_def Let_def)
  moreover have "2 ^ 128 - 1 \<le> amount \<Longrightarrow> approvalOutflow amount = UNBOUNDED"
    by (simp add: approvalOutflow_def isUnlimitedApproval_def)
  moreover have "reg = default_registry" by (rule default_registryI [OF assms(1)])
  ultimately show ?thesis using erc20_decode_approve [OF r(1) assms(5)] by blast
qed

theorem erc20_approve_roundtrip_witness:
  "\<exists>d i. encodeErc20Approve sample_payee UNLIMITED_APPROVAL = Inr d \<and>
     registry_decode default_registry (sample_action sample_token d) sample_ctx = Inr i \<and>
     in_counterparty i = Some sample_payee \<and> in_notionalUSDC i = UNBOUNDED"
proof -
  obtain d where d: "encodeErc20Approve sample_payee UNLIMITED_APPROVAL = Inr d"
    by (simp add: encodeErc20Approve_def)
  have "uint256 UNLIMITED_APPROVAL" "2 ^ 128 - 1 \<le> UNLIMITED_APPROVAL"
    by (simp_all add: uint256_def UINT256_MAX_def UNLIMITED_APPROVAL_def)
  with d erc20_approve_roundtrip [OF createDefaultRegistry_eq, of sample_payee UNLIMITED_APPROVAL
      "sample_action sample_token d" sample_token sample_ctx]
  show ?thesis by auto
qed

text \<open>
  A \<^verbatim>\<open>transferFrom\<close> counts as an outflow exactly when the account itself is the
  source; pulling from somebody else moves nothing out of it.
\<close>

theorem erc20_transferFrom_roundtrip:
  assumes "createDefaultRegistry = Inr reg"
    and "encodeErc20TransferFrom from to amount = Inr (act_data a)"
    and "wf_address from" and "wf_address to" and "uint256 amount"
    and "normalizeAddress (act_to a) = Inr asset"
  shows "\<exists>i. registry_decode reg a ctx = Inr i \<and> in_kind i = TRANSFER \<and> in_counterparty i = Some to \<and>
    in_outflow i = (if from = dc_account ctx
      then [\<lparr>aa_asset = asset, aa_amount = amount, aa_provenance = DECODED\<rparr>] else []) \<and>
    in_notionalUSDC i = (if asset = dc_trackedAsset ctx \<and> from = dc_account ctx then amount else 0)"
proof -
  note r = read_transferFrom [OF assms(2-5)]
  obtain i where "erc20_transferFrom a ctx asset = Inr i" and i: "in_kind i = TRANSFER"
    "in_counterparty i = Some to" "in_outflow i = (if from = dc_account ctx
      then [\<lparr>aa_asset = asset, aa_amount = amount, aa_provenance = DECODED\<rparr>] else [])"
    "in_notionalUSDC i = (if asset = dc_trackedAsset ctx \<and> from = dc_account ctx then amount else 0)"
    using r by (simp add: erc20_transferFrom_def Let_def)
  moreover have "reg = default_registry" by (rule default_registryI [OF assms(1)])
  ultimately show ?thesis using erc20_decode_transferFrom [OF r(1) assms(6)] by blast
qed

theorem erc20_transferFrom_roundtrip_witness:
  "\<exists>d i. encodeErc20TransferFrom sample_account sample_payee 7 = Inr d \<and>
     registry_decode default_registry (sample_action sample_token d) sample_ctx = Inr i \<and>
     in_counterparty i = Some sample_payee \<and> in_notionalUSDC i = 7"
proof -
  obtain d where d: "encodeErc20TransferFrom sample_account sample_payee 7 = Inr d"
    by (simp add: encodeErc20TransferFrom_def)
  with erc20_transferFrom_roundtrip [OF createDefaultRegistry_eq, of sample_account sample_payee 7
      "sample_action sample_token d" sample_token sample_ctx]
  show ?thesis by (auto simp: uint256_small)
qed

lemma swap_decodes:
  assumes "createDefaultRegistry = Inr reg"
    and "encodeSwapExactIn p = Inr (act_data a)" and "encodeSwapExactOut p = Inr (act_data b)"
    and "is_address (act_to a)" and "is_address (act_to b)"
    and "wf_address (xe_recipient p)" and "erc20_token (xe_tokenIn p)" and "erc20_token (xe_tokenOut p)"
    and "uint256 (xe_amount p)" and "uint256 (xe_bound p)" and "xe_fee p < 2 ^ 24"
    and "erc20_token (dc_trackedAsset ctx)"
  shows "\<exists>i j. registry_decode reg a ctx = Inr i \<and> registry_decode reg b ctx = Inr j \<and>
    in_kind i = SWAP \<and> in_counterparty i = Some (xe_recipient p) \<and>
    in_notionalUSDC i = (if xe_tokenIn p = dc_trackedAsset ctx then xe_amount p else 0) \<and>
    in_kind j = SWAP \<and> in_counterparty j = Some (xe_recipient p) \<and>
    in_notionalUSDC j = (if xe_tokenIn p = dc_trackedAsset ctx then xe_bound p else 0)"
proof -
  have reg: "reg = default_registry" by (rule default_registryI [OF assms(1)])
  have wf: "wf_address (xe_tokenIn p)" "wf_address (xe_tokenOut p)" using assms(7,8) by (simp_all add: erc20_token_def)
  note t1 = path_tokens [OF wf assms(11)] and t2 = path_tokens [OF wf(2,1) assms(11)]
  obtain x where x: "encode_swap_input p (drop 2 (xe_tokenIn p) @ padStart 6 (CHR ''0'') (to_hex (xe_fee p)) @
      drop 2 (xe_tokenOut p)) = Inr x" "encodeUniversalRouterExecute [0] [x] = Inr (act_data a)"
    using assms(2) by (auto simp: encodeSwapExactIn_def encodeExactInInput_def bindR_eq_Inr)
  obtain y where y: "encode_swap_input p (drop 2 (xe_tokenOut p) @ padStart 6 (CHR ''0'') (to_hex (xe_fee p)) @
      drop 2 (xe_tokenIn p)) = Inr y" "encodeUniversalRouterExecute [1] [y] = Inr (act_data b)"
    using assms(3) by (auto simp: encodeSwapExactOut_def encodeExactOutInput_def bindR_eq_Inr)
  note sx = swap_step [OF assms(6,7,9,10) t1(1) x(1)] and sy = swap_step [OF assms(6,7,9,10) t2(1) y(1)]
  have "length (act_data a) < 2 ^ 256" "length (act_data b) < 2 ^ 256"
    using length_single [OF x(2) _ sx(3)] length_single [OF y(2) _ sy(3)] by simp_all
  note sizes = this
  show ?thesis
    using router_commands_single [OF x(2) _ sizes(1) sx(1) [OF t1(2)] assms(7,12,4)]
      router_commands_single [OF y(2) _ sizes(2) sy(2) [OF t2(3)] assms(7,12,5)]
    by (auto simp: reg)
qed

text \<open>
  (C29) An exact-input swap built by the encoder is decoded with the amount in as its notional
  when the input token is tracked; an exact-output swap with the maximum amount in, which is what
  the router may take, and never with the amount out.
\<close>

theorem swap_roundtrip:
  assumes "createDefaultRegistry = Inr reg"
    and "encodeSwapExactIn p = Inr (act_data a)" and "encodeSwapExactOut p = Inr (act_data b)"
    and "is_address (act_to a)" and "is_address (act_to b)"
    and "wf_address (xe_recipient p)" and "erc20_token (xe_tokenIn p)" and "erc20_token (xe_tokenOut p)"
    and "uint256 (xe_amount p)" and "uint256 (xe_bound p)" and "xe_fee p < 2 ^ 24"
    and "erc20_token (dc_trackedAsset ctx)"
  shows "\<exists>i j. registry_decode reg a ctx = Inr i \<and> registry_decode reg b ctx = Inr j \<and>
    in_kind i = SWAP \<and> in_counterparty i = Some (xe_recipient p) \<and>
    in_notionalUSDC i = (if xe_tokenIn p = dc_trackedAsset ctx then xe_amount p else 0) \<and>
    in_kind j = SWAP \<and> in_counterparty j = Some (xe_recipient p) \<and>
    in_notionalUSDC j = (if xe_tokenIn p = dc_trackedAsset ctx then xe_bound p else 0)"
  using assms by (rule swap_decodes)

definition sample_swap :: ExactParams where
  "sample_swap = \<lparr>xe_recipient = sample_account, xe_amount = 100, xe_bound = 250,
     xe_tokenIn = sample_token, xe_tokenOut = sample_payee, xe_fee = 3000\<rparr>"

theorem swap_roundtrip_witness:
  "\<exists>d e i j. encodeSwapExactIn sample_swap = Inr d \<and> encodeSwapExactOut sample_swap = Inr e \<and>
     registry_decode default_registry (sample_action sample_router d) sample_ctx = Inr i \<and>
     registry_decode default_registry (sample_action sample_router e) sample_ctx = Inr j \<and>
     in_notionalUSDC i = 100 \<and> in_notionalUSDC j = 250"
proof -
  have wf: "wf_address (xe_recipient sample_swap)" "wf_address (xe_tokenIn sample_swap)"
    "wf_address (xe_tokenOut sample_swap)" "xe_fee sample_swap < 2 ^ 24" "uint256 (xe_amount sample_swap)"
    "uint256 (xe_bound sample_swap)"
    by (simp_all add: sample_swap_def uint256_small)
  have "\<exists>d. encodeSwapExactIn sample_swap = Inr d" "\<exists>e. encodeSwapExactOut sample_swap = Inr e"
    using encodes_single [OF wf(1,5,6) path_tokens(1) [OF wf(2-4)], of 0]
      encodes_single [OF wf(1,5,6) path_tokens(1) [OF wf(3,2,4)], of 1]
    by (simp_all add: encodeSwapExactIn_def encodeSwapExactOut_def encodeExactInInput_def encodeExactOutInput_def)
  then obtain d e where d: "encodeSwapExactIn sample_swap = Inr d" "encodeSwapExactOut sample_swap = Inr e"
    by blast
  with swap_roundtrip [OF createDefaultRegistry_eq, of sample_swap "sample_action sample_router d"
      "sample_action sample_router e" sample_ctx]
  show ?thesis by (auto simp: sample_swap_def uint256_small)
qed

end
