(* ===== verification/Policies.thy ===== *)
theory Policies
  imports Calldata
begin

text \<open>
  \<^verbatim>\<open>packages/sdk/src/policies/index.ts\<close>: the policies P1 to P7. Each class is a
  function from its constructor arguments to a \<^typ>\<open>Policy\<close>.

  The locale \<open>policy_rule\<close> is the contract the engine relies on: a policy allows exactly when
  its rule holds, gives a reason exactly when it does not allow, and a violation exactly when it
  blocks. \<open>monotone_rule\<close> adds that a smaller notional is never treated worse. Every
  policy is an interpretation of the first, the value policies also of the second.
\<close>

section \<open>The policies\<close>

definition pass :: PolicyEvaluation where
  "pass = \<lparr>pe_decision = ALLOW, pe_violation = None, pe_reason = None\<rparr>"

definition first_provenance :: "NormalizedIntent \<Rightarrow> Provenance" where
  "first_provenance i = (case in_outflow i of [] \<Rightarrow> DECLARED | f # _ \<Rightarrow> aa_provenance f)"

definition MaxTransactionPolicy :: "int \<Rightarrow> Policy" where
  "MaxTransactionPolicy limit =
     \<lparr>pol_id = ''maxTransaction'', pol_formallyVerified = True,
      pol_evaluate = (\<lambda>intent _.
        if in_notionalUSDC intent \<le> limit then pass
        else \<lparr>pe_decision = BLOCK,
          pe_violation = Some \<lparr>pv_policy = ''maxTransaction'', pv_limit = limit,
            pv_observed = in_notionalUSDC intent, pv_provenance = first_provenance intent,
            pv_message = ''per-transaction ceiling exceeded''\<rparr>,
          pe_reason = Some (displayUsdc (in_notionalUSDC intent) @ '' exceeds the '' @
            displayUsdc limit @ '' per-transaction limit'')\<rparr>)\<rparr>"

definition DailySpendPolicy :: "int \<Rightarrow> Policy" where
  "DailySpendPolicy limit =
     \<lparr>pol_id = ''dailySpend'', pol_formallyVerified = True,
      pol_evaluate = (\<lambda>intent state.
        let wouldBe = st_dailySpend state + in_notionalUSDC intent in
        if wouldBe \<le> limit then pass
        else \<lparr>pe_decision = BLOCK,
          pe_violation = Some \<lparr>pv_policy = ''dailySpend'', pv_limit = limit, pv_observed = wouldBe,
            pv_provenance = DECODED, pv_message = ''daily cumulative ceiling exceeded''\<rparr>,
          pe_reason = Some (''this would bring today'' @ [CHR 0x27] @ ''s spend to '' @ displayUsdc wouldBe @
            '', over the '' @ displayUsdc limit @ '' daily limit ('' @
            displayUsdc (st_dailySpend state) @ '' already spent)'')\<rparr>)\<rparr>"

definition movesValue :: "NormalizedIntent \<Rightarrow> bool" where
  "movesValue intent = list_ex (\<lambda>flow. aa_amount flow > 0) (in_outflow intent)"

definition allowlist_block :: "string \<Rightarrow> int \<Rightarrow> int \<Rightarrow> Provenance \<Rightarrow> string \<Rightarrow> string \<Rightarrow> PolicyEvaluation" where
  "allowlist_block policy limit observed provenance message reason =
     \<lparr>pe_decision = BLOCK,
      pe_violation = Some \<lparr>pv_policy = policy, pv_limit = limit, pv_observed = observed,
        pv_provenance = provenance, pv_message = message\<rparr>,
      pe_reason = Some reason\<rparr>"

text \<open>The sets are the duplicate-free lists of \<^const>\<open>addressSet\<close>; \<^verbatim>\<open>size\<close> is the length.\<close>

definition AllowlistPolicy :: "Address list \<Rightarrow> Address list \<Rightarrow> bool \<Rightarrow> Policy" where
  "AllowlistPolicy contracts recipients allowUnknownSelectors =
     \<lparr>pol_id = ''allowlist'', pol_formallyVerified = False,
      pol_evaluate = (\<lambda>intent _.
        if in_kind intent = UNKNOWN \<and> \<not> allowUnknownSelectors then
          allowlist_block ''unknownSelector'' 0 (in_notionalUSDC intent) DECLARED ''undecodable calldata''
            (''calldata '' @ in_selector intent @ '' could not be decoded, so its spend cannot be bounded'')
        else if in_target intent \<notin> set contracts then
          allowlist_block ''allowedContracts'' (int (length contracts)) 0 DECODED ''target not in allowlist''
            (in_target intent @ '' is not an allowlisted contract'')
        else case in_counterparty intent of
            None \<Rightarrow> pass
          | Some counterparty \<Rightarrow>
              if movesValue intent \<and> \<not> (counterparty \<in> set recipients \<or> counterparty \<in> set contracts) then
                allowlist_block ''allowedRecipients'' (int (length recipients)) 0 DECODED
                  ''counterparty not in allowlist''
                  (counterparty @ '' is not an allowlisted recipient'')
              else pass)\<rparr>"

definition MinBalancePolicy :: "int \<Rightarrow> Policy" where
  "MinBalancePolicy reserve =
     \<lparr>pol_id = ''minBalance'', pol_formallyVerified = False,
      pol_evaluate = (\<lambda>intent state.
        let projected = st_balance state - in_notionalUSDC intent;
            shown = (if projected < 0 then 0 else projected)
        in if projected \<ge> reserve then pass
        else \<lparr>pe_decision = BLOCK,
          pe_violation = Some \<lparr>pv_policy = ''minBalance'', pv_limit = reserve, pv_observed = shown,
            pv_provenance = DECODED, pv_message = ''reserve balance would be breached''\<rparr>,
          pe_reason = Some (''this would leave '' @ displayUsdc shown @ '', below the '' @
            displayUsdc reserve @ '' reserve'')\<rparr>)\<rparr>"

definition ApprovalThresholdPolicy :: "int \<Rightarrow> Policy" where
  "ApprovalThresholdPolicy threshold =
     \<lparr>pol_id = ''approvalThreshold'', pol_formallyVerified = False,
      pol_evaluate = (\<lambda>intent _.
        if in_notionalUSDC intent < threshold then pass
        else \<lparr>pe_decision = REQUIRE_APPROVAL, pe_violation = None,
          pe_reason = Some (displayUsdc (in_notionalUSDC intent) @ '' is at or above the '' @
            displayUsdc threshold @ '' approval threshold'')\<rparr>)\<rparr>"

text \<open>
  \<^verbatim>\<open>Math.round\<close> rounds half up. \<^verbatim>\<open>Number.toLocaleString('en-US')\<close> groups by
  thousands and keeps at most three fraction digits, half away from zero.
\<close>

definition js_round :: "rat \<Rightarrow> int" where
  "js_round x = \<lfloor>x + 1 / 2\<rfloor>"

definition num_toLocaleString :: "rat \<Rightarrow> string" where
  "num_toLocaleString x =
     (let m = nat \<lfloor>\<bar>x\<bar> * 1000 + 1 / 2\<rfloor>;
          frac = stripZeros (padStart 3 (CHR ''0'') (to_dec (m mod 1000)))
      in (if x < 0 then ''-'' else '''') @ toLocaleString (int (m div 1000)) @
         (if frac = '''' then '''' else ''.'' @ frac))"

definition PoolLiquidityPolicy :: "rat \<Rightarrow> Policy" where
  "PoolLiquidityPolicy minTvlUsd =
     \<lparr>pol_id = ''poolLiquidity'', pol_formallyVerified = False,
      pol_evaluate = (\<lambda>intent state.
        if in_kind intent \<noteq> SWAP then pass
        else case st_pool state of
            None \<Rightarrow> pass
          | Some None \<Rightarrow>
              \<lparr>pe_decision = BLOCK,
               pe_violation = Some \<lparr>pv_policy = ''poolLiquidity'', pv_limit = js_round minTvlUsd,
                 pv_observed = 0, pv_provenance = DECODED, pv_message = ''no indexed pool''\<rparr>,
               pe_reason = Some
                 ''no Uniswap pool is indexed for this pair, so the swap has no venue we can verify''\<rparr>
          | Some (Some pool) \<Rightarrow>
              let tvl = ps_totalValueLockedUSD pool in
              if tvl \<ge> minTvlUsd then pass
              else \<lparr>pe_decision = BLOCK,
                pe_violation = Some \<lparr>pv_policy = ''poolLiquidity'', pv_limit = js_round minTvlUsd,
                  pv_observed = js_round tvl, pv_provenance = DECODED,
                  pv_message = ''pool liquidity below the configured floor''\<rparr>,
                pe_reason = Some (''the deepest pool for this pair holds about $'' @
                  toLocaleString (js_round tvl) @ '', under the $'' @ num_toLocaleString minTvlUsd @
                  '' floor '' @ em_dash @ '' too thin to trade into'')\<rparr>)\<rparr>"

section \<open>The rules\<close>

definition max_rule :: "int \<Rightarrow> NormalizedIntent \<Rightarrow> PolicyState \<Rightarrow> bool" where
  "max_rule limit i s = (in_notionalUSDC i \<le> limit)"

definition daily_rule :: "int \<Rightarrow> NormalizedIntent \<Rightarrow> PolicyState \<Rightarrow> bool" where
  "daily_rule limit i s = (st_dailySpend s + in_notionalUSDC i \<le> limit)"

definition allow_rule :: "Address list \<Rightarrow> Address list \<Rightarrow> bool \<Rightarrow> NormalizedIntent \<Rightarrow> PolicyState \<Rightarrow> bool" where
  "allow_rule contracts recipients unknown i s =
     ((in_kind i = UNKNOWN \<longrightarrow> unknown) \<and> in_target i \<in> set contracts \<and>
      (\<forall>c. in_counterparty i = Some c \<longrightarrow> movesValue i \<longrightarrow> c \<in> set recipients \<union> set contracts))"

definition floor_rule :: "int \<Rightarrow> NormalizedIntent \<Rightarrow> PolicyState \<Rightarrow> bool" where
  "floor_rule reserve i s = (st_balance s - in_notionalUSDC i \<ge> reserve)"

definition threshold_rule :: "int \<Rightarrow> NormalizedIntent \<Rightarrow> PolicyState \<Rightarrow> bool" where
  "threshold_rule threshold i s = (in_notionalUSDC i < threshold)"

definition pool_rule :: "rat \<Rightarrow> NormalizedIntent \<Rightarrow> PolicyState \<Rightarrow> bool" where
  "pool_rule tvl i s = (in_kind i = SWAP \<longrightarrow>
     (\<forall>p. st_pool s = Some p \<longrightarrow> (\<exists>q. p = Some q \<and> ps_totalValueLockedUSD q \<ge> tvl)))"

lemmas rule_defs = max_rule_def daily_rule_def allow_rule_def floor_rule_def threshold_rule_def pool_rule_def

section \<open>The policy contract\<close>

locale policy_rule =
  fixes pol :: Policy and rule :: "NormalizedIntent \<Rightarrow> PolicyState \<Rightarrow> bool" and verdict :: Decision
  assumes decides: "pe_decision (pol_evaluate pol i s) = (if rule i s then ALLOW else verdict)"
    and verdict_strict: "verdict \<noteq> ALLOW"
    and reasons: "pe_reason (pol_evaluate pol i s) = None \<longleftrightarrow> pe_decision (pol_evaluate pol i s) = ALLOW"
    and violates: "pe_violation (pol_evaluate pol i s) = None \<longleftrightarrow> pe_decision (pol_evaluate pol i s) \<noteq> BLOCK"
begin

lemma allows_iff: "pe_decision (pol_evaluate pol i s) = ALLOW \<longleftrightarrow> rule i s"
  using verdict_strict by (simp add: decides)

lemma refuses_iff: "pe_decision (pol_evaluate pol i s) = verdict \<longleftrightarrow> \<not> rule i s"
  using verdict_strict by (auto simp: decides)

lemma never_worse: "pe_decision (pol_evaluate pol i s) \<le> verdict"
  by (simp add: decides)

end

text \<open>A smaller notional, all else equal, is never treated worse.\<close>

locale monotone_rule = policy_rule +
  assumes rule_mono: "n \<le> in_notionalUSDC i \<Longrightarrow> rule i s \<Longrightarrow> rule (i\<lparr>in_notionalUSDC := n\<rparr>) s"
begin

lemma decision_mono:
  "n \<le> in_notionalUSDC i \<Longrightarrow>
     pe_decision (pol_evaluate pol (i\<lparr>in_notionalUSDC := n\<rparr>) s) \<le> pe_decision (pol_evaluate pol i s)"
  using rule_mono by (auto simp: decides)

end

interpretation max_transaction: monotone_rule "MaxTransactionPolicy limit" "max_rule limit" BLOCK for limit
  by unfold_locales (auto simp: MaxTransactionPolicy_def pass_def max_rule_def)

interpretation daily_spend: monotone_rule "DailySpendPolicy limit" "daily_rule limit" BLOCK for limit
  by unfold_locales (auto simp: DailySpendPolicy_def Let_def pass_def daily_rule_def)

interpretation min_balance: monotone_rule "MinBalancePolicy reserve" "floor_rule reserve" BLOCK for reserve
  by unfold_locales (auto simp: MinBalancePolicy_def Let_def pass_def floor_rule_def)

interpretation approval_threshold: monotone_rule "ApprovalThresholdPolicy t" "threshold_rule t" REQUIRE_APPROVAL for t
  by unfold_locales (auto simp: ApprovalThresholdPolicy_def pass_def threshold_rule_def)

interpretation allowlist: monotone_rule "AllowlistPolicy cs rs u" "allow_rule cs rs u" BLOCK for cs rs u
  by unfold_locales
    (auto simp: AllowlistPolicy_def allowlist_block_def pass_def allow_rule_def movesValue_def split: option.splits)

interpretation pool_liquidity: monotone_rule "PoolLiquidityPolicy tvl" "pool_rule tvl" BLOCK for tvl
  by unfold_locales (auto simp: PoolLiquidityPolicy_def pass_def pool_rule_def Let_def split: option.splits)

text \<open>A violation of a value policy reports a figure on the wrong side of its limit.\<close>

lemma value_violation:
  "pe_violation (pol_evaluate (MaxTransactionPolicy l) i s) = Some v \<Longrightarrow> pv_observed v > pv_limit v"
  "pe_violation (pol_evaluate (DailySpendPolicy l) i s) = Some v \<Longrightarrow> pv_observed v > pv_limit v"
  by (auto simp: MaxTransactionPolicy_def DailySpendPolicy_def pass_def Let_def split: if_splits)

end
