(* ===== verification/PolicyEngine.thy ===== *)
theory PolicyEngine
  imports Policies
begin

text \<open>
  \<^verbatim>\<open>packages/sdk/src/core/PolicyEngine.ts\<close>. The evaluation loop is a fold of
  \<open>engine_step\<close> over the policies; the engine's only state is its sequence number.
  The abstract specification is \<open>verdict_of\<close>, the most severe single verdict.
\<close>

section \<open>The engine\<close>

record PolicyEngineOptions =
  eo_decoders :: DecoderRegistry
  eo_policies :: "Policy list"
  eo_decoderContext :: DecoderContext
  eo_proofs :: "(string \<times> ProofReference) list option"

text \<open>\<^verbatim>\<open>Partial<DecoderContext>\<close>.\<close>

record PartialContext =
  pdc_account :: "Address option"
  pdc_trackedAsset :: "Address option"
  pdc_decimals :: "int option"

definition or_else :: "'a option \<Rightarrow> 'a \<Rightarrow> 'a" where
  "or_else x d = (case x of None \<Rightarrow> d | Some v \<Rightarrow> v)"

lemma or_else_simps [simp]: "or_else None d = d" "or_else (Some v) d = v"
  by (simp_all add: or_else_def)

definition merge_context :: "DecoderContext \<Rightarrow> PartialContext option \<Rightarrow> DecoderContext" where
  "merge_context ctx part =
     (case part of None \<Rightarrow> ctx
      | Some p \<Rightarrow> \<lparr>dc_account = or_else (pdc_account p) (dc_account ctx),
          dc_trackedAsset = or_else (pdc_trackedAsset p) (dc_trackedAsset ctx),
          dc_decimals = or_else (pdc_decimals p) (dc_decimals ctx)\<rparr>)"

definition engine_decode :: "PolicyEngineOptions \<Rightarrow> Action \<Rightarrow> PartialContext option \<Rightarrow> NormalizedIntent result" where
  "engine_decode options action context =
     registry_decode (eo_decoders options) action (merge_context (eo_decoderContext options) context)"

definition labelPolicy :: "string \<Rightarrow> string" where
  "labelPolicy pid =
     (if pid = ''allowlist'' then ''Allowed contract / recipient''
      else if pid = ''maxTransaction'' then ''Max transaction''
      else if pid = ''minBalance'' then ''Minimum balance''
      else if pid = ''dailySpend'' then ''Daily spend''
      else if pid = ''approvalThreshold'' then ''Human approval threshold''
      else pid)"

definition policy_row :: "Policy \<Rightarrow> PolicyEvaluation \<Rightarrow> PolicyRow" where
  "policy_row policy e =
     \<lparr>pr_id = pol_id policy, pr_name = labelPolicy (pol_id policy), pr_decision = pe_decision e,
      pr_passed = (pe_decision e = ALLOW), pr_formallyVerified = pol_formallyVerified policy,
      pr_reason = or_else (pe_reason e) (if pe_decision e = ALLOW then ''passed'' else ''policy decided''),
      pr_limit = map_option pv_limit (pe_violation e), pr_observed = map_option pv_observed (pe_violation e),
      pr_provenance = map_option pv_provenance (pe_violation e)\<rparr>"

definition policy_check :: "Policy \<Rightarrow> PolicyEvaluation \<Rightarrow> PolicyCheck" where
  "policy_check policy e =
     \<lparr>pc_policy = pol_id policy, pc_decision = pe_decision e, pc_reason = pe_reason e,
      pc_provenance = map_option pv_provenance (pe_violation e)\<rparr>"

text \<open>The local variables of \<^verbatim>\<open>evaluate\<close>.\<close>

record EvalState =
  ev_violations :: "PolicyViolation list"
  ev_policyRows :: "PolicyRow list"
  ev_checks :: "PolicyCheck list"
  ev_decision :: Decision
  ev_reason :: string
  ev_deciding :: "string option"
  ev_settled :: bool

definition eval_init :: EvalState where
  "eval_init = \<lparr>ev_violations = [], ev_policyRows = [], ev_checks = [], ev_decision = ALLOW,
     ev_reason = ''within all policy limits'', ev_deciding = None, ev_settled = False\<rparr>"

definition engine_step :: "NormalizedIntent \<Rightarrow> PolicyState \<Rightarrow> Policy \<Rightarrow> EvalState \<Rightarrow> EvalState" where
  "engine_step intent state policy s =
     (let e = pol_evaluate policy intent state;
          s1 = s\<lparr>ev_policyRows := ev_policyRows s @ [policy_row policy e],
                 ev_checks := ev_checks s @ [policy_check policy e]\<rparr>
      in if ev_settled s1 then s1
      else
        let s2 = (case pe_violation e of None \<Rightarrow> s1
              | Some v \<Rightarrow> s1\<lparr>ev_violations := ev_violations s1 @ [v]\<rparr>)
        in if pe_decision e = BLOCK then
             s2\<lparr>ev_decision := BLOCK, ev_reason := or_else (pe_reason e) ''blocked by policy'',
                ev_deciding := Some (pol_id policy), ev_settled := True\<rparr>
           else if pe_decision e = REQUIRE_APPROVAL \<and> ev_decision s2 = ALLOW then
             s2\<lparr>ev_decision := REQUIRE_APPROVAL,
                ev_reason := or_else (pe_reason e) ''human approval required'',
                ev_deciding := Some (pol_id policy)\<rparr>
           else s2)"

definition eval_loop :: "Policy list \<Rightarrow> NormalizedIntent \<Rightarrow> PolicyState \<Rightarrow> EvalState" where
  "eval_loop policies intent state = fold (engine_step intent state) policies eval_init"

definition engine_result :: "PolicyEngineOptions \<Rightarrow> NormalizedIntent \<Rightarrow> EvalState \<Rightarrow> int \<Rightarrow> nat \<Rightarrow> PolicyResult \<times> nat" where
  "engine_result options intent s now sequence =
     (\<lparr>res_decision = ev_decision s, res_reason = ev_reason s, res_intent = intent,
       res_violations = ev_violations s, res_policyRows = ev_policyRows s, res_checks = ev_checks s,
       res_proof = (case ev_deciding s of None \<Rightarrow> None
          | Some p \<Rightarrow> if p = '''' then None
             else (case eo_proofs options of None \<Rightarrow> None | Some proofs \<Rightarrow> map_of proofs p)),
       res_approvalRequest = None, res_txHash = None,
       res_sequence = sequence + 1, res_evaluatedAt = now\<rparr>, sequence + 1)"

definition evaluate :: "PolicyEngineOptions \<Rightarrow> NormalizedIntent \<Rightarrow> PolicyState \<Rightarrow> int \<Rightarrow> nat \<Rightarrow> PolicyResult \<times> nat" where
  "evaluate options intent state now sequence =
     engine_result options intent (eval_loop (eo_policies options) intent state) now sequence"

definition verify :: "PolicyEngineOptions \<Rightarrow> Action \<Rightarrow> PolicyState \<Rightarrow> int \<Rightarrow> nat \<Rightarrow> (PolicyResult \<times> nat) result" where
  "verify options action state now sequence =
     bindR (engine_decode options action None) (\<lambda>intent. Inr (evaluate options intent state now sequence))"

section \<open>The specification\<close>

definition decision_of :: "NormalizedIntent \<Rightarrow> PolicyState \<Rightarrow> Policy \<Rightarrow> Decision" where
  "decision_of i s p = pe_decision (pol_evaluate p i s)"

text \<open>The most severe verdict of a list of policies.\<close>

definition verdict_of :: "Policy list \<Rightarrow> NormalizedIntent \<Rightarrow> PolicyState \<Rightarrow> Decision" where
  "verdict_of ps i s = Max (insert ALLOW (decision_of i s ` set ps))"

lemma verdict_of_simps [simp]:
  "verdict_of [] i s = ALLOW"
  "verdict_of (p # ps) i s = max (decision_of i s p) (verdict_of ps i s)"
  by (simp_all add: verdict_of_def insert_commute [of ALLOW])

lemma verdict_of_append [simp]: "verdict_of (ps @ qs) i s = max (verdict_of ps i s) (verdict_of qs i s)"
  by (induction ps) (auto simp: max.assoc)

lemma verdict_ALLOW_iff: "verdict_of ps i s = ALLOW \<longleftrightarrow> (\<forall>p \<in> set ps. decision_of i s p = ALLOW)"
  by (induction ps) auto

lemma verdict_BLOCK_iff: "verdict_of ps i s = BLOCK \<longleftrightarrow> (\<exists>p \<in> set ps. decision_of i s p = BLOCK)"
  by (induction ps) auto

lemma verdict_APPROVAL_iff: "verdict_of ps i s = REQUIRE_APPROVAL \<longleftrightarrow>
    (\<forall>p \<in> set ps. decision_of i s p \<noteq> BLOCK) \<and> (\<exists>p \<in> set ps. decision_of i s p = REQUIRE_APPROVAL)"
  using verdict_ALLOW_iff [of ps i s] verdict_BLOCK_iff [of ps i s]
  by (cases "verdict_of ps i s") (auto, (metis Decision.exhaust)+)

section \<open>The loop\<close>

lemma engine_step_rows [simp]:
  "ev_policyRows (engine_step i st p s) = ev_policyRows s @ [policy_row p (pol_evaluate p i st)]"
  "ev_checks (engine_step i st p s) = ev_checks s @ [policy_check p (pol_evaluate p i st)]"
  by (simp_all add: engine_step_def Let_def split: option.split)

text \<open>The loop invariant: settled exactly on BLOCK, and the verdict is the running maximum.\<close>

lemma engine_step_decision:
  assumes "ev_settled s \<longleftrightarrow> ev_decision s = BLOCK"
  shows "ev_decision (engine_step i st p s) = max (ev_decision s) (decision_of i st p)"
    and "ev_settled (engine_step i st p s) \<longleftrightarrow> ev_decision (engine_step i st p s) = BLOCK"
  using assms
  by (cases "pe_decision (pol_evaluate p i st)"; cases "ev_decision s";
      simp add: engine_step_def Let_def decision_of_def max_def less_eq_Decision_def split: option.split)+

lemma fold_engine_step:
  assumes "ev_settled s \<longleftrightarrow> ev_decision s = BLOCK"
  shows "ev_decision (fold (engine_step i st) ps s) = max (ev_decision s) (verdict_of ps i st) \<and>
    ev_policyRows (fold (engine_step i st) ps s) =
      ev_policyRows s @ map (\<lambda>p. policy_row p (pol_evaluate p i st)) ps \<and>
    ev_checks (fold (engine_step i st) ps s) =
      ev_checks s @ map (\<lambda>p. policy_check p (pol_evaluate p i st)) ps"
  using assms
proof (induction ps arbitrary: s)
  case (Cons p ps)
  show ?case
    using Cons.IH [OF engine_step_decision(2) [OF Cons.prems]]
    by (simp add: engine_step_decision(1) [OF Cons.prems] max.assoc)
qed simp

lemma eval_loop_decision: "ev_decision (eval_loop ps i st) = verdict_of ps i st"
  and eval_loop_rows: "ev_policyRows (eval_loop ps i st) = map (\<lambda>p. policy_row p (pol_evaluate p i st)) ps"
  and eval_loop_checks: "ev_checks (eval_loop ps i st) = map (\<lambda>p. policy_check p (pol_evaluate p i st)) ps"
  using fold_engine_step [of eval_init i st ps] by (simp_all add: eval_loop_def eval_init_def)

lemma fold_settled:
  "ev_settled s \<Longrightarrow> ev_violations (fold (engine_step i st) ps s) = ev_violations s \<and>
     ev_reason (fold (engine_step i st) ps s) = ev_reason s \<and>
     ev_deciding (fold (engine_step i st) ps s) = ev_deciding s"
  by (induction ps arbitrary: s) (simp_all add: engine_step_def Let_def)

text \<open>Violations are collected from the policies before the first block and from that block.\<close>

definition violations_of :: "NormalizedIntent \<Rightarrow> PolicyState \<Rightarrow> Policy list \<Rightarrow> PolicyViolation list" where
  "violations_of i st ps = List.map_filter (\<lambda>p. pe_violation (pol_evaluate p i st)) ps"

lemma violations_of_simps [simp]:
  "violations_of i st [] = []"
  "violations_of i st (p # ps) =
     (case pe_violation (pol_evaluate p i st) of None \<Rightarrow> [] | Some v \<Rightarrow> [v]) @ violations_of i st ps"
  by (simp_all add: violations_of_def map_filter_simps split: option.split)

lemma violations_of_append: "violations_of i st (ps @ qs) = violations_of i st ps @ violations_of i st qs"
  by (induction ps) simp_all

lemma fold_unsettled:
  assumes "\<not> ev_settled s" and "\<forall>p \<in> set ps. decision_of i st p \<noteq> BLOCK"
  shows "\<not> ev_settled (fold (engine_step i st) ps s) \<and>
    ev_violations (fold (engine_step i st) ps s) = ev_violations s @ violations_of i st ps"
  using assms
proof (induction ps arbitrary: s)
  case (Cons p ps)
  from Cons.prems have "\<not> ev_settled (engine_step i st p s)"
    and "ev_violations (engine_step i st p s) = ev_violations s @
      (case pe_violation (pol_evaluate p i st) of None \<Rightarrow> [] | Some v \<Rightarrow> [v])"
    by (simp_all add: engine_step_def decision_of_def Let_def split: option.split)
  with Cons show ?case by simp
qed simp

lemma eval_loop_block:
  assumes "ps = xs @ p # ys" and "\<forall>q \<in> set xs. decision_of i st q \<noteq> BLOCK" and "decision_of i st p = BLOCK"
  shows "ev_violations (eval_loop ps i st) = violations_of i st (xs @ [p])"
    and "ev_deciding (eval_loop ps i st) = Some (pol_id p)"
    and "ev_reason (eval_loop ps i st) = or_else (pe_reason (pol_evaluate p i st)) ''blocked by policy''"
proof -
  let ?m = "fold (engine_step i st) xs eval_init"
  have m: "\<not> ev_settled ?m" "ev_violations ?m = violations_of i st xs"
    using fold_unsettled [OF _ assms(2), of eval_init] by (simp_all add: eval_init_def)
  have n: "ev_settled (engine_step i st p ?m)"
    "ev_violations (engine_step i st p ?m) = violations_of i st (xs @ [p])"
    "ev_deciding (engine_step i st p ?m) = Some (pol_id p)"
    "ev_reason (engine_step i st p ?m) = or_else (pe_reason (pol_evaluate p i st)) ''blocked by policy''"
    using m assms(3)
    by (simp_all add: engine_step_def decision_of_def Let_def violations_of_append split: option.split)
  have "eval_loop ps i st = fold (engine_step i st) ys (engine_step i st p ?m)"
    by (simp add: eval_loop_def assms(1))
  with fold_settled [OF n(1), of i st ys] n
  show "ev_violations (eval_loop ps i st) = violations_of i st (xs @ [p])"
    "ev_deciding (eval_loop ps i st) = Some (pol_id p)"
    "ev_reason (eval_loop ps i st) = or_else (pe_reason (pol_evaluate p i st)) ''blocked by policy''"
    by simp_all
qed

lemma evaluate_simps:
  "res_decision (fst (evaluate opts i st now n)) = verdict_of (eo_policies opts) i st"
  "res_policyRows (fst (evaluate opts i st now n)) =
     map (\<lambda>p. policy_row p (pol_evaluate p i st)) (eo_policies opts)"
  "res_checks (fst (evaluate opts i st now n)) =
     map (\<lambda>p. policy_check p (pol_evaluate p i st)) (eo_policies opts)"
  "res_intent (fst (evaluate opts i st now n)) = i"
  "res_sequence (fst (evaluate opts i st now n)) = n + 1" "snd (evaluate opts i st now n) = n + 1"
  by (simp_all add: evaluate_def engine_result_def eval_loop_decision eval_loop_rows eval_loop_checks)

section \<open>Properties\<close>

text \<open>
  (C8) The verdict is the most severe verdict of any policy: BLOCK exactly when some policy blocks,
  ALLOW exactly when every policy allows, REQUIRE\_APPROVAL exactly when none blocks and some
  policy asks for approval. In particular an approval never rescues a block, in any order.
\<close>

theorem engine_verdict:
  "(res_decision (fst (evaluate options i st now n)) = BLOCK \<longleftrightarrow>
      list_ex (\<lambda>p. pe_decision (pol_evaluate p i st) = BLOCK) (eo_policies options)) \<and>
   (res_decision (fst (evaluate options i st now n)) = ALLOW \<longleftrightarrow>
      list_all (\<lambda>p. pe_decision (pol_evaluate p i st) = ALLOW) (eo_policies options)) \<and>
   (res_decision (fst (evaluate options i st now n)) = REQUIRE_APPROVAL \<longleftrightarrow>
      list_all (\<lambda>p. pe_decision (pol_evaluate p i st) \<noteq> BLOCK) (eo_policies options) \<and>
      list_ex (\<lambda>p. pe_decision (pol_evaluate p i st) = REQUIRE_APPROVAL) (eo_policies options))"
  by (simp add: evaluate_simps verdict_BLOCK_iff verdict_ALLOW_iff verdict_APPROVAL_iff decision_of_def
      list_all_iff list_ex_iff)

text \<open>
  A result carries one row and one check per policy, in policy order, also after a block; each row
  shows that policy's own verdict, and it passed exactly when that verdict is ALLOW.
\<close>

theorem engine_rows_complete:
  "map pr_id (res_policyRows (fst (evaluate options i st now n))) = map pol_id (eo_policies options) \<and>
   map pc_policy (res_checks (fst (evaluate options i st now n))) = map pol_id (eo_policies options) \<and>
   map pr_decision (res_policyRows (fst (evaluate options i st now n))) =
     map (\<lambda>p. pe_decision (pol_evaluate p i st)) (eo_policies options) \<and>
   list_all (\<lambda>r. pr_passed r = (pr_decision r = ALLOW)) (res_policyRows (fst (evaluate options i st now n)))"
  by (simp add: evaluate_simps policy_row_def policy_check_def list_all_iff)

text \<open>
  When the first blocking policy is \<open>p\<close>, the violations returned are those of the policies up to
  and including \<open>p\<close>, the reason is the one \<open>p\<close> gave, and the proof attached is the one registered for
  \<open>p\<close> and no other: what comes after the block changes none of them.
\<close>

theorem engine_first_block:
  assumes "eo_policies options = xs @ p # ys"
    and "list_all (\<lambda>q. pe_decision (pol_evaluate q i st) \<noteq> BLOCK) xs"
    and "pe_decision (pol_evaluate p i st) = BLOCK" and "pe_reason (pol_evaluate p i st) = Some why"
    and "eo_proofs options = Some proofs" and "pol_id p \<noteq> []"
  shows "res_reason (fst (evaluate options i st now n)) = why \<and>
    res_proof (fst (evaluate options i st now n)) = map_of proofs (pol_id p) \<and>
    res_violations (fst (evaluate options i st now n)) =
      List.map_filter (\<lambda>q. pe_violation (pol_evaluate q i st)) (xs @ [p])"
proof -
  have "\<forall>q \<in> set xs. decision_of i st q \<noteq> BLOCK" "decision_of i st p = BLOCK"
    using assms(2,3) by (simp_all add: list_all_iff decision_of_def)
  note b = eval_loop_block [OF assms(1) this]
  show ?thesis
    using assms(4-6) b by (simp add: evaluate_def engine_result_def violations_of_def)
qed

section \<open>Sample engine\<close>

definition sample_state :: PolicyState where
  "sample_state = \<lparr>st_account = sample_account, st_dayUtc = 20000, st_dailySpend = 0, st_balance = 1000,
     st_asset = sample_token, st_now = 1728000000000, st_pool = None\<rparr>"

definition sample_intent :: "int \<Rightarrow> NormalizedIntent" where
  "sample_intent amount = \<lparr>in_kind = TRANSFER, in_target = sample_token, in_selector = SELECTOR_TRANSFER,
     in_nativeValue = 0, in_outflow = [\<lparr>aa_asset = sample_token, aa_amount = amount, aa_provenance = DECODED\<rparr>],
     in_counterparty = Some sample_payee, in_notionalUSDC = amount, in_summary = [],
     in_raw = sample_action sample_token ''0x''\<rparr>"

definition sample_proof :: ProofReference where
  "sample_proof = \<lparr>pf_property = MAX_TRANSFER, pf_status = PROVEN, pf_tool = SolcSmtchecker, pf_solverTimeMs = 1,
     pf_artifactPath = [], pf_counterexample = None\<rparr>"

definition sample_options :: PolicyEngineOptions where
  "sample_options = \<lparr>eo_decoders = empty_registry,
     eo_policies = [AllowlistPolicy [sample_token] [sample_payee] False, MaxTransactionPolicy 100,
       MinBalancePolicy 10, DailySpendPolicy 200, ApprovalThresholdPolicy 50],
     eo_decoderContext = sample_ctx, eo_proofs = Some [(''maxTransaction'', sample_proof)]\<rparr>"

theorem engine_first_block_witness:
  "res_proof (fst (evaluate sample_options (sample_intent 150) sample_state 0 0)) = Some sample_proof"
proof -
  let ?i = "sample_intent 150"
  obtain why where "pe_reason (pol_evaluate (MaxTransactionPolicy 100) ?i sample_state) = Some why"
    and "pe_decision (pol_evaluate (MaxTransactionPolicy 100) ?i sample_state) = BLOCK"
    by (simp add: MaxTransactionPolicy_def sample_intent_def)
  moreover have "pe_decision (pol_evaluate (AllowlistPolicy [sample_token] [sample_payee] False) ?i sample_state) = ALLOW"
    by (simp add: AllowlistPolicy_def sample_intent_def pass_def)
  moreover have "eo_policies sample_options = [AllowlistPolicy [sample_token] [sample_payee] False] @
      MaxTransactionPolicy 100 # [MinBalancePolicy 10, DailySpendPolicy 200, ApprovalThresholdPolicy 50]"
    "eo_proofs sample_options = Some [(''maxTransaction'', sample_proof)]"
    by (simp_all add: sample_options_def)
  moreover have "pol_id (MaxTransactionPolicy 100) = ''maxTransaction''" by (simp add: MaxTransactionPolicy_def)
  ultimately show ?thesis
    using engine_first_block [of sample_options "[AllowlistPolicy [sample_token] [sample_payee] False]"
        "MaxTransactionPolicy 100" _ ?i sample_state why "[(''maxTransaction'', sample_proof)]" 0 0]
    by simp
qed

end
