(* ===== verification/Keccak.thy ===== *)
theory Keccak
  imports Hex
begin

text \<open>
  \<^verbatim>\<open>packages/sdk/src/crypto/keccak.ts\<close>: Keccak-256 with the original padding. The code
  works on unbounded integers that it masks to 64 bits by hand; the definitions do the same, and
  the lemmas show that they compute the permutation on machine words (\<open>permute_word\<close>): the
  masking keeps every lane within 64 bits and loses nothing.
\<close>

unbundle bit_operations_syntax

section \<open>Constants\<close>

definition MASK :: int where
  "MASK = 2 ^ 64 - 1"

definition ROUND_CONSTANTS :: "int list" where
  "ROUND_CONSTANTS =
     [0x0000000000000001, 0x0000000000008082, 0x800000000000808a, 0x8000000080008000,
      0x000000000000808b, 0x0000000080000001, 0x8000000080008081, 0x8000000000008009,
      0x000000000000008a, 0x0000000000000088, 0x0000000080008009, 0x000000008000000a,
      0x000000008000808b, 0x800000000000008b, 0x8000000000008089, 0x8000000000008003,
      0x8000000000008002, 0x8000000000000080, 0x000000000000800a, 0x800000008000000a,
      0x8000000080008081, 0x8000000000008080, 0x0000000080000001, 0x8000000080008008]"

definition ROTATION :: "nat list" where
  "ROTATION =
     [0, 1, 62, 28, 27,
      36, 44, 6, 55, 20,
      3, 10, 43, 25, 39,
      41, 45, 15, 21, 8,
      18, 2, 61, 56, 14]"

definition RATE_BYTES :: nat where
  "RATE_BYTES = 136"

section \<open>The permutation\<close>

definition rotl :: "int \<Rightarrow> nat \<Rightarrow> int" where
  "rotl x n = (push_bit n x OR drop_bit (64 - n) x) AND MASK"

definition theta_c :: "int list \<Rightarrow> int list" where
  "theta_c state =
     map (\<lambda>x. state ! x XOR state ! (x + 5) XOR state ! (x + 10) XOR state ! (x + 15) XOR state ! (x + 20)) [0..<5]"

definition theta_d :: "int list \<Rightarrow> int list" where
  "theta_d c = map (\<lambda>x. c ! ((x + 4) mod 5) XOR rotl (c ! ((x + 1) mod 5)) 1) [0..<5]"

definition theta_xor :: "int list \<Rightarrow> int list \<Rightarrow> int list" where
  "theta_xor state d = map (\<lambda>i. state ! i XOR d ! (i mod 5)) [0..<25]"

definition theta :: "int list \<Rightarrow> int list" where
  "theta state = theta_xor state (theta_d (theta_c state))"

text \<open>The assignments \<^verbatim>\<open>b[dst] = ...\<close> of the double loop, \<open>src = y * 5 + x\<close>.\<close>

definition rho_pi :: "int list \<Rightarrow> int list" where
  "rho_pi state =
     fold (\<lambda>src b. b[((2 * (src mod 5) + 3 * (src div 5)) mod 5) * 5 + src div 5 := rotl (state ! src) (ROTATION ! src)])
       [0..<25] (replicate 25 0)"

definition chi :: "int list \<Rightarrow> int list" where
  "chi b = map (\<lambda>i. let y = i div 5; x = i mod 5 in
       b ! i XOR ((NOT (b ! (y * 5 + (x + 1) mod 5))) AND MASK AND b ! (y * 5 + (x + 2) mod 5))) [0..<25]"

definition iota :: "int list \<Rightarrow> int \<Rightarrow> int list" where
  "iota state rc = state[0 := state ! 0 XOR rc]"

definition keccak_round :: "int list \<Rightarrow> int \<Rightarrow> int list" where
  "keccak_round state rc = iota (chi (rho_pi (theta state))) rc"

definition permute :: "int list \<Rightarrow> int list" where
  "permute state = foldl keccak_round state ROUND_CONSTANTS"

section \<open>The sponge\<close>

definition keccak_pad :: "byte list \<Rightarrow> byte list" where
  "keccak_pad input =
     (let n = ((length input + 1 + (RATE_BYTES - 1)) div RATE_BYTES) * RATE_BYTES;
          padded = (input @ replicate (n - length input) 0)[length input := 1]
      in padded[n - 1 := padded ! (n - 1) OR 0x80])"

text \<open>One lane, read from its last byte to its first.\<close>

definition lane_value :: "byte list \<Rightarrow> int" where
  "lane_value bytes = foldr (\<lambda>b v. push_bit 8 v OR uint b) bytes 0"

definition absorb_block :: "int list \<Rightarrow> byte list \<Rightarrow> int list" where
  "absorb_block state block =
     permute (fold (\<lambda>lane s. s[lane := s ! lane XOR lane_value (take 8 (drop (lane * 8) block))])
       [0..<RATE_BYTES div 8] state)"

definition absorb :: "byte list \<Rightarrow> int list" where
  "absorb padded =
     foldl (\<lambda>s k. absorb_block s (take RATE_BYTES (drop (k * RATE_BYTES) padded)))
       (replicate 25 0) [0..<length padded div RATE_BYTES]"

definition squeeze :: "int list \<Rightarrow> byte list" where
  "squeeze state =
     concat (map (\<lambda>lane. map (\<lambda>k. word_of_int (drop_bit (8 * k) (state ! lane) AND 0xff)) [0..<8]) [0..<4])"

definition keccak256Bytes :: "byte list \<Rightarrow> byte list" where
  "keccak256Bytes input = squeeze (absorb (keccak_pad input))"

text \<open>\<^verbatim>\<open>new TextEncoder().encode\<close> on characters up to U+00FF.\<close>

definition utf8_char :: "char \<Rightarrow> byte list" where
  "utf8_char c =
     (let n = of_char c in
      if n < 128 then [word_of_nat n] else [word_of_nat (192 + n div 64), word_of_nat (128 + n mod 64)])"

definition utf8 :: "string \<Rightarrow> byte list" where
  "utf8 s = concat (map utf8_char s)"

definition keccak256 :: "string \<Rightarrow> Hex" where
  "keccak256 input = bytesToHex (keccak256Bytes (utf8 input))"

section \<open>The permutation on machine words\<close>

definition theta_word :: "64 word list \<Rightarrow> 64 word list" where
  "theta_word state =
     (let c = map (\<lambda>x. state ! x XOR state ! (x + 5) XOR state ! (x + 10) XOR state ! (x + 15) XOR state ! (x + 20)) [0..<5];
          d = map (\<lambda>x. c ! ((x + 4) mod 5) XOR word_rotl 1 (c ! ((x + 1) mod 5))) [0..<5]
      in map (\<lambda>i. state ! i XOR d ! (i mod 5)) [0..<25])"

definition rho_pi_word :: "64 word list \<Rightarrow> 64 word list" where
  "rho_pi_word state =
     fold (\<lambda>src b. b[((2 * (src mod 5) + 3 * (src div 5)) mod 5) * 5 + src div 5 := word_rotl (ROTATION ! src) (state ! src)])
       [0..<25] (replicate 25 0)"

definition chi_word :: "64 word list \<Rightarrow> 64 word list" where
  "chi_word b = map (\<lambda>i. let y = i div 5; x = i mod 5 in
       b ! i XOR ((NOT (b ! (y * 5 + (x + 1) mod 5))) AND b ! (y * 5 + (x + 2) mod 5))) [0..<25]"

definition round_word :: "64 word list \<Rightarrow> 64 word \<Rightarrow> 64 word list" where
  "round_word state rc = (let s = chi_word (rho_pi_word (theta_word state)) in s[0 := s ! 0 XOR rc])"

definition permute_word :: "64 word list \<Rightarrow> 64 word list" where
  "permute_word state = foldl round_word state (map word_of_int ROUND_CONSTANTS)"

lemma MASK_mask: "MASK = mask 64"
  by (simp add: MASK_def mask_eq_exp_minus_1)

lemma bit_rotl_uint:
  "n < 64 \<Longrightarrow> bit (rotl (uint (x :: 64 word)) n) k \<longleftrightarrow> k < 64 \<and> (n \<le> k \<and> bit x (k - n) \<or> bit x (64 - n + k))"
  by (auto simp: rotl_def MASK_mask bit_and_iff bit_or_iff bit_push_bit_iff bit_drop_bit_eq bit_mask_iff bit_uint_iff
      dest: bit_imp_le_length)

lemma rotl_uint:
  assumes "n < 64"
  shows "rotl (uint (x :: 64 word)) n = uint (word_rotl n x)"
proof (rule bit_eqI)
  fix k
  have "bit (uint (word_rotl n x)) k \<longleftrightarrow> k < 64 \<and> bit x ((k + (64 - n)) mod 64)"
    using assms by (simp add: bit_uint_iff bit_word_rotl_iff)
  moreover have "(k + (64 - n)) mod 64 = k - n" if "n \<le> k" "k < 64"
  proof -
    have "k + (64 - n) = 64 + (k - n)" using that assms by simp
    then have "(k + (64 - n)) mod 64 = (64 + (k - n)) mod 64" by (rule arg_cong)
    also have "\<dots> = k - n" unfolding mod_add_self1 using that by simp
    finally show ?thesis .
  qed
  moreover have "\<not> bit x (64 - n + k)" if "n \<le> k"
    using that assms bit_imp_le_length [of x "64 - n + k"] by auto
  moreover have "(k + (64 - n)) mod 64 = 64 - n + k" if "\<not> n \<le> k"
    using that assms by simp
  ultimately show "bit (rotl (uint x) n) k = bit (uint (word_rotl n x)) k"
    unfolding bit_rotl_uint [OF assms] by (cases "n \<le> k") auto
qed

lemma length_theta [simp]: "length (theta s) = 25" "length (theta_word w) = 25"
  by (simp_all add: theta_def theta_xor_def theta_word_def Let_def)

lemma theta_uint:
  assumes "length w = 25"
  shows "theta (map uint w) = map uint (theta_word w)"
proof -
  let ?c = "\<lambda>x. w ! x XOR w ! (x + 5) XOR w ! (x + 10) XOR w ! (x + 15) XOR w ! (x + 20)"
  have c: "map (\<lambda>x. map uint w ! x XOR map uint w ! (x + 5) XOR map uint w ! (x + 10) XOR map uint w ! (x + 15) XOR
      map uint w ! (x + 20)) [0..<5] = map (\<lambda>x. uint (?c x)) [0..<5]"
    using assms by (simp add: unsigned_xor_eq)
  have "uint a XOR (uint b XOR rotl (uint e) 1) = uint (a XOR (b XOR word_rotl 1 e))" for a b e :: "64 word"
    by (simp add: rotl_uint unsigned_xor_eq del: One_nat_def)
  then show ?thesis
    unfolding theta_def theta_word_def theta_xor_def theta_d_def theta_c_def Let_def c using assms by simp
qed

lemma fold_update_map:
  "fold (\<lambda>k b. b[d k := h (g k)]) xs (map h b0) = map h (fold (\<lambda>k b. b[d k := g k]) xs b0)"
  by (induction xs arbitrary: b0) (simp_all flip: map_update)

lemma length_fold_update [simp]: "length (fold (\<lambda>k b. b[d k := g k]) xs b0) = length b0"
  by (induction xs arbitrary: b0) simp_all

lemma ROTATION_less: "src < 25 \<Longrightarrow> ROTATION ! src < 64"
proof -
  have "list_all (\<lambda>r. r < 64) ROTATION" "length ROTATION = 25" by (simp_all add: ROTATION_def)
  then show "src < 25 \<Longrightarrow> ROTATION ! src < 64" by (simp add: list_all_length)
qed

lemma length_rho_pi [simp]: "length (rho_pi s) = 25" "length (rho_pi_word w) = 25"
  by (simp_all add: rho_pi_def rho_pi_word_def)

lemma rho_pi_uint:
  assumes "length w = 25"
  shows "rho_pi (map uint w) = map uint (rho_pi_word w)"
proof -
  let ?d = "\<lambda>src. ((2 * (src mod 5) + 3 * (src div 5)) mod 5) * 5 + src div 5 :: nat"
  have "rho_pi (map uint w) =
      fold (\<lambda>src b. b[?d src := uint (word_rotl (ROTATION ! src) (w ! src))]) [0..<25] (map uint (replicate 25 (0 :: 64 word)))"
    unfolding rho_pi_def
    by (rule fold_cong) (use assms in \<open>auto simp: rotl_uint ROTATION_less\<close>)
  also have "\<dots> = map uint (rho_pi_word w)"
    unfolding rho_pi_word_def by (rule fold_update_map)
  finally show ?thesis .
qed

lemma length_chi [simp]: "length (chi s) = 25" "length (chi_word w) = 25"
  by (simp_all add: chi_def chi_word_def)

lemma chi_lane: "uint a XOR (NOT (uint b) AND MASK AND uint c) = uint (a XOR (NOT b AND (c :: 64 word)))"
  by (rule bit_eqI)
    (auto simp: MASK_mask bit_xor_iff bit_and_iff bit_not_iff bit_mask_iff bit_uint_iff dest: bit_imp_le_length)

lemma chi_uint:
  assumes "length w = 25"
  shows "chi (map uint w) = map uint (chi_word w)"
proof -
  have "i div 5 * 5 + j mod 5 < 25" if "i < 25" for i j :: nat
  proof -
    have "i div 5 < 5" using that by (simp add: less_mult_imp_div_less)
    moreover have "j mod 5 < 5" by simp
    ultimately show ?thesis by linarith
  qed
  with assms show ?thesis by (simp add: chi_def chi_word_def Let_def chi_lane)
qed

lemma keccak_round_uint:
  assumes "length w = 25"
  shows "keccak_round (map uint w) (uint rc) = map uint (round_word w rc)"
  using assms
  by (simp add: keccak_round_def iota_def round_word_def Let_def theta_uint rho_pi_uint chi_uint unsigned_xor_eq map_update)

lemma length_round_word [simp]: "length (round_word w rc) = 25"
  by (simp add: round_word_def Let_def)

lemma foldl_round_uint:
  "length w = 25 \<Longrightarrow> foldl keccak_round (map uint w) (map uint rcs) = map uint (foldl round_word w rcs)"
  by (induction rcs arbitrary: w) (simp_all add: keccak_round_uint)

lemma ROUND_CONSTANTS_uint: "map uint (map word_of_int ROUND_CONSTANTS :: 64 word list) = ROUND_CONSTANTS"
  by (simp add: ROUND_CONSTANTS_def)

lemma permute_uint: "length w = 25 \<Longrightarrow> permute (map uint w) = map uint (permute_word w)"
  using foldl_round_uint [of w "map word_of_int ROUND_CONSTANTS"]
  by (simp only: permute_def permute_word_def ROUND_CONSTANTS_uint)

section \<open>Sizes\<close>

lemma length_keccak_pad: "length (keccak_pad input) = ((length input + 136) div 136) * 136"
proof -
  have "length input < ((length input + 136) div 136) * 136"
    using dividend_less_div_times [of 136 "length input"] by (simp add: add.commute)
  then show ?thesis by (simp add: keccak_pad_def RATE_BYTES_def Let_def)
qed

lemma length_keccak256Bytes [simp]: "length (keccak256Bytes input) = 32"
  by (simp add: keccak256Bytes_def squeeze_def length_concat comp_def sum_list_triv)

section \<open>Properties\<close>

text \<open>
  The bigint arithmetic of the code, masked by hand, is Keccak-f[1600] on 64-bit machine words:
  from any state whose 25 lanes fit in 64 bits, the permutation returns 25 lanes that fit, and they
  are the ones obtained with word rotation, complement and exclusive-or.
\<close>

theorem permute_refines_words:
  "length w = 25 \<Longrightarrow> permute (map uint w) = map uint (permute_word w) \<and>
     list_all (\<lambda>lane. 0 \<le> lane \<and> lane < 2 ^ 64) (permute (map uint w))"
proof -
  assume w: "length w = 25"
  have "list_all (\<lambda>lane. 0 \<le> lane \<and> lane < 2 ^ 64) (map uint v)" for v :: "64 word list"
    using uint_lt2p [where 'a = 64] by (auto simp: list_all_iff)
  with permute_uint [OF w] show ?thesis by simp
qed

theorem permute_refines_words_witness:
  "permute (map uint (replicate 25 (0 :: 64 word))) = map uint (permute_word (replicate 25 0))"
  using permute_refines_words [of "replicate 25 0"] by simp

lemma empty_absorbed:
  "fold (\<lambda>lane s. s[lane := s ! lane XOR lane_value (take 8 (drop (lane * 8) (keccak_pad [])))])
     [0..<RATE_BYTES div 8] (replicate 25 0) = [0x1, 0x0, 0x0, 0x0, 0x0, 0x0, 0x0, 0x0, 0x0, 0x0, 0x0, 0x0, 0x0, 0x0, 0x0, 0x0, 0x8000000000000000,
      0x0, 0x0, 0x0, 0x0, 0x0, 0x0, 0x0, 0x0]"
  by code_simp

lemma empty_permuted:
  "permute [0x1, 0x0, 0x0, 0x0, 0x0, 0x0, 0x0, 0x0, 0x0, 0x0, 0x0, 0x0, 0x0, 0x0, 0x0, 0x0, 0x8000000000000000,
      0x0, 0x0, 0x0, 0x0, 0x0, 0x0, 0x0, 0x0] =
    [0x3c23f7860146d2c5, 0xc003c7dcb27d7e92, 0x3b2782ca53b600e5, 0x70a4855d04d8fa7b, 0x74a97cd82c9abb3d,
      0xcb9b1161ecb0a2b9, 0x1f2211c4c0f9ed5c, 0x820dc6175fa24161, 0x81babfbcab8046d2,
      0xb1d551b7242b765b, 0x3cf26d5eba2553e8, 0x3bce6a98fe5b7210, 0xba7d9fa73545d2a2,
      0xfa0d3cd3b03b15bb, 0x3bfed7eb12c7ce09, 0xeb829c854e19a949, 0x1b5d1a6545a611ff,
      0x64146f400e16b72, 0xfe8734e16471ab9f, 0x9c3088bdeebb0936, 0xdee8b8eca7b2acba,
      0x163b62b71dcf4521, 0x6b571b9910726d91, 0xb7fa22cf622318be, 0xa3fe1af7779fafd7]"
  by code_simp

lemma absorb_empty: "absorb (keccak_pad []) =
    [0x3c23f7860146d2c5, 0xc003c7dcb27d7e92, 0x3b2782ca53b600e5, 0x70a4855d04d8fa7b, 0x74a97cd82c9abb3d,
      0xcb9b1161ecb0a2b9, 0x1f2211c4c0f9ed5c, 0x820dc6175fa24161, 0x81babfbcab8046d2,
      0xb1d551b7242b765b, 0x3cf26d5eba2553e8, 0x3bce6a98fe5b7210, 0xba7d9fa73545d2a2,
      0xfa0d3cd3b03b15bb, 0x3bfed7eb12c7ce09, 0xeb829c854e19a949, 0x1b5d1a6545a611ff,
      0x64146f400e16b72, 0xfe8734e16471ab9f, 0x9c3088bdeebb0936, 0xdee8b8eca7b2acba,
      0x163b62b71dcf4521, 0x6b571b9910726d91, 0xb7fa22cf622318be, 0xa3fe1af7779fafd7]"
proof -
  have "length (keccak_pad []) = RATE_BYTES" by (simp add: length_keccak_pad RATE_BYTES_def)
  then have "absorb (keccak_pad []) = absorb_block (replicate 25 0) (keccak_pad [])"
    by (simp add: absorb_def RATE_BYTES_def)
  then show ?thesis unfolding absorb_block_def empty_absorbed empty_permuted .
qed

text \<open>
  The digest of the empty string is the published Keccak-256 vector, the one that distinguishes
  the original padding from the NIST one.
\<close>

theorem keccak256_empty:
  "keccak256 [] = ''0xc5d2460186f7233c927e7db2dcc703c0e500b653ca82273b7bfad8045d85a470''"
  unfolding keccak256_def keccak256Bytes_def utf8_def list.map concat.simps absorb_empty by code_simp

end
