(* ===== verification/SimulatedAccount.thy ===== *)
theory SimulatedAccount
  imports PolicyEngine Keccak
begin

text \<open>
  \<^verbatim>\<open>packages/sdk/src/testing/SimulatedAccount.ts\<close>: the in-process account with the policy
  hook, and \<^verbatim>\<open>contracts/src/lib/PolicyLib.sol\<close>, whose semantics it claims to follow. An
  operation returns its result and the state it leaves behind, also when it throws.

  The lemmas: a refused operation moves nothing; an accepted one respects the limits; over every
  run the spend of a UTC day stays within the daily limit; the spend rule is the one of the
  Solidity library on 256-bit words.
\<close>

section \<open>State\<close>

record SimulatedConfig =
  sc_asset :: Address
  sc_maxTransaction :: int
  sc_dailyLimit :: int
  sc_minBalance :: int
  sc_policyHash :: Hex
  sc_allowedTargets :: "Address list"

record UserOperationRequest =
  uo_account :: Address
  uo_to :: Address
  uo_data :: Hex
  uo_value :: int
  uo_nonce :: "Hex option"

record SimLogEntry =
  sl_txHash :: Hex
  sl_target :: Address
  sl_outflow :: int
  sl_spentToday :: int

record SimulatedAccount =
  sa_chainId :: int
  sa_address :: Address
  sa_config :: SimulatedConfig
  sa_balance :: int
  sa_windowDay :: int
  sa_windowSpent :: int
  sa_nonce :: nat
  sa_clockMs :: int
  sa_allowed :: "Address list"
  sa_log :: "SimLogEntry list"

definition sim_today :: "SimulatedAccount \<Rightarrow> int" where
  "sim_today s = sa_clockMs s div 1000 div 86400"

definition newSimulatedAccount :: "Address \<Rightarrow> SimulatedConfig \<Rightarrow> int \<Rightarrow> int option \<Rightarrow> int \<Rightarrow> SimulatedAccount result" where
  "newSimulatedAccount address config balance chainId nowMs =
     bindR (mapR normalizeAddress (sc_allowedTargets config @ [sc_asset config])) (\<lambda>allowed.
       let s = \<lparr>sa_chainId = or_else chainId 11155111, sa_address = address, sa_config = config,
             sa_balance = balance, sa_windowDay = 0, sa_windowSpent = 0, sa_nonce = 0, sa_clockMs = nowMs,
             sa_allowed = js_set allowed, sa_log = []\<rparr>
       in Inr (s\<lparr>sa_windowDay := sim_today s\<rparr>))"

section \<open>Execution\<close>

definition decodeCounterparty :: "Hex \<Rightarrow> Address option result" where
  "decodeCounterparty data =
     (let selector = selectorOf data in
      if selector = SELECTOR_TRANSFER \<or> selector = SELECTOR_APPROVE
      then bindR (readAddress data 0) (\<lambda>a. Inr (Some a))
      else if selector = SELECTOR_TRANSFER_FROM then bindR (readAddress data 1) (\<lambda>a. Inr (Some a))
      else Inr None)"

text \<open>What moves, given the balance; the new balance is the old one less the result.\<close>

definition applyRouterPull :: "Hex \<Rightarrow> Address \<Rightarrow> SimulatedAccount \<Rightarrow> int result" where
  "applyRouterPull data target s =
     bindR createDefaultRegistry (\<lambda>decoders.
     bindR (registry_decode decoders
         \<lparr>act_to = target, act_data = data, act_value = 0, act_chainId = sa_chainId s, act_metadata = None\<rparr>
         \<lparr>dc_account = sa_address s, dc_trackedAsset = sc_asset (sa_config s), dc_decimals = 6\<rparr>)
       (\<lambda>intent.
          if in_kind intent \<noteq> SWAP then Inr 0
          else
            let pulled = (case find (\<lambda>f. aa_asset f = sc_asset (sa_config s)) (in_outflow intent) of
                  None \<Rightarrow> 0 | Some f \<Rightarrow> aa_amount f)
            in Inr (if pulled > sa_balance s then sa_balance s else pulled)))"

definition applyTransfer :: "Hex \<Rightarrow> Address \<Rightarrow> SimulatedAccount \<Rightarrow> int result" where
  "applyTransfer data target s =
     (if target \<noteq> sc_asset (sa_config s) then applyRouterPull data target s
      else
        let selector = selectorOf data in
        if selector = SELECTOR_TRANSFER then
          bindR (readWord data 1) (\<lambda>amount.
            if amount > sa_balance s then Inl Erc20ExceedsBalance else Inr amount)
        else if selector = SELECTOR_TRANSFER_FROM then
          bindR (readAddress data 0) (\<lambda>from.
            if from = sa_address s then
              bindR (readWord data 2) (\<lambda>amount.
                if amount > sa_balance s then Inl Erc20ExceedsBalance else Inr amount)
            else Inr 0)
        else Inr 0)"

definition revert_detail :: "(string \<times> string) list \<Rightarrow> string" where
  "revert_detail d = join '', '' (map (\<lambda>(k, v). k @ ''='' @ v) d)"

definition preCheck :: "UserOperationRequest \<Rightarrow> SimulatedAccount \<Rightarrow> Address result" where
  "preCheck request s =
     bindR (normalizeAddress (uo_to request)) (\<lambda>target.
       if target \<notin> set (sa_allowed s) then
         Inl (PolicyRevert ''TargetNotAllowed'' (revert_detail [(''target'', target)]))
       else if target = sc_asset (sa_config s) then
         bindR (decodeCounterparty (uo_data request)) (\<lambda>c. case c of
             Some counterparty \<Rightarrow>
               if counterparty \<notin> set (sa_allowed s) then
                 Inl (PolicyRevert ''TargetNotAllowed'' (revert_detail [(''target'', counterparty)]))
               else Inr target
           | None \<Rightarrow> Inr target)
       else Inr target)"

text \<open>
  \<open>s\<close> is the state after the execution. The refusals put the balance back; the window is written
  before the floor is tested, as in the code.
\<close>

definition postCheck :: "int \<Rightarrow> int \<Rightarrow> SimulatedAccount \<Rightarrow> unit result \<times> SimulatedAccount" where
  "postCheck balanceBefore today s =
     (let c = sa_config s;
          outflow = (if balanceBefore > sa_balance s then balanceBefore - sa_balance s else 0);
          base = (if sa_windowDay s = today then sa_windowSpent s else 0);
          wouldBe = base + outflow
      in if outflow > 0 \<and> outflow > sc_maxTransaction c then
           (Inl (PolicyRevert ''ExceedsMaxTransaction'' (revert_detail [(''amount'', bigint_to_string outflow),
              (''limit'', bigint_to_string (sc_maxTransaction c))])), s\<lparr>sa_balance := balanceBefore\<rparr>)
         else if outflow > 0 \<and> wouldBe > sc_dailyLimit c then
           (Inl (PolicyRevert ''ExceedsDailyLimit'' (revert_detail [(''wouldBe'', bigint_to_string wouldBe),
              (''limit'', bigint_to_string (sc_dailyLimit c))])), s\<lparr>sa_balance := balanceBefore\<rparr>)
         else
           let s1 = (if outflow > 0 then s\<lparr>sa_windowDay := today, sa_windowSpent := wouldBe\<rparr> else s) in
           if sa_balance s1 < sc_minBalance c then
             (Inl (PolicyRevert ''BelowMinBalance'' (revert_detail [(''balance'', bigint_to_string (sa_balance s1)),
                (''minBalance'', bigint_to_string (sc_minBalance c))])), s1\<lparr>sa_balance := balanceBefore\<rparr>)
           else (Inr (), s1))"

definition sim_txHash :: "SimulatedAccount \<Rightarrow> Hex \<Rightarrow> Hex" where
  "sim_txHash s data = keccak256 (''sim:'' @ sa_address s @ '':'' @ to_dec (sa_nonce s) @ '':'' @ data)"

definition sendUnchecked :: "UserOperationRequest \<Rightarrow> SimulatedAccount \<Rightarrow> Hex result \<times> SimulatedAccount" where
  "sendUnchecked request s =
     (case preCheck request s of
        Inl e \<Rightarrow> (Inl e, s)
      | Inr target \<Rightarrow>
          (case applyTransfer (uo_data request) target s of
             Inl e \<Rightarrow> (Inl e, s)
           | Inr moved \<Rightarrow>
               (case postCheck (sa_balance s) (sim_today s) (s\<lparr>sa_balance := sa_balance s - moved\<rparr>) of
                  (Inl e, s1) \<Rightarrow> (Inl e, s1)
                | (Inr _, s1) \<Rightarrow>
                    let txHash = sim_txHash s1 (uo_data request) in
                    (Inr txHash, s1\<lparr>sa_nonce := sa_nonce s1 + 1,
                       sa_log := sa_log s1 @ [\<lparr>sl_txHash = txHash, sl_target = target, sl_outflow = moved,
                         sl_spentToday = sa_windowSpent s1\<rparr>]\<rparr>))))"

definition sim_send :: "UserOperationRequest \<Rightarrow> SimulatedAccount \<Rightarrow> Hex result \<times> SimulatedAccount" where
  "sim_send request s = sendUnchecked request s"

definition set_maxTransaction :: "int \<Rightarrow> SimulatedAccount \<Rightarrow> SimulatedAccount" where
  "set_maxTransaction m s = s\<lparr>sa_config := (sa_config s)\<lparr>sc_maxTransaction := m\<rparr>\<rparr>"

definition sim_sendAsOwner :: "UserOperationRequest \<Rightarrow> SimulatedAccount \<Rightarrow> Hex result \<times> SimulatedAccount" where
  "sim_sendAsOwner request s =
     (let previous = sc_maxTransaction (sa_config s);
          (r, s1) = sendUnchecked request (set_maxTransaction (sc_dailyLimit (sa_config s)) s)
      in (r, set_maxTransaction previous s1))"

section \<open>Reads and the clock\<close>

definition sim_getErc20Balance :: "string \<Rightarrow> string \<Rightarrow> SimulatedAccount \<Rightarrow> int result" where
  "sim_getErc20Balance asset account s =
     bindR (normalizeAddress asset) (\<lambda>a.
       if a = sc_asset (sa_config s) then
         bindR (normalizeAddress account) (\<lambda>b. Inr (if b = sa_address s then sa_balance s else 0))
       else Inr 0)"

definition sim_call :: "Hex" where
  "sim_call = ''0x''"

definition sim_getBlockTimestamp :: "SimulatedAccount \<Rightarrow> int" where
  "sim_getBlockTimestamp s = sa_clockMs s div 1000"

definition sim_spentToday :: "SimulatedAccount \<Rightarrow> int" where
  "sim_spentToday s = (if sa_windowDay s = sim_today s then sa_windowSpent s else 0)"

definition sim_advance :: "int \<Rightarrow> SimulatedAccount \<Rightarrow> SimulatedAccount" where
  "sim_advance ms s = s\<lparr>sa_clockMs := sa_clockMs s + ms\<rparr>"

section \<open>What an operation does\<close>

text \<open>A router call that decodes as a swap declares the tracked asset first, and never a negative amount.\<close>

lemma swap_outflow:
  assumes "registry_decode default_registry a ctx = Inr i" and "in_kind i = SWAP"
  shows "find (\<lambda>f. aa_asset f = dc_trackedAsset ctx) (in_outflow i) =
      Some \<lparr>aa_asset = dc_trackedAsset ctx, aa_amount = in_notionalUSDC i, aa_provenance = DECODED\<rparr>"
    and "0 \<le> in_notionalUSDC i"
proof -
  have u: "uniswap_decode a ctx = Inr (Some i)"
    using assms(1)
  proof (cases rule: registry_decode_cases)
    case (decoder d)
    then have "d \<in> {erc20Decoder, uniswapV4Decoder, x402Decoder, nativeDecoder}"
      by (auto simp: registry_decoders_def default_registry_def)
    with decoder(2) assms(2) show ?thesis
      by (auto simp: erc20Decoder_def uniswapV4Decoder_def x402Decoder_def nativeDecoder_def native_decode_def
          x402_decode_def Let_def bindR_eq_Inr erc20_shapes split: if_splits elim!: erc20_decode_cases)
  qed (use assms(2) in \<open>simp add: unknown_intent_def\<close>)
  then show "find (\<lambda>f. aa_asset f = dc_trackedAsset ctx) (in_outflow i) =
      Some \<lparr>aa_asset = dc_trackedAsset ctx, aa_amount = in_notionalUSDC i, aa_provenance = DECODED\<rparr>"
    using assms(2) by (cases rule: uniswap_decode_cases)
      (auto simp: unboundedSwap_def swap_intent_def bindR_eq_Inr Let_def)
  from u show "0 \<le> in_notionalUSDC i"
  proof (cases rule: uniswap_decode_cases)
    case (swap router cs ins s)
    then have "nonneg_outflow (ss_outflow s)" using router_commands_mono by fastforce
    moreover obtain k where "in_notionalUSDC i = outflow_value (ss_outflow s) k"
      using swap_intent_notional [OF swap(4)] unfolding outflow_get_Inr by blast
    ultimately show ?thesis by (simp add: nonneg_outflow_def)
  qed (simp add: unboundedSwap_def)
qed

lemma applyTransfer_range:
  assumes "applyTransfer data target s = Inr moved" and "0 \<le> sa_balance s"
  shows "0 \<le> moved \<and> moved \<le> sa_balance s"
proof (cases "target = sc_asset (sa_config s)")
  case True
  with assms show ?thesis
    by (auto simp: applyTransfer_def Let_def bindR_eq_Inr split: if_splits dest: readWord_nonneg)
next
  case False
  with assms swap_outflow show ?thesis
    by (auto simp: applyTransfer_def applyRouterPull_def createDefaultRegistry_eq bindR_eq_Inr Let_def split: if_splits)
      (fastforce split: option.splits)+
qed

text \<open>The cases of a submission.\<close>

lemma sendUnchecked_cases:
  assumes "sendUnchecked request s = (r, s')"
  obtains (refused) e where "r = Inl e" "s' = s"
  | (executed) target moved r1 s1 where "preCheck request s = Inr target"
      "applyTransfer (uo_data request) target s = Inr moved"
      "postCheck (sa_balance s) (sim_today s) (s\<lparr>sa_balance := sa_balance s - moved\<rparr>) = (r1, s1)"
      "(\<exists>e. r1 = Inl e \<and> r = Inl e \<and> s' = s1) \<or>
       (r1 = Inr () \<and> (\<exists>h entry. r = Inr h \<and> s' = s1\<lparr>sa_nonce := sa_nonce s1 + 1, sa_log := sa_log s1 @ [entry]\<rparr>))"
proof (cases "preCheck request s")
  case (Inl e)
  with assms have "r = Inl e" "s' = s" by (simp_all add: sendUnchecked_def)
  then show thesis by (rule refused)
next
  case pre: (Inr target)
  show thesis
  proof (cases "applyTransfer (uo_data request) target s")
    case (Inl e)
    with pre assms have "r = Inl e" "s' = s" by (simp_all add: sendUnchecked_def)
    then show thesis by (rule refused)
  next
    case app: (Inr moved)
    obtain r1 s1 where post: "postCheck (sa_balance s) (sim_today s) (s\<lparr>sa_balance := sa_balance s - moved\<rparr>) = (r1, s1)"
      by fastforce
    show thesis
      by (rule executed [OF pre app post]) (use assms pre app post in \<open>auto simp: sendUnchecked_def Let_def split: sum.splits\<close>)
  qed
qed

lemma postCheck_frame:
  assumes "postCheck before today s = (r, s1)"
  shows "sa_config s1 = sa_config s" "sa_nonce s1 = sa_nonce s" "sa_log s1 = sa_log s" "sa_clockMs s1 = sa_clockMs s"
    "sa_allowed s1 = sa_allowed s" "sa_address s1 = sa_address s"
    "sa_balance s1 = (if isl r then before else sa_balance s)"
  using assms by (auto simp: postCheck_def Let_def split: if_splits)

lemma postCheck_window:
  assumes "postCheck before today s = (r, s1)" and "moved = before - sa_balance s" and "0 \<le> moved"
  shows "(sa_windowDay s1 = sa_windowDay s \<and> sa_windowSpent s1 = sa_windowSpent s \<and> (isl r \<or> moved = 0)) \<or>
    (0 < moved \<and> moved \<le> sc_maxTransaction (sa_config s) \<and> sa_windowDay s1 = today \<and>
     sa_windowSpent s1 = (if sa_windowDay s = today then sa_windowSpent s else 0) + moved \<and>
     sa_windowSpent s1 \<le> sc_dailyLimit (sa_config s))"
  using assms by (auto simp: postCheck_def Let_def split: if_splits)

lemma postCheck_ok:
  assumes "postCheck before today s = (Inr u, s1)" and "moved = before - sa_balance s" and "0 \<le> moved"
  shows "sc_minBalance (sa_config s) \<le> sa_balance s1"
    and "0 < moved \<Longrightarrow> moved \<le> sc_maxTransaction (sa_config s)"
  using assms by (auto simp: postCheck_def Let_def split: if_splits)

definition sim_inv :: "SimulatedAccount \<Rightarrow> bool" where
  "sim_inv s = (0 \<le> sa_balance s \<and> 0 \<le> sa_windowSpent s \<and> sa_windowSpent s \<le> sc_dailyLimit (sa_config s) \<and>
     sa_windowDay s \<le> sim_today s)"

text \<open>What a submission does to the accounting, whatever its outcome.\<close>

definition spends :: "SimulatedAccount \<Rightarrow> int \<Rightarrow> SimulatedAccount \<Rightarrow> bool" where
  "spends s out s' = (sa_balance s' = sa_balance s - out \<and> 0 \<le> out \<and> sa_config s' = sa_config s \<and>
     sa_clockMs s' = sa_clockMs s \<and>
     ((sa_windowDay s' = sa_windowDay s \<and> sa_windowSpent s' = sa_windowSpent s \<and> out = 0) \<or>
      (sa_windowDay s' = sim_today s \<and> sa_windowSpent s' \<le> sc_dailyLimit (sa_config s) \<and>
       (if sa_windowDay s = sim_today s then sa_windowSpent s else 0) + out \<le> sa_windowSpent s')))"

lemma sendUnchecked_spends:
  assumes "sendUnchecked request s = (r, s')" and inv: "sim_inv s"
  shows "spends s (sa_balance s - sa_balance s') s' \<and> sim_inv s'"
  using assms(1)
proof (cases rule: sendUnchecked_cases)
  case (refused e)
  with inv show ?thesis by (simp add: spends_def)
next
  case (executed target moved r1 s1)
  let ?m = "s\<lparr>sa_balance := sa_balance s - moved\<rparr>"
  have m: "0 \<le> moved" "moved \<le> sa_balance s" using applyTransfer_range [OF executed(2)] inv by (auto simp: sim_inv_def)
  note w = postCheck_window [OF executed(3), of moved] and f = postCheck_frame [OF executed(3)]
  have s': "sa_balance s' = sa_balance s1" "sa_config s' = sa_config s1" "sa_clockMs s' = sa_clockMs s1"
    "sa_windowDay s' = sa_windowDay s1" "sa_windowSpent s' = sa_windowSpent s1"
    using executed(4) by auto
  show ?thesis
    using w f m inv by (auto simp: spends_def sim_inv_def s' sim_today_def)
qed

lemma sendAsOwner_spends:
  assumes "sim_sendAsOwner request s = (r, s')" and "sim_inv s"
  shows "spends s (sa_balance s - sa_balance s') s' \<and> sim_inv s'"
proof -
  let ?o = "set_maxTransaction (sc_dailyLimit (sa_config s)) s"
  obtain s1 where s1: "sendUnchecked request ?o = (r, s1)" "s' = set_maxTransaction (sc_maxTransaction (sa_config s)) s1"
    using assms(1) by (auto simp: sim_sendAsOwner_def Let_def split: prod.splits)
  have "sim_inv ?o" using assms(2) by (simp add: sim_inv_def set_maxTransaction_def sim_today_def)
  from sendUnchecked_spends [OF s1(1) this] show ?thesis
    by (auto simp: s1(2) spends_def sim_inv_def set_maxTransaction_def sim_today_def split: if_splits)
qed

section \<open>Runs\<close>

text \<open>The steps of an account, labelled with the UTC day and what left the account.\<close>

inductive sim_step :: "SimulatedAccount \<Rightarrow> int \<times> int \<Rightarrow> SimulatedAccount \<Rightarrow> bool" where
  send: "sendUnchecked request s = (r, s') \<Longrightarrow> sim_step s (sim_today s, sa_balance s - sa_balance s') s'"
| owner: "sim_sendAsOwner request s = (r, s') \<Longrightarrow> sim_step s (sim_today s, sa_balance s - sa_balance s') s'"
| tick: "0 \<le> ms \<Longrightarrow> sim_step s (sim_today s, 0) (sim_advance ms s)"

inductive sim_run :: "SimulatedAccount \<Rightarrow> (int \<times> int) list \<Rightarrow> SimulatedAccount \<Rightarrow> bool" where
  start: "sim_run s [] s"
| more: "sim_run s tr m \<Longrightarrow> sim_step m l s' \<Longrightarrow> sim_run s (tr @ [l]) s'"

inductive_cases sim_stepE: "sim_step s l s'"

definition day_total :: "(int \<times> int) list \<Rightarrow> int \<Rightarrow> int" where
  "day_total tr d = (\<Sum>(day, out)\<leftarrow>tr. if day = d then out else 0)"

lemma day_total_simps [simp]:
  "day_total [] d = 0" "day_total (tr @ [(day, out)]) d = day_total tr d + (if day = d then out else 0)"
  by (simp_all add: day_total_def)

definition run_inv :: "(int \<times> int) list \<Rightarrow> SimulatedAccount \<Rightarrow> bool" where
  "run_inv tr s = (sim_inv s \<and> (\<forall>d. day_total tr d \<le> sc_dailyLimit (sa_config s)) \<and>
     day_total tr (sa_windowDay s) \<le> sa_windowSpent s \<and> (\<forall>d > sa_windowDay s. day_total tr d = 0))"

lemma run_inv_spends:
  assumes "run_inv tr s" and "spends s out s'" and "sim_inv s'"
  shows "run_inv (tr @ [(sim_today s, out)]) s'"
proof -
  have base: "day_total tr (sim_today s) \<le> (if sa_windowDay s = sim_today s then sa_windowSpent s else 0)"
    using assms(1) by (cases "sa_windowDay s = sim_today s") (auto simp: run_inv_def sim_inv_def)
  have today: "sa_windowDay s \<le> sim_today s" using assms(1) by (simp add: run_inv_def sim_inv_def)
  consider "sa_windowDay s' = sa_windowDay s" "sa_windowSpent s' = sa_windowSpent s" "out = 0"
    | "sa_windowDay s' = sim_today s" "sa_windowSpent s' \<le> sc_dailyLimit (sa_config s)"
      "(if sa_windowDay s = sim_today s then sa_windowSpent s else 0) + out \<le> sa_windowSpent s'"
    using assms(2) unfolding spends_def by blast
  then show ?thesis
  proof cases
    case 1
    with assms show ?thesis by (simp add: run_inv_def spends_def)
  next
    case 2
    then have "day_total tr (sim_today s) + out \<le> sa_windowSpent s'" using base by linarith
    with assms today 2 show ?thesis by (auto simp: run_inv_def spends_def)
  qed
qed

lemma sim_step_inv:
  assumes "sim_step s l s'" and "run_inv tr s"
  shows "run_inv (tr @ [l]) s' \<and> sa_config s' = sa_config s"
  using assms(1)
proof cases
  case (send request r)
  have "sim_inv s" using assms(2) by (simp add: run_inv_def)
  with sendUnchecked_spends [OF send(2)] have "spends s (sa_balance s - sa_balance s') s'" "sim_inv s'" by simp_all
  with run_inv_spends [OF assms(2) this] send(1) show ?thesis by (simp add: spends_def)
next
  case (owner request r)
  have "sim_inv s" using assms(2) by (simp add: run_inv_def)
  with sendAsOwner_spends [OF owner(2)] have "spends s (sa_balance s - sa_balance s') s'" "sim_inv s'" by simp_all
  with run_inv_spends [OF assms(2) this] owner(1) show ?thesis by (simp add: spends_def)
next
  case (tick ms)
  have "sim_today s \<le> sim_today (sim_advance ms s)"
    using tick by (simp add: sim_today_def sim_advance_def zdiv_mono1)
  with tick assms(2) show ?thesis by (auto simp: run_inv_def sim_inv_def sim_advance_def)
qed

lemma sim_run_inv: "sim_run s tr s' \<Longrightarrow> run_inv [] s \<Longrightarrow> run_inv tr s' \<and> sa_config s' = sa_config s"
  by (induction rule: sim_run.induct) (auto dest: sim_step_inv)

lemma new_account_inv:
  assumes "newSimulatedAccount address config balance chainId nowMs = Inr s"
    and "0 \<le> balance" and "0 \<le> sc_dailyLimit config"
  shows "run_inv [] s" and "sa_config s = config"
  using assms by (auto simp: newSimulatedAccount_def bindR_eq_Inr Let_def run_inv_def sim_inv_def sim_today_def)

lemma send_transfer:
  assumes enc: "encodeErc20Transfer to amount = Inr (uo_data request)" "wf_address to" "uint256 amount"
    and target: "normalizeAddress (uo_to request) = Inr (sc_asset (sa_config s))"
    and allowed: "sc_asset (sa_config s) \<in> set (sa_allowed s)" "to \<in> set (sa_allowed s)"
  shows "sendUnchecked request s =
     (if amount > sa_balance s then (Inl Erc20ExceedsBalance, s)
      else case postCheck (sa_balance s) (sim_today s) (s\<lparr>sa_balance := sa_balance s - amount\<rparr>) of
        (Inl e, s1) \<Rightarrow> (Inl e, s1)
      | (Inr _, s1) \<Rightarrow>
          let txHash = sim_txHash s1 (uo_data request) in
          (Inr txHash, s1\<lparr>sa_nonce := sa_nonce s1 + 1,
             sa_log := sa_log s1 @ [\<lparr>sl_txHash = txHash, sl_target = sc_asset (sa_config s), sl_outflow = amount,
               sl_spentToday = sa_windowSpent s1\<rparr>]\<rparr>))"
proof -
  note r = read_transfer [OF enc]
  have "preCheck request s = Inr (sc_asset (sa_config s))"
    using r target allowed by (simp add: preCheck_def decodeCounterparty_def)
  moreover have "applyTransfer (uo_data request) (sc_asset (sa_config s)) s =
      (if amount > sa_balance s then Inl Erc20ExceedsBalance else Inr amount)"
    using r by (simp add: applyTransfer_def)
  ultimately show ?thesis by (simp add: sendUnchecked_def)
qed

lemma uint256_nonneg: "uint256 v \<Longrightarrow> 0 \<le> v"
  by (simp add: uint256_def)

text \<open>A transfer within every limit goes through.\<close>

lemma send_transfer_ok:
  assumes "encodeErc20Transfer to amount = Inr (uo_data request)" "wf_address to" "uint256 amount"
    and "normalizeAddress (uo_to request) = Inr (sc_asset (sa_config s))"
    and "sc_asset (sa_config s) \<in> set (sa_allowed s)" "to \<in> set (sa_allowed s)"
    and "amount \<le> sa_balance s" "amount \<le> sc_maxTransaction (sa_config s)"
    and "sim_spentToday s + amount \<le> sc_dailyLimit (sa_config s)"
    and "sc_minBalance (sa_config s) \<le> sa_balance s - amount"
  shows "\<exists>h s'. sendUnchecked request s = (Inr h, s') \<and> sa_balance s' = sa_balance s - amount \<and>
    sim_spentToday s' = sim_spentToday s + amount"
  using assms(7-10) uint256_nonneg [OF assms(3)] unfolding send_transfer [OF assms(1-6)]
  by (auto simp: postCheck_def Let_def sim_spentToday_def sim_today_def split: if_splits)

section \<open>PolicyLib.sol\<close>

text \<open>
  \<^verbatim>\<open>PolicyLib.evaluate\<close>, the rule of the contract, on its own types: \<^verbatim>\<open>uint64\<close> days and
  \<^verbatim>\<open>uint256\<close> amounts.
\<close>

datatype SpendDecision = Allow | ExceedsMaxTransaction | ExceedsDailyLimit | WindowMovedBackwards

definition policylib_evaluate ::
  "64 word \<Rightarrow> 256 word \<Rightarrow> 256 word \<Rightarrow> 256 word \<Rightarrow> 256 word \<Rightarrow> 64 word \<Rightarrow> SpendDecision \<times> 64 word \<times> 256 word" where
  "policylib_evaluate day spent maxTransaction dailyLimit amount today =
     (if today < day then (WindowMovedBackwards, day, spent)
      else if amount > maxTransaction then (ExceedsMaxTransaction, day, spent)
      else
        let base = (if day = today then spent else 0) in
        if amount > - 1 - base then (ExceedsDailyLimit, day, spent)
        else
          let wouldBe = base + amount in
          if wouldBe > dailyLimit then (ExceedsDailyLimit, day, spent)
          else (Allow, today, wouldBe))"

text \<open>The guard on the accumulator: no wrap-around below it.\<close>

lemma no_wrap:
  fixes base amount :: "256 word"
  shows "amount \<le> - 1 - base \<longleftrightarrow> uint base + uint amount < 2 ^ 256"
    and "amount \<le> - 1 - base \<Longrightarrow> uint (base + amount) = uint base + uint amount"
proof -
  have "uint (- 1 - base) = 2 ^ 256 - 1 - uint base"
  proof -
    have "- 1 - base = NOT base" by (simp add: not_eq_complement)
    then show ?thesis
      using uint_lt2p [of base]
      by (simp add: unsigned_not_eq take_bit_not_eq_mask_diff mask_eq_exp_minus_1 take_bit_int_eq_self)
  qed
  then show "amount \<le> - 1 - base \<longleftrightarrow> uint base + uint amount < 2 ^ 256"
    by (auto simp: word_le_def)
  then show "amount \<le> - 1 - base \<Longrightarrow> uint (base + amount) = uint base + uint amount"
    by (simp add: uint_plus_simple_iff word_le_def uint_word_ariths)
qed

section \<open>Properties\<close>

text \<open>
  (C4) Whatever an agent submits, with the session key or with the owner key, in any order and with any
  passage of time, what leaves the account on any single UTC day never exceeds the daily limit.
\<close>

theorem daily_limit_over_runs:
  assumes "newSimulatedAccount address config balance chainId nowMs = Inr s0"
    and "0 \<le> balance" and "0 \<le> sc_dailyLimit config" and "sim_run s0 tr s"
  shows "day_total tr d \<le> sc_dailyLimit config \<and> 0 \<le> sa_balance s"
  using sim_run_inv [OF assms(4) new_account_inv(1) [OF assms(1-3)]] new_account_inv(2) [OF assms(1-3)]
  by (auto simp: run_inv_def sim_inv_def)

definition sample_config :: SimulatedConfig where
  "sample_config = \<lparr>sc_asset = sample_token, sc_maxTransaction = 100, sc_dailyLimit = 150, sc_minBalance = 10,
     sc_policyHash = ''0x'', sc_allowedTargets = [sample_payee, sample_router]\<rparr>"

definition sample_sim :: SimulatedAccount where
  "sample_sim = \<lparr>sa_chainId = 1, sa_address = sample_account, sa_config = sample_config, sa_balance = 1000,
     sa_windowDay = 0, sa_windowSpent = 0, sa_nonce = 0, sa_clockMs = 0,
     sa_allowed = [sample_payee, sample_router, sample_token], sa_log = []\<rparr>"

lemma sample_sim_new: "newSimulatedAccount sample_account sample_config 1000 (Some 1) 0 = Inr sample_sim"
  by (simp add: newSimulatedAccount_def sample_config_def sample_sim_def Let_def sim_today_def)
    (simp add: sample_address_def)

definition sample_request :: "Hex \<Rightarrow> UserOperationRequest" where
  "sample_request d = \<lparr>uo_account = sample_account, uo_to = sample_token, uo_data = d, uo_value = 0, uo_nonce = None\<rparr>"

lemma sample_transfer:
  assumes "encodeErc20Transfer sample_payee amount = Inr d" and "0 \<le> amount" and "amount \<le> 100"
  shows "\<exists>h s'. sendUnchecked (sample_request d) sample_sim = (Inr h, s') \<and> sa_balance s' = 1000 - amount"
proof -
  have "uint256 amount" using assms(2,3) by (intro uint256_small) simp_all
  then have "\<exists>h s'. sendUnchecked (sample_request d) sample_sim = (Inr h, s') \<and>
      sa_balance s' = sa_balance sample_sim - amount \<and> sim_spentToday s' = sim_spentToday sample_sim + amount"
    using assms by (intro send_transfer_ok [of sample_payee])
      (simp_all add: sample_request_def sample_sim_def sample_config_def sim_spentToday_def sim_today_def)
  then show ?thesis by (auto simp: sample_sim_def)
qed

theorem daily_limit_over_runs_witness:
  "\<exists>s. sim_run sample_sim [(0, 60)] s \<and> day_total [(0, 60)] 0 \<le> 150 \<and> 0 \<le> sa_balance s"
proof -
  obtain d where d: "encodeErc20Transfer sample_payee 60 = Inr d" by (simp add: encodeErc20Transfer_def)
  from sample_transfer [OF d] obtain h s where
    send: "sendUnchecked (sample_request d) sample_sim = (Inr h, s)" "sa_balance s = 940" by auto
  have "sim_step sample_sim (0, 60) s"
    using sim_step.send [OF send(1)] send(2) by (simp add: sample_sim_def sim_today_def)
  from sim_run.more [OF sim_run.start this] have "sim_run sample_sim [(0, 60)] s" by simp
  with daily_limit_over_runs [OF sample_sim_new _ _ this, of 0] show ?thesis
    by (auto simp: sample_config_def)
qed

text \<open>
  A refused submission moves nothing: the balance, the nonce and the log are those from before; and
  an accepted one moves at most the per-transaction limit and leaves at least the reserve.
\<close>

theorem send_outcome:
  assumes "sendUnchecked request s = (r, s')" and "sim_inv s"
  shows "case r of
      Inl _ \<Rightarrow> sa_balance s' = sa_balance s \<and> sa_nonce s' = sa_nonce s \<and> sa_log s' = sa_log s
    | Inr _ \<Rightarrow> 0 \<le> sa_balance s - sa_balance s' \<and>
        (sa_balance s' < sa_balance s \<longrightarrow> sa_balance s - sa_balance s' \<le> sc_maxTransaction (sa_config s)) \<and>
        sc_minBalance (sa_config s) \<le> sa_balance s' \<and> sa_nonce s' = sa_nonce s + 1 \<and>
        length (sa_log s') = length (sa_log s) + 1"
  using assms(1)
proof (cases rule: sendUnchecked_cases)
  case (refused e)
  then show ?thesis by simp
next
  case (executed target moved r1 s1)
  have m: "0 \<le> moved" using applyTransfer_range [OF executed(2)] assms(2) by (simp add: sim_inv_def)
  note f = postCheck_frame [OF executed(3)]
  show ?thesis
  proof (cases r1)
    case (Inl e)
    with executed(4) f show ?thesis by auto
  next
    case (Inr u)
    with executed(4) f m postCheck_ok [OF executed(3) [unfolded Inr], of moved] show ?thesis by auto
  qed
qed

theorem send_outcome_witness:
  "\<exists>d h s'. encodeErc20Transfer sample_payee 60 = Inr d \<and>
     sendUnchecked (sample_request d) sample_sim = (Inr h, s') \<and> sc_minBalance (sa_config sample_sim) \<le> sa_balance s'"
proof -
  obtain d where d: "encodeErc20Transfer sample_payee 60 = Inr d" by (simp add: encodeErc20Transfer_def)
  from sample_transfer [OF d] obtain h s where
    send: "sendUnchecked (sample_request d) sample_sim = (Inr h, s)" by auto
  have "sim_inv sample_sim" by (simp add: sim_inv_def sample_sim_def sample_config_def sim_today_def)
  from send_outcome [OF send this] d send show ?thesis by auto
qed

text \<open>
  The spend rule of the account is the one of the contract: for a day that does not move
  backwards and a floor that holds, the simulated check takes the same decision as
  \<^verbatim>\<open>PolicyLib.evaluate\<close> on 256-bit words, for the same reason, and commits the same window, which a refusal
  leaves unchanged.
\<close>

theorem postCheck_refines_PolicyLib:
  assumes "sc_maxTransaction (sa_config s) = uint mx" and "sc_dailyLimit (sa_config s) = uint dl"
    and "sa_windowDay s = uint day" and "sa_windowSpent s = uint spent"
    and "before - sa_balance s = uint amount" and "0 < amount" and "day \<le> today"
    and "sc_minBalance (sa_config s) \<le> sa_balance s"
    and "policylib_evaluate day spent mx dl amount today = (d, day', spent')"
    and "postCheck before (uint today) s = (r, s1)"
  shows "sa_windowDay s1 = uint day' \<and> sa_windowSpent s1 = uint spent' \<and> (d = Allow \<longleftrightarrow> r = Inr ()) \<and>
    (d = ExceedsMaxTransaction \<longleftrightarrow> (\<exists>x. r = Inl (PolicyRevert ''ExceedsMaxTransaction'' x))) \<and>
    (d = ExceedsDailyLimit \<longleftrightarrow> (\<exists>x. r = Inl (PolicyRevert ''ExceedsDailyLimit'' x))) \<and> d \<noteq> WindowMovedBackwards"
proof -
  define base where "base = (if day = today then spent else 0)"
  have a: "0 < uint amount" "before > sa_balance s" using assms(5,6) by (simp_all add: word_less_def)
  have base: "(if sa_windowDay s = uint today then sa_windowSpent s else 0) = uint base"
    using assms(3,4) by (simp add: base_def word_uint_eq_iff)
  have dl: "dl < base + amount \<longleftrightarrow> sc_dailyLimit (sa_config s) < uint base + uint amount" if "amount \<le> - 1 - base"
    using no_wrap(2) [OF that] assms(2) by (simp add: word_less_def)
  have over: "sc_dailyLimit (sa_config s) < uint base + uint amount" if "\<not> amount \<le> - 1 - base"
    using that no_wrap(1) [of amount base] uint_lt2p [of dl] assms(2) by simp
  have mx: "mx < amount \<longleftrightarrow> sc_maxTransaction (sa_config s) < uint amount"
    using assms(1) by (simp add: word_less_def)
  have lib: "(d, day', spent') = (if mx < amount then (ExceedsMaxTransaction, day, spent)
      else if sc_dailyLimit (sa_config s) < uint base + uint amount then (ExceedsDailyLimit, day, spent)
      else (Allow, today, base + amount))"
    using assms(7,9) dl over unfolding policylib_evaluate_def base_def [symmetric] Let_def by (auto split: if_splits)
  have "uint (base + amount) = uint base + uint amount"
    if "\<not> sc_dailyLimit (sa_config s) < uint base + uint amount"
    using that over no_wrap(2) by blast
  with lib assms(3,4,5,8,10) a mx show ?thesis
    unfolding postCheck_def Let_def base [symmetric] by (auto split: if_splits)
qed

theorem postCheck_refines_PolicyLib_witness:
  "\<exists>r s1. postCheck 1000 (uint (0 :: 64 word)) (sample_sim\<lparr>sa_balance := 940\<rparr>) = (r, s1) \<and> r = Inr () \<and> sa_windowSpent s1 = 60"
proof -
  have lib: "policylib_evaluate 0 0 100 150 60 0 = (Allow, 0, 60)" by (simp add: policylib_evaluate_def)
  obtain r s1 where p: "postCheck 1000 (uint (0 :: 64 word)) (sample_sim\<lparr>sa_balance := 940\<rparr>) = (r, s1)" by fastforce
  have "sa_windowSpent s1 = uint (60 :: 256 word) \<and> r = Inr ()"
    using postCheck_refines_PolicyLib [OF _ _ _ _ _ _ _ _ lib p] by (simp add: sample_sim_def sample_config_def)
  with p show ?thesis by simp
qed

text \<open>
  The code writes the spend window before it tests the floor and does not put it back: a transfer
  refused with \<^verbatim>\<open>BelowMinBalance\<close> is counted against the daily limit although nothing moved. (The
  contract reverts the whole operation.)
\<close>

theorem floor_refusal_consumes_allowance:
  assumes "encodeErc20Transfer to amount = Inr (uo_data request)" "wf_address to" "uint256 amount"
    and "normalizeAddress (uo_to request) = Inr (sc_asset (sa_config s))"
    and "sc_asset (sa_config s) \<in> set (sa_allowed s)" "to \<in> set (sa_allowed s)"
    and "0 < amount" "amount \<le> sa_balance s" "amount \<le> sc_maxTransaction (sa_config s)"
    and "sim_spentToday s + amount \<le> sc_dailyLimit (sa_config s)"
    and "sa_balance s - amount < sc_minBalance (sa_config s)"
  shows "\<exists>e s'. sendUnchecked request s = (Inl e, s') \<and> sa_balance s' = sa_balance s \<and>
    sim_spentToday s' = sim_spentToday s + amount"
  using assms(7-11) unfolding send_transfer [OF assms(1-6)]
  by (auto simp: postCheck_def Let_def sim_spentToday_def sim_today_def split: if_splits)

end
