(* ===== verification/PolicyDoc.thy ===== *)
theory PolicyDoc
  imports Types Keccak "HOL-Library.Multiset"
begin

text \<open>
  \<^verbatim>\<open>packages/sdk/src/core/policy.ts\<close>: canonical JSON, the policy hash and the strict
  resolution of a policy document. A JavaScript value is a \<open>json\<close>; the numbers of policy documents
  and state files are integers. The lemmas show that the canonical text depends on the value only
  up to key order (\<open>canonicalJSON_perm\<close>) and determines it (\<open>print_json_prefix\<close>), so that
  the hash binds the document and not the way it was edited.
\<close>

section \<open>Canonical JSON\<close>

datatype json = JUndefined | JNull | JBool bool | JNum int | JStr string | JArr "json list"
  | JObj "(string \<times> json) list"

text \<open>The escapes of \<^verbatim>\<open>JSON.stringify\<close> for a string.\<close>

definition escape_char :: "char \<Rightarrow> string" where
  "escape_char c =
     (let n = (of_char c :: nat) in
      if n = 34 then [CHR 0x5C, CHR 0x22] else if n = 92 then [CHR 0x5C, CHR 0x5C]
      else if n = 8 then [CHR 0x5C, CHR ''b''] else if n = 9 then [CHR 0x5C, CHR ''t'']
      else if n = 10 then [CHR 0x5C, CHR ''n''] else if n = 12 then [CHR 0x5C, CHR ''f'']
      else if n = 13 then [CHR 0x5C, CHR ''r'']
      else if n < 32 then [CHR 0x5C, CHR ''u''] @ padStart 4 (CHR ''0'') (to_hex n)
      else [c])"

definition stringify_string :: "string \<Rightarrow> string" where
  "stringify_string s = [CHR 0x22] @ concat (map escape_char s) @ [CHR 0x22]"

lemma size_json_elem [termination_simp]: "(k, v) \<in> set es \<Longrightarrow> size v < Suc (size_list (size_prod (\<lambda>_. 0) size) es)"
  by (induction es) auto

function canonicalJSON :: "json \<Rightarrow> string" where
  "canonicalJSON JUndefined = ''null''"
| "canonicalJSON JNull = ''null''"
| "canonicalJSON (JBool b) = (if b then ''true'' else ''false'')"
| "canonicalJSON (JNum n) = bigint_to_string n"
| "canonicalJSON (JStr s) = stringify_string s"
| "canonicalJSON (JArr vs) = ''['' @ join '','' (map canonicalJSON vs) @ '']''"
| "canonicalJSON (JObj es) =
     ''{'' @ join '','' (map (\<lambda>(k, v). stringify_string k @ '':'' @ canonicalJSON v)
       (sort_key fst (filter (\<lambda>(_, v). v \<noteq> JUndefined) es))) @ ''}''"
  by pat_completeness auto

termination
  by (relation "measure size") (auto intro!: size_json_elem less_Suc_eq_le [THEN iffD2] size_list_estimation')

text \<open>
  The canonical text is the plain rendering of a normal form: undefined members dropped, other
  undefined values null, keys sorted.
\<close>

function norm_json :: "json \<Rightarrow> json" where
  "norm_json JUndefined = JNull"
| "norm_json JNull = JNull"
| "norm_json (JBool b) = JBool b"
| "norm_json (JNum n) = JNum n"
| "norm_json (JStr s) = JStr s"
| "norm_json (JArr vs) = JArr (map norm_json vs)"
| "norm_json (JObj es) =
     JObj (map (\<lambda>(k, v). (k, norm_json v)) (sort_key fst (filter (\<lambda>(_, v). v \<noteq> JUndefined) es)))"
  by pat_completeness auto

termination
  by (relation "measure size") (auto intro!: size_json_elem less_Suc_eq_le [THEN iffD2] size_list_estimation')

function print_json :: "json \<Rightarrow> string" where
  "print_json JUndefined = ''null''"
| "print_json JNull = ''null''"
| "print_json (JBool b) = (if b then ''true'' else ''false'')"
| "print_json (JNum n) = bigint_to_string n"
| "print_json (JStr s) = stringify_string s"
| "print_json (JArr vs) = ''['' @ join '','' (map print_json vs) @ '']''"
| "print_json (JObj es) =
     ''{'' @ join '','' (map (\<lambda>(k, v). stringify_string k @ '':'' @ print_json v) es) @ ''}''"
  by pat_completeness auto

termination
  by (relation "measure size") (auto intro!: size_json_elem less_Suc_eq_le [THEN iffD2] size_list_estimation')

lemma canonicalJSON_print: "canonicalJSON j = print_json (norm_json j)"
proof (induction j rule: canonicalJSON.induct)
  case (6 vs)
  then have "map canonicalJSON vs = map (print_json \<circ> norm_json) vs" by simp
  then show ?case by (simp only: canonicalJSON.simps norm_json.simps print_json.simps map_map)
next
  case (7 es)
  let ?l = "sort_key fst (filter (\<lambda>(_, v). v \<noteq> JUndefined) es)"
  have "map (\<lambda>(k, v). stringify_string k @ '':'' @ canonicalJSON v) ?l =
      map ((\<lambda>(k, v). stringify_string k @ '':'' @ print_json v) \<circ> (\<lambda>(k, v). (k, norm_json v))) ?l"
    using 7 by (intro map_cong) auto
  then show ?case by (simp only: canonicalJSON.simps norm_json.simps print_json.simps map_map)
qed simp_all

section \<open>The text determines the value\<close>

text \<open>Escapes form a prefix code: the first two characters give the length.\<close>

definition escape_length :: "string \<Rightarrow> nat" where
  "escape_length s = (if hd s = CHR 0x5C then if s ! 1 = CHR ''u'' then 6 else 2 else 1)"

lemma length_control_hex: "n < 32 \<Longrightarrow> length (padStart 4 (CHR ''0'') (to_hex n)) = 4"
  using length_to_base [of 16 4 n] by (simp add: length_padStart)

lemma char_code: "c = CHR 0x5C \<Longrightarrow> (of_char c :: nat) = 92" "c = CHR 0x22 \<Longrightarrow> (of_char c :: nat) = 34"
  by simp_all

lemma escape_lengths:
  "length (escape_char c) = escape_length (escape_char c)"
  "escape_char c \<noteq> [] \<and> (hd (escape_char c) = CHR 0x5C \<longrightarrow> 1 < length (escape_char c)) \<and> hd (escape_char c) \<noteq> CHR 0x22"
  using char_code [of c] by (auto simp: escape_char_def escape_length_def Let_def length_control_hex)

lemma escape_inj:
  assumes "escape_char c = escape_char d"
  shows "c = d"
proof -
  have inj: "m = n" if "padStart 4 (CHR ''0'') (to_hex m) = padStart 4 (CHR ''0'') (to_hex n)" for m n
    using arg_cong [OF that, of of_hex] by simp
  have same: "c = d" if "(of_char c :: nat) = n" "of_char d = n" for n
    using that by (metis of_char_eq_iff)
  show ?thesis
    using assms char_code [of c] char_code [of d]
    by (auto simp: escape_char_def Let_def split: if_splits dest: inj intro: same)
qed

lemma escape_length_append: "escape_length (escape_char c @ x) = length (escape_char c)"
  using escape_lengths [of c] by (auto simp: escape_length_def nth_append)

lemma escape_prefix: "escape_char c @ x = escape_char d @ y \<Longrightarrow> c = d \<and> x = y"
  using escape_length_append [of c x] escape_length_append [of d y] escape_inj [of c d] by auto

lemma escape_not_quote: "escape_char c @ x \<noteq> CHR 0x22 # y"
  using escape_lengths(2) [of c] by (cases "escape_char c") auto

lemma stringify_prefix:
  "stringify_string s @ x = stringify_string t @ y \<Longrightarrow> s = t \<and> x = y"
proof (induction s arbitrary: t)
  case Nil
  then show ?case
    using escape_not_quote [symmetric] by (cases t) (auto simp: stringify_string_def)
next
  case (Cons c s)
  then obtain d t' where t: "t = d # t'"
    using escape_not_quote by (cases t) (auto simp: stringify_string_def)
  with Cons.prems have "escape_char c @ (concat (map escape_char s) @ CHR 0x22 # x) =
      escape_char d @ (concat (map escape_char t') @ CHR 0x22 # y)"
    by (simp add: stringify_string_def)
  from escape_prefix [OF this] have "c = d" and "stringify_string s @ x = stringify_string t' @ y"
    by (simp_all add: stringify_string_def)
  with Cons.IH t show ?case by blast
qed

text \<open>What may follow a value in a text: nothing, a comma or a closing bracket.\<close>

definition delimited :: "string \<Rightarrow> bool" where
  "delimited s = (s = [] \<or> hd s \<in> {CHR '','', CHR '']'', CHR ''}''})"

lemma delimited_simps [simp]: "delimited []" "delimited (CHR '','' # s)" "delimited (CHR '']'' # s)" "delimited (CHR ''}'' # s)"
  by (simp_all add: delimited_def)

definition prefix_code :: "('a \<Rightarrow> string) \<Rightarrow> 'a \<Rightarrow> 'a \<Rightarrow> bool" where
  "prefix_code f x y =
     (\<forall>r s. delimited r \<longrightarrow> delimited s \<longrightarrow> f x @ r = f y @ s \<longrightarrow> x = y \<and> r = s)"

lemma join_Cons: "join '','' (x # xs) @ r = x @ (if xs = [] then r else '','' @ join '','' xs @ r)"
  by (cases xs) simp_all

lemma join_prefix:
  assumes "\<And>x y. x \<in> set xs \<Longrightarrow> y \<in> set ys \<Longrightarrow> prefix_code f x y"
    and close: "close \<in> {CHR '']'', CHR ''}''}" and start: "\<And>x r t. f x @ r \<noteq> close # t"
    and "join '','' (map f xs) @ close # r = join '','' (map f ys) @ close # s"
  shows "xs = ys \<and> r = s"
  using assms(1,4)
proof (induction xs arbitrary: ys)
  case Nil
  then show ?case
    using start by (cases ys) (auto simp: join_Cons, metis)
next
  case (Cons x xs)
  obtain y ys' where ys: "ys = y # ys'"
    using Cons.prems(2) start by (cases ys) (auto simp: join_Cons)
  let ?rest = "\<lambda>zs t. if zs = [] then close # t else '','' @ join '','' (map f zs) @ close # t"
  have "delimited (?rest xs r)" "delimited (?rest ys' s)" using close by auto
  moreover have "f x @ ?rest xs r = f y @ ?rest ys' s"
    using Cons.prems(2) unfolding ys list.map join_Cons by simp
  ultimately have "x = y" and rest: "?rest xs r = ?rest ys' s"
    using Cons.prems(1) [of x y] ys by (auto simp: prefix_code_def)
  show ?case
  proof (cases "xs = [] \<or> ys' = []")
    case True
    with rest close \<open>x = y\<close> ys show ?thesis by (auto split: if_splits)
  next
    case False
    with rest have "join '','' (map f xs) @ close # r = join '','' (map f ys') @ close # s" by simp
    with Cons.IH [of ys'] Cons.prems(1) \<open>x = y\<close> ys show ?thesis by simp
  qed
qed

text \<open>Numbers end where their digits end.\<close>

definition num_char :: "char \<Rightarrow> bool" where
  "num_char c = (is_digit c \<or> c = CHR ''-'')"

lemma num_chars: "list_all num_char (bigint_to_string n)" "bigint_to_string n \<noteq> []"
  by (auto simp: int_to_base_def list_all_iff num_char_def dest: to_dec_digits)

lemma takeWhile_number: "delimited r \<Longrightarrow> takeWhile num_char (bigint_to_string n @ r) = bigint_to_string n"
  using num_chars(1) [of n]
  by (cases r) (auto simp: delimited_def list_all_iff takeWhile_append num_char_def is_digit_def)

lemma bigint_to_string_inject: "bigint_to_string m = bigint_to_string n \<Longrightarrow> m = n"
proof -
  have "CHR ''-'' # x \<noteq> to_dec k" for x k
    using to_dec_digits [of "CHR ''-''" k] by (auto simp: is_digit_def) (metis list.set_intros(1))
  then show "bigint_to_string m = bigint_to_string n \<Longrightarrow> m = n"
    by (auto simp: int_to_base_def to_base_inj split: if_splits) (metis)+
qed

lemma number_prefix: "prefix_code bigint_to_string m n"
  unfolding prefix_code_def
proof (intro allI impI)
  fix r s assume d: "delimited r" "delimited s" "bigint_to_string m @ r = bigint_to_string n @ s"
  then have "bigint_to_string m = bigint_to_string n"
    using takeWhile_number [of r m] takeWhile_number [of s n] by simp
  with d show "m = n \<and> r = s" by (auto dest: bigint_to_string_inject)
qed

fun no_undef :: "json \<Rightarrow> bool" where
  "no_undef JUndefined = False"
| "no_undef (JArr vs) = list_all no_undef vs"
| "no_undef (JObj es) = list_all (\<lambda>(k, v). no_undef v) es"
| "no_undef _ = True"

text \<open>The first character of a text gives the constructor.\<close>

fun json_tag :: "json \<Rightarrow> nat" where
  "json_tag (JBool b) = (if b then 1 else 2)"
| "json_tag (JNum n) = 3"
| "json_tag (JStr s) = 4"
| "json_tag (JArr vs) = 5"
| "json_tag (JObj es) = 6"
| "json_tag _ = 0"

definition char_tag :: "char \<Rightarrow> nat" where
  "char_tag c = (if num_char c then 3 else if c = CHR ''n'' then 0 else if c = CHR ''t'' then 1
     else if c = CHR ''f'' then 2 else if c = CHR 0x22 then 4 else if c = CHR ''['' then 5
     else if c = CHR ''{'' then 6 else 7)"

lemma print_json_tag: "print_json j \<noteq> [] \<and> char_tag (hd (print_json j)) = json_tag j"
proof (cases j)
  case (JNum n)
  then show ?thesis
    using num_chars [of n] by (cases "bigint_to_string n") (auto simp: char_tag_def)
qed (auto simp: char_tag_def num_char_def is_digit_def stringify_string_def)

lemma print_json_start: "close \<in> {CHR '']'', CHR ''}''} \<Longrightarrow> print_json j @ r \<noteq> close # t"
  using print_json_tag [of j]
  by (cases "print_json j"; cases j) (auto simp: char_tag_def num_char_def is_digit_def split: if_splits)

lemma print_json_same_tag:
  "print_json a @ r = print_json b @ s \<Longrightarrow> json_tag a = json_tag b"
  using print_json_tag [of a] print_json_tag [of b] by (metis hd_append2)

definition print_member :: "string \<times> json \<Rightarrow> string" where
  "print_member m = stringify_string (fst m) @ '':'' @ print_json (snd m)"

lemma print_json_obj: "print_json (JObj es) = ''{'' @ join '','' (map print_member es) @ ''}''"
proof -
  have "print_member = (\<lambda>(k, v). stringify_string k @ '':'' @ print_json v)"
    by (auto simp: print_member_def fun_eq_iff)
  then show ?thesis by simp
qed

lemma print_json_prefix:
  "no_undef a \<Longrightarrow> no_undef b \<Longrightarrow> prefix_code print_json a b"
proof (induction a arbitrary: b)
  case (JNum n)
  show ?case
    unfolding prefix_code_def
  proof (intro allI impI)
    fix r s assume d: "delimited r" "delimited s" "print_json (JNum n) @ r = print_json b @ s"
    then obtain m where "b = JNum m" using print_json_same_tag [OF d(3)] by (cases b) (auto split: if_splits)
    with d number_prefix [of n m] show "JNum n = b \<and> r = s" by (simp add: prefix_code_def)
  qed
next
  case (JStr x)
  show ?case
    unfolding prefix_code_def
  proof (intro allI impI)
    fix r s assume d: "delimited r" "delimited s" "print_json (JStr x) @ r = print_json b @ s"
    then obtain y where "b = JStr y" using print_json_same_tag [OF d(3)] by (cases b) (auto split: if_splits)
    with d stringify_prefix [of x r y s] show "JStr x = b \<and> r = s" by simp
  qed
next
  case (JArr vs)
  show ?case
    unfolding prefix_code_def
  proof (intro allI impI)
    fix r s assume d: "delimited r" "delimited s" "print_json (JArr vs) @ r = print_json b @ s"
    then obtain ws where b: "b = JArr ws" using print_json_same_tag [OF d(3)] by (cases b) (auto split: if_splits)
    have "prefix_code print_json x y" if "x \<in> set vs" "y \<in> set ws" for x y
      using that JArr b by (auto simp: list_all_iff)
    from join_prefix [where f = print_json and close = "CHR '']''" and xs = vs and ys = ws and r = r and s = s, OF this]
    show "JArr vs = b \<and> r = s" using d(3) b print_json_start by simp
  qed
next
  case (JObj es)
  show ?case
    unfolding prefix_code_def
  proof (intro allI impI)
    fix r s assume d: "delimited r" "delimited s" "print_json (JObj es) @ r = print_json b @ s"
    then obtain fs where b: "b = JObj fs" using print_json_same_tag [OF d(3)] by (cases b) (auto split: if_splits)
    have "prefix_code print_member x y" if "x \<in> set es" "y \<in> set fs" for x y
    proof -
      have "no_undef (snd x)" "no_undef (snd y)" using that JObj.prems b by (auto simp: list_all_iff)
      then have "prefix_code print_json (snd x) (snd y)"
        using JObj.IH [of x "snd x" "snd y"] that by (auto simp: snds.simps)
      then show ?thesis
        by (auto simp: prefix_code_def print_member_def prod_eq_iff dest!: stringify_prefix)
    qed
    moreover have "print_member x @ u \<noteq> CHR ''}'' # t" for x u t
      by (simp add: print_member_def stringify_string_def)
    ultimately show "JObj es = b \<and> r = s"
      using join_prefix [where f = print_member and close = "CHR ''}''" and xs = es and ys = fs and r = r and s = s]
        d(3) unfolding b print_json_obj by auto
  qed
next
  case (JBool x)
  then show ?case
    unfolding prefix_code_def using print_json_same_tag [of "JBool x" _ b] by (cases b) (auto split: if_splits)
next
  case JNull
  then show ?case
    unfolding prefix_code_def using print_json_same_tag [of JNull _ b] by (cases b) (auto split: if_splits)
qed simp

lemma norm_json_no_undef: "no_undef (norm_json j)"
  by (induction j rule: norm_json.induct) (auto simp: list_all_iff)

lemma canonicalJSON_inj: "canonicalJSON a = canonicalJSON b \<longleftrightarrow> norm_json a = norm_json b"
  using print_json_prefix [OF norm_json_no_undef norm_json_no_undef, of a b]
  by (auto simp: canonicalJSON_print prefix_code_def) (metis append_Nil2 delimited_simps(1))

text \<open>Key order does not matter.\<close>

lemma canonicalJSON_perm:
  assumes "distinct (map fst es)" and "mset es = mset fs"
  shows "canonicalJSON (JObj es) = canonicalJSON (JObj fs)"
proof -
  let ?P = "\<lambda>(k :: string, v). v \<noteq> JUndefined"
  have "mset (filter ?P es) = mset (filter ?P fs)" using assms(2) by simp
  moreover have "inj_on fst (set (filter ?P es))"
    using assms(1) by (auto simp: distinct_map intro: inj_on_subset)
  ultimately have "sort_key fst (filter ?P es) = sort_key fst (filter ?P fs)"
    by (intro sort_key_inj_key_eq) simp_all
  then show ?thesis by simp
qed

section \<open>The policy hash\<close>

text \<open>
  The document as the value it was read from: the fields of the interface, optional lists absent
  when undefined. An amount that is not a string is refused before the hash is taken.
\<close>

definition opt_str :: "string option \<Rightarrow> json" where
  "opt_str x = (case x of None \<Rightarrow> JUndefined | Some s \<Rightarrow> JStr s)"

definition opt_list :: "string list option \<Rightarrow> json" where
  "opt_list x = (case x of None \<Rightarrow> JUndefined | Some l \<Rightarrow> JArr (map JStr l))"

definition limits_json :: "PolicyLimits \<Rightarrow> json" where
  "limits_json p = JObj [(''maxTransaction'', opt_str (pl_maxTransaction p)),
     (''dailySpend'', opt_str (pl_dailySpend p)), (''approvalThreshold'', opt_str (pl_approvalThreshold p)),
     (''minBalance'', opt_str (pl_minBalance p)), (''allowedContracts'', opt_list (pl_allowedContracts p)),
     (''allowedRecipients'', opt_list (pl_allowedRecipients p))]"

definition document_json :: "PolicyDocument \<Rightarrow> json" where
  "document_json d = JObj [(''version'', JStr (doc_version d)), (''agent'', JStr (doc_agent d)),
     (''chainId'', JNum (doc_chainId d)),
     (''asset'', JObj [(''address'', JStr (doc_assetAddress d)), (''decimals'', JNum (doc_assetDecimals d))]),
     (''policies'', limits_json (doc_policies d)),
     (''enforcement'', JObj [(''hook'', JStr (doc_hook d)), (''account'', JStr (doc_account d))])]"

definition policyHash :: "PolicyDocument \<Rightarrow> Hex" where
  "policyHash document = keccak256 (canonicalJSON (document_json document))"

definition definePolicy :: "PolicyDocument \<Rightarrow> PolicyDocument" where
  "definePolicy document = document"

section \<open>Resolution\<close>

definition policy_amount :: "string \<Rightarrow> string option \<Rightarrow> int result" where
  "policy_amount key raw =
     (case raw of
        None \<Rightarrow> Inl (PolicyValidationError (''policies.'' @ key @ '' must be a decimal string''))
      | Some r \<Rightarrow> bindR (parseBaseUnitPolicyAmount r) (\<lambda>value.
          if value < 0 then Inl (PolicyValidationError (''policies.'' @ key @ '' must not be negative''))
          else Inr value))"

definition resolvePolicy :: "PolicyDocument \<Rightarrow> ResolvedPolicy result" where
  "resolvePolicy document =
     (if doc_version document \<noteq> ''agentproof/v1'' then
        Inl (PolicyValidationError (''unsupported version '' @ doc_version document))
      else if doc_assetAddress document = [] then Inl (PolicyValidationError ''asset.address is required'')
      else if doc_assetDecimals document \<noteq> 6 then
        Inl (PolicyValidationError (''asset.decimals must be 6 in the MVP (got '' @
          bigint_to_string (doc_assetDecimals document) @
          ''); multi-decimal accounting requires the price-oracle work listed as future work''))
      else
        let p = doc_policies document in
        bindR (policy_amount ''maxTransaction'' (pl_maxTransaction p)) (\<lambda>maxTransaction.
        bindR (policy_amount ''dailySpend'' (pl_dailySpend p)) (\<lambda>dailySpend.
        bindR (policy_amount ''approvalThreshold'' (pl_approvalThreshold p)) (\<lambda>approvalThreshold.
        bindR (policy_amount ''minBalance'' (pl_minBalance p)) (\<lambda>minBalance.
          if maxTransaction = 0 then
            Inl (PolicyValidationError ''maxTransaction of 0 blocks everything; set a real limit'')
          else if dailySpend < maxTransaction then
            Inl (PolicyValidationError (''dailySpend ('' @ bigint_to_string dailySpend @
              '') is below maxTransaction ('' @ bigint_to_string maxTransaction @
              ''), which makes the per-transaction limit unreachable and is almost always a units mistake''))
          else if approvalThreshold > maxTransaction then
            Inl (PolicyValidationError (''approvalThreshold ('' @ bigint_to_string approvalThreshold @
              '') is above maxTransaction ('' @ bigint_to_string maxTransaction @
              ''), so no action could ever reach a human '' @ em_dash @ '' it would be blocked first''))
          else
            let allowedContracts = (case pl_allowedContracts p of None \<Rightarrow> [] | Some l \<Rightarrow> l) in
            if allowedContracts = [] then
              Inl (PolicyValidationError ''allowedContracts is empty, which blocks every action'')
            else
              bindR (addressSet (allowedContracts @ [doc_assetAddress document])) (\<lambda>contracts.
              bindR (addressSet (case pl_allowedRecipients p of None \<Rightarrow> [] | Some l \<Rightarrow> l)) (\<lambda>recipients.
              bindR (normalizeAddress (doc_assetAddress document)) (\<lambda>asset.
              bindR (normalizeAddress (doc_account document)) (\<lambda>account.
              bindR (normalizeAddress (doc_hook document)) (\<lambda>hook.
                Inr \<lparr>rp_document = document, rp_hash = policyHash document, rp_maxTransaction = maxTransaction,
                  rp_dailySpend = dailySpend, rp_approvalThreshold = approvalThreshold, rp_minBalance = minBalance,
                  rp_allowedContracts = contracts, rp_allowedRecipients = recipients, rp_asset = asset,
                  rp_decimals = doc_assetDecimals document, rp_account = account, rp_hook = hook\<rparr>))))))))))"

text \<open>What every resolved policy satisfies; the clients rely on nothing else.\<close>

definition wf_policy :: "ResolvedPolicy \<Rightarrow> bool" where
  "wf_policy r = (0 < rp_maxTransaction r \<and> rp_maxTransaction r \<le> rp_dailySpend r \<and>
     0 \<le> rp_approvalThreshold r \<and> rp_approvalThreshold r \<le> rp_maxTransaction r \<and> 0 \<le> rp_minBalance r \<and>
     rp_asset r \<in> set (rp_allowedContracts r) \<and> list_all wf_address (rp_allowedContracts r) \<and>
     list_all wf_address (rp_allowedRecipients r) \<and> wf_address (rp_asset r) \<and> wf_address (rp_account r) \<and>
     wf_address (rp_hook r))"

lemma policy_amount_nonneg: "policy_amount k raw = Inr v \<Longrightarrow> 0 \<le> v"
  by (auto simp: policy_amount_def bindR_eq_Inr split: option.splits if_splits)

lemma addressSet_Inr:
  "addressSet vs = Inr s \<longleftrightarrow> (\<exists>l. list_all2 (\<lambda>v a. normalizeAddress v = Inr a) vs l \<and> s = js_set l)"
  by (auto simp: addressSet_def bindR_eq_Inr mapR_eq_Inr)

lemma addressSet_wf: "addressSet vs = Inr s \<Longrightarrow> list_all wf_address s"
  by (auto simp: addressSet_Inr list_all_iff list_all2_conv_all_nth in_set_conv_nth)
    (metis in_set_conv_nth normalizeAddress_wf set_js_set)

lemma list_all2_in_set1: "list_all2 P xs ys \<Longrightarrow> x \<in> set xs \<Longrightarrow> \<exists>y \<in> set ys. P x y"
  by (induction rule: list_all2_induct) auto

lemma addressSet_mem: "addressSet vs = Inr s \<Longrightarrow> v \<in> set vs \<Longrightarrow> normalizeAddress v = Inr a \<Longrightarrow> a \<in> set s"
  by (auto simp: addressSet_Inr dest!: list_all2_in_set1)

lemma resolvePolicy_fields:
  assumes "resolvePolicy d = Inr r"
  shows "wf_policy r" and "rp_document r = d" and "rp_hash r = policyHash d" and "rp_decimals r = 6"
  using assms addressSet_mem [of "_ @ [doc_assetAddress d]" _ "doc_assetAddress d"]
  by (auto simp: resolvePolicy_def wf_policy_def Let_def bindR_eq_Inr intro: policy_amount_nonneg normalizeAddress_wf
      addressSet_wf split: if_splits)
    (metis policy_amount_nonneg order_le_less)+

section \<open>The text binds the document\<close>

definition defined_value :: "json option \<Rightarrow> json option" where
  "defined_value x = (case x of Some JUndefined \<Rightarrow> None | _ \<Rightarrow> x)"

lemma map_of_filter_defined:
  "distinct (map fst es) \<Longrightarrow> map_of (filter (\<lambda>(_, v). v \<noteq> JUndefined) es) k = defined_value (map_of es k)"
proof (induction es)
  case (Cons e es)
  have "map_of es (fst e) = None" using Cons.prems by (simp add: map_of_eq_None_iff)
  with Cons show ?case by (cases e; cases "snd e") (auto simp: defined_value_def)
qed (simp add: defined_value_def)

lemma norm_object_lookup:
  assumes "distinct (map fst es)" and "distinct (map fst fs)" and "norm_json (JObj es) = norm_json (JObj fs)"
  shows "map_option norm_json (defined_value (map_of es k)) = map_option norm_json (defined_value (map_of fs k))"
proof -
  have key: "map_of (map (\<lambda>(k, v). (k, norm_json v)) (sort_key fst (filter (\<lambda>(_, v). v \<noteq> JUndefined) xs))) k =
      map_option norm_json (defined_value (map_of xs k))" if "distinct (map fst xs)" for xs
  proof -
    let ?xs = "filter (\<lambda>(_, v). v \<noteq> JUndefined) xs"
    have d: "distinct (map fst ?xs)"
      using that by (metis distinct_map_filter)
    have "mset (map fst (sort_key fst ?xs)) = mset (map fst ?xs)" by simp
    with d have "distinct (map fst (sort_key fst ?xs))" by (metis mset_eq_imp_distinct_iff)
    then have "map_of (sort_key fst ?xs) = map_of ?xs"
      using d by (intro map_of_eqI) (auto simp: map_of_eq_Some_iff intro: option.expand)
    moreover have "map_of (map (\<lambda>(k, v). (k, norm_json v)) l) k = map_option norm_json (map_of l k)" for l
      by (induction l) auto
    ultimately show ?thesis using map_of_filter_defined [OF that] by simp
  qed
  from assms(3) show ?thesis
    unfolding key [OF assms(1), symmetric] key [OF assms(2), symmetric] by simp
qed

lemmas field_simps_json = defined_value_def opt_str_def opt_list_def

lemma opt_str_inj: "map_option norm_json (defined_value (Some (opt_str x))) =
    map_option norm_json (defined_value (Some (opt_str y))) \<Longrightarrow> x = y"
  by (cases x; cases y) (simp_all add: field_simps_json)

lemma opt_list_inj: "map_option norm_json (defined_value (Some (opt_list x))) =
    map_option norm_json (defined_value (Some (opt_list y))) \<Longrightarrow> x = y"
proof -
  have "map (norm_json \<circ> JStr) l = map (norm_json \<circ> JStr) m \<Longrightarrow> l = m" for l m
    by (rule map_injective) (auto simp: inj_on_def)
  then show "map_option norm_json (defined_value (Some (opt_list x))) =
    map_option norm_json (defined_value (Some (opt_list y))) \<Longrightarrow> x = y"
    by (cases x; cases y) (simp_all add: field_simps_json)
qed

lemma limits_json_inj:
  assumes "norm_json (limits_json p) = norm_json (limits_json q)"
  shows "p = (q :: PolicyLimits)"
proof -
  let ?es = "\<lambda>p. [(''maxTransaction'', opt_str (pl_maxTransaction p)),
     (''dailySpend'', opt_str (pl_dailySpend p)), (''approvalThreshold'', opt_str (pl_approvalThreshold p)),
     (''minBalance'', opt_str (pl_minBalance p)), (''allowedContracts'', opt_list (pl_allowedContracts p)),
     (''allowedRecipients'', opt_list (pl_allowedRecipients p))]"
  have "norm_json (JObj (?es p)) = norm_json (JObj (?es q))"
    using assms unfolding limits_json_def .
  from norm_object_lookup [OF _ _ this]
  have key: "map_option norm_json (defined_value (map_of (?es p) k)) =
      map_option norm_json (defined_value (map_of (?es q) k))" for k by simp
  show ?thesis
    using key [of "''maxTransaction''"] key [of "''dailySpend''"] key [of "''approvalThreshold''"]
      key [of "''minBalance''"] key [of "''allowedContracts''"] key [of "''allowedRecipients''"]
    by (intro PolicyLimits.equality) (auto intro: opt_str_inj opt_list_inj)
qed

lemma document_json_inj:
  assumes "norm_json (document_json d) = norm_json (document_json e)"
  shows "d = (e :: PolicyDocument)"
proof -
  let ?asset = "\<lambda>d. [(''address'', JStr (doc_assetAddress d)), (''decimals'', JNum (doc_assetDecimals d))]"
  let ?enf = "\<lambda>d. [(''hook'', JStr (doc_hook d)), (''account'', JStr (doc_account d))]"
  let ?es = "\<lambda>d. [(''version'', JStr (doc_version d)), (''agent'', JStr (doc_agent d)),
     (''chainId'', JNum (doc_chainId d)), (''asset'', JObj (?asset d)),
     (''policies'', limits_json (doc_policies d)), (''enforcement'', JObj (?enf d))]"
  have "norm_json (JObj (?es d)) = norm_json (JObj (?es e))"
    using assms unfolding document_json_def .
  from norm_object_lookup [OF _ _ this]
  have key: "map_option norm_json (defined_value (map_of (?es d) k)) =
      map_option norm_json (defined_value (map_of (?es e) k))" for k by simp
  have "norm_json (JObj (?asset d)) = norm_json (JObj (?asset e))"
    using key [of "''asset''"] by (simp add: defined_value_def del: norm_json.simps)
  from norm_object_lookup [OF _ _ this, of "''address''"] norm_object_lookup [OF _ _ this, of "''decimals''"]
  have asset: "doc_assetAddress d = doc_assetAddress e" "doc_assetDecimals d = doc_assetDecimals e"
    by (simp_all add: defined_value_def)
  have "norm_json (JObj (?enf d)) = norm_json (JObj (?enf e))"
    using key [of "''enforcement''"] by (simp add: defined_value_def del: norm_json.simps)
  from norm_object_lookup [OF _ _ this, of "''hook''"] norm_object_lookup [OF _ _ this, of "''account''"]
  have enf: "doc_hook d = doc_hook e" "doc_account d = doc_account e"
    by (simp_all add: defined_value_def)
  have "norm_json (limits_json (doc_policies d)) = norm_json (limits_json (doc_policies e))"
    using key [of "''policies''"] by (simp add: defined_value_def limits_json_def del: norm_json.simps)
  then have "doc_policies d = doc_policies e" by (rule limits_json_inj)
  with asset enf key [of "''version''"] key [of "''agent''"] key [of "''chainId''"] show ?thesis
    by (intro PolicyDocument.equality) (simp_all add: defined_value_def)
qed

section \<open>Properties\<close>

text \<open>
  (C33) The canonical text of a value does not depend on the order in which an object's keys were
  written, at the top or below: values with the same normal form, and only those, have the same text.
\<close>

theorem canonicalJSON_canonical:
  "(canonicalJSON a = canonicalJSON b \<longleftrightarrow> norm_json a = norm_json b) \<and>
   (distinct (map fst es) \<and> mset es = mset fs \<longrightarrow> canonicalJSON (JObj es) = canonicalJSON (JObj fs))"
  using canonicalJSON_inj canonicalJSON_perm by blast

theorem canonicalJSON_canonical_witness:
  "canonicalJSON (JObj [(''b'', JNum 1), (''a'', JNull)]) = canonicalJSON (JObj [(''a'', JNull), (''b'', JNum 1)])"
  using canonicalJSON_canonical [of JNull JNull "[(''b'', JNum 1), (''a'', JNull)]" "[(''a'', JNull), (''b'', JNum 1)]"]
  by simp

text \<open>
  Different policy documents have different canonical texts: every limit, every allowlist entry
  and every address is part of what is hashed. Two documents can share a policy hash only through a
  collision of Keccak-256 itself.
\<close>

theorem policyHash_binds:
  "(canonicalJSON (document_json d) = canonicalJSON (document_json e) \<longleftrightarrow> d = e) \<and>
   (policyHash d = policyHash e \<and> d \<noteq> e \<longrightarrow>
     (\<exists>x y. x \<noteq> y \<and> x = canonicalJSON (document_json d) \<and> y = canonicalJSON (document_json e) \<and>
       keccak256 x = keccak256 y))"
  using document_json_inj [of d e] by (auto simp: canonicalJSON_inj policyHash_def)

definition sample_limits :: PolicyLimits where
  "sample_limits = \<lparr>pl_maxTransaction = Some ''100000000'', pl_dailySpend = Some ''500000000'',
     pl_approvalThreshold = Some ''80000000'', pl_minBalance = Some ''0'',
     pl_allowedContracts = Some [sample_router], pl_allowedRecipients = None\<rparr>"

definition sample_document :: PolicyDocument where
  "sample_document = \<lparr>doc_version = ''agentproof/v1'', doc_agent = ''trader.eth'', doc_chainId = 84532,
     doc_assetAddress = sample_token, doc_assetDecimals = 6, doc_policies = sample_limits,
     doc_hook = sample_hook, doc_account = sample_account\<rparr>"

theorem policyHash_binds_witness:
  "canonicalJSON (document_json sample_document) \<noteq>
   canonicalJSON (document_json (sample_document\<lparr>doc_chainId := 1\<rparr>))"
proof -
  have "sample_document \<noteq> sample_document\<lparr>doc_chainId := 1\<rparr>" by (simp add: sample_document_def)
  with policyHash_binds [of sample_document "sample_document\<lparr>doc_chainId := 1\<rparr>"] show ?thesis by blast
qed

text \<open>
  (C32) Resolution is strict: a document that resolves has a positive per-transaction limit, a daily
  limit at least as large, an approval threshold a human can reach, non-negative amounts, well-formed
  normalised addresses, and its own asset among the allowed contracts; and the hash is that of the
  document it was given.
\<close>

theorem resolvePolicy_sound:
  assumes "resolvePolicy d = Inr r"
  shows "0 < rp_maxTransaction r \<and> rp_maxTransaction r \<le> rp_dailySpend r \<and>
    0 \<le> rp_approvalThreshold r \<and> rp_approvalThreshold r \<le> rp_maxTransaction r \<and> 0 \<le> rp_minBalance r \<and>
    rp_asset r \<in> set (rp_allowedContracts r) \<and>
    list_all wf_address (rp_allowedContracts r @ rp_allowedRecipients r @ [rp_asset r, rp_account r, rp_hook r]) \<and>
    rp_document r = d \<and> rp_hash r = policyHash d"
  using resolvePolicy_fields [OF assms] by (simp add: wf_policy_def)

lemma sample_document_resolves:
  "\<exists>r. resolvePolicy sample_document = Inr r \<and> rp_maxTransaction r = 100000000 \<and> rp_dailySpend r = 500000000"
proof -
  have amounts: "policy_amount k (Some ''100000000'') = Inr 100000000" "policy_amount k (Some ''500000000'') = Inr 500000000"
    "policy_amount k (Some ''80000000'') = Inr 80000000" "policy_amount k (Some ''0'') = Inr 0" for k
    by (simp_all add: policy_amount_def parseBaseUnitPolicyAmount_def trim_def trimEnd_def is_space_def is_digit_def
        of_base_def digit_val_def)
  show ?thesis
    by (simp add: resolvePolicy_def sample_document_def sample_limits_def amounts Let_def addressSet_def)
      (simp add: sample_address_def)
qed

theorem resolvePolicy_sound_witness:
  "\<exists>r. resolvePolicy sample_document = Inr r \<and> rp_maxTransaction r \<le> rp_dailySpend r"
  using sample_document_resolves resolvePolicy_sound by blast

end
