(* ===== verification/State.thy ===== *)
theory State
  imports SimulatedAccount PolicyDoc
begin

text \<open>
  \<^verbatim>\<open>packages/sdk/src/state/\<close>: the in-memory provider, the subgraph provider with its
  on-chain reconciliation, and the pool provider; and the ports they use
  (\<^verbatim>\<open>packages/sdk/src/ports/index.ts\<close>). A port is a record of functions giving the answers of the
  outside world at the moment of the call; the clock readings of an operation are its arguments.

  The three read-through caches of the SDK are one data structure here. Its contract is the locale
  \<open>ttl_cache\<close>: what was stored is returned until it expires or is dropped, and nothing else is.
\<close>

section \<open>Ports\<close>

record ChainReader =
  cr_chainId :: int
  cr_getErc20Balance :: "Address \<Rightarrow> Address \<Rightarrow> int result"
  cr_call :: "Address \<Rightarrow> Hex \<Rightarrow> Hex result"
  cr_getBlockTimestamp :: "int result"

section \<open>Caches with expiry\<close>

type_synonym 'v cache = "(string \<times> ('v \<times> int)) list"

definition cache_get :: "'v cache \<Rightarrow> string \<Rightarrow> int \<Rightarrow> 'v option" where
  "cache_get c key now = (case map_of c key of Some (v, expiresAt) \<Rightarrow> if expiresAt > now then Some v else None | None \<Rightarrow> None)"

definition cache_put :: "string \<Rightarrow> 'v \<Rightarrow> int \<Rightarrow> 'v cache \<Rightarrow> 'v cache" where
  "cache_put key v expiresAt c = AList.update key (v, expiresAt) c"

definition cache_del :: "string \<Rightarrow> 'v cache \<Rightarrow> 'v cache" where
  "cache_del key c = AList.delete key c"

locale ttl_cache =
  fixes get :: "'c \<Rightarrow> 'k \<Rightarrow> int \<Rightarrow> 'v option" and put :: "'k \<Rightarrow> 'v \<Rightarrow> int \<Rightarrow> 'c \<Rightarrow> 'c" and del :: "'k \<Rightarrow> 'c \<Rightarrow> 'c"
  assumes get_put: "get (put k v e c) j t = (if j = k then (if e > t then Some v else None) else get c j t)"
    and get_del: "get (del k c) j t = (if j = k then None else get c j t)"
    and expiry: "get c k t = Some v \<Longrightarrow> t' \<le> t \<Longrightarrow> get c k t' = Some v"
begin

lemma hit_within_ttl: "t < e \<Longrightarrow> get (put k v e c) k t = Some v"
  by (simp add: get_put)

lemma miss_after_expiry: "e \<le> t \<Longrightarrow> get (put k v e c) k t = None"
  by (simp add: get_put)

lemma miss_after_del: "get (del k c) k t = None"
  by (simp add: get_del)

lemma stays_missed: "get c k t = None \<Longrightarrow> t \<le> t' \<Longrightarrow> get c k t' = None"
  using expiry [of c k t'] by (cases "get c k t'") auto

end

interpretation caches: ttl_cache cache_get cache_put cache_del
proof
  fix k j :: string and v :: 'a and e t :: int and c :: "'a cache"
  show "cache_get (cache_put k v e c) j t = (if j = k then (if e > t then Some v else None) else cache_get c j t)"
    by (simp add: cache_get_def cache_put_def update_conv')
  show "cache_get (cache_del k c) j t = (if j = k then None else cache_get c j t)"
    by (simp add: cache_get_def cache_del_def delete_conv')
next
  fix c :: "'a cache" and k t v t' assume "cache_get c k t = Some v" "t' \<le> t"
  then show "cache_get c k t' = Some v" by (auto simp: cache_get_def split: option.splits prod.splits if_splits)
qed

section \<open>MemoryStateProvider\<close>

record MemoryState =
  ms_spend :: "(string \<times> int) list"
  ms_balances :: "(string \<times> int) list"
  ms_executions :: "(Address \<times> NormalizedIntent \<times> Hex) list"

definition newMemoryState :: "(string \<times> int) list \<Rightarrow> MemoryState" where
  "newMemoryState initialBalances =
     \<lparr>ms_spend = [], ms_balances = fold (\<lambda>(k, v). AList.update (toLowerCase k) v) initialBalances [], ms_executions = []\<rparr>"

definition spend_key :: "Address \<Rightarrow> int \<Rightarrow> string" where
  "spend_key account dayUtc = toLowerCase account @ '':'' @ bigint_to_string dayUtc"

definition balance_key :: "Address \<Rightarrow> Address \<Rightarrow> string" where
  "balance_key account asset = toLowerCase account @ '':'' @ toLowerCase asset"

definition memory_getDailySpend :: "MemoryState \<Rightarrow> Address \<Rightarrow> int \<Rightarrow> int" where
  "memory_getDailySpend m account dayUtc = or_else (map_of (ms_spend m) (spend_key account dayUtc)) 0"

definition memory_getBalance :: "MemoryState \<Rightarrow> Address \<Rightarrow> Address \<Rightarrow> int" where
  "memory_getBalance m account asset = or_else (map_of (ms_balances m) (balance_key account asset)) 0"

definition memory_recordExecution :: "Address \<Rightarrow> NormalizedIntent \<Rightarrow> Hex \<Rightarrow> MemoryState \<Rightarrow> MemoryState" where
  "memory_recordExecution account intent txHash m =
     m\<lparr>ms_executions := ms_executions m @ [(account, intent, txHash)]\<rparr>"

definition memory_setBalance :: "Address \<Rightarrow> Address \<Rightarrow> int \<Rightarrow> MemoryState \<Rightarrow> MemoryState" where
  "memory_setBalance account asset amount m =
     m\<lparr>ms_balances := AList.update (balance_key account asset) amount (ms_balances m)\<rparr>"

definition memory_addSpend :: "Address \<Rightarrow> int \<Rightarrow> int \<Rightarrow> MemoryState \<Rightarrow> MemoryState" where
  "memory_addSpend account dayUtc amount m =
     (let key = spend_key account dayUtc in
      m\<lparr>ms_spend := AList.update key (or_else (map_of (ms_spend m) key) 0 + amount) (ms_spend m)\<rparr>)"

definition memory_reset :: "MemoryState \<Rightarrow> MemoryState" where
  "memory_reset m = m\<lparr>ms_spend := [], ms_executions := []\<rparr>"

section \<open>GraphStateProvider\<close>

record DailyAggregateResponse =
  dr_errors :: "string list option"
  dr_totalOutflows :: "string list option" \<comment> \<open>\<^verbatim>\<open>data?.dailyAggregates\<close>, each row by its \<^verbatim>\<open>totalOutflow\<close>\<close>

record GraphStateProviderOptions =
  go_endpoint :: string
  go_apiKey :: string
  go_post :: "string \<Rightarrow> json \<Rightarrow> (string \<times> string) list \<Rightarrow> DailyAggregateResponse result"
  go_hook :: Address
  go_chain :: "ChainReader option"
  go_logger :: bool \<comment> \<open>whether a logger is configured\<close>
  go_ttlMs :: "int option"

text \<open>\<^verbatim>\<open>BigInt(s)\<close> of a string: trimmed, empty is 0, a radix prefix or an optionally signed decimal.\<close>

definition in_base :: "nat \<Rightarrow> string \<Rightarrow> bool" where
  "in_base b s = (s \<noteq> [] \<and> list_all (\<lambda>c. is_hex_digit c \<and> digit_val c < b) s)"

definition bigint_of_string :: "string \<Rightarrow> int result" where
  "bigint_of_string s =
     (let t = trim s; p = toLowerCase (take 2 t); body = drop 2 t in
      if t = [] then Inr 0
      else if p = ''0x'' \<and> in_base 16 body then Inr (int (of_base 16 body))
      else if p = ''0o'' \<and> in_base 8 body then Inr (int (of_base 8 body))
      else if p = ''0b'' \<and> in_base 2 body then Inr (int (of_base 2 body))
      else if in_base 10 t then Inr (int (of_dec t))
      else if hd t = CHR ''-'' \<and> in_base 10 (tl t) then Inr (- int (of_dec (tl t)))
      else if hd t = CHR ''+'' \<and> in_base 10 (tl t) then Inr (int (of_dec (tl t)))
      else Inl (BigIntSyntaxError s))"

definition newline :: string where
  "newline = [CHR 0x0A]"

definition DAILY_SPEND_QUERY :: string where
  "DAILY_SPEND_QUERY = join newline [[],
     ''  query DailySpend($account: Bytes!, $day: Int!) {'',
     ''    dailyAggregates(where: { account: $account, day: $day }, first: 1) {'',
     ''      id'', ''      totalOutflow'', ''      executionCount'', ''    }'', ''  }'', []]"

definition daily_spend_body :: "Address \<Rightarrow> int \<Rightarrow> json" where
  "daily_spend_body account dayUtc =
     JObj [(''query'', JStr DAILY_SPEND_QUERY),
       (''variables'', JObj [(''account'', JStr (toLowerCase account)), (''day'', JNum dayUtc)])]"

text \<open>\<open>None\<close> is \<^verbatim>\<open>undefined\<close>: errors in the answer, or anything thrown on the way.\<close>

definition queryIndexedSpend :: "GraphStateProviderOptions \<Rightarrow> Address \<Rightarrow> int \<Rightarrow> int option" where
  "queryIndexedSpend opt account dayUtc =
     (case bindR (go_post opt (go_endpoint opt) (daily_spend_body account dayUtc)
          [(''Authorization'', ''Bearer '' @ go_apiKey opt), (''Content-Type'', ''application/json'')])
        (\<lambda>response.
           if (case dr_errors response of Some (_ # _) \<Rightarrow> True | _ \<Rightarrow> False) then Inr None
           else case dr_totalOutflows response of
               Some (row # _) \<Rightarrow> bindR (bigint_of_string row) (\<lambda>v. Inr (Some v))
             | _ \<Rightarrow> Inr (Some 0))
      of Inl _ \<Rightarrow> None | Inr r \<Rightarrow> r)"

definition WINDOW_SELECTOR :: string where
  "WINDOW_SELECTOR = js_slice (keccak256 ''window(address)'') 0 10"

definition readOnchainSpend :: "GraphStateProviderOptions \<Rightarrow> Address \<Rightarrow> int \<Rightarrow> int option" where
  "readOnchainSpend opt account dayUtc =
     (case go_chain opt of None \<Rightarrow> None
      | Some chain \<Rightarrow>
          (case bindR (cr_call chain (go_hook opt)
                 (WINDOW_SELECTOR @ padStart 64 (CHR ''0'') (toLowerCase (drop 2 account))))
               (\<lambda>raw.
                  if length raw < 2 + 128 then Inr None
                  else bindR (bigint_hex (js_slice raw 2 66)) (\<lambda>day.
                       bindR (bigint_hex (js_slice raw 66 130)) (\<lambda>spent.
                         Inr (Some (if day = dayUtc then spent else 0)))))
           of Inl _ \<Rightarrow> None | Inr r \<Rightarrow> r))"

text \<open>The log entry of a divergence normalises the account, and may throw.\<close>

definition reconcile :: "GraphStateProviderOptions \<Rightarrow> Address \<Rightarrow> int option \<Rightarrow> int option \<Rightarrow> int result" where
  "reconcile opt account indexed onchain =
     (case (indexed, onchain) of
        (None, None) \<Rightarrow> Inl (StateUnavailable account)
      | (None, Some c) \<Rightarrow> Inr c
      | (Some i, None) \<Rightarrow> Inr i
      | (Some i, Some c) \<Rightarrow>
          if i \<noteq> c then
            let chosen = (if i > c then i else c) in
            if go_logger opt then bindR (normalizeAddress account) (\<lambda>_. Inr chosen) else Inr chosen
          else Inr i)"

definition graph_ttl :: "GraphStateProviderOptions \<Rightarrow> int" where
  "graph_ttl opt = or_else (go_ttlMs opt) 15000"

definition graph_getDailySpend ::
  "GraphStateProviderOptions \<Rightarrow> Address \<Rightarrow> int \<Rightarrow> bool \<Rightarrow> int \<Rightarrow> int \<Rightarrow> int cache \<Rightarrow> int result \<times> int cache" where
  "graph_getDailySpend opt account dayUtc fresh now later cache =
     (let key = spend_key account dayUtc in
      case (if fresh then None else cache_get cache key now) of
        Some v \<Rightarrow> (Inr v, cache)
      | None \<Rightarrow>
          (case reconcile opt account (queryIndexedSpend opt account dayUtc) (readOnchainSpend opt account dayUtc) of
             Inl e \<Rightarrow> (Inl e, cache)
           | Inr value \<Rightarrow> (Inr value, cache_put key value (later + graph_ttl opt) cache)))"

definition graph_getBalance :: "GraphStateProviderOptions \<Rightarrow> Address \<Rightarrow> Address \<Rightarrow> int result" where
  "graph_getBalance opt account asset =
     (case go_chain opt of
        None \<Rightarrow> Inl (ErrorMessage ''GraphStateProvider needs a ChainReader to read balances'')
      | Some chain \<Rightarrow> cr_getErc20Balance chain asset account)"

definition currentDay :: "int \<Rightarrow> int" where
  "currentDay now = now div 1000 div 86400"

definition graph_recordExecution :: "Address \<Rightarrow> int \<Rightarrow> int cache \<Rightarrow> int cache" where
  "graph_recordExecution account now cache = cache_del (spend_key account (currentDay now)) cache"

section \<open>UniswapPoolProvider\<close>

text \<open>A row of the answer, with its numeric strings read as the numbers they denote.\<close>

record PoolsResponse =
  pool_errors :: "string list option"
  pool_rows :: "PoolState list option"

record UniswapPoolProviderOptions =
  up_endpoint :: string
  up_post :: "string \<Rightarrow> json \<Rightarrow> (string \<times> string) list \<Rightarrow> PoolsResponse result"
  up_apiKey :: "string option"
  up_ttlMs :: "int option"

definition POOL_QUERY :: string where
  "POOL_QUERY = join newline [[],
     ''  query Pools($tokens: [String!]) {'', ''    pools('',
     ''      where: { token0_in: $tokens, token1_in: $tokens }'', ''      orderBy: totalValueLockedUSD'',
     ''      orderDirection: desc'', ''      first: 5'', ''    ) {'', ''      id'', ''      feeTier'',
     ''      totalValueLockedUSD'', ''      volumeUSD'', ''    }'', ''  }'', []]"

definition pool_key :: "Address \<Rightarrow> Address \<Rightarrow> string" where
  "pool_key tokenA tokenB = join '':'' (sort [toLowerCase tokenA, toLowerCase tokenB])"

definition deepestPool ::
  "UniswapPoolProviderOptions \<Rightarrow> Address \<Rightarrow> Address \<Rightarrow> int \<Rightarrow> int \<Rightarrow> PoolState option cache \<Rightarrow>
   PoolState option result \<times> PoolState option cache" where
  "deepestPool opt tokenA tokenB now later cache =
     (let key = pool_key tokenA tokenB in
      case cache_get cache key now of
        Some v \<Rightarrow> (Inr v, cache)
      | None \<Rightarrow>
          (case up_post opt (up_endpoint opt)
               (JObj [(''query'', JStr POOL_QUERY), (''variables'', JObj [(''tokens'', JArr (map JStr (splitOn (CHR '':'') key)))])])
               (case up_apiKey opt of Some k \<Rightarrow> if k = [] then [] else [(''Authorization'', ''Bearer '' @ k)] | None \<Rightarrow> []) of
             Inl e \<Rightarrow> (Inl e, cache)
           | Inr response \<Rightarrow>
               (case pool_errors response of
                  Some (e # es) \<Rightarrow> (Inl (UpstreamError (''Uniswap subgraph error: '' @ join ''; '' (e # es))), cache)
                | _ \<Rightarrow>
                    let best = (case pool_rows response of Some (r # _) \<Rightarrow> Some r | _ \<Rightarrow> None) in
                    (Inr best, cache_put key best (later + or_else (up_ttlMs opt) 60000) cache))))"

section \<open>Lemmas\<close>

text \<open>The key of an account and a day determines both.\<close>

lemma append_colon_inj:
  "CHR '':'' \<notin> set x \<Longrightarrow> CHR '':'' \<notin> set y \<Longrightarrow> x @ CHR '':'' # u = y @ CHR '':'' # v \<longleftrightarrow> x = y \<and> u = v"
  by (auto simp: append_eq_append_conv2 Cons_eq_append_conv append_eq_Cons_conv)

lemma wf_address_no_colon: "wf_address a \<Longrightarrow> CHR '':'' \<notin> set a"
proof (elim wf_addressE)
  fix s assume s: "a = ''0x'' @ s" "\<forall>c \<in> set s. is_hex_digit c \<and> lower_char c = c"
  have "\<not> is_hex_digit (CHR '':'')" by code_simp
  with s show ?thesis by auto
qed

lemma wf_address_lower: "wf_address a \<Longrightarrow> toLowerCase a = a"
  by (simp add: wf_address_def)

lemma spend_key_inj:
  "wf_address a \<Longrightarrow> wf_address b \<Longrightarrow> spend_key a d = spend_key b e \<longleftrightarrow> a = b \<and> d = e"
  by (auto simp: spend_key_def append_colon_inj wf_address_no_colon wf_address_lower dest: bigint_to_string_inject)

lemma memory_addSpend_get:
  "wf_address a \<Longrightarrow> wf_address b \<Longrightarrow> memory_getDailySpend (memory_addSpend a d x m) b e =
     memory_getDailySpend m b e + (if a = b \<and> d = e then x else 0)"
  by (auto simp: memory_getDailySpend_def memory_addSpend_def Let_def update_conv' spend_key_inj)

lemma memory_recordExecution_keeps:
  "memory_getDailySpend (memory_recordExecution a i h m) b e = memory_getDailySpend m b e"
  "memory_getBalance (memory_recordExecution a i h m) b c = memory_getBalance m b c"
  by (simp_all add: memory_getDailySpend_def memory_getBalance_def memory_recordExecution_def)

text \<open>The hook's accumulator, as its view function returns it, is read back for its own day only.\<close>

lemma readOnchainSpend_window:
  assumes "go_chain opt = Some chain"
    and "cr_call chain (go_hook opt) (WINDOW_SELECTOR @ padStart 64 (CHR ''0'') (toLowerCase (drop 2 account))) =
      Inr (''0x'' @ concat (map abi_word [day, spent]) @ rest)"
    and "uint256 day" and "uint256 spent"
  shows "readOnchainSpend opt account dayUtc = Some (if day = dayUtc then spent else 0)"
proof -
  let ?raw = "''0x'' @ concat (map abi_word [day, spent]) @ rest"
  have ws: "list_all uint256 [day, spent]" using assms(3,4) by simp
  have "js_slice ?raw 2 66 = abi_word day" "js_slice ?raw 66 130 = abi_word spent"
    using slice_words [OF ws, of 0 rest] slice_words [OF ws, of 1 rest]
    by (simp_all add: js_slice_def)
  moreover have "130 \<le> length ?raw" using assms(3,4) by simp
  ultimately show ?thesis
    using assms uint256_nonneg [of day] uint256_nonneg [of spent] by (simp add: readOnchainSpend_def)
qed

section \<open>Properties\<close>


definition sample_graph :: GraphStateProviderOptions where
  "sample_graph = \<lparr>go_endpoint = [], go_apiKey = [],
     go_post = (\<lambda>_ _ _. Inr \<lparr>dr_errors = None, dr_totalOutflows = Some [''70'']\<rparr>), go_hook = sample_hook,
     go_chain = None, go_logger = True, go_ttlMs = None\<rparr>"

lemma sample_graph_read:
  "graph_getDailySpend sample_graph sample_account 5 True 0 0 [] =
    (Inr 70, cache_put (spend_key sample_account 5) 70 15000 [])"
proof -
  have "bigint_of_string ''70'' = Inr 70"
    by (simp add: bigint_of_string_def trim_def trimEnd_def is_space_def in_base_def is_hex_digit_def
        toLowerCase_def lower_char_def of_base_def digit_val_def)
  then show ?thesis
    by (simp add: graph_getDailySpend_def queryIndexedSpend_def readOnchainSpend_def reconcile_def sample_graph_def
        graph_ttl_def)
qed


text \<open>
  After an execution is recorded, the next read of that day's spend goes to the sources, whatever
  was cached before; until then a cached value is served for its lifetime without asking anyone.
\<close>

theorem graph_cache_invalidated:
  "graph_getDailySpend opt account (currentDay now) False t t' (graph_recordExecution account now cache) =
     graph_getDailySpend opt account (currentDay now) True t t' (graph_recordExecution account now cache) \<and>
   (cache_get cache (spend_key account d) t = Some v \<longrightarrow>
     graph_getDailySpend opt account d False t t' cache = (Inr v, cache))"
  by (simp add: graph_getDailySpend_def graph_recordExecution_def caches.get_del Let_def)

theorem graph_cache_invalidated_witness:
  "graph_getDailySpend sample_graph sample_account 5 False 3 4 (cache_put (spend_key sample_account 5) 70 15000 []) =
    (Inr 70, cache_put (spend_key sample_account 5) 70 15000 [])"
  using graph_cache_invalidated [where cache = "cache_put (spend_key sample_account 5) 70 15000 []" and d = 5 and
      account = sample_account and t = 3 and v = 70 and t' = 4]
  by (simp add: caches.get_put)

end
