(* ===== verification/Effects.thy ===== *)
theory Effects
  imports State
begin

text \<open>
  Asynchronous code that calls the outside world: a state-passing computation over a world \<open>'w\<close> that
  may throw, keeping the effects performed so far. The ports of \<^verbatim>\<open>packages/sdk/src/ports/index.ts\<close>
  that change something are records of such computations.
\<close>

section \<open>Computations\<close>

type_synonym ('w, 'a) io = "'w \<Rightarrow> 'a result \<times> 'w"

definition return_io :: "'a \<Rightarrow> ('w, 'a) io" where
  "return_io x w = (Inr x, w)"

definition throw_io :: "js_error \<Rightarrow> ('w, 'a) io" where
  "throw_io e w = (Inl e, w)"

definition lift_io :: "'a result \<Rightarrow> ('w, 'a) io" where
  "lift_io r w = (r, w)"

definition bind_io :: "('w, 'a) io \<Rightarrow> ('a \<Rightarrow> ('w, 'b) io) \<Rightarrow> ('w, 'b) io" where
  "bind_io m f w = (case m w of (Inl e, w') \<Rightarrow> (Inl e, w') | (Inr x, w') \<Rightarrow> f x w')"

definition modify_io :: "('w \<Rightarrow> 'w) \<Rightarrow> ('w, unit) io" where
  "modify_io f w = (Inr (), f w)"

text \<open>\<^verbatim>\<open>Promise.all\<close> of two promises: both run; the first rejection in order is the result.\<close>

definition both_io :: "('w, 'a) io \<Rightarrow> ('w, 'b) io \<Rightarrow> ('w, 'a \<times> 'b) io" where
  "both_io m n w = (let (r, w1) = m w; (s, w2) = n w1 in (bindR r (\<lambda>x. bindR s (\<lambda>y. Inr (x, y))), w2))"

named_theorems io_simps

lemma io_run [simp, io_simps]:
  "return_io x w = (Inr x, w)" "throw_io e w = (Inl e, w)" "lift_io r w = (r, w)" "modify_io f w = (Inr (), f w)"
  by (simp_all add: return_io_def throw_io_def lift_io_def modify_io_def)

lemma bind_io_Inr:
  "bind_io m f w = (Inr y, w') \<longleftrightarrow> (\<exists>x w1. m w = (Inr x, w1) \<and> f x w1 = (Inr y, w'))"
  by (auto simp: bind_io_def split: prod.splits sum.splits)

lemma bind_io_return [simp]: "bind_io (return_io x) f = f x"
  by (simp add: bind_io_def fun_eq_iff)

lemma bind_io_step: "m w = (Inr x, w1) \<Longrightarrow> bind_io m f w = f x w1"
  "m w = (Inl e, w1) \<Longrightarrow> bind_io m f w = (Inl e, w1)"
  by (simp_all add: bind_io_def)

lemma bind_io_cong:
  "(\<And>x w1. m w = (Inr x, w1) \<Longrightarrow> f x w1 = g x w1) \<Longrightarrow> bind_io m f w = bind_io m g w"
  by (auto simp: bind_io_def split: prod.splits sum.splits)

section \<open>Association lists as maps\<close>

lemma keys_delete: "fst ` set (AList.delete k al) = fst ` set al - {k}"
  by (induction al) auto

lemma set_delete: "set (AList.delete k al) \<subseteq> set al"
  by (induction al) auto

section \<open>Ports with effects\<close>

record 'w Executor =
  ex_send :: "UserOperationRequest \<Rightarrow> ('w, Hex) io"
  ex_sendAsOwner :: "(UserOperationRequest \<Rightarrow> Hex \<Rightarrow> ('w, Hex) io) option"

record 'w StateProvider =
  sp_getDailySpend :: "Address \<Rightarrow> int \<Rightarrow> ('w, int) io"
  sp_getBalance :: "Address \<Rightarrow> Address \<Rightarrow> ('w, int) io"
  sp_recordExecution :: "Address \<Rightarrow> NormalizedIntent \<Rightarrow> Hex \<Rightarrow> ('w, unit) io"

record 'w IdentityProvider =
  ip_resolvePolicyHash :: "string \<Rightarrow> ('w, Hex) io"
  ip_resolveAccount :: "string \<Rightarrow> ('w, Address) io"
  ip_resolveHook :: "string \<Rightarrow> ('w, Address) io"
  ip_resolveStatus :: "string \<Rightarrow> ('w, string) io"

record 'w Approver =
  ap_request :: "ApprovalRequest \<Rightarrow> ('w, ApprovalOutcome) io"

text \<open>The simulated account as an executor; its own state is part of the world.\<close>

definition simulated_executor :: "('w \<Rightarrow> SimulatedAccount) \<Rightarrow> (SimulatedAccount \<Rightarrow> 'w \<Rightarrow> 'w) \<Rightarrow> 'w Executor" where
  "simulated_executor get put =
     \<lparr>ex_send = (\<lambda>r w. let (h, s) = sim_send r (get w) in (h, put s w)),
      ex_sendAsOwner = Some (\<lambda>r _ w. let (h, s) = sim_sendAsOwner r (get w) in (h, put s w))\<rparr>"

end
