(* ===== verification/Privacy.thy ===== *)
theory Privacy
  imports PolicyEngine PolicyDoc
begin

text \<open>
  \<^verbatim>\<open>packages/sdk/src/privacy/index.ts\<close>: redaction of log fields, commitments, amount
  buckets and the public audit record; and \<^verbatim>\<open>utils/logger.ts\<close>, which redacts before it prints.
  The salt of a commitment scheme comes from the platform's random source and is an argument.
\<close>

section \<open>Redaction\<close>

datatype logval = LUndefined | LNull | LBool bool | LNum int | LBig int | LStr string | LArr "logval list"
  | LObj "(string \<times> logval) list"

definition truncateAddress :: "string \<Rightarrow> string" where
  "truncateAddress address =
     (if \<not> is_address address then ''[not-an-address]''
      else js_slice address 0 6 @ ellipsis @ drop (length address - 4) address)"

definition contains :: "string \<Rightarrow> string \<Rightarrow> bool" where
  "contains p s = list_ex (\<lambda>k. take (length p) (drop k s) = p) [0..<Suc (length s)]"

text \<open>\<^verbatim>\<open>SECRET_KEY_PATTERN\<close>, matched anywhere in the key without regard to case.\<close>

definition is_secret_key :: "string \<Rightarrow> bool" where
  "is_secret_key key = list_ex (\<lambda>p. contains p (toLowerCase key))
     [''privatekey'', ''apikey'', ''secret'', ''mnemonic'', ''seed'', ''sessionkey'', ''authorization'', ''x-payment'']"

definition word_char :: "char \<Rightarrow> bool" where
  "word_char c = (let n = (of_char c :: nat) in
     (48 \<le> n \<and> n \<le> 57) \<or> (65 \<le> n \<and> n \<le> 90) \<or> (97 \<le> n \<and> n \<le> 122) \<or> n = 95)"

text \<open>
  A match of \<^verbatim>\<open>HEX_KEY_PATTERN\<close> at the start of \<open>s\<close>, where \<open>pw\<close> tells whether the
  character before is a word character.
\<close>

definition key_at :: "bool \<Rightarrow> string \<Rightarrow> bool" where
  "key_at pw s = (\<not> pw \<and> take 2 s = ''0x'' \<and> length (take 64 (drop 2 s)) = 64 \<and>
     list_all is_hex_digit (take 64 (drop 2 s)) \<and> (drop 66 s = [] \<or> \<not> word_char (hd (drop 66 s))))"

text \<open>\<^verbatim>\<open>value.replace(HEX_KEY_PATTERN, ...)\<close>, from left to right.\<close>

function redact_keys :: "bool \<Rightarrow> string \<Rightarrow> string" where
  "redact_keys pw s =
     (if key_at pw s then ''0x[redacted-32-bytes]'' @ redact_keys True (drop 66 s)
      else case s of [] \<Rightarrow> [] | c # cs \<Rightarrow> c # redact_keys (word_char c) cs)"
  by pat_completeness auto

termination
  by (relation "measure (length \<circ> snd)") (auto simp: key_at_def)

declare redact_keys.simps [simp del]

definition redact_string :: "string \<Rightarrow> string" where
  "redact_string value = (if is_address value then truncateAddress value else redact_keys False value)"

lemma size_logval_elem [termination_simp]:
  "(k, v) \<in> set es \<Longrightarrow> size v < Suc (size_list (size_prod (\<lambda>_. 0) size) es)"
  by (induction es) auto

function redact :: "nat \<Rightarrow> logval \<Rightarrow> logval" where
  "redact depth v =
     (if depth > 6 then LStr ''[depth-limit]''
      else case v of
          LUndefined \<Rightarrow> LUndefined
        | LNull \<Rightarrow> LNull
        | LBig n \<Rightarrow> LStr (bigint_to_string n)
        | LStr s \<Rightarrow> LStr (redact_string s)
        | LBool b \<Rightarrow> LBool b
        | LNum n \<Rightarrow> LNum n
        | LArr vs \<Rightarrow> LArr (map (redact (depth + 1)) vs)
        | LObj es \<Rightarrow> LObj (map (\<lambda>(key, item).
            (key, if is_secret_key key then LStr ''[redacted]'' else redact (depth + 1) item)) es))"
  by pat_completeness auto

termination
  by (relation "measure (\<lambda>(d, v). 7 - d)") auto

declare redact.simps [simp del]

section \<open>The logger\<close>

datatype LogLevel = Debug | Info | Warn | Error

fun log_order :: "LogLevel \<Rightarrow> nat" where
  "log_order Debug = 10" | "log_order Info = 20" | "log_order Warn = 30" | "log_order Error = 40"

text \<open>What reaches the sink: nothing below the minimum level, otherwise the redacted fields.\<close>

definition logger_log :: "LogLevel \<Rightarrow> LogLevel \<Rightarrow> string \<Rightarrow> (string \<times> logval) list \<Rightarrow> (LogLevel \<times> string \<times> logval) option" where
  "logger_log minimum level message flds =
     (if log_order level < log_order minimum then None
      else Some (level, message, redact 0 (LObj flds)))"

section \<open>Commitments\<close>

fun kind_string :: "IntentKind \<Rightarrow> string" where
  "kind_string TRANSFER = ''TRANSFER''"
| "kind_string APPROVE = ''APPROVE''"
| "kind_string SWAP = ''SWAP''"
| "kind_string X402_PAYMENT = ''X402_PAYMENT''"
| "kind_string NATIVE_TRANSFER = ''NATIVE_TRANSFER''"
| "kind_string UNKNOWN = ''UNKNOWN''"

fun decision_string :: "Decision \<Rightarrow> string" where
  "decision_string ALLOW = ''ALLOW''"
| "decision_string BLOCK = ''BLOCK''"
| "decision_string REQUIRE_APPROVAL = ''REQUIRE_APPROVAL''"

definition commit_fields :: "Hex \<Rightarrow> Address \<Rightarrow> NormalizedIntent \<Rightarrow> string \<Rightarrow> string list" where
  "commit_fields salt account intent decision =
     [salt, toLowerCase account, kind_string (in_kind intent), in_target intent,
      or_else (in_counterparty intent) ''0x'', bigint_to_string (in_notionalUSDC intent), decision]"

definition commit :: "Hex \<Rightarrow> Address \<Rightarrow> NormalizedIntent \<Rightarrow> string \<Rightarrow> Hex" where
  "commit salt account intent decision = keccak256 (join ''|'' (commit_fields salt account intent decision))"

definition reveal :: "Hex \<Rightarrow> Address \<Rightarrow> NormalizedIntent \<Rightarrow> string \<Rightarrow> Hex \<times> string" where
  "reveal salt account intent decision =
     (let preimage = join ''|'' (commit_fields salt account intent decision) in (keccak256 preimage, preimage))"

section \<open>Buckets and the public record\<close>

definition BUCKET_EDGES :: "int list" where
  "BUCKET_EDGES = [1, 10, 100, 1000, 10000, 100000]"

fun bucket_scan :: "int \<Rightarrow> int list \<Rightarrow> string" where
  "bucket_scan whole (a # b # es) =
     (if whole < b then bigint_to_string a @ ''-'' @ bigint_to_string b else bucket_scan whole (b # es))"
| "bucket_scan whole [a] = ''>='' @ bigint_to_string a"
| "bucket_scan whole [] = []"

definition bucketAmount :: "int \<Rightarrow> nat \<Rightarrow> string" where
  "bucketAmount baseUnits decimals =
     (let whole = tdiv baseUnits (10 ^ decimals) in if whole \<le> 0 then ''<1'' else bucket_scan whole BUCKET_EDGES)"

record PublicAuditRecord =
  au_policyHash :: Hex
  au_decision :: string
  au_decidedBy :: string
  au_amountBucket :: string
  au_commitment :: Hex
  au_dayUtc :: int
  au_proofStatus :: "ProofStatus option"

definition toPublicAuditRecord :: "PolicyResult \<Rightarrow> Address \<Rightarrow> Hex \<Rightarrow> Hex \<Rightarrow> PublicAuditRecord" where
  "toPublicAuditRecord result account hash salt =
     \<lparr>au_policyHash = hash, au_decision = decision_string (res_decision result),
      au_decidedBy = (case res_violations result of
          v # _ \<Rightarrow> pv_policy v
        | [] \<Rightarrow> if res_decision result = ALLOW then ''none'' else ''approvalThreshold''),
      au_amountBucket = bucketAmount (in_notionalUSDC (res_intent result)) 6,
      au_commitment = commit salt account (res_intent result) (decision_string (res_decision result)),
      au_dayUtc = res_evaluatedAt result div 1000 div 86400,
      au_proofStatus = map_option pf_status (res_proof result)\<rparr>"

definition approvalScreenText :: "NormalizedIntent \<Rightarrow> string" where
  "approvalScreenText intent =
     join [CHR 0x0A] ([in_summary intent] @
       (case in_counterparty intent of Some c \<Rightarrow> if c = [] then [] else [''to '' @ c] | None \<Rightarrow> []) @
       [''worth '' @ displayUsdc (in_notionalUSDC intent)])"

section \<open>No key survives redaction\<close>

fun has_key :: "bool \<Rightarrow> string \<Rightarrow> bool" where
  "has_key pw [] = False"
| "has_key pw (c # cs) = (key_at pw (c # cs) \<or> has_key (word_char c) cs)"

lemma redact_keys_after_word:
  "redact_keys True s = (case s of [] \<Rightarrow> [] | c # cs \<Rightarrow> c # redact_keys (word_char c) cs)"
  by (simp add: redact_keys.simps [of True] key_at_def)

lemma hex_digit_word: "is_hex_digit c \<Longrightarrow> word_char c"
  by (auto simp: is_hex_digit_def word_char_def Let_def)

text \<open>Behind a word character, leading hexadecimal digits of the result are those of the input.\<close>

lemma redact_keys_hex_prefix:
  "list_all is_hex_digit (take n (redact_keys True s)) \<Longrightarrow> n \<le> length (redact_keys True s) \<Longrightarrow>
     take n s = take n (redact_keys True s) \<and> drop n (redact_keys True s) = redact_keys True (drop n s) \<and> n \<le> length s"
proof (induction n arbitrary: s)
  case (Suc n)
  then obtain c cs where s: "s = c # cs" by (cases s) (auto simp: redact_keys_after_word)
  with Suc.prems have "is_hex_digit c" by (simp add: redact_keys_after_word)
  then have "word_char c" by (rule hex_digit_word)
  with s have r: "redact_keys True s = c # redact_keys True cs" by (simp add: redact_keys_after_word)
  with Suc.prems Suc.IH [of cs] s show ?case by simp
qed simp

lemma hd_redact_keys_word:
  "(redact_keys True s = [] \<longleftrightarrow> s = []) \<and> (s \<noteq> [] \<longrightarrow> hd (redact_keys True s) = hd s)"
  by (cases s) (simp_all add: redact_keys_after_word)

lemma key_at_redacted:
  assumes "key_at pw (c # redact_keys (word_char c) cs)"
  shows "key_at pw (c # cs)"
proof -
  have c: "c = CHR ''0''" using assms by (simp add: key_at_def)
  have "word_char c" by (simp add: c word_char_def)
  with assms have k: "key_at pw (c # redact_keys True cs)" by simp
  then obtain d ds where cs: "cs = d # ds" by (cases cs) (auto simp: key_at_def redact_keys_after_word)
  with k have d: "d = CHR ''x''" by (simp add: key_at_def redact_keys_after_word)
  have "word_char d" by (simp add: d word_char_def)
  then have out: "redact_keys True cs = d # redact_keys True ds" by (simp add: cs redact_keys_after_word)
  from k have h: "list_all is_hex_digit (take 64 (redact_keys True ds))" "64 \<le> length (redact_keys True ds)"
    and e: "drop 64 (redact_keys True ds) = [] \<or> \<not> word_char (hd (drop 64 (redact_keys True ds)))" and "\<not> pw"
    unfolding out by (auto simp: key_at_def)
  note p = redact_keys_hex_prefix [OF h]
  have "drop 64 ds = [] \<or> \<not> word_char (hd (drop 64 ds))"
    using e p hd_redact_keys_word [of "drop 64 ds"] by (cases "drop 64 ds = []") auto
  with p h \<open>\<not> pw\<close> show ?thesis by (simp add: cs c d key_at_def)
qed

lemma redact_keys_no_key: "\<not> has_key pw (redact_keys pw s)"
proof (induction pw s rule: redact_keys.induct)
  case (1 pw s)
  show ?case
  proof (cases "key_at pw s")
    case True
    with 1(1) have rest: "\<not> has_key True (redact_keys True (drop 66 s))" by simp
    let ?r = "redact_keys True (drop 66 s)"
    have "?r = [] \<or> \<not> word_char (hd ?r)"
      using True hd_redact_keys_word [of "drop 66 s"] by (auto simp: key_at_def)
    then have rest': "\<not> has_key False ?r"
      using rest by (cases ?r) (auto simp: key_at_def word_char_def)
    have "\<not> has_key pw (''0x[redacted-32-bytes]'' @ ?r)"
      using rest' by (simp add: key_at_def word_char_def is_hex_digit_def)
    with True show ?thesis by (simp add: redact_keys.simps [of pw s])
  next
    case False
    show ?thesis
    proof (cases s)
      case (Cons c cs)
      with False 1(2) have "\<not> has_key (word_char c) (redact_keys (word_char c) cs)" by simp
      moreover have "\<not> key_at pw (c # redact_keys (word_char c) cs)"
        using key_at_redacted [of pw c cs] False Cons by blast
      ultimately show ?thesis using False Cons by (simp add: redact_keys.simps [of pw "c # cs"])
    qed (simp add: redact_keys.simps [of pw "[]"] key_at_def)
  qed
qed

text \<open>The strings of a value, and the values stored under secret keys.\<close>

function strings_of :: "logval \<Rightarrow> string set" where
  "strings_of (LStr s) = {s}"
| "strings_of (LArr vs) = (\<Union>v \<in> set vs. strings_of v)"
| "strings_of (LObj es) = (\<Union>(k, v) \<in> set es. strings_of v)"
| "strings_of LUndefined = {}" | "strings_of LNull = {}" | "strings_of (LBool b) = {}"
| "strings_of (LNum n) = {}" | "strings_of (LBig n) = {}"
  by pat_completeness auto

termination
  by (relation "measure size") (auto intro!: size_logval_elem less_Suc_eq_le [THEN iffD2] size_list_estimation')

fun secret_values :: "logval \<Rightarrow> logval set" where
  "secret_values (LArr vs) = (\<Union>v \<in> set vs. secret_values v)"
| "secret_values (LObj es) = snd ` {e \<in> set es. is_secret_key (fst e)} \<union> (\<Union>e \<in> set es. secret_values (snd e))"
| "secret_values _ = {}"

lemma short_no_key: "length s < 66 \<Longrightarrow> \<not> has_key pw s"
  by (induction pw s rule: has_key.induct) (auto simp: key_at_def)

lemma no_x_no_key: "CHR ''x'' \<notin> set s \<Longrightarrow> \<not> has_key pw s"
proof (induction pw s rule: has_key.induct)
  case (2 pw c cs)
  have "CHR ''x'' \<in> set (c # cs)" if "key_at pw (c # cs)"
    using that in_set_takeD [of "CHR ''x''" 2 "c # cs"] by (simp add: key_at_def)
  with 2 show ?case by auto
qed simp

lemma redact_string_no_key: "\<not> has_key False (redact_string s)"
proof (cases "is_address s")
  case True
  then have "length s = 42" by (auto elim!: is_addressE)
  then have "length (truncateAddress s) < 66" using True by (simp add: truncateAddress_def ellipsis_def js_slice_def)
  with True short_no_key show ?thesis by (simp add: redact_string_def)
qed (simp add: redact_string_def redact_keys_no_key)

lemma bigint_no_x: "CHR ''x'' \<notin> set (bigint_to_string n)"
  using to_dec_digits [of "CHR ''x''"] by (auto simp: int_to_base_def is_digit_def)

lemma redact_no_key: "s \<in> strings_of (redact d v) \<Longrightarrow> \<not> has_key False s"
proof (induction d v arbitrary: s rule: redact.induct)
  case (1 depth v)
  show ?case
  proof (cases "depth > 6")
    case True
    with 1(3) show ?thesis by (simp add: redact.simps [of depth v] short_no_key del: has_key.simps)
  next
    case False
    with 1 show ?thesis
      by (cases v) (auto simp: redact.simps [of depth] redact_string_no_key bigint_no_x no_x_no_key short_no_key
          simp del: has_key.simps split: if_splits)
  qed
qed

lemma redact_secrets: "x \<in> secret_values (redact d v) \<Longrightarrow> x = LStr ''[redacted]''"
proof (induction d v arbitrary: x rule: redact.induct)
  case (1 depth v)
  show ?case
  proof (cases "depth > 6")
    case False
    with 1 show ?thesis
      by (cases v) (auto simp: redact.simps [of depth] split: if_splits)
  qed (use 1(3) in \<open>simp add: redact.simps [of depth v]\<close>)
qed

section \<open>Commitments bind\<close>

lemma join_bar_inj:
  assumes "length xs = length ys" and "list_all (\<lambda>x. CHR ''|'' \<notin> set x) xs" and "list_all (\<lambda>x. CHR ''|'' \<notin> set x) ys"
    and "join ''|'' xs = join ''|'' ys"
  shows "xs = ys"
  using assms
proof (induction xs ys rule: list_induct2)
  case (Cons x xs y ys)
  show ?case
  proof (cases xs)
    case Nil
    with Cons show ?thesis by simp
  next
    case (Cons x' xs')
    then obtain y' ys' where ys: "ys = y' # ys'" using Cons.hyps by (cases ys) auto
    have "x @ CHR ''|'' # join ''|'' xs = y @ CHR ''|'' # join ''|'' ys"
      using Cons.prems(3) Cons ys by simp
    then have "x = y \<and> join ''|'' xs = join ''|'' ys"
      using Cons.prems(1,2) by (auto simp: append_eq_append_conv2 Cons_eq_append_conv append_eq_Cons_conv)
    with Cons.IH Cons.prems show ?thesis by simp
  qed
qed simp

lemma no_bar: "wf_address a \<Longrightarrow> CHR ''|'' \<notin> set a" "CHR ''|'' \<notin> set (bigint_to_string n)"
  "CHR ''|'' \<notin> set (kind_string k)" "CHR ''|'' \<notin> set (decision_string d)"
proof -
  have "\<not> is_hex_digit (CHR ''|'')" by code_simp
  then show "wf_address a \<Longrightarrow> CHR ''|'' \<notin> set a" by (elim wf_addressE) auto
  show "CHR ''|'' \<notin> set (bigint_to_string n)"
    using to_dec_digits [of "CHR ''|''"] by (auto simp: int_to_base_def is_digit_def)
  show "CHR ''|'' \<notin> set (kind_string k)" by (cases k) simp_all
  show "CHR ''|'' \<notin> set (decision_string d)" by (cases d) simp_all
qed

definition wf_intent :: "NormalizedIntent \<Rightarrow> bool" where
  "wf_intent i = (wf_address (in_target i) \<and> (\<forall>c. in_counterparty i = Some c \<longrightarrow> wf_address c))"

lemma string_inj:
  "kind_string k = kind_string l \<longleftrightarrow> k = l" "decision_string d = decision_string e \<longleftrightarrow> d = e"
  by (cases k; cases l; simp) (cases d; cases e; simp)

lemma commit_fields_no_bar:
  "wf_address acc \<Longrightarrow> wf_intent i \<Longrightarrow> CHR ''|'' \<notin> set salt \<Longrightarrow>
     list_all (\<lambda>x. CHR ''|'' \<notin> set x) (commit_fields salt acc i (decision_string d))"
  by (cases "in_counterparty i")
    (auto simp: commit_fields_def wf_intent_def no_bar wf_address_def [THEN iffD1, THEN conjunct2] dest: no_bar(1))

section \<open>Properties\<close>



text \<open>
  A commitment binds: two decisions with the same salt whose account, kind, target, counterparty,
  amount or verdict differ have different preimages, so equal commitments would be a Keccak collision; and
  revealing an entry reproduces the commitment that was published.
\<close>

theorem commitment_binds:
  assumes "wf_address acc" and "wf_address acc'" and "wf_intent i" and "wf_intent j" and "CHR ''|'' \<notin> set salt"
    and "snd (reveal salt acc i (decision_string d)) = snd (reveal salt acc' j (decision_string e))"
  shows "acc = acc' \<and> in_kind i = in_kind j \<and> in_target i = in_target j \<and> in_counterparty i = in_counterparty j \<and>
    in_notionalUSDC i = in_notionalUSDC j \<and> d = e \<and>
    fst (reveal salt acc i (decision_string d)) = commit salt acc i (decision_string d)"
proof -
  have "commit_fields salt acc i (decision_string d) = commit_fields salt acc' j (decision_string e)"
    by (rule join_bar_inj)
      (use assms in \<open>auto simp: commit_fields_no_bar reveal_def Let_def\<close>, simp add: commit_fields_def)
  then have f: "toLowerCase acc = toLowerCase acc'" "kind_string (in_kind i) = kind_string (in_kind j)"
    "in_target i = in_target j" "or_else (in_counterparty i) ''0x'' = or_else (in_counterparty j) ''0x''"
    "bigint_to_string (in_notionalUSDC i) = bigint_to_string (in_notionalUSDC j)" "decision_string d = decision_string e"
    by (simp_all only: commit_fields_def list.inject)
  have "acc = acc'" using f(1) assms(1,2) by (simp add: wf_address_def)
  moreover have "in_counterparty i = in_counterparty j"
  proof -
    have "''0x'' \<noteq> c" if "wf_address c" for c using that by (auto elim!: wf_addressE)
    with f(4) assms(3,4) show ?thesis
      by (cases "in_counterparty i"; cases "in_counterparty j") (auto simp: wf_intent_def)
  qed
  ultimately show ?thesis
    using f bigint_to_string_inject [OF f(5)] by (simp add: string_inj reveal_def commit_def Let_def)
qed

theorem commitment_binds_witness:
  "snd (reveal ''0x01'' sample_account (sample_intent 5) (decision_string ALLOW)) \<noteq>
   snd (reveal ''0x01'' sample_account (sample_intent 6) (decision_string ALLOW))"
proof
  assume eq: "snd (reveal ''0x01'' sample_account (sample_intent 5) (decision_string ALLOW)) =
   snd (reveal ''0x01'' sample_account (sample_intent 6) (decision_string ALLOW))"
  have "wf_intent (sample_intent n)" for n by (simp add: wf_intent_def sample_intent_def)
  from commitment_binds [OF _ _ this this _ eq] show False by (simp add: sample_intent_def)
qed

text \<open>
  The amount in the public record is one of seven orders of magnitude, and it is the one the exact
  amount lies in: two amounts between the same powers of ten are indistinguishable.
\<close>

theorem bucketAmount_coarse:
  "bucketAmount x 6 =
     (if x < 1000000 then ''<1'' else if x < 10000000 then ''1-10'' else if x < 100000000 then ''10-100''
      else if x < 1000000000 then ''100-1000'' else if x < 10000000000 then ''1000-10000''
      else if x < 100000000000 then ''10000-100000'' else ''>=100000'')"
proof -
  have texts: "bigint_to_string 1 = ''1''" "bigint_to_string 10 = ''10''" "bigint_to_string 100 = ''100''"
    "bigint_to_string 1000 = ''1000''" "bigint_to_string 10000 = ''10000''" "bigint_to_string 100000 = ''100000''"
  proof -
    have "char_of (49 :: nat) = CHR ''1''" "char_of (48 :: nat) = CHR ''0''" by code_simp+
    then show "bigint_to_string 1 = ''1''" "bigint_to_string 10 = ''10''" "bigint_to_string 100 = ''100''"
      "bigint_to_string 1000 = ''1000''" "bigint_to_string 10000 = ''10000''" "bigint_to_string 100000 = ''100000''"
      by (simp_all add: int_to_base_def to_base.simps digit_char_def)
  qed
  have "tdiv x (10 ^ 6) = (if x < 0 then - ((- x) div 1000000) else x div 1000000)"
    by (auto simp: tdiv_def sgn_if)
  then show ?thesis
    by (auto simp: bucketAmount_def BUCKET_EDGES_def Let_def texts div_less_iff_less_mult) 
qed



end
