(* ===== verification/X402.thy ===== *)
theory X402
  imports Effects Privacy
begin

text \<open>
  \<^verbatim>\<open>packages/api/src/x402/\<close>: the replay guard, the facilitator client, the payment gate and the audit
  trail of the verification API.

  The gate is asynchronous. It is cut at its \<^verbatim>\<open>await\<close>s into stages (\<open>gate_enter\<close>, \<open>gate_verified\<close>,
  \<open>gate_worked\<close>, \<open>gate_finish\<close>); \<open>gate\<close> is their sequential composition, and \<open>gate_step\<close> interleaves the
  stages of any number of concurrent requests over one shared guard. Two library functions are
  parameters: \<open>digest\<close>, the SHA-256 of \<^verbatim>\<open>node:crypto\<close>, and \<open>parse\<close>, which decodes base64 and parses JSON.
\<close>

section \<open>Library functions\<close>

text \<open>\<^verbatim>\<open>JSON.stringify\<close> keeps the order of members and drops undefined ones.\<close>

function strip_json :: "json \<Rightarrow> json" where
  "strip_json (JArr vs) = JArr (map strip_json vs)"
| "strip_json (JObj es) = JObj (map (\<lambda>(k, v). (k, strip_json v)) (filter (\<lambda>(_, v). v \<noteq> JUndefined) es))"
| "strip_json JUndefined = JNull"
| "strip_json JNull = JNull"
| "strip_json (JBool b) = JBool b"
| "strip_json (JNum n) = JNum n"
| "strip_json (JStr s) = JStr s"
  by pat_completeness auto

termination
  by (relation "measure size") (auto intro!: size_json_elem less_Suc_eq_le [THEN iffD2] size_list_estimation')

definition JSON_stringify :: "json \<Rightarrow> string" where
  "JSON_stringify j = print_json (strip_json j)"

definition b64_chars :: "bool \<Rightarrow> string" where
  "b64_chars url = ''ABCDEFGHIJKLMNOPQRSTUVWXYZabcdefghijklmnopqrstuvwxyz0123456789'' @ (if url then ''-_'' else ''+/'')"

text \<open>\<^verbatim>\<open>Buffer.from(s).toString('base64')\<close>, and with \<open>url\<close> the unpadded \<^verbatim>\<open>'base64url'\<close>.\<close>

fun base64 :: "bool \<Rightarrow> nat list \<Rightarrow> string" where
  "base64 url (a # b # c # bs) = map (\<lambda>k. b64_chars url ! k)
     [a div 4, (a mod 4) * 16 + b div 16, (b mod 16) * 4 + c div 64, c mod 64] @ base64 url bs"
| "base64 url [a, b] = map (\<lambda>k. b64_chars url ! k) [a div 4, (a mod 4) * 16 + b div 16, (b mod 16) * 4] @
     (if url then [] else ''='')"
| "base64 url [a] = map (\<lambda>k. b64_chars url ! k) [a div 4, (a mod 4) * 16] @ (if url then [] else ''=='')"
| "base64 url [] = []"

definition base64_string :: "bool \<Rightarrow> string \<Rightarrow> string" where
  "base64_string url s = base64 url (map unat (utf8 s))"

section \<open>ReplayGuard\<close>

text \<open>The map keeps insertion order: the list is oldest first.\<close>

record ReplayGuard =
  rg_seen :: "(string \<times> int) list"
  rg_ttl :: "int option"
  rg_limit :: "nat option"

definition newReplayGuard :: ReplayGuard where
  "newReplayGuard = \<lparr>rg_seen = [], rg_ttl = None, rg_limit = None\<rparr>"

definition rg_ttlMs :: "ReplayGuard \<Rightarrow> int" where
  "rg_ttlMs g = or_else (rg_ttl g) (15 * 60 * 1000)"

definition rg_max :: "ReplayGuard \<Rightarrow> nat" where
  "rg_max g = or_else (rg_limit g) 10000"

definition evict :: "int \<Rightarrow> ReplayGuard \<Rightarrow> ReplayGuard" where
  "evict now g =
     (let fresh = dropWhile (\<lambda>(key, since). now - since > rg_ttlMs g) (rg_seen g)
      in g\<lparr>rg_seen := drop (length fresh - rg_max g) fresh\<rparr>)"

definition claim :: "(string \<Rightarrow> string) \<Rightarrow> string \<Rightarrow> int \<Rightarrow> ReplayGuard \<Rightarrow> bool \<times> ReplayGuard" where
  "claim digest payload now g =
     (let g1 = evict now g; key = digest payload in
      if map_of (rg_seen g1) key \<noteq> None then (False, g1)
      else (True, g1\<lparr>rg_seen := rg_seen g1 @ [(key, now)]\<rparr>))"

definition release :: "(string \<Rightarrow> string) \<Rightarrow> string \<Rightarrow> ReplayGuard \<Rightarrow> ReplayGuard" where
  "release digest payload g = g\<lparr>rg_seen := AList.delete (digest payload) (rg_seen g)\<rparr>"

section \<open>Facilitator\<close>

record PaymentRequirements =
  rq_scheme :: string
  rq_network :: string
  rq_asset :: string
  rq_amount :: string
  rq_payTo :: string
  rq_resource :: string
  rq_description :: string
  rq_maxTimeoutSeconds :: int
  rq_facilitator :: string
  rq_nonce :: string
  rq_feePayer :: "string option option" \<comment> \<open>\<^verbatim>\<open>extra\<close>, and within it \<^verbatim>\<open>feePayer\<close>\<close>

definition opt_json :: "string option \<Rightarrow> json" where
  "opt_json x = (case x of None \<Rightarrow> JUndefined | Some s \<Rightarrow> JStr s)"

definition requirements_json :: "PaymentRequirements \<Rightarrow> json" where
  "requirements_json r = JObj
     [(''scheme'', JStr (rq_scheme r)), (''network'', JStr (rq_network r)), (''asset'', JStr (rq_asset r)),
      (''amount'', JStr (rq_amount r)), (''payTo'', JStr (rq_payTo r)), (''resource'', JStr (rq_resource r)),
      (''description'', JStr (rq_description r)), (''maxTimeoutSeconds'', JNum (rq_maxTimeoutSeconds r)),
      (''facilitator'', JStr (rq_facilitator r)), (''nonce'', JStr (rq_nonce r)),
      (''extra'', case rq_feePayer r of None \<Rightarrow> JUndefined | Some p \<Rightarrow> JObj [(''feePayer'', opt_json p)])]"

record SettlementResult =
  sr_settled :: bool
  sr_transactionId :: "string option"
  sr_network :: "string option"
  sr_payer :: "string option"
  sr_reason :: "string option"

record Verification =
  vf_valid :: bool
  vf_reason :: "string option"

record 'w Facilitator =
  fc_verify :: "string \<Rightarrow> PaymentRequirements \<Rightarrow> ('w, Verification) io"
  fc_settle :: "string \<Rightarrow> PaymentRequirements \<Rightarrow> ('w, SettlementResult) io"

text \<open>The answers of the facilitator service, as the client reads them.\<close>

record SupportedKind =
  sk_scheme :: string
  sk_network :: string
  sk_extra :: "string option option" \<comment> \<open>\<^verbatim>\<open>extra\<close>, and within it \<^verbatim>\<open>feePayer\<close>\<close>

record VerifyAnswer =
  va_isValid :: "bool option"
  va_invalidReason :: "string option"
  va_invalidMessage :: "string option"

record SettleAnswer =
  sn_success :: "bool option"
  sn_transaction :: "string option"
  sn_network :: "string option"
  sn_payer :: "string option"
  sn_errorReason :: "string option"
  sn_errorMessage :: "string option"

record 'w FacilitatorHttp =
  fh_supported :: "string \<Rightarrow> ('w, SupportedKind list option) io"
  fh_verify :: "string \<Rightarrow> json \<Rightarrow> ('w, VerifyAnswer) io"
  fh_settle :: "string \<Rightarrow> json \<Rightarrow> ('w, SettleAnswer) io"

record Blocky402 =
  bl_baseUrl :: string
  bl_network :: "string option"
  bl_feePayer :: "string option"

definition blocky_network :: "Blocky402 \<Rightarrow> string" where
  "blocky_network b = or_else (bl_network b) ''hedera:testnet''"

definition kind_json :: "SupportedKind \<Rightarrow> json" where
  "kind_json k = JObj [(''scheme'', JStr (sk_scheme k)), (''network'', JStr (sk_network k)),
     (''extra'', case sk_extra k of None \<Rightarrow> JUndefined | Some p \<Rightarrow> JObj [(''feePayer'', opt_json p)])]"

definition assertSupported :: "'w FacilitatorHttp \<Rightarrow> Blocky402 \<Rightarrow> ('w, Blocky402) io" where
  "assertSupported http b =
     bind_io (fh_supported http (bl_baseUrl b @ ''/supported'')) (\<lambda>kinds.
       case find (\<lambda>k. sk_network k = blocky_network b \<and> sk_scheme k = ''exact'') (or_else kinds []) of
         None \<Rightarrow> throw_io (ErrorMessage (''Facilitator '' @ bl_baseUrl b @ '' does not advertise scheme=exact on '' @
           blocky_network b @ ''. Advertised: '' @ JSON_stringify (JArr (map kind_json (or_else kinds []))) @
           ''. Refusing to start rather than serving 402 challenges that cannot be settled.''))
       | Some kind \<Rightarrow> return_io (b\<lparr>bl_feePayer := or_else (sk_extra kind) None\<rparr>))"

text \<open>\<^verbatim>\<open>[a, b].filter(Boolean).join(': ') || fallback\<close>, and the text of a caught error.\<close>

definition reason_text :: "string option \<Rightarrow> string option \<Rightarrow> string \<Rightarrow> string" where
  "reason_text a b fallback =
     (let s = join '': '' (filter (\<lambda>x. x \<noteq> []) (map (\<lambda>x. or_else x []) [a, b])) in if s = [] then fallback else s)"

definition facilitator_body :: "(string \<Rightarrow> json result) \<Rightarrow> string \<Rightarrow> PaymentRequirements \<Rightarrow> json result" where
  "facilitator_body parse payload requirements =
     (case parse payload of
        Inl _ \<Rightarrow> Inl (ErrorMessage ''X-PAYMENT header is not valid base64 JSON'')
      | Inr j \<Rightarrow> Inr (JObj [(''x402Version'', JNum 2), (''paymentPayload'', j),
          (''paymentRequirements'', requirements_json requirements)]))"

definition blocky_verify ::
  "(js_error \<Rightarrow> string) \<Rightarrow> (string \<Rightarrow> json result) \<Rightarrow> 'w FacilitatorHttp \<Rightarrow> Blocky402 \<Rightarrow> string \<Rightarrow> PaymentRequirements \<Rightarrow> ('w, Verification) io" where
  "blocky_verify message parse http b payload requirements w =
     (case bind_io (lift_io (facilitator_body parse payload requirements)) (fh_verify http (bl_baseUrl b @ ''/verify'')) w of
        (Inl e, w') \<Rightarrow> (Inr \<lparr>vf_valid = False, vf_reason = Some (message e)\<rparr>, w')
      | (Inr a, w') \<Rightarrow>
          (Inr (if va_isValid a = Some True then \<lparr>vf_valid = True, vf_reason = None\<rparr>
             else \<lparr>vf_valid = False,
               vf_reason = Some (reason_text (va_invalidReason a) (va_invalidMessage a) ''verify rejected'')\<rparr>), w'))"

definition blocky_settle ::
  "(js_error \<Rightarrow> string) \<Rightarrow> (string \<Rightarrow> json result) \<Rightarrow> 'w FacilitatorHttp \<Rightarrow> Blocky402 \<Rightarrow> string \<Rightarrow> PaymentRequirements \<Rightarrow> ('w, SettlementResult) io" where
  "blocky_settle message parse http b payload requirements w =
     (case bind_io (lift_io (facilitator_body parse payload requirements)) (fh_settle http (bl_baseUrl b @ ''/settle'')) w of
        (Inl e, w') \<Rightarrow> (Inr \<lparr>sr_settled = False, sr_transactionId = None, sr_network = None, sr_payer = None,
           sr_reason = Some (message e)\<rparr>, w')
      | (Inr a, w') \<Rightarrow>
          (let settled = (sn_success a = Some True) in
           (Inr \<lparr>sr_settled = settled, sr_transactionId = sn_transaction a, sr_network = sn_network a,
              sr_payer = sn_payer a,
              sr_reason = (if settled then None
                else Some (reason_text (sn_errorReason a) (sn_errorMessage a) ''settle rejected''))\<rparr>, w')))"

definition blocky_facilitator ::
  "(js_error \<Rightarrow> string) \<Rightarrow> (string \<Rightarrow> json result) \<Rightarrow> 'w FacilitatorHttp \<Rightarrow> Blocky402 \<Rightarrow> 'w Facilitator" where
  "blocky_facilitator message parse http b =
     \<lparr>fc_verify = blocky_verify message parse http b, fc_settle = blocky_settle message parse http b\<rparr>"

section \<open>The gate\<close>

record HttpReply =
  hr_status :: nat
  hr_headers :: "(string \<times> string) list"
  hr_body :: json

definition respondJson :: "(string \<times> string) list \<Rightarrow> nat \<Rightarrow> json \<Rightarrow> HttpReply" where
  "respondJson headers status body =
     \<lparr>hr_status = status,
      hr_headers = headers @ [(''Content-Type'', ''application/json''), (''Cache-Control'', ''no-store''),
        (''X-AgentProof-Stateless'', ''true'')],
      hr_body = body\<rparr>"

record X402Options =
  xo_network :: string
  xo_asset :: string
  xo_payTo :: string
  xo_price :: string
  xo_assetDecimals :: nat
  xo_extra :: "string option option"
  xo_baseUrl :: string
  xo_enabled :: bool

definition toAtomicUnits :: "string \<Rightarrow> nat \<Rightarrow> string result" where
  "toAtomicUnits display decimals =
     (let parts = splitOn (CHR ''.'') display;
          whole = hd parts;
          frac = (case tl parts of [] \<Rightarrow> [] | f # _ \<Rightarrow> f);
          padded = take decimals (frac @ replicate decimals (CHR ''0''))
      in bindR (bigint_of_string (if whole = [] then ''0'' else whole)) (\<lambda>w.
         bindR (bigint_of_string (if padded = [] then ''0'' else padded)) (\<lambda>f.
           Inr (bigint_to_string (w * 10 ^ decimals + f)))))"

definition payment_requirements :: "X402Options \<Rightarrow> string \<Rightarrow> string \<Rightarrow> PaymentRequirements result" where
  "payment_requirements options resource nonce =
     bindR (toAtomicUnits (xo_price options) (xo_assetDecimals options)) (\<lambda>amount.
       Inr \<lparr>rq_scheme = ''exact'', rq_network = xo_network options, rq_asset = xo_asset options, rq_amount = amount,
         rq_payTo = xo_payTo options, rq_resource = xo_baseUrl options @ resource,
         rq_description = ''AgentProof policy verification, metered per call'', rq_maxTimeoutSeconds = 60,
         rq_facilitator = ''blocky402'', rq_nonce = nonce, rq_feePayer = xo_extra options\<rparr>)"

definition challenge :: "PaymentRequirements \<Rightarrow> string \<Rightarrow> HttpReply" where
  "challenge requirements error = respondJson [] 402
     (JObj [(''x402Version'', JNum 1), (''error'', JStr error), (''accepts'', JArr [requirements_json requirements])])"

definition isWellFormedPayment :: "(string \<Rightarrow> json result) \<Rightarrow> string \<Rightarrow> bool" where
  "isWellFormedPayment parse header = (case parse header of Inl _ \<Rightarrow> False | Inr _ \<Rightarrow> True)"

text \<open>Up to the first \<^verbatim>\<open>await\<close>: a reply, or the header whose payment is now claimed.\<close>

definition gate_enter ::
  "(string \<Rightarrow> string) \<Rightarrow> (string \<Rightarrow> json result) \<Rightarrow> PaymentRequirements \<Rightarrow> string option \<Rightarrow> int \<Rightarrow> ReplayGuard \<Rightarrow>
   (HttpReply + string) \<times> ReplayGuard" where
  "gate_enter digest parse requirements header now g =
     (case header of
        None \<Rightarrow> (Inl (challenge requirements ''Payment required''), g)
      | Some h \<Rightarrow>
          if h = [] then (Inl (challenge requirements ''Payment required''), g)
          else if \<not> isWellFormedPayment parse h then
            (Inl (challenge requirements ''X-PAYMENT header is not base64-encoded JSON''), g)
          else
            let (fresh, g1) = claim digest h now g in
            if \<not> fresh then
              (Inl (challenge requirements ''This payment payload has already been used; obtain a new one''), g1)
            else (Inr h, g1))"

text \<open>After the facilitator answered: a reply, or go on to the work.\<close>

definition gate_verified ::
  "(string \<Rightarrow> string) \<Rightarrow> PaymentRequirements \<Rightarrow> string \<Rightarrow> Verification result \<Rightarrow> ReplayGuard \<Rightarrow> HttpReply option \<times> ReplayGuard" where
  "gate_verified digest requirements h verification g =
     (case verification of
        Inl _ \<Rightarrow> (Some (respondJson [] 503 (JObj [(''error'', JStr ''payment facilitator unavailable''),
          (''retryable'', JBool True)])), release digest h g)
      | Inr v \<Rightarrow>
          if \<not> vf_valid v then
            (Some (challenge requirements (or_else (vf_reason v) ''Payment verification failed'')), release digest h g)
          else (None, g))"

definition gate_worked :: "(string \<Rightarrow> string) \<Rightarrow> string \<Rightarrow> json result \<Rightarrow> ReplayGuard \<Rightarrow> ReplayGuard" where
  "gate_worked digest h outcome g = (case outcome of Inl _ \<Rightarrow> release digest h g | Inr _ \<Rightarrow> g)"

definition settlement_of :: "(js_error \<Rightarrow> string) \<Rightarrow> SettlementResult result \<Rightarrow> SettlementResult" where
  "settlement_of message r =
     (case r of Inr s \<Rightarrow> s
      | Inl e \<Rightarrow> \<lparr>sr_settled = False, sr_transactionId = None, sr_network = None, sr_payer = None, sr_reason = Some (message e)\<rparr>)"

definition gate_finish :: "json \<Rightarrow> SettlementResult \<Rightarrow> HttpReply" where
  "gate_finish outcome s =
     respondJson [(''X-PAYMENT-RESPONSE'', base64_string False (JSON_stringify (JObj
        [(''success'', JBool (sr_settled s)), (''transaction'', opt_json (sr_transactionId s)),
         (''error'', if sr_settled s then JUndefined else JStr (or_else (sr_reason s) ''settlement failed''))])))]
       200 outcome"

text \<open>One request from start to end; the guard is shared, the rest of the world is \<open>'w\<close>.\<close>

definition guarded :: "('w, 'a) io \<Rightarrow> (ReplayGuard \<times> 'w, 'a) io" where
  "guarded m s = (let (r, w) = m (snd s) in (r, (fst s, w)))"

definition disabled_settlement :: SettlementResult where
  "disabled_settlement = \<lparr>sr_settled = False, sr_transactionId = None, sr_network = None, sr_payer = None,
     sr_reason = Some ''x402 disabled''\<rparr>"

definition gate_deliver ::
  "(js_error \<Rightarrow> string) \<Rightarrow> 'w Facilitator \<Rightarrow> (json \<Rightarrow> SettlementResult \<Rightarrow> ('w, unit) io) \<Rightarrow> PaymentRequirements \<Rightarrow> string \<Rightarrow>
   json \<Rightarrow> ('w, HttpReply) io" where
  "gate_deliver message facilitator afterSettlement requirements h outcome w =
     (case fc_settle facilitator h requirements w of
        (s, w1) \<Rightarrow>
          let settlement = settlement_of message s in
          bind_io (afterSettlement outcome settlement) (\<lambda>_. return_io (gate_finish outcome settlement)) w1)"

definition gate ::
  "(string \<Rightarrow> string) \<Rightarrow> (string \<Rightarrow> json result) \<Rightarrow> (js_error \<Rightarrow> string) \<Rightarrow> X402Options \<Rightarrow> 'w Facilitator \<Rightarrow> string \<Rightarrow> string \<Rightarrow>
   string option \<Rightarrow> int \<Rightarrow> ('w, json) io \<Rightarrow> (json \<Rightarrow> SettlementResult \<Rightarrow> ('w, unit) io) \<Rightarrow> (ReplayGuard \<times> 'w, HttpReply) io" where
  "gate digest parse message options facilitator nonce resource header now work afterSettlement =
     (if \<not> xo_enabled options then
        guarded (bind_io work (\<lambda>outcome. bind_io (afterSettlement outcome disabled_settlement) (\<lambda>_.
          return_io (respondJson [] 200 outcome))))
      else bind_io (lift_io (payment_requirements options resource nonce)) (\<lambda>requirements (g, w).
        case gate_enter digest parse requirements header now g of
          (Inl reply, g1) \<Rightarrow> (Inr reply, (g1, w))
        | (Inr h, g1) \<Rightarrow>
            (case fc_verify facilitator h requirements w of
               (v, w1) \<Rightarrow>
                 (case gate_verified digest requirements h v g1 of
                    (Some reply, g2) \<Rightarrow> (Inr reply, (g2, w1))
                  | (None, g2) \<Rightarrow>
                      (case work w1 of
                         (Inl e, w2) \<Rightarrow> (Inl e, (gate_worked digest h (Inl e) g2, w2))
                       | (Inr outcome, w2) \<Rightarrow>
                           guarded (gate_deliver message facilitator afterSettlement requirements h outcome)
                             (gate_worked digest h (Inr outcome) g2, w2))))))"

section \<open>Concurrent requests\<close>

datatype gate_phase = Verifying string | Working string | Settling string json | Served string HttpReply
  | Answered HttpReply | Failed js_error

datatype gate_event = Arrive nat "string option" int | Verified nat "Verification result" | Worked nat "json result"
  | Settled nat "SettlementResult result"

type_synonym gate_state = "ReplayGuard \<times> (nat \<Rightarrow> gate_phase option)"

inductive gate_step ::
  "(string \<Rightarrow> string) \<Rightarrow> (string \<Rightarrow> json result) \<Rightarrow> (js_error \<Rightarrow> string) \<Rightarrow> PaymentRequirements \<Rightarrow>
   gate_state \<Rightarrow> gate_event \<Rightarrow> gate_state \<Rightarrow> bool"
  for digest parse message requirements where
  arrive: "P i = None \<Longrightarrow> gate_enter digest parse requirements header now g = (r, g') \<Longrightarrow>
    gate_step digest parse message requirements (g, P) (Arrive i header now)
      (g', P(i \<mapsto> (case r of Inl reply \<Rightarrow> Answered reply | Inr h \<Rightarrow> Verifying h)))"
| verified: "P i = Some (Verifying h) \<Longrightarrow> gate_verified digest requirements h v g = (r, g') \<Longrightarrow>
    gate_step digest parse message requirements (g, P) (Verified i v)
      (g', P(i \<mapsto> (case r of Some reply \<Rightarrow> Answered reply | None \<Rightarrow> Working h)))"
| worked: "P i = Some (Working h) \<Longrightarrow>
    gate_step digest parse message requirements (g, P) (Worked i outcome)
      (gate_worked digest h outcome g, P(i \<mapsto> (case outcome of Inl e \<Rightarrow> Failed e | Inr j \<Rightarrow> Settling h j)))"
| settled: "P i = Some (Settling h j) \<Longrightarrow>
    gate_step digest parse message requirements (g, P) (Settled i s)
      (g, P(i \<mapsto> Served h (gate_finish j (settlement_of message s))))"

inductive gate_run ::
  "(string \<Rightarrow> string) \<Rightarrow> (string \<Rightarrow> json result) \<Rightarrow> (js_error \<Rightarrow> string) \<Rightarrow> PaymentRequirements \<Rightarrow>
   ReplayGuard \<Rightarrow> gate_event list \<Rightarrow> gate_state \<Rightarrow> bool"
  for digest parse message requirements g0 where
  start: "gate_run digest parse message requirements g0 [] (g0, Map.empty)"
| more: "gate_run digest parse message requirements g0 es s \<Longrightarrow> gate_step digest parse message requirements s e s' \<Longrightarrow>
    gate_run digest parse message requirements g0 (es @ [e]) s'"

text \<open>The payment a request is being served, or was served, for.\<close>

fun pays :: "gate_phase \<Rightarrow> string option" where
  "pays (Verifying h) = Some h"
| "pays (Working h) = Some h"
| "pays (Settling h j) = Some h"
| "pays (Served h r) = Some h"
| "pays (Answered r) = None"
| "pays (Failed e) = None"

fun arrival :: "gate_event \<Rightarrow> int option" where
  "arrival (Arrive i h now) = Some now"
| "arrival e = None"

text \<open>While the window lasts and the guard has room, the guard forgets nothing.\<close>

definition within_window :: "ReplayGuard \<Rightarrow> int \<Rightarrow> gate_event list \<Rightarrow> bool" where
  "within_window g t0 es = (list_all (\<lambda>now. t0 \<le> now \<and> now \<le> t0 + rg_ttlMs g) (List.map_filter arrival es) \<and>
     length (List.map_filter arrival es) \<le> rg_max g)"

definition gate_inv :: "(string \<Rightarrow> string) \<Rightarrow> ReplayGuard \<Rightarrow> int \<Rightarrow> nat \<Rightarrow> gate_state \<Rightarrow> bool" where
  "gate_inv digest g0 t0 n s = (case s of (g, P) \<Rightarrow>
     rg_ttl g = rg_ttl g0 \<and> rg_limit g = rg_limit g0 \<and> length (rg_seen g) \<le> n \<and>
     (\<forall>x \<in> set (rg_seen g). t0 \<le> snd x) \<and>
     (\<forall>i p h. P i = Some p \<longrightarrow> pays p = Some h \<longrightarrow> digest h \<in> fst ` set (rg_seen g)) \<and>
     (\<forall>i j p q h k. P i = Some p \<longrightarrow> P j = Some q \<longrightarrow> pays p = Some h \<longrightarrow> pays q = Some k \<longrightarrow> i \<noteq> j \<longrightarrow>
        digest h \<noteq> digest k))"

lemma evict_id:
  assumes "\<forall>x \<in> set (rg_seen g). t0 \<le> snd x" and "now \<le> t0 + rg_ttlMs g" and "length (rg_seen g) \<le> rg_max g"
  shows "evict now g = g"
proof -
  have "dropWhile (\<lambda>(key, since). now - since > rg_ttlMs g) (rg_seen g) = rg_seen g"
    using assms(1,2) by (cases "rg_seen g") fastforce+
  then show ?thesis using assms(3) by (simp add: evict_def)
qed

lemma gate_enter_cases:
  assumes "gate_enter digest parse requirements header now g = (r, g')"
    and "evict now g = g"
  shows "(g' = g \<and> (\<exists>reply. r = Inl reply)) \<or>
    (\<exists>h. r = Inr h \<and> digest h \<notin> fst ` set (rg_seen g) \<and> g' = g\<lparr>rg_seen := rg_seen g @ [(digest h, now)]\<rparr>)"
  using assms
  by (auto simp: gate_enter_def claim_def Let_def map_of_eq_None_iff split: option.splits if_splits prod.splits)

lemma gate_verified_cases:
  assumes "gate_verified digest requirements h v g = (r, g')"
  shows "(r = None \<and> g' = g) \<or> ((\<exists>reply. r = Some reply) \<and> g' = release digest h g)"
  using assms by (auto simp: gate_verified_def split: sum.splits if_splits)

text \<open>A request that drops its payment releases only that payment.\<close>

lemma gate_inv_drop:
  assumes "gate_inv digest g0 t0 n (g, P)" and "P i = Some p" "pays p = Some h" and "pays q = None"
  shows "gate_inv digest g0 t0 n (release digest h g, P(i \<mapsto> q))"
proof -
  have "length (AList.delete (digest h) (rg_seen g)) \<le> n"
    using assms(1) le_trans [OF length_delete_le] by (auto simp: gate_inv_def)
  moreover have "set (AList.delete (digest h) (rg_seen g)) \<subseteq> set (rg_seen g)" by (rule set_delete)
  moreover have "fst ` set (AList.delete (digest h) (rg_seen g)) = fst ` set (rg_seen g) - {digest h}"
    by (rule keys_delete)
  ultimately show ?thesis
    using assms unfolding gate_inv_def release_def by (auto simp: subset_iff)
qed

lemma gate_inv_move:
  assumes "gate_inv digest g0 t0 n (g, P)" and "P i = Some p" and "pays q = pays p"
  shows "gate_inv digest g0 t0 n (g, P(i \<mapsto> q))"
  using assms unfolding gate_inv_def by auto

lemma map_filter_snoc:
  "List.map_filter f (xs @ [x]) = List.map_filter f xs @ (case f x of None \<Rightarrow> [] | Some y \<Rightarrow> [y])"
  by (induction xs) (auto simp: map_filter_simps split: option.splits)

lemma within_window_snoc:
  "within_window g t0 (es @ [e]) \<Longrightarrow> within_window g t0 es"
  "within_window g t0 (es @ [Arrive i h now]) \<Longrightarrow>
     t0 \<le> now \<and> now \<le> t0 + rg_ttlMs g \<and> length (List.map_filter arrival es) < rg_max g"
  by (auto simp: within_window_def map_filter_snoc split: option.splits)

lemma gate_inv_step:
  assumes "gate_inv digest g0 t0 (length (List.map_filter arrival es)) s"
    and "gate_step digest parse message requirements s e s'" and "within_window g0 t0 (es @ [e])"
  shows "gate_inv digest g0 t0 (length (List.map_filter arrival (es @ [e]))) s'"
  using assms(2)
proof cases
  case (arrive P i header now g r g')
  let ?n = "length (List.map_filter arrival es)"
  note inv = assms(1) [unfolded arrive(1)]
  note w = within_window_snoc(2) [OF assms(3) [unfolded arrive(2)]]
  have "evict now g = g"
    using inv w by (intro evict_id [of g t0]) (auto simp: gate_inv_def rg_ttlMs_def rg_max_def)
  from gate_enter_cases [OF arrive(5) this] show ?thesis
  proof (elim disjE conjE exE)
    fix reply assume "g' = g" "r = Inl reply"
    with inv arrive show ?thesis by (auto simp: gate_inv_def map_filter_snoc)
  next
    fix h assume h: "r = Inr h" "digest h \<notin> fst ` set (rg_seen g)" "g' = g\<lparr>rg_seen := rg_seen g @ [(digest h, now)]\<rparr>"
    have "digest k \<noteq> digest h" if "P j = Some p" "pays p = Some k" for j p k
    proof -
      have "digest k \<in> fst ` set (rg_seen g)" using that inv unfolding gate_inv_def by blast
      with h(2) show ?thesis by metis
    qed
    with inv arrive(2,3,4) h w show ?thesis
      by (auto simp: gate_inv_def map_filter_snoc)
  qed
next
  case (verified P i h v g r g')
  note inv = assms(1) [unfolded verified(1)]
  from gate_verified_cases [OF verified(5)] show ?thesis
    using gate_inv_move [OF inv verified(4), of "Working h"] gate_inv_drop [OF inv verified(4), of h] verified(2,3)
    by (auto simp: map_filter_snoc)
next
  case (worked P i h g outcome)
  note inv = assms(1) [unfolded worked(1)]
  show ?thesis
    using gate_inv_move [OF inv worked(4), of "Settling h _"] gate_inv_drop [OF inv worked(4), of h] worked(2,3)
    by (cases outcome) (auto simp: map_filter_snoc gate_worked_def)
next
  case (settled P i h j g s)
  note inv = assms(1) [unfolded settled(1)]
  show ?thesis
    using gate_inv_move [OF inv settled(4), of "Served h _"] settled(2,3) by (auto simp: map_filter_snoc)
qed

lemma gate_run_inv:
  "gate_run digest parse message requirements g0 es s \<Longrightarrow> rg_seen g0 = [] \<Longrightarrow> within_window g0 t0 es \<Longrightarrow>
     gate_inv digest g0 t0 (length (List.map_filter arrival es)) s"
proof (induction rule: gate_run.induct)
  case start
  then show ?case by (simp add: gate_inv_def)
next
  case (more es s e s')
  then show ?case using gate_inv_step within_window_snoc(1) by blast
qed

section \<open>The audit trail\<close>

text \<open>
  The flush loop is suspended while a message is in flight. \<open>hs_submitted\<close> are the records handed to the
  submitter so far.
\<close>

record HcsAuditTrail =
  hs_enabled :: bool
  hs_queue :: "PublicAuditRecord list"
  hs_flushing :: bool
  hs_submitted :: "PublicAuditRecord list"

definition newHcsAuditTrail :: "bool \<Rightarrow> HcsAuditTrail" where
  "newHcsAuditTrail enabled = \<lparr>hs_enabled = enabled, hs_queue = [], hs_flushing = False, hs_submitted = []\<rparr>"

text \<open>One turn of the loop: the next record is sent, or the flag is cleared.\<close>

definition hcs_turn :: "HcsAuditTrail \<Rightarrow> HcsAuditTrail" where
  "hcs_turn t =
     (case hs_queue t of
        [] \<Rightarrow> t\<lparr>hs_flushing := False\<rparr>
      | r # rs \<Rightarrow> t\<lparr>hs_queue := rs, hs_submitted := hs_submitted t @ [r]\<rparr>)"

definition hcs_flush :: "HcsAuditTrail \<Rightarrow> HcsAuditTrail" where
  "hcs_flush t = (if hs_flushing t then t else hcs_turn (t\<lparr>hs_flushing := True\<rparr>))"

definition hcs_record :: "PublicAuditRecord \<Rightarrow> HcsAuditTrail \<Rightarrow> HcsAuditTrail" where
  "hcs_record r t = (if \<not> hs_enabled t then t else hcs_flush (t\<lparr>hs_queue := hs_queue t @ [r]\<rparr>))"

text \<open>A message completed or failed; either way the loop goes on.\<close>

definition hcs_completed :: "unit result \<Rightarrow> HcsAuditTrail \<Rightarrow> HcsAuditTrail" where
  "hcs_completed outcome t = hcs_turn t"

datatype hcs_event = Recorded PublicAuditRecord | Completed "unit result"

inductive hcs_run :: "hcs_event list \<Rightarrow> HcsAuditTrail \<Rightarrow> bool" where
  start: "hcs_run [] (newHcsAuditTrail True)"
| recorded: "hcs_run es t \<Longrightarrow> hcs_run (es @ [Recorded r]) (hcs_record r t)"
| completed: "hcs_run es t \<Longrightarrow> hs_flushing t \<Longrightarrow> hcs_run (es @ [Completed outcome]) (hcs_completed outcome t)"

fun recorded_of :: "hcs_event \<Rightarrow> PublicAuditRecord option" where
  "recorded_of (Recorded r) = Some r"
| "recorded_of (Completed x) = None"

lemma hcs_run_inv:
  "hcs_run es t \<Longrightarrow> hs_enabled t \<and> hs_submitted t @ hs_queue t = List.map_filter recorded_of es \<and>
     (hs_queue t \<noteq> [] \<longrightarrow> hs_flushing t)"
  by (induction rule: hcs_run.induct)
    (auto simp: newHcsAuditTrail_def hcs_record_def hcs_flush_def hcs_turn_def hcs_completed_def map_filter_snoc map_filter_simps
      split: list.splits)

section \<open>Amounts\<close>

lemma in_base_digits: "s \<noteq> [] \<Longrightarrow> list_all is_digit s \<Longrightarrow> in_base 10 s"
  by (auto simp: in_base_def list_all_iff is_digit_is_hex digit_val_less10)

lemma bigint_of_digits:
  assumes "s \<noteq> []" and "list_all is_digit s"
  shows "bigint_of_string s = Inr (int (of_dec s))"
proof -
  have t: "trim s = s" using assms(2) by (intro trim_id) (auto simp: list_all_iff is_digit_not_dot)
  have "lower_char c = c" if "is_digit c" for c
    using that by (auto simp: lower_char_def is_digit_def Let_def)
  then have "toLowerCase (take 2 s) = take 2 s"
    using assms(2) by (intro toLowerCase_id) (auto simp: list_all_iff dest: in_set_takeD)
  moreover have "take 2 s \<noteq> CHR ''0'' # c # []" if "\<not> is_digit c" for c
  proof
    assume "take 2 s = CHR ''0'' # c # []"
    then have "c \<in> set (take 2 s)" by simp
    with that assms(2) show False by (auto simp: list_all_iff dest: in_set_takeD)
  qed
  moreover have "\<not> is_digit (CHR ''x'')" "\<not> is_digit (CHR ''o'')" "\<not> is_digit (CHR ''b'')" by code_simp+
  ultimately show ?thesis
    using t in_base_digits [OF assms] assms(1) by (simp add: bigint_of_string_def)
qed

lemma toAtomicUnits_digits:
  assumes "w \<noteq> []" "list_all is_digit w" "list_all is_digit f" "length f \<le> d"
  shows "toAtomicUnits (w @ (if f = [] then [] else ''.'' @ f)) d =
    Inr (bigint_to_string (int (of_dec w) * 10 ^ d + int (of_dec f) * 10 ^ (d - length f)))"
proof -
  have dot: "CHR ''.'' \<notin> set w" "CHR ''.'' \<notin> set f" using assms(2,3) by (auto simp: list_all_iff dest: is_digit_not_dot)
  let ?s = "w @ (if f = [] then [] else ''.'' @ f)"
  have parts: "splitOn (CHR ''.'') ?s = (if f = [] then [w] else [w, f])"
    using dot by (auto simp: splitOn_free splitOn_once)
  have padded: "take d (f @ replicate d (CHR ''0'')) = f @ replicate (d - length f) (CHR ''0'')"
    using assms(4) by simp
  have "list_all is_digit (replicate k (CHR ''0''))" for k by (induction k) (auto simp: is_digit_def)
  then have digits: "list_all is_digit (f @ replicate (d - length f) (CHR ''0''))" using assms(3) by simp
  have "bigint_of_string (if p = [] then ''0'' else p) = Inr (int (of_dec f) * 10 ^ (d - length f))"
    if "p = f @ replicate (d - length f) (CHR ''0'')" for p
  proof (cases "p = []")
    case True
    with that have "f = []" by simp
    moreover have "bigint_of_string ''0'' = Inr 0" using bigint_of_digits [of "''0''"] by (simp add: is_digit_def of_base_Cons digit_val_def)
    ultimately show ?thesis using True by simp
  next
    case False
    then have "bigint_of_string p = Inr (int (of_dec f) * 10 ^ (d - length f))"
      using that digits bigint_of_digits [of p] by (simp add: of_base_append)
    with False show ?thesis by simp
  qed
  with parts padded assms(1,2) show ?thesis
    by (auto simp: toAtomicUnits_def Let_def bigint_of_digits)
qed

section \<open>Properties\<close>

text \<open>
  (C15) One payment buys at most one call: however requests interleave, while the guard's window lasts and
  it has room, no two requests carrying the same payment are both past the gate, being worked on,
  settled or served. (The claim is made before the first suspension, and released only by the request
  that made it.)
\<close>

theorem payment_serves_once:
  assumes "gate_run digest parse message requirements g0 es (g, P)" and "rg_seen g0 = []" and "within_window g0 t0 es"
    and "P i = Some p" "pays p = Some h" and "P j = Some q" "pays q = Some h"
  shows "i = j"
  using gate_run_inv [OF assms(1-3)] assms(4-7) unfolding gate_inv_def by blast

definition sample_requirements :: PaymentRequirements where
  "sample_requirements = \<lparr>rq_scheme = ''exact'', rq_network = ''hedera:testnet'', rq_asset = ''0.0.429274'', rq_amount = ''10000'',
     rq_payTo = ''0.0.7'', rq_resource = [], rq_description = [], rq_maxTimeoutSeconds = 60, rq_facilitator = ''blocky402'',
     rq_nonce = [], rq_feePayer = None\<rparr>"

theorem payment_serves_once_witness:
  "\<exists>g P p. gate_run (\<lambda>x. x) (\<lambda>_. Inr JNull) (\<lambda>_. []) sample_requirements newReplayGuard [Arrive 1 (Some ''abc'') 5] (g, P) \<and>
     P 1 = Some p \<and> pays p = Some ''abc'' \<and> (\<forall>j q. P j = Some q \<and> pays q = Some ''abc'' \<longrightarrow> 1 = j)"
proof -
  let ?g = "newReplayGuard\<lparr>rg_seen := [(''abc'', 5)]\<rparr>" and ?P = "Map.empty(1 \<mapsto> Verifying ''abc'')"
  have "gate_enter (\<lambda>x. x) (\<lambda>_. Inr JNull) sample_requirements (Some ''abc'') 5 newReplayGuard = (Inr ''abc'', ?g)"
    by (simp add: gate_enter_def isWellFormedPayment_def claim_def evict_def newReplayGuard_def)
  from gate_step.arrive [OF _ this, of Map.empty 1 "\<lambda>_. []"]
  have "gate_step (\<lambda>x. x) (\<lambda>_. Inr JNull) (\<lambda>_. []) sample_requirements (newReplayGuard, Map.empty)
      (Arrive 1 (Some ''abc'') 5) (?g, ?P)" by simp
  from gate_run.more [OF gate_run.start this]
  have run: "gate_run (\<lambda>x. x) (\<lambda>_. Inr JNull) (\<lambda>_. []) sample_requirements newReplayGuard [Arrive 1 (Some ''abc'') 5] (?g, ?P)"
    by simp
  have "within_window newReplayGuard 5 [Arrive 1 (Some ''abc'') 5]" "rg_seen newReplayGuard = []"
    by (simp_all add: within_window_def newReplayGuard_def rg_ttlMs_def rg_max_def map_filter_simps)
  from payment_serves_once [OF run this(2,1), of 1 "Verifying ''abc''" "''abc''"]
  have "\<forall>j q. ?P j = Some q \<and> pays q = Some ''abc'' \<longrightarrow> 1 = j" by simp
  with run show ?thesis by fastforce
qed

lemma claim_after_release: "fst (claim digest h later (release digest h g))"
proof -
  have "set (rg_seen (evict later (release digest h g))) \<subseteq> set (AList.delete (digest h) (rg_seen g))"
    by (auto simp: evict_def release_def Let_def dest!: in_set_dropD dest: set_dropWhileD)
  then have "fst ` set (rg_seen (evict later (release digest h g))) \<subseteq> fst ` set (rg_seen g) - {digest h}"
    unfolding keys_delete [symmetric] by (rule image_mono)
  then have "digest h \<notin> fst ` set (rg_seen (evict later (release digest h g)))" by blast
  then show ?thesis by (simp add: claim_def Let_def map_of_eq_None_iff)
qed

lemma challenge_status [simp]: "hr_status (challenge r e) = 402" "hr_status (respondJson hs n b) = n"
  "hr_status (gate_finish j s) = 200"
  by (simp_all add: challenge_def respondJson_def gate_finish_def)

text \<open>
  (C16) A caller is charged only for what was delivered: when the gate does not answer 200, because the payment
  was refused, the facilitator failed or the work threw, the facilitator's settlement played no part (any
  other one gives the same outcome and the same world), and a payment this request had claimed can be
  presented again.
\<close>

theorem undelivered_not_charged:
  assumes "xo_enabled options" and "\<And>outcome s w. \<exists>w'. afterSettlement outcome s w = (Inr (), w')"
    and "gate digest parse message options facilitator nonce resource (Some h) now work afterSettlement (g, w) = (r, (g', w'))"
    and "\<And>reply. r = Inr reply \<Longrightarrow> hr_status reply \<noteq> 200"
  shows "gate digest parse message options (facilitator\<lparr>fc_settle := other\<rparr>) nonce resource (Some h) now work afterSettlement
      (g, w) = (r, (g', w')) \<and>
    (fst (claim digest h now g) \<longrightarrow> h \<noteq> [] \<longrightarrow> isWellFormedPayment parse h \<longrightarrow>
      (\<forall>req. payment_requirements options resource nonce = Inr req \<longrightarrow> fst (claim digest h later g')))"
proof (cases "payment_requirements options resource nonce")
  case (Inl e)
  with assms(1,3) show ?thesis by (simp add: gate_def bind_io_def)
next
  case (Inr req)
  obtain x g1 where enter: "gate_enter digest parse req (Some h) now g = (x, g1)" by fastforce
  show ?thesis
  proof (cases x)
    case (Inl reply)
    have "\<not> (fst (claim digest h now g) \<and> h \<noteq> [] \<and> isWellFormedPayment parse h)"
      using enter Inl by (auto simp: gate_enter_def split: if_splits prod.splits)
    with assms(1,3) Inr Inl enter show ?thesis by (auto simp: gate_def bind_io_def)
  next
    case (Inr k)
    have k: "k = h" using enter Inr by (auto simp: gate_enter_def split: if_splits prod.splits)
    obtain v w1 where v: "fc_verify facilitator h req w = (v, w1)" by fastforce
    obtain y g2 where y: "gate_verified digest req h v g1 = (y, g2)" by fastforce
    show ?thesis
    proof (cases y)
      case (Some reply)
      with y have "g2 = release digest h g1" using gate_verified_cases by blast
      with assms(1,3) \<open>payment_requirements options resource nonce = Inr req\<close> enter Inr k v y Some claim_after_release
      show ?thesis by (auto simp: gate_def bind_io_def)
    next
      case None
      obtain o' w2 where work: "work w1 = (o', w2)" by fastforce
      show ?thesis
      proof (cases o')
        case (Inl e)
        with assms(1,3) \<open>payment_requirements options resource nonce = Inr req\<close> enter Inr k v y None work claim_after_release
        show ?thesis by (auto simp: gate_def bind_io_def gate_worked_def)
      next
        case (Inr outcome)
        obtain s w3 where s: "fc_settle facilitator h req w2 = (s, w3)" by fastforce
        obtain w4 where "afterSettlement outcome (settlement_of message s) w3 = (Inr (), w4)" using assms(2) by blast
        with assms(1,3) \<open>payment_requirements options resource nonce = Inr req\<close> enter \<open>x = Inr k\<close> k v y None work Inr s
        have "r = Inr (gate_finish outcome (settlement_of message s))"
          by (auto simp: gate_def bind_io_def gate_worked_def guarded_def gate_deliver_def)
        with assms(4) show ?thesis by simp
      qed
    qed
  qed
qed

definition sample_x402 :: X402Options where
  "sample_x402 = \<lparr>xo_network = ''hedera:testnet'', xo_asset = ''0.0.429274'', xo_payTo = ''0.0.7'', xo_price = ''0.01'',
     xo_assetDecimals = 6, xo_extra = None, xo_baseUrl = [], xo_enabled = True\<rparr>"

definition sample_facilitator :: "unit Facilitator" where
  "sample_facilitator = \<lparr>fc_verify = (\<lambda>_ _ w. (Inr \<lparr>vf_valid = True, vf_reason = None\<rparr>, w)),
     fc_settle = (\<lambda>_ _ w. (Inr disabled_settlement, w))\<rparr>"

lemma sample_price: "toAtomicUnits ''0.01'' 6 = Inr ''10000''"
proof -
  have "char_of (49 :: nat) = CHR ''1''" "char_of (48 :: nat) = CHR ''0''" by code_simp+
  then have "bigint_to_string 10000 = ''10000''"
    by (simp add: int_to_base_def to_base.simps digit_char_def)
  then show ?thesis
    using toAtomicUnits_digits [of "''0''" "''01''" 6] by (simp add: is_digit_def of_base_Cons digit_val_def)
qed

theorem undelivered_not_charged_witness:
  "\<exists>g'. gate (\<lambda>x. x) (\<lambda>_. Inr JNull) (\<lambda>_. []) sample_x402 sample_facilitator [] [] (Some ''abc'') 5
      (\<lambda>w. (Inl OddHexLength, w)) (\<lambda>_ _ w. (Inr (), w)) (newReplayGuard, ()) = (Inl OddHexLength, (g', ())) \<and>
     fst (claim (\<lambda>x. x) ''abc'' 6 g')"
proof -
  obtain req where req: "payment_requirements sample_x402 [] [] = Inr req"
    by (simp add: payment_requirements_def sample_x402_def sample_price)
  have en: "xo_enabled sample_x402" by (simp add: sample_x402_def)
  have enter: "gate_enter (\<lambda>x. x) (\<lambda>_. Inr JNull) req (Some ''abc'') 5 newReplayGuard =
      (Inr ''abc'', newReplayGuard\<lparr>rg_seen := [(''abc'', 5)]\<rparr>)"
    by (simp add: gate_enter_def isWellFormedPayment_def claim_def evict_def newReplayGuard_def)
  obtain g' where g: "gate (\<lambda>x. x) (\<lambda>_. Inr JNull) (\<lambda>_. []) sample_x402 sample_facilitator [] [] (Some ''abc'') 5
      (\<lambda>w. (Inl OddHexLength, w)) (\<lambda>_ _ w. (Inr (), w)) (newReplayGuard, ()) = (Inl OddHexLength, (g', ()))"
    using req enter en by (simp add: gate_def bind_io_def sample_facilitator_def gate_verified_def)
  have "fst (claim (\<lambda>x. x) ''abc'' 5 newReplayGuard)" by (simp add: claim_def evict_def newReplayGuard_def)
  with undelivered_not_charged [OF en _ g, of undefined 6] req g show ?thesis
    by (auto simp: isWellFormedPayment_def)
qed

lemma price_exact_atomic:
  assumes a: "0 \<le> a"
  shows "toAtomicUnits (formatUsdc a d) d = Inr (bigint_to_string a)"
proof -
  obtain w f where b: "amount_body (nat a) d = w \<and> f = [] \<or> amount_body (nat a) d = w @ ''.'' @ f \<and> f \<noteq> []"
    and wf: "w \<noteq> []" "list_all is_digit w" "list_all is_digit f" "length f \<le> d"
    and v: "of_dec (w @ padEnd d (CHR ''0'') f) = nat a"
    by (rule amount_body_shape)
  have "amount_body (nat a) d = w @ (if f = [] then [] else ''.'' @ f)" using b by auto
  moreover have "int (of_dec w) * 10 ^ d + int (of_dec f) * 10 ^ (d - length f) = a"
  proof -
    have "int (of_dec (w @ padEnd d (CHR ''0'') f)) = a" using v a by simp
    then show ?thesis using wf(4) by (simp add: of_base_append padEnd_def algebra_simps)
  qed
  ultimately show ?thesis
    using toAtomicUnits_digits [OF wf] a by (simp add: formatUsdc_eq)
qed

text \<open>
  The price of a call survives its conversions: a non-negative amount printed in display units, as an
  operator configures it, is charged as exactly that many atomic units, and every decimal with at most
  as many fraction digits as the asset is read exactly.
\<close>

theorem price_exact:
  "(0 \<le> a \<longrightarrow> toAtomicUnits (formatUsdc a d) d = Inr (bigint_to_string a)) \<and>
   (w \<noteq> [] \<and> list_all is_digit w \<and> list_all is_digit f \<and> length f \<le> d \<and> f \<noteq> [] \<longrightarrow>
     toAtomicUnits (w @ ''.'' @ f) d =
       Inr (bigint_to_string (int (of_dec w) * 10 ^ d + int (of_dec f) * 10 ^ (d - length f))))"
proof (intro conjI impI)
  assume "0 \<le> a"
  then show "toAtomicUnits (formatUsdc a d) d = Inr (bigint_to_string a)" by (rule price_exact_atomic)
next
  assume "w \<noteq> [] \<and> list_all is_digit w \<and> list_all is_digit f \<and> length f \<le> d \<and> f \<noteq> []"
  with toAtomicUnits_digits [of w f d] show "toAtomicUnits (w @ ''.'' @ f) d =
      Inr (bigint_to_string (int (of_dec w) * 10 ^ d + int (of_dec f) * 10 ^ (d - length f)))" by simp
qed

theorem price_exact_witness: "toAtomicUnits (formatUsdc 10000 6) 6 = Inr (bigint_to_string 10000)"
  using price_exact [of 10000 6] by simp

text \<open>
  The audit trail neither loses, repeats nor reorders: in every run, with writes that succeed or fail in
  any way, the records handed to the topic followed by those still queued are exactly the records made, in
  order; and a waiting record always has a flush in progress that will reach it.
\<close>

theorem audit_trail_in_order:
  assumes "hcs_run es t"
  shows "hs_submitted t @ hs_queue t = List.map_filter recorded_of es \<and> (hs_queue t \<noteq> [] \<longrightarrow> hs_flushing t) \<and>
    (hs_flushing t \<and> hs_queue t = r # rs \<longrightarrow>
      hs_submitted (hcs_completed outcome t) = hs_submitted t @ [r] \<and> hs_queue (hcs_completed outcome t) = rs)"
  using hcs_run_inv [OF assms] by (simp add: hcs_completed_def hcs_turn_def)

definition sample_record :: PublicAuditRecord where
  "sample_record = \<lparr>au_policyHash = ''0x'', au_decision = ''ALLOW'', au_decidedBy = ''none'', au_amountBucket = ''<1'',
     au_commitment = ''0x'', au_dayUtc = 0, au_proofStatus = None\<rparr>"

theorem audit_trail_in_order_witness:
  "\<exists>t. hcs_run [Recorded sample_record] t \<and> hs_submitted t @ hs_queue t = [sample_record]"
proof -
  let ?t = "hcs_record sample_record (newHcsAuditTrail True)"
  have run: "hcs_run ([] @ [Recorded sample_record]) ?t" by (intro hcs_run.intros)
  have "hs_submitted ?t @ hs_queue ?t = [sample_record]"
    using audit_trail_in_order [OF run, of sample_record "[]" "Inr ()"] by (simp add: map_filter_simps)
  with run show ?thesis by auto
qed

end
