(* ===== verification/Subgraph.thy ===== *)
theory Subgraph
  imports X402
begin

text \<open>
  \<^verbatim>\<open>subgraphs/agent-history/src/mapping.ts\<close>: the event handlers of the subgraph the daily-spend policy reads.

  The entity store is one partial map per entity type, keyed by the entity's id; \<^verbatim>\<open>save\<close> writes the map.
  \<^verbatim>\<open>Bytes\<close> are byte lists, \<^verbatim>\<open>BigInt\<close> is \<open>int\<close>, and an \<^verbatim>\<open>i32\<close> counter is a 32-bit word that wraps.
  \<^verbatim>\<open>toI32\<close> aborts the handler when the value does not fit, and the store is then left as it was.
\<close>

section \<open>Entities and events\<close>

record Agent =
  ag_id :: string
  ag_policyHash :: "byte list"
  ag_hook :: "byte list"
  ag_asset :: "byte list"
  ag_installedAt :: int
  ag_allowedTargets :: "byte list list"
  ag_totalOutflow :: int
  ag_executionCount :: "32 word"

record PolicyInstall =
  pi_account :: "byte list"
  pi_policyHash :: "byte list"
  pi_asset :: "byte list"
  pi_blockNumber :: int
  pi_timestamp :: int
  pi_transactionHash :: "byte list"

record Execution =
  ec_agent :: string
  ec_account :: "byte list"
  ec_target :: "byte list"
  ec_outflow :: int
  ec_dayTotal :: int
  ec_day :: int
  ec_blockNumber :: int
  ec_timestamp :: int
  ec_transactionHash :: "byte list"

record DailyAggregate =
  da_agent :: string
  da_account :: "byte list"
  da_day :: int
  da_totalOutflow :: int
  da_executionCount :: "32 word"
  da_largestOutflow :: int
  da_lastUpdatedBlock :: int

record TargetPermission =
  tp_account :: "byte list"
  tp_target :: "byte list"
  tp_allowed :: bool
  tp_updatedAt :: int

record Store =
  agents :: "string \<rightharpoonup> Agent"
  installs :: "string \<rightharpoonup> PolicyInstall"
  executions :: "string \<rightharpoonup> Execution"
  aggregates :: "string \<rightharpoonup> DailyAggregate"
  permissions :: "string \<rightharpoonup> TargetPermission"

definition empty_store :: Store where
  "empty_store = \<lparr>agents = Map.empty, installs = Map.empty, executions = Map.empty, aggregates = Map.empty,
     permissions = Map.empty\<rparr>"

text \<open>Where an event was emitted.\<close>

record EventMeta =
  em_address :: "byte list"
  em_blockNumber :: int
  em_timestamp :: int
  em_txHash :: "byte list"
  em_logIndex :: nat

record SpendEvent =
  se_account :: "byte list"
  se_target :: "byte list"
  se_amount :: int
  se_dayTotal :: int
  se_day :: int

datatype HookEvent =
    PolicyInstalled (ev_account: "byte list") "byte list" "byte list"
  | SpendRecorded SpendEvent
  | TargetAllowed "byte list" "byte list" bool
  | PolicyUninstalled "byte list"

section \<open>Handlers\<close>

definition event_id :: "EventMeta \<Rightarrow> string" where
  "event_id m = bytesToHex (em_txHash m) @ ''-'' @ to_dec (em_logIndex m)"

definition toI32 :: "int \<Rightarrow> int result" where
  "toI32 v = (if - (2 ^ 31) \<le> v \<and> v < 2 ^ 31 then Inr v else Inl (ErrorMessage ''overflow converting to i32''))"

definition newAgent :: "string \<Rightarrow> Agent" where
  "newAgent i = \<lparr>ag_id = i, ag_policyHash = [], ag_hook = [], ag_asset = [], ag_installedAt = 0,
     ag_allowedTargets = [], ag_totalOutflow = 0, ag_executionCount = 0\<rparr>"

definition handlePolicyInstalled ::
  "EventMeta \<Rightarrow> byte list \<Rightarrow> byte list \<Rightarrow> byte list \<Rightarrow> Store \<Rightarrow> Store" where
  "handlePolicyInstalled m account hash asset s =
     (let key = bytesToHex account;
          agent = (case agents s key of None \<Rightarrow> newAgent key | Some a \<Rightarrow> a);
          agent' = agent\<lparr>ag_policyHash := hash, ag_asset := asset, ag_hook := em_address m, ag_installedAt := em_timestamp m\<rparr>;
          install = \<lparr>pi_account = account, pi_policyHash = hash, pi_asset = asset, pi_blockNumber = em_blockNumber m,
            pi_timestamp = em_timestamp m, pi_transactionHash = em_txHash m\<rparr>
      in s\<lparr>agents := (agents s)(key \<mapsto> agent'), installs := (installs s)(event_id m \<mapsto> install)\<rparr>)"

definition aggregate_id :: "byte list \<Rightarrow> int \<Rightarrow> string" where
  "aggregate_id account day = bytesToHex account @ ''-'' @ bigint_to_string day"

definition newAggregate :: "string \<Rightarrow> byte list \<Rightarrow> int \<Rightarrow> DailyAggregate" where
  "newAggregate agent account day = \<lparr>da_agent = agent, da_account = account, da_day = day, da_totalOutflow = 0,
     da_executionCount = 0, da_largestOutflow = 0, da_lastUpdatedBlock = 0\<rparr>"

definition handleSpendRecorded :: "EventMeta \<Rightarrow> SpendEvent \<Rightarrow> Store \<Rightarrow> Store result" where
  "handleSpendRecorded m e s =
     (let account = se_account e; key = bytesToHex account in
      case agents s key of
        None \<Rightarrow> Inr s
      | Some agent \<Rightarrow>
          bindR (toI32 (se_day e)) (\<lambda>day.
            let execution = \<lparr>ec_agent = ag_id agent, ec_account = account, ec_target = se_target e,
                  ec_outflow = se_amount e, ec_dayTotal = se_dayTotal e, ec_day = day,
                  ec_blockNumber = em_blockNumber m, ec_timestamp = em_timestamp m, ec_transactionHash = em_txHash m\<rparr>;
                agent' = agent\<lparr>ag_totalOutflow := ag_totalOutflow agent + se_amount e,
                  ag_executionCount := ag_executionCount agent + 1\<rparr>;
                aggregateId = aggregate_id account day;
                aggregate = (case aggregates s aggregateId of None \<Rightarrow> newAggregate (ag_id agent) account day | Some a \<Rightarrow> a);
                aggregate' = aggregate\<lparr>da_totalOutflow := se_dayTotal e,
                  da_executionCount := da_executionCount aggregate + 1,
                  da_largestOutflow := (if se_amount e > da_largestOutflow aggregate then se_amount e
                    else da_largestOutflow aggregate),
                  da_lastUpdatedBlock := em_blockNumber m\<rparr>
            in Inr (s\<lparr>executions := (executions s)(event_id m \<mapsto> execution), agents := (agents s)(key \<mapsto> agent'),
                 aggregates := (aggregates s)(aggregateId \<mapsto> aggregate')\<rparr>)))"

definition permission_id :: "byte list \<Rightarrow> byte list \<Rightarrow> string" where
  "permission_id account target = bytesToHex account @ ''-'' @ bytesToHex target"

definition handleTargetAllowed :: "EventMeta \<Rightarrow> byte list \<Rightarrow> byte list \<Rightarrow> bool \<Rightarrow> Store \<Rightarrow> Store" where
  "handleTargetAllowed m account target allowed s =
     (let key = permission_id account target;
          permission = (case permissions s key of
              None \<Rightarrow> \<lparr>tp_account = account, tp_target = target, tp_allowed = False, tp_updatedAt = 0\<rparr> | Some p \<Rightarrow> p)
      in s\<lparr>permissions := (permissions s)(key \<mapsto> permission\<lparr>tp_allowed := allowed, tp_updatedAt := em_timestamp m\<rparr>)\<rparr>)"

definition handlePolicyUninstalled :: "byte list \<Rightarrow> Store \<Rightarrow> Store" where
  "handlePolicyUninstalled account s =
     (case agents s (bytesToHex account) of
        None \<Rightarrow> s
      | Some agent \<Rightarrow> s\<lparr>agents := (agents s)(bytesToHex account \<mapsto> agent\<lparr>ag_installedAt := 0\<rparr>)\<rparr>)"

fun handle :: "EventMeta \<times> HookEvent \<Rightarrow> Store \<Rightarrow> Store result" where
  "handle (m, PolicyInstalled account hash asset) s = Inr (handlePolicyInstalled m account hash asset s)"
| "handle (m, SpendRecorded e) s = handleSpendRecorded m e s"
| "handle (m, TargetAllowed account target allowed) s = Inr (handleTargetAllowed m account target allowed s)"
| "handle (m, PolicyUninstalled account) s = Inr (handlePolicyUninstalled account s)"

fun index_events :: "(EventMeta \<times> HookEvent) list \<Rightarrow> Store \<Rightarrow> Store result" where
  "index_events [] s = Inr s"
| "index_events (e # es) s = bindR (handle e s) (index_events es)"

section \<open>What the store means\<close>

text \<open>The spends that are indexed: those of accounts that had a policy installed before.\<close>

fun indexed :: "byte list set \<Rightarrow> (EventMeta \<times> HookEvent) list \<Rightarrow> (EventMeta \<times> SpendEvent) list" where
  "indexed A [] = []"
| "indexed A ((m, PolicyInstalled account hash asset) # es) = indexed (insert account A) es"
| "indexed A ((m, SpendRecorded e) # es) = (if se_account e \<in> A then [(m, e)] else []) @ indexed A es"
| "indexed A ((m, _) # es) = indexed A es"

definition of_account :: "byte list \<Rightarrow> (EventMeta \<times> SpendEvent) list \<Rightarrow> SpendEvent list" where
  "of_account a xs = filter (\<lambda>e. se_account e = a) (map snd xs)"

definition of_day :: "byte list \<Rightarrow> int \<Rightarrow> (EventMeta \<times> SpendEvent) list \<Rightarrow> SpendEvent list" where
  "of_day a d xs = filter (\<lambda>e. se_day e = d) (of_account a xs)"

text \<open>The hook's accumulator: each day total is the one before it plus the amount.\<close>

fun accumulates :: "int \<Rightarrow> SpendEvent list \<Rightarrow> bool" where
  "accumulates t [] = True"
| "accumulates t (e # es) = (se_dayTotal e = t + se_amount e \<and> accumulates (se_dayTotal e) es)"

definition spend_of :: "Execution \<Rightarrow> SpendEvent" where
  "spend_of x = \<lparr>se_account = ec_account x, se_target = ec_target x, se_amount = ec_outflow x, se_dayTotal = ec_dayTotal x,
     se_day = ec_day x\<rparr>"

text \<open>The store after indexing the spends \<open>xs\<close> of the accounts \<open>A\<close>.\<close>

definition store_of :: "byte list set \<Rightarrow> (EventMeta \<times> SpendEvent) list \<Rightarrow> Store \<Rightarrow> bool" where
  "store_of A xs s =
     ((\<forall>x \<in> set xs. se_account (snd x) \<in> A) \<and>
      (\<forall>a. agents s (bytesToHex a) \<noteq> None \<longleftrightarrow> a \<in> A) \<and>
      (\<forall>a agent. agents s (bytesToHex a) = Some agent \<longrightarrow>
         ag_totalOutflow agent = sum_list (map se_amount (of_account a xs)) \<and>
         ag_executionCount agent = of_nat (length (of_account a xs))) \<and>
      (\<forall>k. map_option spend_of (executions s k) = map_of (rev (map (\<lambda>(m, e). (event_id m, e)) xs)) k) \<and>
      (\<forall>a d. case aggregates s (aggregate_id a d) of
         None \<Rightarrow> of_day a d xs = []
       | Some g \<Rightarrow> of_day a d xs \<noteq> [] \<and> da_totalOutflow g = se_dayTotal (last (of_day a d xs)) \<and>
           da_executionCount g = of_nat (length (of_day a d xs)) \<and>
           da_largestOutflow g = Max (insert 0 (se_amount ` set (of_day a d xs)))))"

section \<open>Lemmas\<close>

lemma bytesToHex_inj [simp]: "bytesToHex a = bytesToHex b \<longleftrightarrow> a = b"
  using hex_bytes.enc_inj by auto

lemma dash_join_inj:
  "bytesToHex a @ ''-'' @ x = bytesToHex b @ ''-'' @ y \<longleftrightarrow> a = b \<and> x = y"
proof -
  have "CHR ''-'' \<notin> set (bytesToHex c)" for c
  proof -
    have "\<not> is_hex_digit (CHR ''-'')" by code_simp
    then show ?thesis using hex_digit_concat_byte_hex [of c] by (auto simp: bytesToHex_def list_all_iff)
  qed
  then have "hd (splitOn (CHR ''-'') (bytesToHex c @ ''-'' @ z)) = bytesToHex c" for c z
    by (simp add: splitOn_once)
  then show ?thesis by (metis append_same_eq bytesToHex_inj same_append_eq)
qed

lemma ids_inj [simp]:
  "aggregate_id a d = aggregate_id b e \<longleftrightarrow> a = b \<and> d = e"
  "permission_id a t = permission_id b u \<longleftrightarrow> a = b \<and> t = u"
  "event_id m = event_id n \<longleftrightarrow> em_txHash m = em_txHash n \<and> em_logIndex m = em_logIndex n"
  by (auto simp: aggregate_id_def permission_id_def event_id_def dash_join_inj [unfolded append_Cons append_Nil]
      to_base_inj dest: bigint_to_string_inject)

lemma of_snoc:
  "of_account a (xs @ [(m, e)]) = of_account a xs @ (if se_account e = a then [e] else [])"
  "of_day a d (xs @ [(m, e)]) = of_day a d xs @ (if se_account e = a \<and> se_day e = d then [e] else [])"
  by (simp_all add: of_account_def of_day_def)

lemma store_of_empty: "store_of {} [] empty_store"
  by (simp add: store_of_def empty_store_def of_account_def of_day_def)

lemma store_of_install:
  assumes "store_of A xs s"
  shows "store_of (insert a A) xs (handlePolicyInstalled m a h t s)"
proof -
  have "of_account a xs = []" if "agents s (bytesToHex a) = None"
  proof -
    have "a \<notin> A" using that assms unfolding store_of_def by metis
    then show ?thesis using assms by (auto simp: store_of_def of_account_def filter_empty_conv)
  qed
  then show ?thesis
    using assms by (auto simp: store_of_def handlePolicyInstalled_def Let_def newAgent_def split: option.splits)
qed

lemma store_of_target: "store_of A xs (handleTargetAllowed m a t b s) = store_of A xs s"
  by (simp add: store_of_def handleTargetAllowed_def Let_def)

lemma store_of_uninstall: "store_of A xs s \<Longrightarrow> store_of A xs (handlePolicyUninstalled a s)"
  by (auto simp: store_of_def handlePolicyUninstalled_def split: option.splits)

lemma Max_snoc: "Max (insert (0 :: int) (f ` set (ys @ [e]))) = max (f e) (Max (insert 0 (f ` set ys)))"
  by (simp add: insert_commute [of 0] max.assoc)

lemma store_of_spend:
  assumes "store_of A xs s" and "handleSpendRecorded m e s = Inr s'"
  shows "store_of A (xs @ (if se_account e \<in> A then [(m, e)] else [])) s'"
proof (cases "agents s (bytesToHex (se_account e))")
  case None
  then have "se_account e \<notin> A" using assms(1) unfolding store_of_def by metis
  with None assms show ?thesis by (simp add: handleSpendRecorded_def)
next
  case (Some agent)
  then have A: "se_account e \<in> A" using assms(1) by (auto simp: store_of_def)
  let ?x = "\<lparr>ec_agent = ag_id agent, ec_account = se_account e, ec_target = se_target e, ec_outflow = se_amount e,
    ec_dayTotal = se_dayTotal e, ec_day = se_day e, ec_blockNumber = em_blockNumber m, ec_timestamp = em_timestamp m,
    ec_transactionHash = em_txHash m\<rparr>"
  obtain g where g: "g = (case aggregates s (aggregate_id (se_account e) (se_day e)) of
      None \<Rightarrow> newAggregate (ag_id agent) (se_account e) (se_day e) | Some a \<Rightarrow> a)" by simp
  have s': "agents s' = (agents s)(bytesToHex (se_account e) \<mapsto> agent\<lparr>ag_totalOutflow := ag_totalOutflow agent + se_amount e,
        ag_executionCount := ag_executionCount agent + 1\<rparr>)"
    "aggregates s' = (aggregates s)(aggregate_id (se_account e) (se_day e) \<mapsto> g\<lparr>da_totalOutflow := se_dayTotal e,
        da_executionCount := da_executionCount g + 1, da_largestOutflow := max (se_amount e) (da_largestOutflow g),
        da_lastUpdatedBlock := em_blockNumber m\<rparr>)"
    "executions s' = (executions s)(event_id m \<mapsto> ?x)"
    using assms(2) Some g
    by (auto simp: handleSpendRecorded_def Let_def toI32_def max_def split: if_splits option.splits)
  have x: "spend_of ?x = e" by (simp add: spend_of_def)
  have old: "case aggregates s (aggregate_id a d) of None \<Rightarrow> of_day a d xs = []
       | Some g \<Rightarrow> of_day a d xs \<noteq> [] \<and> da_totalOutflow g = se_dayTotal (last (of_day a d xs)) \<and>
           da_executionCount g = of_nat (length (of_day a d xs)) \<and>
           da_largestOutflow g = Max (insert 0 (se_amount ` set (of_day a d xs)))" for a d
    using assms(1) unfolding store_of_def by blast
  have day: "da_executionCount g = of_nat (length (of_day (se_account e) (se_day e) xs)) \<and>
      da_largestOutflow g = Max (insert 0 (se_amount ` set (of_day (se_account e) (se_day e) xs)))"
    using old [of "se_account e" "se_day e"] g by (auto simp: newAggregate_def split: option.splits)
  have agent: "ag_totalOutflow agent = sum_list (map se_amount (of_account (se_account e) xs))"
    "ag_executionCount agent = of_nat (length (of_account (se_account e) xs))"
    using assms(1) Some by (auto simp: store_of_def)
  have "\<forall>x \<in> set (xs @ [(m, e)]). se_account (snd x) \<in> A" "\<forall>a. agents s' (bytesToHex a) \<noteq> None \<longleftrightarrow> a \<in> A"
    using assms(1) A s'(1) by (auto simp: store_of_def)
  moreover have "\<forall>a agent. agents s' (bytesToHex a) = Some agent \<longrightarrow>
      ag_totalOutflow agent = sum_list (map se_amount (of_account a (xs @ [(m, e)]))) \<and>
      ag_executionCount agent = of_nat (length (of_account a (xs @ [(m, e)])))"
    using assms(1) agent s'(1) by (auto simp: store_of_def of_snoc)
  moreover have "\<forall>k. map_option spend_of (executions s' k) =
      map_of (rev (map (\<lambda>(m, e). (event_id m, e)) (xs @ [(m, e)]))) k"
    using assms(1) s'(3) x by (simp add: store_of_def)
  moreover have "case aggregates s' (aggregate_id a d) of
         None \<Rightarrow> of_day a d (xs @ [(m, e)]) = []
       | Some g \<Rightarrow> of_day a d (xs @ [(m, e)]) \<noteq> [] \<and>
           da_totalOutflow g = se_dayTotal (last (of_day a d (xs @ [(m, e)]))) \<and>
           da_executionCount g = of_nat (length (of_day a d (xs @ [(m, e)]))) \<and>
           da_largestOutflow g = Max (insert 0 (se_amount ` set (of_day a d (xs @ [(m, e)]))))" for a d
  proof (cases "a = se_account e \<and> d = se_day e")
    case True
    then show ?thesis using s'(2) day Max_snoc [of se_amount "of_day a d xs" e] by (simp add: of_snoc)
  next
    case False
    then show ?thesis using s'(2) old [of a d] by (auto simp: of_snoc split: option.splits)
  qed
  ultimately show ?thesis using A by (simp only: store_of_def if_True) blast
qed

text \<open>The accounts with a policy installed at some point of a history.\<close>

fun installed_in :: "byte list set \<Rightarrow> (EventMeta \<times> HookEvent) list \<Rightarrow> byte list set" where
  "installed_in A [] = A"
| "installed_in A ((m, PolicyInstalled account hash asset) # es) = installed_in (insert account A) es"
| "installed_in A ((m, _) # es) = installed_in A es"

lemma store_of_index:
  "index_events es s = Inr s' \<Longrightarrow> store_of A xs s \<Longrightarrow> store_of (installed_in A es) (xs @ indexed A es) s'"
proof (induction es arbitrary: s A xs)
  case (Cons x es)
  obtain m e where x: "x = (m, e)" by fastforce
  from Cons.prems(1) obtain s1 where s1: "handle (m, e) s = Inr s1" "index_events es s1 = Inr s'"
    by (auto simp: x bindR_eq_Inr)
  show ?case
  proof (cases e)
    case (PolicyInstalled a h t)
    then show ?thesis using Cons.IH [OF s1(2)] store_of_install [OF Cons.prems(2)] s1(1) by (auto simp: x)
  next
    case (SpendRecorded sp)
    have "store_of A (xs @ (if se_account sp \<in> A then [(m, sp)] else [])) s1"
      using store_of_spend [OF Cons.prems(2)] s1(1) SpendRecorded by simp
    from Cons.IH [OF s1(2) this] show ?thesis by (simp add: x SpendRecorded)
  next
    case (TargetAllowed a t b)
    then show ?thesis using Cons.IH [OF s1(2)] Cons.prems(2) s1(1) store_of_target by (auto simp: x)
  next
    case (PolicyUninstalled a)
    then show ?thesis using Cons.IH [OF s1(2)] store_of_uninstall [OF Cons.prems(2)] s1(1) by (auto simp: x)
  qed
qed simp

lemma accumulates_total:
  "accumulates t es \<Longrightarrow> es \<noteq> [] \<Longrightarrow> se_dayTotal (last es) = t + sum_list (map se_amount es)"
  by (induction es arbitrary: t) (auto split: if_splits)

lemma index_store:
  assumes "index_events es empty_store = Inr s" and "xs = indexed {} es"
  shows "case aggregates s (aggregate_id a d) of None \<Rightarrow> of_day a d xs = []
       | Some g \<Rightarrow> of_day a d xs \<noteq> [] \<and> da_totalOutflow g = se_dayTotal (last (of_day a d xs)) \<and>
           da_executionCount g = of_nat (length (of_day a d xs)) \<and>
           da_largestOutflow g = Max (insert 0 (se_amount ` set (of_day a d xs)))"
proof -
  have "store_of (installed_in {} es) xs s" using store_of_index [OF assms(1) store_of_empty] assms(2) by simp
  then show ?thesis unfolding store_of_def by blast
qed

lemma bigint_of_to_string: "0 \<le> v \<Longrightarrow> bigint_of_string (bigint_to_string v) = Inr v"
  using bigint_of_digits [of "to_dec (nat v)"] by (auto simp: int_to_base_def list_all_iff dest: to_dec_digits)

lemma indexed_spend_read:
  assumes "index_events es empty_store = Inr s" and "xs = indexed {} es" and "accumulates 0 (of_day a d xs)"
    and "\<And>url headers. go_post opt url (daily_spend_body (bytesToHex a) d) headers =
      Inr \<lparr>dr_errors = None, dr_totalOutflows = Some (case aggregates s (aggregate_id a d) of None \<Rightarrow> []
        | Some g \<Rightarrow> [bigint_to_string (da_totalOutflow g)])\<rparr>"
    and "\<forall>e \<in> set (of_day a d xs). 0 \<le> se_amount e"
  shows "queryIndexedSpend opt (bytesToHex a) d = Some (sum_list (map se_amount (of_day a d xs)))"
proof (cases "aggregates s (aggregate_id a d)")
  case None
  then have "of_day a d xs = []" using index_store [OF assms(1,2), of a d] by simp
  with None assms(4) show ?thesis by (simp add: queryIndexedSpend_def)
next
  case (Some g)
  then have "da_totalOutflow g = sum_list (map se_amount (of_day a d xs))"
    using index_store [OF assms(1,2), of a d] accumulates_total [OF assms(3)] by simp
  moreover have "0 \<le> sum_list (map se_amount (of_day a d xs))" using assms(5) by (intro sum_list_nonneg) auto
  ultimately show ?thesis using Some assms(4) by (simp add: queryIndexedSpend_def bigint_of_to_string)
qed

section \<open>Properties\<close>


text \<open>
  The policy reads what was spent. When the indexing service answers the SDK's query with the rows of
  the store for that account and day, the daily spend the state provider obtains is the sum of the amounts the
  hook recorded for the account that day.
\<close>

theorem sdk_reads_recorded_spend:
  assumes "index_events es empty_store = Inr s" and "xs = indexed {} es" and "accumulates 0 (of_day a d xs)"
    and "\<And>url headers. go_post opt url (daily_spend_body (bytesToHex a) d) headers =
      Inr \<lparr>dr_errors = None, dr_totalOutflows = Some (case aggregates s (aggregate_id a d) of None \<Rightarrow> []
        | Some g \<Rightarrow> [bigint_to_string (da_totalOutflow g)])\<rparr>"
    and "\<forall>e \<in> set (of_day a d xs). 0 \<le> se_amount e"
  shows "queryIndexedSpend opt (bytesToHex a) d = Some (sum_list (map se_amount (of_day a d xs)))"
  using assms by (rule indexed_spend_read)

section \<open>Witnesses\<close>

definition sample_meta :: "nat \<Rightarrow> EventMeta" where
  "sample_meta i = \<lparr>em_address = [9], em_blockNumber = 7, em_timestamp = 100, em_txHash = [1, 2], em_logIndex = i\<rparr>"

definition sample_spend :: "int \<Rightarrow> int \<Rightarrow> SpendEvent" where
  "sample_spend v t = \<lparr>se_account = [3], se_target = [4], se_amount = v, se_dayTotal = t, se_day = 20000\<rparr>"

definition sample_events :: "(EventMeta \<times> HookEvent) list" where
  "sample_events = [(sample_meta 0, PolicyInstalled [3] [5] [6]), (sample_meta 1, SpendRecorded (sample_spend 30 30)),
     (sample_meta 2, SpendRecorded (sample_spend 12 42)), (sample_meta 3, PolicyUninstalled [3])]"

lemma sample_indexed: "indexed {} sample_events = [(sample_meta 1, sample_spend 30 30), (sample_meta 2, sample_spend 12 42)]"
  by (simp add: sample_events_def sample_spend_def)

lemma sample_of_day: "of_day [3] 20000 (indexed {} sample_events) = [sample_spend 30 30, sample_spend 12 42]"
  unfolding sample_indexed by (simp add: of_day_def of_account_def sample_spend_def)

lemma sample_index: "\<exists>s. index_events sample_events empty_store = Inr s"
  by (simp add: sample_events_def handleSpendRecorded_def handlePolicyInstalled_def sample_spend_def toI32_def
      handlePolicyUninstalled_def Let_def empty_store_def)

lemma sample_accumulates: "accumulates 0 (of_day [3] 20000 (indexed {} sample_events))"
  unfolding sample_of_day by (simp add: sample_spend_def)


theorem sdk_reads_recorded_spend_witness:
  "\<exists>opt s. index_events sample_events empty_store = Inr s \<and> queryIndexedSpend opt (bytesToHex [3]) 20000 = Some 42"
proof -
  obtain s where s: "index_events sample_events empty_store = Inr s" using sample_index ..
  define opt :: GraphStateProviderOptions where
    "opt = undefined\<lparr>go_post := (\<lambda>_ _ _. Inr \<lparr>dr_errors = None, dr_totalOutflows = Some (case aggregates s (aggregate_id [3] 20000) of
       None \<Rightarrow> [] | Some g \<Rightarrow> [bigint_to_string (da_totalOutflow g)])\<rparr>)\<rparr>"
  have "queryIndexedSpend opt (bytesToHex [3]) 20000 = Some (sum_list (map se_amount (of_day [3] 20000 (indexed {} sample_events))))"
  proof (rule sdk_reads_recorded_spend [OF s refl sample_accumulates])
    show "\<forall>e \<in> set (of_day [3] 20000 (indexed {} sample_events)). 0 \<le> se_amount e"
      unfolding sample_of_day by (simp add: sample_spend_def)
  qed (simp add: opt_def)
  then show ?thesis using s unfolding sample_of_day by (auto simp: sample_spend_def)
qed

end
