(* ===== verification/Enforcement.thy ===== *)
theory Enforcement
  imports Effects Privacy
begin

text \<open>
  \<^verbatim>\<open>packages/sdk/src/enforcement/HookEnforcer.ts\<close> and
  \<^verbatim>\<open>packages/sdk/src/proofs/ProofRegistry.ts\<close>: submission of a decided intent, the on-chain leg of
  the policy binding, and the registry of proof artifacts.
\<close>

section \<open>HookEnforcer\<close>

record 'w HookEnforcer =
  he_account :: Address
  he_hook :: Address
  he_executor :: "'w Executor"
  he_chain :: "ChainReader option"

definition enforcer_request :: "'w HookEnforcer \<Rightarrow> NormalizedIntent \<Rightarrow> UserOperationRequest" where
  "enforcer_request e intent =
     \<lparr>uo_account = he_account e, uo_to = act_to (in_raw intent), uo_data = act_data (in_raw intent),
      uo_value = act_value (in_raw intent), uo_nonce = None\<rparr>"

definition enforcer_execute :: "'w HookEnforcer \<Rightarrow> NormalizedIntent \<Rightarrow> ('w, Hex) io" where
  "enforcer_execute e intent = ex_send (he_executor e) (enforcer_request e intent)"

definition executeWithOwnerApproval :: "'w HookEnforcer \<Rightarrow> NormalizedIntent \<Rightarrow> Hex \<Rightarrow> ('w, Hex) io" where
  "executeWithOwnerApproval e intent signature =
     (case ex_sendAsOwner (he_executor e) of
        None \<Rightarrow> throw_io NoOwnerExecutor
      | Some sendAsOwner \<Rightarrow> sendAsOwner (enforcer_request e intent) signature)"

definition CONFIG_SELECTOR :: string where
  "CONFIG_SELECTOR = js_slice (keccak256 ''config(address)'') 0 10"

definition config_call :: "Address \<Rightarrow> Hex" where
  "config_call account = CONFIG_SELECTOR @ padStart 64 (CHR ''0'') (toLowerCase (drop 2 account))"

definition assertInstalledPolicyHash :: "'w HookEnforcer \<Rightarrow> Hex \<Rightarrow> unit result" where
  "assertInstalledPolicyHash e expected =
     (case he_chain e of
        None \<Rightarrow> Inr ()
      | Some chain \<Rightarrow>
          bindR (cr_call chain (he_hook e) (config_call (he_account e))) (\<lambda>raw.
            if length raw < 2 + 64 * 6 then Inl HookReturnedNoConfig
            else bindR (bigint_hex (js_slice raw (2 + 64 * 5) (2 + 64 * 6))) (\<lambda>installed.
              if installed \<noteq> 1 then Inl HookNotInstalled
              else
                let onchain = toLowerCase (''0x'' @ js_slice raw (2 + 64 * 4) (2 + 64 * 5)) in
                if onchain \<noteq> toLowerCase expected then Inl (PolicyBindingError ''hook'' expected onchain)
                else Inr ())))"

text \<open>
  The contract's \<^verbatim>\<open>config(address)\<close> getter returns six words; the fifth is the policy hash, the last
  the installation flag.
\<close>

definition encode_hook_config :: "int \<Rightarrow> int \<Rightarrow> int \<Rightarrow> int \<Rightarrow> int \<Rightarrow> bool \<Rightarrow> Hex" where
  "encode_hook_config asset maxTransaction dailyLimit minBalance hash installed =
     ''0x'' @ concat (map abi_word [asset, maxTransaction, dailyLimit, minBalance, hash, if installed then 1 else 0])"

section \<open>ProofRegistry\<close>

record NegativeControl =
  nc_contract :: string
  nc_counterexampleProduced :: bool
  nc_counterexample :: "string option"

record ProofRegistry =
  prf_byPolicy :: "(string \<times> ProofReference) list"
  prf_negativeControl :: "NegativeControl option"

fun PROPERTY_TO_POLICY :: "ProofProperty \<Rightarrow> string" where
  "PROPERTY_TO_POLICY MAX_TRANSFER = ''maxTransaction''"
| "PROPERTY_TO_POLICY DAILY_SPEND = ''dailySpend''"

definition newProofRegistry :: "ProofReference list \<Rightarrow> NegativeControl option \<Rightarrow> ProofRegistry" where
  "newProofRegistry references negativeControl =
     \<lparr>prf_byPolicy = fold (\<lambda>r. AList.update (PROPERTY_TO_POLICY (pf_property r)) r) references [],
      prf_negativeControl = negativeControl\<rparr>"

definition not_run_reference :: "ProofProperty \<Rightarrow> string \<Rightarrow> ProofReference" where
  "not_run_reference p path =
     \<lparr>pf_property = p, pf_status = NOT_RUN, pf_tool = SolcSmtchecker, pf_solverTimeMs = 0,
      pf_artifactPath = path, pf_counterexample = None\<rparr>"

definition notRun :: ProofRegistry where
  "notRun = newProofRegistry
     [not_run_reference MAX_TRANSFER ''proofs/MAX_TRANSFER.json'',
      not_run_reference DAILY_SPEND ''proofs/DAILY_SPEND.json''] None"

definition ends_with :: "string \<Rightarrow> string \<Rightarrow> bool" where
  "ends_with suffix s = (length suffix \<le> length s \<and> drop (length s - length suffix) s = suffix)"

text \<open>
  \<open>dir\<close> is the directory listing and \<open>parse\<close> reads and parses one file; any failure among the artifacts
  falls back to \<^const>\<open>notRun\<close>, a missing summary only loses the negative control.
\<close>

definition load_proofs ::
  "string list result \<Rightarrow> (string \<Rightarrow> ProofReference result) \<Rightarrow> NegativeControl option result \<Rightarrow> ProofRegistry" where
  "load_proofs dir parse summary =
     (case bindR dir (\<lambda>listing.
        mapR parse (filter (\<lambda>f. ends_with ''.json'' f \<and> f \<noteq> ''summary.json'') listing))
      of Inl _ \<Rightarrow> notRun
       | Inr references \<Rightarrow>
           if references \<noteq> [] then
             newProofRegistry references (case summary of Inl _ \<Rightarrow> None | Inr nc \<Rightarrow> nc)
           else notRun)"

definition all_proofs :: "ProofRegistry \<Rightarrow> ProofReference list" where
  "all_proofs r = map snd (prf_byPolicy r)"

definition allProven :: "ProofRegistry \<Rightarrow> bool" where
  "allProven r = (all_proofs r \<noteq> [] \<and> list_all (\<lambda>p. pf_status p = PROVEN) (all_proofs r))"

section \<open>Lemmas\<close>

lemma lower_abi_word:
  assumes "uint256 v"
  shows "toLowerCase (abi_word v) = abi_word v"
proof -
  have v: "abi_word v = padStart 64 (CHR ''0'') (to_hex (nat v))"
    using assms by (simp add: abi_word_nat uint256_def)
  have "lower_char c = c" if "c \<in> set (abi_word v)" for c
  proof -
    have "c = CHR ''0'' \<or> c \<in> set (to_hex (nat v))"
      using that set_padStart [of 64 "CHR ''0''" "to_hex (nat v)"] v by auto
    moreover have "lower_char (CHR ''0'') = CHR ''0''" by code_simp
    ultimately show ?thesis using to_hex_digits by blast
  qed
  then show ?thesis by (simp add: toLowerCase_def map_fixpoint)
qed

lemma set_fold_update:
  "snd ` set (fold (\<lambda>r. AList.update (f r) r) rs al) \<subseteq> snd ` set al \<union> set rs"
proof (induction rs arbitrary: al)
  case (Cons r rs)
  have "snd ` set (AList.update (f r) r al) \<subseteq> insert r (snd ` set al)"
    by (induction al) auto
  with Cons [of "AList.update (f r) r al"] show ?case by auto
qed simp

lemma registry_references: "set (all_proofs (newProofRegistry rs nc)) \<subseteq> set rs"
  using set_fold_update [of "\<lambda>r. PROPERTY_TO_POLICY (pf_property r)" rs "[]"]
  by (auto simp: all_proofs_def newProofRegistry_def)

lemma registry_keys:
  "map_of (fold (\<lambda>r. AList.update (PROPERTY_TO_POLICY (pf_property r)) r) rs al) k = Some p \<Longrightarrow>
     (\<And>q. map_of al k = Some q \<Longrightarrow> PROPERTY_TO_POLICY (pf_property q) = k) \<Longrightarrow> PROPERTY_TO_POLICY (pf_property p) = k"
proof (induction rs arbitrary: al)
  case (Cons r rs)
  show ?case
    by (rule Cons.IH [of "AList.update (PROPERTY_TO_POLICY (pf_property r)) r al"])
      (use Cons.prems in \<open>auto simp: update_conv' split: if_splits\<close>)
qed simp

lemma load_proofs_cases:
  "load_proofs dir parse summary = notRun \<or>
   (\<exists>listing rs nc. dir = Inr listing \<and>
     mapR parse (filter (\<lambda>f. ends_with ''.json'' f \<and> f \<noteq> ''summary.json'') listing) = Inr rs \<and> rs \<noteq> [] \<and>
     load_proofs dir parse summary = newProofRegistry rs nc)"
  by (auto simp: load_proofs_def bindR_def split: sum.splits)

lemma notRun_status: "p \<in> set (all_proofs notRun) \<Longrightarrow> pf_status p = NOT_RUN"
  using registry_references [of "[not_run_reference MAX_TRANSFER ''proofs/MAX_TRANSFER.json'',
      not_run_reference DAILY_SPEND ''proofs/DAILY_SPEND.json'']" None]
  by (auto simp: notRun_def not_run_reference_def)

lemma mapR_mem: "mapR f xs = Inr ys \<Longrightarrow> y \<in> set ys \<Longrightarrow> \<exists>x \<in> set xs. f x = Inr y"
  by (induction xs arbitrary: ys) (auto simp: bindR_eq_Inr)

section \<open>Properties\<close>

text \<open>
  The SDK never reports a proof it does not have: a reference with status PROVEN comes from an
  artifact file that parsed and says so; with no artifacts, or unreadable ones, nothing is proven.
\<close>

theorem proven_only_from_artifact:
  assumes "p \<in> set (all_proofs (load_proofs dir parse summary))" and "pf_status p = PROVEN"
  shows "\<exists>listing f. dir = Inr listing \<and> f \<in> set listing \<and> f \<noteq> ''summary.json'' \<and> parse f = Inr p"
proof -
  have "load_proofs dir parse summary \<noteq> notRun" using assms notRun_status by fastforce
  then obtain listing rs nc where l: "dir = Inr listing"
    "mapR parse (filter (\<lambda>f. ends_with ''.json'' f \<and> f \<noteq> ''summary.json'') listing) = Inr rs"
    "load_proofs dir parse summary = newProofRegistry rs nc"
    using load_proofs_cases [of dir parse summary] by blast
  with assms(1) registry_references [of rs nc] have "p \<in> set rs" by auto
  with mapR_mem [OF l(2)] l(1) show ?thesis by auto
qed

theorem proven_only_from_artifact_witness:
  "\<exists>listing f. (Inr [''a.json''] :: string list result) = Inr listing \<and> f \<in> set listing \<and> f \<noteq> ''summary.json'' \<and>
     (\<lambda>_. Inr sample_proof) f = (Inr sample_proof :: ProofReference result)"
proof -
  have "all_proofs (load_proofs (Inr [''a.json'']) (\<lambda>_. Inr sample_proof) (Inr None)) = [sample_proof]"
    by (simp add: load_proofs_def ends_with_def all_proofs_def newProofRegistry_def)
  then show ?thesis
    using proven_only_from_artifact [of sample_proof "Inr [''a.json'']" "\<lambda>_. Inr sample_proof" "Inr None"]
    by (simp add: sample_proof_def)
qed

text \<open>
  The third leg of the binding: against a hook that answers with its configuration, the check passes
  exactly when the module is installed and the stored policy hash is the expected one; otherwise it
  throws.
\<close>

theorem hook_binding:
  assumes "he_chain e = Some chain"
    and "cr_call chain (he_hook e) (config_call (he_account e)) =
      Inr (encode_hook_config asset mx dl mn h installed)"
    and "list_all uint256 [asset, mx, dl, mn, h]" and "length expected = 66" and "take 2 expected = ''0x''"
  shows "assertInstalledPolicyHash e expected =
    (if \<not> installed then Inl HookNotInstalled
     else if toLowerCase expected = ''0x'' @ abi_word h then Inr ()
     else Inl (PolicyBindingError ''hook'' expected (''0x'' @ abi_word h)))"
proof -
  let ?ws = "[asset, mx, dl, mn, h, if installed then 1 else 0]"
  let ?raw = "encode_hook_config asset mx dl mn h installed"
  have ws: "list_all uint256 ?ws" using assms(3) by (simp add: uint256_small)
  have raw: "?raw = ''0x'' @ concat (map abi_word ?ws) @ []" by (simp add: encode_hook_config_def)
  have s4: "js_slice ?raw 258 322 = abi_word h" and s5: "js_slice ?raw 322 386 = abi_word (if installed then 1 else 0)"
    unfolding raw using slice_words [OF ws, of 4 "[]"] slice_words [OF ws, of 5 "[]"] by (simp_all add: js_slice_def)
  have len: "length ?raw = 386"
    using length_concat_abi_word [OF ws] by (simp add: encode_hook_config_def)
  have low: "toLowerCase (abi_word h) = abi_word h"
    using assms(3) by (simp add: lower_abi_word)
  have "toLowerCase ''0x'' = ''0x''" by code_simp
  then have "toLowerCase (''0x'' @ abi_word h) = ''0x'' @ abi_word h"
    using low by (simp add: toLowerCase_def)
  then show ?thesis
    using assms(1,2) len s4 s5
    by (auto simp: assertInstalledPolicyHash_def Let_def bindR_def)
qed

definition sample_chain :: "Hex \<Rightarrow> ChainReader" where
  "sample_chain raw = \<lparr>cr_chainId = 1, cr_getErc20Balance = (\<lambda>_ _. Inr 0), cr_call = (\<lambda>_ _. Inr raw),
     cr_getBlockTimestamp = Inr 0\<rparr>"

definition sample_enforcer :: "Hex \<Rightarrow> SimulatedAccount HookEnforcer" where
  "sample_enforcer raw = \<lparr>he_account = sample_account, he_hook = sample_hook,
     he_executor = simulated_executor id (\<lambda>s _. s), he_chain = Some (sample_chain raw)\<rparr>"

theorem hook_binding_witness:
  "assertInstalledPolicyHash (sample_enforcer (encode_hook_config 1 100 150 10 7 False)) (''0x'' @ abi_word 7) =
    Inl HookNotInstalled"
  using hook_binding [of "sample_enforcer (encode_hook_config 1 100 150 10 7 False)"
      "sample_chain (encode_hook_config 1 100 150 10 7 False)" 1 100 150 10 7 False "''0x'' @ abi_word 7"]
  by (simp add: sample_enforcer_def sample_chain_def uint256_small)

end
