(* ===== verification/Approval.thy ===== *)
theory Approval
  imports Effects Privacy
begin

text \<open>
  \<^verbatim>\<open>packages/sdk/src/approval/\<close>: the console, dashboard and Ledger approvers and the choice among
  them. The dashboard approver is a state machine over its pending map, its timers and the promises it
  has settled; the lemmas are invariants of its reachable states.
\<close>

section \<open>ConsoleApprover\<close>

text \<open>The answer typed at the prompt is an argument; it is not read when auto-approval is on.\<close>

definition console_request :: "bool \<Rightarrow> string \<Rightarrow> ApprovalRequest \<Rightarrow> ApprovalOutcome" where
  "console_request autoApprove answer request =
     (if autoApprove then \<lparr>ao_approved = True, ao_signature = None, ao_by = ''console:auto''\<rparr>
      else \<lparr>ao_approved = (toLowerCase (trim answer) = ''y''), ao_signature = None, ao_by = ''console''\<rparr>)"

section \<open>DashboardApprover\<close>

text \<open>
  A call of \<^verbatim>\<open>request\<close> creates a promise, here a number. A timer keeps its promise and the id it will
  delete; the pending map holds, per id, the promise that a click would settle.
\<close>

record DashboardApprover =
  da_next :: nat
  da_published :: "ApprovalRequest list"
  da_pending :: "(string \<times> nat) list"
  da_timers :: "(nat \<times> string) list"
  da_settled :: "(nat \<times> ApprovalOutcome) list"

definition newDashboardApprover :: DashboardApprover where
  "newDashboardApprover = \<lparr>da_next = 0, da_published = [], da_pending = [], da_timers = [], da_settled = []\<rparr>"

definition dashboard_request :: "ApprovalRequest \<Rightarrow> DashboardApprover \<Rightarrow> nat \<times> DashboardApprover" where
  "dashboard_request request d =
     (let k = da_next d in
      (k, d\<lparr>da_next := k + 1, da_published := da_published d @ [request],
            da_timers := (k, ar_id request) # da_timers d,
            da_pending := AList.update (ar_id request) k (da_pending d)\<rparr>))"

definition timeout_outcome :: ApprovalOutcome where
  "timeout_outcome = \<lparr>ao_approved = False, ao_signature = None, ao_by = ''dashboard:timeout''\<rparr>"

definition dashboard_timeout :: "nat \<Rightarrow> DashboardApprover \<Rightarrow> DashboardApprover" where
  "dashboard_timeout k d =
     (case map_of (da_timers d) k of
        None \<Rightarrow> d
      | Some rid \<Rightarrow> d\<lparr>da_timers := AList.delete k (da_timers d), da_pending := AList.delete rid (da_pending d),
          da_settled := (k, timeout_outcome) # da_settled d\<rparr>)"

definition dashboard_resolve :: "string \<Rightarrow> ApprovalOutcome \<Rightarrow> DashboardApprover \<Rightarrow> bool \<times> DashboardApprover" where
  "dashboard_resolve rid outcome d =
     (case map_of (da_pending d) rid of
        None \<Rightarrow> (False, d)
      | Some k \<Rightarrow> (True, d\<lparr>da_timers := AList.delete k (da_timers d), da_pending := AList.delete rid (da_pending d),
          da_settled := (k, outcome) # da_settled d\<rparr>))"

definition pendingIds :: "DashboardApprover \<Rightarrow> string list" where
  "pendingIds d = map fst (da_pending d)"

datatype dash_event = Requested ApprovalRequest | TimedOut nat | Resolved string ApprovalOutcome

inductive dash_step :: "DashboardApprover \<Rightarrow> dash_event \<Rightarrow> DashboardApprover \<Rightarrow> bool" where
  request: "dashboard_request r d = (k, d') \<Longrightarrow> dash_step d (Requested r) d'"
| timeout: "dashboard_timeout k d = d' \<Longrightarrow> dash_step d (TimedOut k) d'"
| resolve: "dashboard_resolve rid out d = (b, d') \<Longrightarrow> dash_step d (Resolved rid out) d'"

inductive dash_run :: "dash_event list \<Rightarrow> DashboardApprover \<Rightarrow> bool" where
  start: "dash_run [] newDashboardApprover"
| more: "dash_run es d \<Longrightarrow> dash_step d e d' \<Longrightarrow> dash_run (es @ [e]) d'"

inductive_simps dash_step_simps:
  "dash_step d (Requested r) d'" "dash_step d (TimedOut k) d'" "dash_step d (Resolved rid out) d'"

section \<open>LedgerApprover\<close>

record LedgerTransport =
  lt_confirm :: "string \<Rightarrow> Hex \<Rightarrow> Hex result"
  lt_address :: "Address result"

definition ledger_request :: "LedgerTransport \<Rightarrow> ApprovalRequest \<Rightarrow> ApprovalOutcome" where
  "ledger_request transport request =
     (case bindR (lt_confirm transport (approvalScreenText (ar_intent request)) (act_data (in_raw (ar_intent request))))
          (\<lambda>signature. bindR (lt_address transport) (\<lambda>by. Inr (signature, by)))
      of Inr (signature, by) \<Rightarrow> \<lparr>ao_approved = True, ao_signature = Some signature, ao_by = ''ledger:'' @ by\<rparr>
       | Inl _ \<Rightarrow> \<lparr>ao_approved = False, ao_signature = None, ao_by = ''ledger:declined''\<rparr>)"

text \<open>
  The vendor libraries and the device: loading the libraries, opening the device, and the two calls
  of the Ethereum app.
\<close>

record LedgerDevice =
  ld_libraries :: "unit result"
  ld_open :: "unit result"
  ld_getAddress :: "string \<Rightarrow> string result"
  ld_signPersonalMessage :: "string \<Rightarrow> string \<Rightarrow> (nat \<times> string \<times> string) result"

definition hex_of_bytes :: "byte list \<Rightarrow> string" where
  "hex_of_bytes bs = drop 2 (bytesToHex bs)"

definition derivation_path :: "string option \<Rightarrow> string" where
  "derivation_path p = or_else p (''44'' @ [CHR 0x27] @ ''/60'' @ [CHR 0x27] @ ''/0'' @ [CHR 0x27] @ ''/0/0'')"

definition createLedgerTransport :: "LedgerDevice \<Rightarrow> string option \<Rightarrow> LedgerTransport result" where
  "createLedgerTransport device derivationPath =
     (let path = derivation_path derivationPath in
      case ld_libraries device of
        Inl e \<Rightarrow> Inl (ErrorMessage ''LedgerUnavailable: the Ledger libraries are not installed'')
      | Inr _ \<Rightarrow>
          (case bindR (ld_open device) (\<lambda>_. ld_getAddress device path) of
             Inl e \<Rightarrow> Inl (ErrorMessage ''LedgerUnavailable: the device did not respond'')
           | Inr _ \<Rightarrow> Inr
               \<lparr>lt_confirm = (\<lambda>text _.
                  bindR (ld_signPersonalMessage device path (hex_of_bytes (utf8 text))) (\<lambda>(v, r, s).
                    Inr (''0x'' @ r @ s @ padStart 2 (CHR ''0'') (to_hex v)))),
                lt_address = bindR (ld_getAddress device path) (\<lambda>a. Inr (toLowerCase a))\<rparr>))"

datatype approver_choice = Fallback | Ledger LedgerTransport

definition selectApprover :: "string option \<Rightarrow> LedgerDevice \<Rightarrow> string option \<Rightarrow> approver_choice result" where
  "selectApprover flag device derivationPath =
     (if flag \<noteq> Some ''true'' then Inr Fallback
      else bindR (createLedgerTransport device derivationPath) (\<lambda>t.
           bindR (lt_address t) (\<lambda>_. Inr (Ledger t))))"

section \<open>Invariants of the dashboard\<close>

definition dash_inv :: "dash_event list \<Rightarrow> DashboardApprover \<Rightarrow> bool" where
  "dash_inv es d = (distinct (map fst (da_settled d)) \<and> distinct (map fst (da_timers d)) \<and>
     fst ` set (da_settled d) \<inter> fst ` set (da_timers d) = {} \<and>
     fst ` set (da_settled d) \<union> fst ` set (da_timers d) = {..<da_next d} \<and>
     (\<forall>rid k. map_of (da_pending d) rid = Some k \<longrightarrow> map_of (da_timers d) k = Some rid) \<and>
     (\<forall>k out. (k, out) \<in> set (da_settled d) \<longrightarrow> out = timeout_outcome \<or> (\<exists>rid. Resolved rid out \<in> set es)))"

lemma dash_inv_settle:
  assumes "dash_inv es d" and "map_of (da_timers d) k = Some rid"
    and "out = timeout_outcome \<or> Resolved rid' out \<in> set es'" and "set es \<subseteq> set es'"
  shows "dash_inv es' (d\<lparr>da_timers := AList.delete k (da_timers d), da_pending := AList.delete rid (da_pending d),
     da_settled := (k, out) # da_settled d\<rparr>)"
proof -
  have k: "k \<in> fst ` set (da_timers d)" using assms(2) by (force dest: map_of_SomeD)
  have pend: "map_of (AList.delete k (da_timers d)) j = Some r"
    if "map_of (AList.delete rid (da_pending d)) r = Some j" for r j
  proof -
    from that have r: "r \<noteq> rid" "map_of (da_pending d) r = Some j" by (auto simp: delete_conv' split: if_splits)
    with assms(1) have "map_of (da_timers d) j = Some r" by (simp add: dash_inv_def)
    with r assms(2) have "j \<noteq> k" by auto
    with \<open>map_of (da_timers d) j = Some r\<close> show ?thesis by (simp add: delete_conv')
  qed
  have settled: "\<forall>j o'. (j, o') \<in> set (da_settled d) \<longrightarrow> o' = timeout_outcome \<or> (\<exists>r. Resolved r o' \<in> set es')"
    using assms(1,4) unfolding dash_inv_def by blast
  have "k \<notin> fst ` set (da_settled d)" using assms(1) k unfolding dash_inv_def by blast
  moreover have "fst ` set (da_settled d) \<union> fst ` set (da_timers d) = {..<da_next d}"
    "fst ` set (da_settled d) \<inter> fst ` set (da_timers d) = {}"
    using assms(1) unfolding dash_inv_def by blast+
  ultimately show ?thesis
    using assms(1,3) k pend settled
    unfolding dash_inv_def by (auto simp: keys_delete distinct_delete)
qed

lemma dash_inv_request:
  assumes "dash_inv es d" and "dashboard_request r d = (k, d')"
  shows "dash_inv (es @ [Requested r]) d'"
proof -
  have d': "d' = d\<lparr>da_next := Suc (da_next d), da_published := da_published d @ [r],
      da_timers := (da_next d, ar_id r) # da_timers d, da_pending := AList.update (ar_id r) (da_next d) (da_pending d)\<rparr>"
    using assms(2) by (auto simp: dashboard_request_def Let_def)
  have all: "fst ` set (da_settled d) \<union> fst ` set (da_timers d) = {..<da_next d}"
    using assms(1) by (simp add: dash_inv_def)
  then have fresh: "da_next d \<notin> fst ` set (da_settled d)" "da_next d \<notin> fst ` set (da_timers d)"
    by auto
  have "map_of ((da_next d, ar_id r) # da_timers d) j = Some i"
    if "map_of (AList.update (ar_id r) (da_next d) (da_pending d)) i = Some j" for i j
  proof (cases "i = ar_id r")
    case False
    with that have "map_of (da_pending d) i = Some j" by (simp add: update_conv')
    with assms(1) have "map_of (da_timers d) j = Some i" by (simp add: dash_inv_def)
    with fresh(2) show ?thesis by (auto dest: map_of_SomeD intro: rev_image_eqI)
  qed (use that in \<open>simp add: update_conv'\<close>)
  then show ?thesis
    using assms(1) fresh all unfolding dash_inv_def d' by auto
qed

lemma dash_inv_mono: "dash_inv es d \<Longrightarrow> set es \<subseteq> set es' \<Longrightarrow> dash_inv es' d"
  unfolding dash_inv_def by blast

lemma dash_inv_step:
  assumes "dash_inv es d" and "dash_step d e d'"
  shows "dash_inv (es @ [e]) d'"
  using assms(2)
proof cases
  case (request r k)
  with dash_inv_request [OF assms(1)] show ?thesis by simp
next
  case (timeout k)
  show ?thesis
  proof (cases "map_of (da_timers d) k")
    case None
    with timeout assms(1) show ?thesis
      using dash_inv_mono [of es d "es @ [e]"] by (auto simp: dashboard_timeout_def)
  next
    case (Some rid)
    with timeout show ?thesis
      using dash_inv_settle [OF assms(1) Some, of timeout_outcome rid "es @ [e]"]
      by (auto simp: dashboard_timeout_def)
  qed
next
  case (resolve rid out b)
  show ?thesis
  proof (cases "map_of (da_pending d) rid")
    case None
    with resolve assms(1) show ?thesis
      using dash_inv_mono [of es d "es @ [e]"] by (auto simp: dashboard_resolve_def)
  next
    case (Some k)
    with assms(1) have "map_of (da_timers d) k = Some rid" by (simp add: dash_inv_def)
    with resolve Some show ?thesis
      using dash_inv_settle [OF assms(1), of k rid out rid "es @ [e]"] by (auto simp: dashboard_resolve_def)
  qed
qed

lemma dash_run_inv: "dash_run es d \<Longrightarrow> dash_inv es d"
proof (induction rule: dash_run.induct)
  case start
  show ?case by (auto simp: dash_inv_def newDashboardApprover_def)
next
  case (more es d e d')
  then show ?case by (simp add: dash_inv_step)
qed

lemma dash_timer_promise:
  assumes "dash_inv es d"
  shows "k < da_next d \<longleftrightarrow> k \<in> fst ` set (da_settled d) \<or> (\<exists>rid. map_of (da_timers d) k = Some rid)"
proof -
  have "k < da_next d \<longleftrightarrow> k \<in> fst ` set (da_settled d) \<union> fst ` set (da_timers d)"
    using assms by (simp add: dash_inv_def)
  moreover have "k \<in> fst ` set (da_timers d) \<longleftrightarrow> (\<exists>rid. map_of (da_timers d) k = Some rid)"
    by (metis dom_map_of_conv_image_fst domIff option.exhaust option.simps(3))
  ultimately show ?thesis by blast
qed

section \<open>Properties\<close>

text \<open>
  In every run of the dashboard approver each requested promise is settled at most once; one that is
  not settled still has its timer, and the timer firing settles it as a denial; and a promise is settled
  as approved only if somebody resolved a pending request with exactly that outcome. Silence is never
  consent.
\<close>

theorem dashboard_settles:
  assumes "dash_run es d"
  shows "distinct (map fst (da_settled d)) \<and>
    (k < da_next d \<longrightarrow> k \<notin> fst ` set (da_settled d) \<longrightarrow>
       (k, timeout_outcome) \<in> set (da_settled (dashboard_timeout k d))) \<and>
    ((k, out) \<in> set (da_settled d) \<longrightarrow> ao_approved out \<longrightarrow> (\<exists>rid. Resolved rid out \<in> set es))"
proof (intro conjI impI)
  note inv = dash_run_inv [OF assms]
  show "distinct (map fst (da_settled d))" using inv by (simp add: dash_inv_def)
  show "(k, timeout_outcome) \<in> set (da_settled (dashboard_timeout k d))"
    if "k < da_next d" "k \<notin> fst ` set (da_settled d)"
    using that dash_timer_promise [OF inv, of k] by (auto simp: dashboard_timeout_def)
  show "\<exists>rid. Resolved rid out \<in> set es" if "(k, out) \<in> set (da_settled d)" "ao_approved out"
  proof -
    have "out \<noteq> timeout_outcome" using that(2) by (auto simp: timeout_outcome_def)
    with that(1) inv show ?thesis unfolding dash_inv_def by blast
  qed
qed

definition sample_approval :: ApprovalRequest where
  "sample_approval = \<lparr>ar_id = ''r1'', ar_intent = sample_intent 60, ar_reason = [], ar_threshold = 50, ar_expiresAt = 120000\<rparr>"

theorem dashboard_settles_witness:
  "(0, timeout_outcome) \<in> set (da_settled (dashboard_timeout 0 (snd (dashboard_request sample_approval newDashboardApprover))))"
proof -
  let ?d = "snd (dashboard_request sample_approval newDashboardApprover)"
  have "dash_step newDashboardApprover (Requested sample_approval) ?d"
    using dash_step.request [of sample_approval newDashboardApprover "fst (dashboard_request sample_approval newDashboardApprover)"] by simp
  then have "dash_run ([] @ [Requested sample_approval]) ?d"
    by (rule dash_run.more [OF dash_run.start])
  from dashboard_settles [OF this, of 0 timeout_outcome] show ?thesis
    by (simp add: dashboard_request_def newDashboardApprover_def Let_def)
qed

text \<open>
  With \<^verbatim>\<open>LEDGER_APPROVAL_ENABLED=true\<close> the approver is never the fallback: start-up either fails or
  returns a Ledger approver whose device answered. Such an approver approves only when the device signed
  the rendered text of the very intent it was asked about, and the outcome carries that signature.
\<close>

theorem ledger_never_downgraded:
  assumes "selectApprover (Some ''true'') device path = Inr choice"
  shows "\<exists>t a. choice = Ledger t \<and> ld_getAddress device (derivation_path path) = Inr a \<and>
    (ao_approved (ledger_request t r) \<longleftrightarrow>
      (\<exists>v x y. ld_signPersonalMessage device (derivation_path path)
          (hex_of_bytes (utf8 (approvalScreenText (ar_intent r)))) = Inr (v, x, y) \<and>
        ao_signature (ledger_request t r) = Some (''0x'' @ x @ y @ padStart 2 (CHR ''0'') (to_hex v))))"
proof -
  from assms obtain t where t: "createLedgerTransport device path = Inr t" "choice = Ledger t"
    by (auto simp: selectApprover_def bindR_eq_Inr)
  from t(1) obtain a where a: "ld_getAddress device (derivation_path path) = Inr a"
    by (auto simp: createLedgerTransport_def Let_def bindR_eq_Inr split: sum.splits)
  moreover have "t = \<lparr>lt_confirm = (\<lambda>text _.
        bindR (ld_signPersonalMessage device (derivation_path path) (hex_of_bytes (utf8 text))) (\<lambda>(v, r, s).
          Inr (''0x'' @ r @ s @ padStart 2 (CHR ''0'') (to_hex v)))),
      lt_address = bindR (ld_getAddress device (derivation_path path)) (\<lambda>a. Inr (toLowerCase a))\<rparr>"
    using t(1) by (auto simp: createLedgerTransport_def Let_def split: sum.splits)
  ultimately show ?thesis
    using t(2) by (auto simp: ledger_request_def bindR_def split: sum.splits)
qed

definition sample_device :: LedgerDevice where
  "sample_device = \<lparr>ld_libraries = Inr (), ld_open = Inr (), ld_getAddress = (\<lambda>_. Inr sample_account),
     ld_signPersonalMessage = (\<lambda>_ _. Inr (27, ''aa'', ''bb''))\<rparr>"

theorem ledger_never_downgraded_witness:
  "\<exists>t. selectApprover (Some ''true'') sample_device None = Inr (Ledger t) \<and> ao_approved (ledger_request t sample_approval)"
proof -
  obtain choice where c: "selectApprover (Some ''true'') sample_device None = Inr choice"
    by (simp add: selectApprover_def createLedgerTransport_def sample_device_def bindR_def)
  have s: "ao_signature (ledger_request t sample_approval) = Some (''0x'' @ ''aa'' @ ''bb'' @ padStart 2 (CHR ''0'') (to_hex 27))"
    if "choice = Ledger t" for t
    using c that by (auto simp: selectApprover_def createLedgerTransport_def sample_device_def bindR_def ledger_request_def)
  from ledger_never_downgraded [OF c, of sample_approval] s c show ?thesis
    by (auto simp: sample_device_def)
qed

end
