(* ===== verification/AgentProof.thy ===== *)
theory AgentProof
  imports Enforcement Approval
begin

text \<open>
  \<^verbatim>\<open>packages/sdk/src/core/AgentProof.ts\<close>: start-up with its three policy bindings, and the
  protected account: check, execute, approval, publication.

  The instance's own mutable state is the sequence number of its engine; the world of its operations is
  that number paired with the outside world \<open>'w\<close>. Reading a clock is an operation on the world. Log
  lines are left out: nothing the code decides depends on them.
\<close>

section \<open>Configuration\<close>

record 'w EnforcementConfig =
  ef_executor :: "'w Executor"
  ef_hook :: "Address option"
  ef_account :: "Address option"
  ef_chain :: "ChainReader option"

record 'w AgentProofConfig =
  cf_policy :: "PolicyDocument + string" \<comment> \<open>a parsed document, or a path\<close>
  cf_state :: "'w StateProvider"
  cf_identity :: "'w IdentityProvider option"
  cf_approver :: "'w Approver option"
  cf_enforcement :: "'w EnforcementConfig option"
  cf_decoders :: "DecoderRegistry option"
  cf_proofs :: "(ProofRegistry + string) option"
  cf_clock :: "'w \<Rightarrow> int \<times> 'w"
  cf_allowUnknownSelectors :: bool
  cf_onDecision :: "(PolicyResult \<Rightarrow> ('w, unit) io) option"
  cf_onAuditRecord :: "(PublicAuditRecord \<Rightarrow> ('w, unit) io) option"

text \<open>What the platform supplies: files, the random salt of the commitment scheme, and \<^verbatim>\<open>Date.now()\<close>.\<close>

record 'w Platform =
  pt_readPolicy :: "string \<Rightarrow> PolicyDocument result"
  pt_proofFiles :: "string \<Rightarrow> string list result"
  pt_parseProof :: "string \<Rightarrow> ProofReference result"
  pt_proofSummary :: "string \<Rightarrow> NegativeControl option result"
  pt_salt :: Hex
  pt_dateNow :: "'w \<Rightarrow> int \<times> 'w"

record 'w AgentProof =
  ap_policy :: ResolvedPolicy
  ap_engine :: PolicyEngineOptions
  ap_enforcer :: "'w HookEnforcer option"
  ap_proofs :: ProofRegistry
  ap_config :: "'w AgentProofConfig"
  ap_salt :: Hex
  ap_dateNow :: "'w \<Rightarrow> int \<times> 'w"

type_synonym 'w agent_world = "nat \<times> 'w"

definition outside :: "('w, 'a) io \<Rightarrow> ('w agent_world, 'a) io" where
  "outside m s = (let (r, w) = m (snd s) in (r, (fst s, w)))"

definition read_clock :: "('w \<Rightarrow> int \<times> 'w) \<Rightarrow> ('w, int) io" where
  "read_clock c w = (let (t, w') = c w in (Inr t, w'))"

section \<open>Start-up\<close>

definition default_policies :: "ResolvedPolicy \<Rightarrow> bool \<Rightarrow> Policy list" where
  "default_policies policy allowUnknownSelectors =
     [AllowlistPolicy (rp_allowedContracts policy) (rp_allowedRecipients policy) allowUnknownSelectors,
      MaxTransactionPolicy (rp_maxTransaction policy), MinBalancePolicy (rp_minBalance policy),
      DailySpendPolicy (rp_dailySpend policy), ApprovalThresholdPolicy (rp_approvalThreshold policy)]"

definition check_identity :: "'w AgentProofConfig \<Rightarrow> ResolvedPolicy \<Rightarrow> ('w, unit) io" where
  "check_identity config policy =
     (case cf_identity config of
        None \<Rightarrow> return_io ()
      | Some identity \<Rightarrow>
          let agent = doc_agent (rp_document policy) in
          bind_io (ip_resolvePolicyHash identity agent) (\<lambda>published.
            if toLowerCase published \<noteq> toLowerCase (rp_hash policy) then
              throw_io (PolicyBindingError ''ens'' (rp_hash policy) published)
            else bind_io (ip_resolveStatus identity agent) (\<lambda>status.
              if status \<noteq> ''active'' then throw_io (AgentNotActive agent status) else return_io ())))"

definition load_registry :: "'w Platform \<Rightarrow> 'w AgentProofConfig \<Rightarrow> ProofRegistry" where
  "load_registry platform config =
     (case cf_proofs config of
        Some (Inl registry) \<Rightarrow> registry
      | Some (Inr dir) \<Rightarrow> load_proofs (pt_proofFiles platform dir) (pt_parseProof platform) (pt_proofSummary platform dir)
      | None \<Rightarrow> notRun)"

definition make_enforcer :: "'w AgentProofConfig \<Rightarrow> ResolvedPolicy \<Rightarrow> 'w HookEnforcer option" where
  "make_enforcer config policy =
     map_option (\<lambda>e. \<lparr>he_account = or_else (ef_account e) (rp_account policy), he_hook = or_else (ef_hook e) (rp_hook policy),
       he_executor = ef_executor e, he_chain = ef_chain e\<rparr>) (cf_enforcement config)"

definition check_hook :: "'w AgentProofConfig \<Rightarrow> ResolvedPolicy \<Rightarrow> unit result" where
  "check_hook config policy =
     (case (make_enforcer config policy, cf_enforcement config) of
        (Some enforcer, Some e) \<Rightarrow>
          (case ef_chain e of
             Some _ \<Rightarrow> assertInstalledPolicyHash enforcer (rp_hash policy)
           | None \<Rightarrow> Inr ())
      | _ \<Rightarrow> Inr ())"

definition createAgentProof :: "'w Platform \<Rightarrow> 'w AgentProofConfig \<Rightarrow> ('w, 'w AgentProof) io" where
  "createAgentProof platform config =
     bind_io (lift_io (case cf_policy config of Inl d \<Rightarrow> Inr d | Inr path \<Rightarrow> pt_readPolicy platform path)) (\<lambda>document.
     bind_io (lift_io (resolvePolicy document)) (\<lambda>policy.
     bind_io (check_identity config policy) (\<lambda>_.
     let proofs = load_registry platform config in
     bind_io (lift_io (case cf_decoders config of Some d \<Rightarrow> Inr d | None \<Rightarrow> createDefaultRegistry)) (\<lambda>decoders.
     let engine = \<lparr>eo_decoders = decoders,
           eo_policies = default_policies policy (cf_allowUnknownSelectors config),
           eo_decoderContext = \<lparr>dc_account = rp_account policy, dc_trackedAsset = rp_asset policy,
             dc_decimals = rp_decimals policy\<rparr>,
           eo_proofs = Some (prf_byPolicy proofs)\<rparr> in
     bind_io (lift_io (check_hook config policy)) (\<lambda>_.
       return_io \<lparr>ap_policy = policy, ap_engine = engine, ap_enforcer = make_enforcer config policy, ap_proofs = proofs,
         ap_config = config, ap_salt = pt_salt platform, ap_dateNow = pt_dateNow platform\<rparr>)))))"

section \<open>Decisions\<close>

definition gatherState :: "'w AgentProof \<Rightarrow> ('w, PolicyState) io" where
  "gatherState ap =
     bind_io (read_clock (cf_clock (ap_config ap))) (\<lambda>now.
       let dayUtc = utcDay now; account = rp_account (ap_policy ap); state = cf_state (ap_config ap) in
       bind_io (both_io (sp_getDailySpend state account dayUtc) (sp_getBalance state account (rp_asset (ap_policy ap))))
         (\<lambda>(dailySpend, balance).
            return_io \<lparr>st_account = account, st_dayUtc = dayUtc, st_dailySpend = dailySpend, st_balance = balance,
              st_asset = rp_asset (ap_policy ap), st_now = now, st_pool = None\<rparr>))"

definition publish :: "'w AgentProof \<Rightarrow> PolicyResult \<Rightarrow> ('w, unit) io" where
  "publish ap result =
     bind_io (case cf_onDecision (ap_config ap) of None \<Rightarrow> return_io () | Some f \<Rightarrow> f result) (\<lambda>_.
       case cf_onAuditRecord (ap_config ap) of None \<Rightarrow> return_io ()
       | Some f \<Rightarrow> f (toPublicAuditRecord result (rp_account (ap_policy ap)) (rp_hash (ap_policy ap)) (ap_salt ap)))"

definition evaluate_io :: "'w AgentProof \<Rightarrow> NormalizedIntent \<Rightarrow> PolicyState \<Rightarrow> ('w agent_world, PolicyResult) io" where
  "evaluate_io ap intent state s =
     (let (now, w) = ap_dateNow ap (snd s); (result, n) = evaluate (ap_engine ap) intent state now (fst s) in
      (Inr result, (n, w)))"

definition agent_check :: "'w AgentProof \<Rightarrow> Action \<Rightarrow> ('w agent_world, PolicyResult) io" where
  "agent_check ap action =
     bind_io (lift_io (engine_decode (ap_engine ap) action None)) (\<lambda>intent.
     bind_io (outside (gatherState ap)) (\<lambda>state.
     bind_io (evaluate_io ap intent state) (\<lambda>result.
     bind_io (outside (publish ap result)) (\<lambda>_. return_io result))))"

definition approval_id :: "'w AgentProof \<Rightarrow> nat \<Rightarrow> int \<Rightarrow> string" where
  "approval_id ap sequence now =
     rp_account (ap_policy ap) @ '':'' @ to_dec sequence @ '':'' @ bigint_to_string now"

definition seekApproval :: "'w AgentProof \<Rightarrow> PolicyResult \<Rightarrow> ('w, PolicyResult) io" where
  "seekApproval ap result =
     (case cf_approver (ap_config ap) of
        None \<Rightarrow> return_io (result\<lparr>res_decision := BLOCK,
          res_reason := res_reason result @ '', and no approver is configured''\<rparr>)
      | Some approver \<Rightarrow>
          bind_io (read_clock (cf_clock (ap_config ap))) (\<lambda>now.
          bind_io (read_clock (cf_clock (ap_config ap))) (\<lambda>later.
            let request = \<lparr>ar_id = approval_id ap (res_sequence result) now, ar_intent = res_intent result,
                  ar_reason = res_reason result, ar_threshold = rp_approvalThreshold (ap_policy ap),
                  ar_expiresAt = later + 120000\<rparr> in
            bind_io (ap_request approver request) (\<lambda>outcome.
              return_io (if ao_approved outcome
                then result\<lparr>res_decision := ALLOW, res_reason := ''approved by '' @ ao_by outcome,
                  res_approvalRequest := Some request\<rparr>
                else result\<lparr>res_decision := BLOCK, res_reason := ''declined by '' @ ao_by outcome,
                  res_approvalRequest := Some request\<rparr>)))))"

text \<open>
  The decision part of \<^verbatim>\<open>execute\<close>, up to and including the approval, and the submission. The field
  \<^verbatim>\<open>ownerSignature\<close> the code reads is set nowhere, so the signature passed on is the default.
\<close>

definition agent_decide :: "'w AgentProof \<Rightarrow> Action \<Rightarrow> ('w agent_world, NormalizedIntent \<times> PolicyResult) io" where
  "agent_decide ap action =
     bind_io (lift_io (engine_decode (ap_engine ap) action None)) (\<lambda>intent.
     bind_io (outside (gatherState ap)) (\<lambda>state.
     bind_io (evaluate_io ap intent state) (\<lambda>result.
     bind_io (if res_decision result = REQUIRE_APPROVAL then outside (seekApproval ap result) else return_io result)
       (\<lambda>decided. return_io (intent, decided)))))"

definition agent_submit :: "'w AgentProof \<Rightarrow> 'w HookEnforcer option \<Rightarrow> NormalizedIntent \<Rightarrow> PolicyResult \<Rightarrow> ('w, PolicyResult) io" where
  "agent_submit ap enforcer intent result =
     (if res_decision result \<noteq> ALLOW then bind_io (publish ap result) (\<lambda>_. return_io result)
      else case enforcer of
        None \<Rightarrow> bind_io (publish ap result) (\<lambda>_.
          return_io (result\<lparr>res_reason := res_reason result @ '' (not executed: no executor configured)''\<rparr>))
      | Some e \<Rightarrow>
          bind_io (case res_approvalRequest result of
              Some _ \<Rightarrow> executeWithOwnerApproval e intent ''0x''
            | None \<Rightarrow> enforcer_execute e intent) (\<lambda>txHash.
          bind_io (sp_recordExecution (cf_state (ap_config ap)) (rp_account (ap_policy ap)) intent txHash) (\<lambda>_.
            let executed = result\<lparr>res_txHash := Some txHash\<rparr> in
            bind_io (publish ap executed) (\<lambda>_. return_io executed))))"

definition agent_execute :: "'w AgentProof \<Rightarrow> Action \<Rightarrow> 'w HookEnforcer option \<Rightarrow> ('w agent_world, PolicyResult) io" where
  "agent_execute ap action enforcer =
     bind_io (agent_decide ap action) (\<lambda>(intent, result). outside (agent_submit ap enforcer intent result))"

record 'w ProtectedAccount =
  pa_check :: "Action \<Rightarrow> ('w agent_world, PolicyResult) io"
  pa_execute :: "Action \<Rightarrow> ('w agent_world, PolicyResult) io"

definition protect :: "'w AgentProof \<Rightarrow> 'w Executor option \<Rightarrow> 'w ProtectedAccount" where
  "protect ap executor =
     (let enforcer = (case ap_enforcer ap of Some e \<Rightarrow> Some e
        | None \<Rightarrow> map_option (\<lambda>x. \<lparr>he_account = rp_account (ap_policy ap), he_hook = rp_hook (ap_policy ap),
            he_executor = x, he_chain = None\<rparr>) executor)
      in \<lparr>pa_check = agent_check ap, pa_execute = (\<lambda>action. agent_execute ap action enforcer)\<rparr>)"

section \<open>Lemmas\<close>

lemma outside_Inr: "outside m s = (Inr x, s') \<longleftrightarrow> (\<exists>w. m (snd s) = (Inr x, w) \<and> s' = (fst s, w))"
  by (auto simp: outside_def Let_def split: prod.splits)

lemma lift_io_Inr: "lift_io r w = (Inr x, w') \<longleftrightarrow> r = Inr x \<and> w' = w"
  by auto

lemma return_io_Inr: "return_io y w = (Inr x, w') \<longleftrightarrow> x = y \<and> w' = w"
  by auto

lemmas io_inversion = bind_io_Inr outside_Inr lift_io_Inr return_io_Inr

lemma evaluate_io_Inr:
  assumes "evaluate_io ap intent state s = (Inr r, s')"
  obtains now where "r = fst (evaluate (ap_engine ap) intent state now (fst s))" and "fst s' = fst s + 1"
  using assms evaluate_simps(6) [of "ap_engine ap" intent state _ "fst s"]
  by (auto simp: evaluate_io_def Let_def split: prod.splits) (metis fst_conv snd_conv)

text \<open>What start-up establishes.\<close>

lemma createAgentProof_Inr:
  assumes "createAgentProof pt config w = (Inr ap, w')"
  obtains d where "cf_policy config = Inl d \<or> (\<exists>path. cf_policy config = Inr path \<and> pt_readPolicy pt path = Inr d)"
    and "resolvePolicy d = Inr (ap_policy ap)" and "ap_config ap = config"
    and "check_identity config (ap_policy ap) w = (Inr (), w')" and "check_hook config (ap_policy ap) = Inr ()"
    and "eo_policies (ap_engine ap) = default_policies (ap_policy ap) (cf_allowUnknownSelectors config)"
    and "eo_decoderContext (ap_engine ap) = \<lparr>dc_account = rp_account (ap_policy ap),
      dc_trackedAsset = rp_asset (ap_policy ap), dc_decimals = rp_decimals (ap_policy ap)\<rparr>"
    and "ap_enforcer ap = make_enforcer config (ap_policy ap)"
    and "cf_decoders config = None \<longrightarrow> createDefaultRegistry = Inr (eo_decoders (ap_engine ap))"
  using assms unfolding createAgentProof_def Let_def io_inversion
  by (auto split: sum.splits option.splits)

lemma default_policies_verdict:
  "verdict_of (default_policies p u) i st = ALLOW \<longleftrightarrow> verdict_of (default_policies p u) i st \<noteq> BLOCK \<and>
     in_notionalUSDC i < rp_approvalThreshold p"
  "verdict_of (default_policies p u) i st \<noteq> BLOCK \<longleftrightarrow>
     allow_rule (rp_allowedContracts p) (rp_allowedRecipients p) u i st \<and>
     max_rule (rp_maxTransaction p) i st \<and> floor_rule (rp_minBalance p) i st \<and> daily_rule (rp_dailySpend p) i st"
  by (auto simp: default_policies_def decision_of_def allowlist.decides max_transaction.decides
      min_balance.decides daily_spend.decides approval_threshold.decides threshold_rule_def)

text \<open>An approved escalation keeps the intent and carries an approved outcome for it.\<close>

definition approved_by_human :: "'w AgentProof \<Rightarrow> PolicyResult \<Rightarrow> bool" where
  "approved_by_human ap r = (\<exists>approver request w1 outcome w2. cf_approver (ap_config ap) = Some approver \<and>
     ap_request approver request w1 = (Inr outcome, w2) \<and> ao_approved outcome \<and> ar_intent request = res_intent r \<and>
     res_approvalRequest r = Some request)"

lemma seekApproval_Inr:
  assumes "seekApproval ap r w = (Inr r', w')"
  shows "res_intent r' = res_intent r" and "res_decision r' \<noteq> REQUIRE_APPROVAL"
    and "res_decision r' = ALLOW \<Longrightarrow> approved_by_human ap r'"
proof -
  show "res_intent r' = res_intent r" "res_decision r' \<noteq> REQUIRE_APPROVAL"
    using assms by (auto simp: seekApproval_def io_inversion Let_def split: option.splits if_splits)
  assume "res_decision r' = ALLOW"
  with assms obtain approver request w1 outcome where "cf_approver (ap_config ap) = Some approver"
    "ap_request approver request w1 = (Inr outcome, w')" "ao_approved outcome" "ar_intent request = res_intent r"
    "res_approvalRequest r' = Some request" "res_intent r' = res_intent r"
    by (auto simp: seekApproval_def io_inversion Let_def split: option.splits if_splits)
  then show "approved_by_human ap r'" unfolding approved_by_human_def by metis
qed

lemma agent_decide_Inr:
  assumes "agent_decide ap action s = (Inr (intent, r), s')"
  obtains state w verdict where "engine_decode (ap_engine ap) action None = Inr intent"
    and "gatherState ap (snd s) = (Inr state, w)"
    and "verdict = verdict_of (eo_policies (ap_engine ap)) intent state" and "res_intent r = intent"
    and "verdict = REQUIRE_APPROVAL \<longrightarrow> res_decision r = ALLOW \<longrightarrow> approved_by_human ap r"
    and "verdict \<noteq> REQUIRE_APPROVAL \<longrightarrow> res_decision r = verdict \<and> res_approvalRequest r = None"
    and "fst s' = fst s + 1" and "res_decision r \<noteq> REQUIRE_APPROVAL"
proof -
  from assms obtain state w r0 s1 where d: "engine_decode (ap_engine ap) action None = Inr intent"
    and g: "gatherState ap (snd s) = (Inr state, w)" and e: "evaluate_io ap intent state (fst s, w) = (Inr r0, s1)"
    and a: "(if res_decision r0 = REQUIRE_APPROVAL then outside (seekApproval ap r0) else return_io r0) s1 = (Inr r, s')"
    unfolding agent_decide_def io_inversion by (auto simp del: io_run)
  from e obtain now where r0: "r0 = fst (evaluate (ap_engine ap) intent state now (fst s))" and n: "fst s1 = fst s + 1"
    by (rule evaluate_io_Inr) auto
  have v: "res_decision r0 = verdict_of (eo_policies (ap_engine ap)) intent state" "res_intent r0 = intent"
    "res_approvalRequest r0 = None"
    by (simp_all add: r0 evaluate_simps) (simp add: evaluate_def engine_result_def)
  show ?thesis
  proof (rule that [OF d g refl])
    show "res_intent r = intent" "res_decision r \<noteq> REQUIRE_APPROVAL" "fst s' = fst s + 1"
      using a v n by (auto simp: outside_Inr seekApproval_Inr split: if_splits)
    show "verdict_of (eo_policies (ap_engine ap)) intent state = REQUIRE_APPROVAL \<longrightarrow>
        res_decision r = ALLOW \<longrightarrow> approved_by_human ap r"
      using a v by (auto simp: outside_Inr intro: seekApproval_Inr(3))
    show "verdict_of (eo_policies (ap_engine ap)) intent state \<noteq> REQUIRE_APPROVAL \<longrightarrow>
        res_decision r = verdict_of (eo_policies (ap_engine ap)) intent state \<and> res_approvalRequest r = None"
      using a v by auto
  qed
qed

text \<open>Submission keeps what was decided.\<close>

lemma agent_submit_Inr:
  assumes "agent_submit ap enforcer intent r w = (Inr r', w')"
  shows "res_decision r' = res_decision r" and "res_intent r' = res_intent r"
    and "res_approvalRequest r' = res_approvalRequest r"
  using assms by (auto simp: agent_submit_def io_inversion Let_def split: if_splits option.splits)

lemma agent_execute_Inr:
  assumes "agent_execute ap action enforcer s = (Inr r, s')"
  obtains intent r0 s1 where "agent_decide ap action s = (Inr (intent, r0), s1)"
    and "outside (agent_submit ap enforcer intent r0) s1 = (Inr r, s')" and "res_decision r = res_decision r0"
    and "res_intent r = res_intent r0" and "res_approvalRequest r = res_approvalRequest r0"
proof -
  from assms obtain intent r0 s1 where e: "agent_decide ap action s = (Inr (intent, r0), s1)"
    "outside (agent_submit ap enforcer intent r0) s1 = (Inr r, s')"
    by (auto simp: agent_execute_def bind_io_Inr)
  then obtain w where "agent_submit ap enforcer intent r0 (snd s1) = (Inr r, w)" by (auto simp: outside_Inr)
  with e show ?thesis by (intro that [OF e]) (rule agent_submit_Inr, assumption)+
qed

lemma approved_by_human_cong:
  "res_intent r = res_intent r' \<Longrightarrow> res_approvalRequest r = res_approvalRequest r' \<Longrightarrow>
     approved_by_human ap r = approved_by_human ap r'"
  by (simp add: approved_by_human_def)

lemma pa_execute_protect: "\<exists>enforcer. pa_execute (protect ap ex) = (\<lambda>action. agent_execute ap action enforcer)"
  by (auto simp: protect_def Let_def)

lemma agent_decide_txHash: "agent_decide ap action s = (Inr (intent, r), s') \<Longrightarrow> res_txHash r = None"
proof -
  have seek: "res_txHash r' = res_txHash r0" if "seekApproval ap r0 w = (Inr r', w')" for r0 r' :: PolicyResult and w w'
    using that by (auto simp: seekApproval_def io_inversion Let_def split: option.splits if_splits)
  assume "agent_decide ap action s = (Inr (intent, r), s')"
  then show ?thesis
    by (auto simp: agent_decide_def io_inversion evaluate_io_def evaluate_def engine_result_def seek
        split: if_splits prod.splits simp del: io_run)
qed

section \<open>Properties\<close>

text \<open>
  (C3) The guarantee of the SDK: an action that a protected account started from a policy lets through
  satisfies every limit of that policy, against the state its provider reported: per-transaction limit,
  daily limit, reserve, allowlists; calldata nobody can decode passes only with the escape hatch; and at
  or above the approval threshold a configured approver approved a request for this very intent.
\<close>

theorem allowed_within_limits:
  assumes "createAgentProof platform config w0 = (Inr ap, w1)"
    and "pa_execute (protect ap executor) action s = (Inr r, s')" and "res_decision r = ALLOW"
  shows "\<exists>state w2. gatherState ap (snd s) = (Inr state, w2) \<and>
    in_notionalUSDC (res_intent r) \<le> rp_maxTransaction (ap_policy ap) \<and>
    st_dailySpend state + in_notionalUSDC (res_intent r) \<le> rp_dailySpend (ap_policy ap) \<and>
    rp_minBalance (ap_policy ap) \<le> st_balance state - in_notionalUSDC (res_intent r) \<and>
    in_target (res_intent r) \<in> set (rp_allowedContracts (ap_policy ap)) \<and>
    (\<forall>c. in_counterparty (res_intent r) = Some c \<longrightarrow> movesValue (res_intent r) \<longrightarrow>
       c \<in> set (rp_allowedRecipients (ap_policy ap)) \<union> set (rp_allowedContracts (ap_policy ap))) \<and>
    (in_kind (res_intent r) = UNKNOWN \<longrightarrow> cf_allowUnknownSelectors config) \<and>
    (in_notionalUSDC (res_intent r) < rp_approvalThreshold (ap_policy ap) \<or> approved_by_human ap r)"
proof -
  obtain enforcer where "agent_execute ap action enforcer s = (Inr r, s')"
    using assms(2) pa_execute_protect [of ap executor] by auto
  then obtain intent r0 s1 where d: "agent_decide ap action s = (Inr (intent, r0), s1)"
    and r: "res_decision r = res_decision r0" "res_intent r = res_intent r0" "res_approvalRequest r = res_approvalRequest r0"
    by (rule agent_execute_Inr)
  from d obtain state w2 verdict where g: "gatherState ap (snd s) = (Inr state, w2)" and i: "res_intent r0 = intent"
    and v: "verdict = verdict_of (eo_policies (ap_engine ap)) intent state"
    and h: "verdict = REQUIRE_APPROVAL \<longrightarrow> res_decision r0 = ALLOW \<longrightarrow> approved_by_human ap r0"
    and n: "verdict \<noteq> REQUIRE_APPROVAL \<longrightarrow> res_decision r0 = verdict \<and> res_approvalRequest r0 = None"
    by (rule agent_decide_Inr)
  have pol: "eo_policies (ap_engine ap) = default_policies (ap_policy ap) (cf_allowUnknownSelectors config)"
    using assms(1) by (rule createAgentProof_Inr)
  have "verdict \<noteq> BLOCK" and t: "verdict = ALLOW \<or> approved_by_human ap r"
    using h n assms(3) r approved_by_human_cong [of r r0 ap] by (cases verdict; auto)+
  then show ?thesis
    using g default_policies_verdict [of "ap_policy ap" "cf_allowUnknownSelectors config" intent state] v pol r(2) i
    by (auto simp: rule_defs)
qed

text \<open>
  (C6) A refused action is never submitted: whatever executor is attached, the outcome and the state of
  the world are the same; the result is a block and carries no transaction hash.
\<close>

theorem refused_never_submits:
  assumes "agent_execute ap action enforcer s = (Inr r, s')" and "res_decision r \<noteq> ALLOW"
  shows "agent_execute ap action enforcer' s = (Inr r, s') \<and> res_decision r = BLOCK \<and> res_txHash r = None"
proof -
  from assms(1) obtain intent r0 s1 where d: "agent_decide ap action s = (Inr (intent, r0), s1)"
    and sub: "outside (agent_submit ap enforcer intent r0) s1 = (Inr r, s')" and r: "res_decision r = res_decision r0"
    by (rule agent_execute_Inr)
  have same: "agent_submit ap e intent r0 = bind_io (publish ap r0) (\<lambda>_. return_io r0)" for e
    using assms(2) r by (simp add: agent_submit_def)
  have "agent_execute ap action enforcer' s = (Inr r, s')"
    using d sub by (simp add: agent_execute_def bind_io_def same)
  moreover have "res_decision r0 \<noteq> REQUIRE_APPROVAL" by (rule agent_decide_Inr [OF d])
  moreover have "r = r0" using sub by (auto simp: same outside_Inr io_inversion)
  ultimately show ?thesis
    using agent_decide_txHash [OF d] assms(2) by (cases "res_decision r0") simp_all
qed

text \<open>
  (C7) What is submitted is what was decided: the operation sent is the target, calldata and value of the
  action that was evaluated, once; the execution is recorded with the hash the executor returned; and the
  published result carries that hash. After an approval it goes out through the owner path, with the empty
  signature.
\<close>

theorem submits_decided_action:
  assumes "createAgentProof platform config w0 = (Inr ap, w1)" and "cf_decoders config = None"
    and "agent_execute ap action (Some e) s = (Inr r, s')" and "res_decision r = ALLOW"
  shows "\<exists>w2 h w3 w4. let request = \<lparr>uo_account = he_account e, uo_to = act_to action, uo_data = act_data action,
        uo_value = act_value action, uo_nonce = None\<rparr> in
      (case res_approvalRequest r of
         None \<Rightarrow> ex_send (he_executor e) request w2 = (Inr h, w3)
       | Some _ \<Rightarrow> (\<exists>owner. ex_sendAsOwner (he_executor e) = Some owner \<and> owner request ''0x'' w2 = (Inr h, w3))) \<and>
      sp_recordExecution (cf_state config) (rp_account (ap_policy ap)) (res_intent r) h w3 = (Inr (), w4) \<and>
      publish ap r w4 = (Inr (), snd s') \<and> res_txHash r = Some h"
proof -
  from assms(3) obtain intent r0 s1 where d: "agent_decide ap action s = (Inr (intent, r0), s1)"
    and sub: "outside (agent_submit ap (Some e) intent r0) s1 = (Inr r, s')" and r: "res_decision r = res_decision r0"
      "res_intent r = res_intent r0" "res_approvalRequest r = res_approvalRequest r0"
    by (rule agent_execute_Inr)
  have dec: "engine_decode (ap_engine ap) action None = Inr intent" using d by (rule agent_decide_Inr)
  have i: "res_intent r0 = intent" using d by (rule agent_decide_Inr)
  have cfg: "ap_config ap = config" using assms(1) by (rule createAgentProof_Inr)
  have "cf_decoders config = None \<longrightarrow> createDefaultRegistry = Inr (eo_decoders (ap_engine ap))"
    using assms(1) by (rule createAgentProof_Inr)
  with assms(2) have "eo_decoders (ap_engine ap) = default_registry" by (intro default_registryI) simp
  with dec have "bindR (registry_decode default_registry action (merge_context (eo_decoderContext (ap_engine ap)) None))
      (\<lambda>i. Inr (Some i)) = Inr (Some intent)"
    by (simp add: engine_decode_def)
  then have "in_raw intent = action" by (rule default_reg.dec_raw)
  then have "enforcer_request e intent = \<lparr>uo_account = he_account e, uo_to = act_to action, uo_data = act_data action,
      uo_value = act_value action, uo_nonce = None\<rparr>"
    by (simp add: enforcer_request_def)
  with sub r i assms(4) cfg show ?thesis
    by (auto simp: agent_submit_def outside_Inr io_inversion Let_def enforcer_execute_def executeWithOwnerApproval_def
        split: option.splits) blast+
qed


section \<open>A sample instance\<close>

text \<open>The simulated account as the world: provider, clock and executor all read and write it.\<close>

definition account_provider :: "SimulatedAccount StateProvider" where
  "account_provider = \<lparr>sp_getDailySpend = (\<lambda>_ _ w. (Inr (sim_spentToday w), w)),
     sp_getBalance = (\<lambda>_ _ w. (Inr (sa_balance w), w)), sp_recordExecution = (\<lambda>_ _ _ w. (Inr (), w))\<rparr>"

definition sample_agent_config :: "SimulatedAccount AgentProofConfig" where
  "sample_agent_config = \<lparr>cf_policy = Inl sample_document, cf_state = account_provider, cf_identity = None,
     cf_approver = None, cf_enforcement = None, cf_decoders = None, cf_proofs = None,
     cf_clock = (\<lambda>w. (sa_clockMs w, w)), cf_allowUnknownSelectors = False, cf_onDecision = None, cf_onAuditRecord = None\<rparr>"

definition sample_platform :: "SimulatedAccount Platform" where
  "sample_platform = \<lparr>pt_readPolicy = (\<lambda>_. Inr sample_document), pt_proofFiles = (\<lambda>_. Inr []),
     pt_parseProof = (\<lambda>_. Inr sample_proof), pt_proofSummary = (\<lambda>_. Inr None), pt_salt = ''0x'',
     pt_dateNow = (\<lambda>w. (sa_clockMs w, w))\<rparr>"

definition sample_policy :: ResolvedPolicy where
  "sample_policy = \<lparr>rp_document = sample_document, rp_hash = policyHash sample_document,
     rp_maxTransaction = 100000000, rp_dailySpend = 500000000, rp_approvalThreshold = 80000000, rp_minBalance = 0,
     rp_allowedContracts = [sample_router, sample_token], rp_allowedRecipients = [], rp_asset = sample_token,
     rp_decimals = 6, rp_account = sample_account, rp_hook = sample_hook\<rparr>"

lemma sample_policy_resolves: "resolvePolicy sample_document = Inr sample_policy"
proof -
  have amounts: "policy_amount k (Some ''100000000'') = Inr 100000000" "policy_amount k (Some ''500000000'') = Inr 500000000"
    "policy_amount k (Some ''80000000'') = Inr 80000000" "policy_amount k (Some ''0'') = Inr 0" for k
    by (simp_all add: policy_amount_def parseBaseUnitPolicyAmount_def trim_def trimEnd_def is_space_def is_digit_def
        of_base_def digit_val_def)
  have "sample_router \<noteq> sample_token" "sample_token \<noteq> []" by (simp_all add: sample_address_def)
  then show ?thesis
    by (simp add: resolvePolicy_def sample_document_def sample_limits_def amounts Let_def addressSet_def sample_policy_def)
qed

definition sample_agent :: "SimulatedAccount AgentProof" where
  "sample_agent = \<lparr>ap_policy = sample_policy,
     ap_engine = \<lparr>eo_decoders = default_registry, eo_policies = default_policies sample_policy False,
       eo_decoderContext = \<lparr>dc_account = sample_account, dc_trackedAsset = sample_token, dc_decimals = 6\<rparr>,
       eo_proofs = Some (prf_byPolicy notRun)\<rparr>,
     ap_enforcer = None, ap_proofs = notRun, ap_config = sample_agent_config, ap_salt = ''0x'',
     ap_dateNow = (\<lambda>w. (sa_clockMs w, w))\<rparr>"

lemma sample_agent_starts: "createAgentProof sample_platform sample_agent_config w = (Inr sample_agent, w)"
  by (simp add: createAgentProof_def bind_io_def sample_policy_resolves createDefaultRegistry_eq check_identity_def
      check_hook_def make_enforcer_def load_registry_def sample_agent_config_def sample_platform_def sample_agent_def)
    (simp add: sample_policy_def)

lemma sample_state_read: "gatherState sample_agent w =
    (Inr \<lparr>st_account = sample_account, st_dayUtc = utcDay (sa_clockMs w), st_dailySpend = sim_spentToday w,
       st_balance = sa_balance w, st_asset = sample_token, st_now = sa_clockMs w, st_pool = None\<rparr>, w)"
  by (simp add: gatherState_def bind_io_def read_clock_def both_io_def sample_agent_def sample_agent_config_def
      sample_policy_def account_provider_def)

text \<open>A transfer of the tracked asset, decoded by an instance with the default decoders.\<close>

lemma engine_decode_transfer:
  assumes "eo_decoders opts = default_registry"
    and "encodeErc20Transfer to amount = Inr (act_data action)" and "wf_address to" and "uint256 amount"
    and "normalizeAddress (act_to action) = Inr (dc_trackedAsset (eo_decoderContext opts))"
  obtains i where "engine_decode opts action None = Inr i" and "in_kind i = TRANSFER" and "in_counterparty i = Some to"
    and "in_target i = dc_trackedAsset (eo_decoderContext opts)" and "in_notionalUSDC i = amount" and "in_raw i = action"
    and "movesValue i \<longleftrightarrow> 0 < amount"
proof -
  let ?ctx = "eo_decoderContext opts"
  note r = read_transfer [OF assms(2-4)]
  obtain i where i: "erc20_transfer action ?ctx (dc_trackedAsset ?ctx) = Inr i" "in_kind i = TRANSFER"
    "in_counterparty i = Some to" "in_target i = dc_trackedAsset ?ctx" "in_notionalUSDC i = amount" "in_raw i = action"
    "movesValue i \<longleftrightarrow> 0 < amount"
    using r by (simp add: erc20_transfer_def movesValue_def)
  have "engine_decode opts action None = Inr i"
    using erc20_decode_transfer [OF r(1) assms(5) i(1)] assms(1) by (simp add: engine_decode_def merge_context_def)
  from that [OF this i(2-7)] show ?thesis .
qed

lemma agent_decide_plain:
  assumes "engine_decode (ap_engine ap) action None = Inr i" and "gatherState ap (snd s) = (Inr st, w)"
    and "verdict_of (eo_policies (ap_engine ap)) i st = v" and "v \<noteq> REQUIRE_APPROVAL"
  shows "\<exists>r w'. agent_decide ap action s = (Inr (i, r), (fst s + 1, w')) \<and> res_decision r = v \<and>
    res_approvalRequest r = None \<and> w' = snd (ap_dateNow ap w)"
proof -
  obtain now w' where t: "ap_dateNow ap w = (now, w')" by fastforce
  let ?r = "fst (evaluate (ap_engine ap) i st now (fst s))"
  have "evaluate_io ap i st (fst s, w) = (Inr ?r, (fst s + 1, w'))"
    using t evaluate_simps(6) [of "ap_engine ap" i st now "fst s"]
    by (cases "evaluate (ap_engine ap) i st now (fst s)") (simp add: evaluate_io_def)
  moreover have "res_decision ?r = v" "res_approvalRequest ?r = None"
    using assms(3) by (simp_all add: evaluate_simps) (simp add: evaluate_def engine_result_def)
  ultimately show ?thesis
    using assms(1,2,4) t by (simp add: agent_decide_def bind_io_def outside_def)
qed

text \<open>The sample instance on a transfer of \<open>amount\<close> to the router.\<close>

definition sample_call :: "Hex \<Rightarrow> Action" where
  "sample_call d = \<lparr>act_to = sample_token, act_data = d, act_value = 0, act_chainId = 1, act_metadata = None\<rparr>"

lemma sample_decides:
  assumes "encodeErc20Transfer sample_router amount = Inr d" and "0 < amount" and "amount < 80000000"
  obtains i r where "agent_decide sample_agent (sample_call d) (0, sample_sim) = (Inr (i, r), (1, sample_sim))"
    and "in_raw i = sample_call d" and "res_decision r = (if amount \<le> 1000 then ALLOW else BLOCK)"
    and "res_approvalRequest r = None"
proof -
  let ?opts = "ap_engine sample_agent"
  let ?st = "\<lparr>st_account = sample_account, st_dayUtc = utcDay (sa_clockMs sample_sim),
     st_dailySpend = sim_spentToday sample_sim, st_balance = sa_balance sample_sim, st_asset = sample_token,
     st_now = sa_clockMs sample_sim, st_pool = None\<rparr>"
  have amount: "uint256 amount" using assms(2,3) by (intro uint256_small) simp_all
  have "eo_decoders ?opts = default_registry"
    "normalizeAddress (act_to (sample_call d)) = Inr (dc_trackedAsset (eo_decoderContext ?opts))"
    "encodeErc20Transfer sample_router amount = Inr (act_data (sample_call d))"
    using assms(1) by (simp_all add: sample_agent_def sample_call_def)
  with amount obtain i where i: "engine_decode ?opts (sample_call d) None = Inr i" "in_kind i = TRANSFER"
    "in_counterparty i = Some sample_router" "in_target i = dc_trackedAsset (eo_decoderContext ?opts)"
    "in_notionalUSDC i = amount" "in_raw i = sample_call d"
    using engine_decode_transfer [of ?opts sample_router amount "sample_call d"] sample_wf by metis
  have spent: "sim_spentToday sample_sim = 0" "sa_balance sample_sim = 1000"
    by (simp_all add: sample_sim_def sim_spentToday_def)
  have "verdict_of (eo_policies ?opts) i ?st = (if amount \<le> 1000 then ALLOW else BLOCK)"
    using default_policies_verdict [of sample_policy False i ?st] i(2-5) assms(2,3) spent
    by (auto simp: sample_agent_def rule_defs sample_policy_def)
  moreover have "(if amount \<le> 1000 then ALLOW else BLOCK) \<noteq> REQUIRE_APPROVAL"
    "snd (ap_dateNow sample_agent sample_sim) = sample_sim"
    by (simp_all add: sample_agent_def)
  moreover have "gatherState sample_agent (snd (0 :: nat, sample_sim)) = (Inr ?st, sample_sim)"
    by (simp add: sample_state_read)
  ultimately obtain r where
    "agent_decide sample_agent (sample_call d) (0, sample_sim) = (Inr (i, r), (1, sample_sim))"
    "res_decision r = (if amount \<le> 1000 then ALLOW else BLOCK)" "res_approvalRequest r = None"
    using agent_decide_plain [OF i(1), of "(0, sample_sim)" ?st sample_sim] by force
  with i(6) show ?thesis by (intro that)
qed

lemma publish_sample: "publish sample_agent r w = (Inr (), w)"
  by (simp add: publish_def sample_agent_def sample_agent_config_def)

theorem allowed_within_limits_witness:
  "\<exists>d r s'. encodeErc20Transfer sample_router 60 = Inr d \<and>
     pa_execute (protect sample_agent None) (sample_call d) (0, sample_sim) = (Inr r, s') \<and>
     in_notionalUSDC (res_intent r) \<le> 100000000"
proof -
  obtain d where d: "encodeErc20Transfer sample_router 60 = Inr d" by (simp add: encodeErc20Transfer_def)
  obtain i r where x: "agent_decide sample_agent (sample_call d) (0, sample_sim) = (Inr (i, r), (1, sample_sim))"
    "res_decision r = ALLOW" by (rule sample_decides [OF d]) auto
  have "ap_enforcer sample_agent = None" by (simp add: sample_agent_def)
  with x obtain r' s' where e: "pa_execute (protect sample_agent None) (sample_call d) (0, sample_sim) = (Inr r', s')"
    "res_decision r' = ALLOW"
    by (simp add: protect_def agent_execute_def bind_io_def outside_def agent_submit_def publish_sample)
  from allowed_within_limits [OF sample_agent_starts e] d e(1) show ?thesis
    by (auto simp: sample_agent_def sample_policy_def)
qed

theorem refused_never_submits_witness:
  "\<exists>d r s'. encodeErc20Transfer sample_router 2000 = Inr d \<and>
     agent_execute sample_agent (sample_call d) (Some (sample_enforcer ''0x'')) (0, sample_sim) = (Inr r, s') \<and>
     res_decision r = BLOCK \<and> res_txHash r = None"
proof -
  obtain d where d: "encodeErc20Transfer sample_router 2000 = Inr d" by (simp add: encodeErc20Transfer_def)
  obtain i r where x: "agent_decide sample_agent (sample_call d) (0, sample_sim) = (Inr (i, r), (1, sample_sim))"
    "res_decision r = BLOCK" by (rule sample_decides [OF d]) auto
  then have "agent_execute sample_agent (sample_call d) None (0, sample_sim) = (Inr r, (1, sample_sim))"
    by (simp add: agent_execute_def bind_io_def outside_def agent_submit_def publish_sample)
  from refused_never_submits [OF this, of "Some (sample_enforcer ''0x'')"] x d show ?thesis by auto
qed

theorem submits_decided_action_witness:
  "\<exists>d r s' h. encodeErc20Transfer sample_router 60 = Inr d \<and>
     agent_execute sample_agent (sample_call d) (Some (sample_enforcer ''0x'')) (0, sample_sim) = (Inr r, s') \<and>
     res_txHash r = Some h"
proof -
  let ?e = "sample_enforcer ''0x''"
  obtain d where d: "encodeErc20Transfer sample_router 60 = Inr d" by (simp add: encodeErc20Transfer_def)
  obtain i r where x: "agent_decide sample_agent (sample_call d) (0, sample_sim) = (Inr (i, r), (1, sample_sim))"
    "in_raw i = sample_call d" "res_decision r = ALLOW" "res_approvalRequest r = None"
    by (rule sample_decides [OF d]) auto
  have req: "enforcer_request ?e i = sample_request d"
    using x(2) by (simp add: enforcer_request_def sample_enforcer_def sample_request_def sample_call_def)
  have "\<exists>h w. sendUnchecked (sample_request d) sample_sim = (Inr h, w) \<and> sa_balance w = sa_balance sample_sim - 60 \<and>
      sim_spentToday w = sim_spentToday sample_sim + 60"
    using d by (intro send_transfer_ok [of sample_router])
      (simp_all add: sample_request_def sample_sim_def sample_config_def sim_spentToday_def sim_today_def uint256_small)
  then obtain h w where "sendUnchecked (sample_request d) sample_sim = (Inr h, w)" by blast
  then have "enforcer_execute ?e i sample_sim = (Inr h, w)"
    by (simp add: enforcer_execute_def req) (simp add: sample_enforcer_def simulated_executor_def sim_send_def)
  moreover have "sp_recordExecution (cf_state (ap_config sample_agent)) a j k w = (Inr (), w)" for a j k
    by (simp add: sample_agent_def sample_agent_config_def account_provider_def)
  ultimately have e: "agent_execute sample_agent (sample_call d) (Some ?e) (0, sample_sim) =
      (Inr (r\<lparr>res_txHash := Some h\<rparr>), (1, w))"
    using x by (simp add: agent_execute_def bind_io_def outside_def agent_submit_def publish_sample Let_def)
  have "cf_decoders sample_agent_config = None" by (simp add: sample_agent_config_def)
  from submits_decided_action [OF sample_agent_starts this e] x(3) d e show ?thesis by auto
qed


end
