(* ===== verification/Identity.thy ===== *)
theory Identity
  imports AgentProof
begin

text \<open>
  \<^verbatim>\<open>packages/sdk/src/identity/ENSIdentity.ts\<close>: agent records read from ENS through the Universal Resolver.

  The provider's own state is its cache; the world of its operations is the cache paired with the outside
  world \<open>'w\<close>, which the clock \<^verbatim>\<open>Date.now()\<close> reads.
\<close>

section \<open>Text decoding\<close>

text \<open>
  \<^verbatim>\<open>new TextDecoder().decode\<close>: a leading byte-order mark is dropped and code points up to U+00FF are read. Every
  other byte is read as the substitute character, which stands for a character outside the model or U+FFFD.
\<close>

definition substitute :: char where
  "substitute = CHR 0x1A"

fun utf8_decode :: "byte list \<Rightarrow> string" where
  "utf8_decode [] = []"
| "utf8_decode [b] = [if b < 128 then char_of (unat b) else substitute]"
| "utf8_decode (b # c # bs) =
     (if b < 128 then char_of (unat b) # utf8_decode (c # bs)
      else if (b = 0xC2 \<or> b = 0xC3) \<and> 128 \<le> c \<and> c < 192 then
        char_of ((unat b - 192) * 64 + (unat c - 128)) # utf8_decode bs
      else substitute # utf8_decode (c # bs))"

definition text_decode :: "byte list \<Rightarrow> string" where
  "text_decode bs = utf8_decode (if take 3 bs = [0xEF, 0xBB, 0xBF] then drop 3 bs else bs)"

section \<open>Encoding\<close>

definition ADDR_SELECTOR :: string where "ADDR_SELECTOR = js_slice (keccak256 ''addr(bytes32)'') 0 10"
definition TEXT_SELECTOR :: string where "TEXT_SELECTOR = js_slice (keccak256 ''text(bytes32,string)'') 0 10"
definition RESOLVE_SELECTOR :: string where "RESOLVE_SELECTOR = js_slice (keccak256 ''resolve(bytes,bytes)'') 0 10"

definition ENS_KEY_POLICY :: string where "ENS_KEY_POLICY = ''agentproof.policy''"
definition ENS_KEY_HOOK :: string where "ENS_KEY_HOOK = ''agentproof.hook''"
definition ENS_KEY_STATUS :: string where "ENS_KEY_STATUS = ''agentproof.status''"

definition concatHex :: "Hex \<Rightarrow> Hex \<Rightarrow> byte list" where
  "concatHex a b = pairs_to_bytes (drop 2 a @ drop 2 b)"

definition namehash :: "string \<Rightarrow> Hex" where
  "namehash name =
     (let zero = ''0x'' @ replicate 64 (CHR ''0'') in
      if name = [] then zero
      else fold (\<lambda>label node. bytesToHex (keccak256Bytes (concatHex node (keccak256 label))))
        (rev (splitOn (CHR ''.'') name)) zero)"

fun dns_labels :: "string list \<Rightarrow> byte list result" where
  "dns_labels [] = Inr [0]"
| "dns_labels (label # labels) =
     (let bytes = utf8 label in
      if length bytes > 63 then Inl (LabelTooLong label)
      else bindR (dns_labels labels) (\<lambda>rest. Inr (of_nat (length bytes) # bytes @ rest)))"

definition dnsEncode :: "string \<Rightarrow> Hex result" where
  "dnsEncode name = bindR (dns_labels (splitOn (CHR ''.'') name)) (\<lambda>parts. Inr (''0x'' @ concat (map byte_hex parts)))"

definition encodeText :: "Hex \<Rightarrow> string \<Rightarrow> Hex" where
  "encodeText node key =
     (let keyBytes = utf8 key;
          padded = ((length keyBytes + 31) div 32) * 32;
          keyHex = padEnd (padded * 2) (CHR ''0'') (concat (map byte_hex keyBytes))
      in TEXT_SELECTOR @ drop 2 node @ abi_word 64 @ abi_word (int (length keyBytes)) @ keyHex)"

definition encodeResolveCall :: "Hex \<Rightarrow> Hex \<Rightarrow> Hex" where
  "encodeResolveCall dnsName inner =
     (let nameBytes = (length dnsName - 2) div 2;
          innerBytes = (length inner - 2) div 2;
          namePadded = padEnd (((nameBytes + 31) div 32) * 64) (CHR ''0'') (drop 2 dnsName);
          innerPadded = padEnd (((innerBytes + 31) div 32) * 64) (CHR ''0'') (drop 2 inner);
          nameOffset = 64;
          innerOffset = nameOffset + 32 + length namePadded div 2
      in RESOLVE_SELECTOR @ abi_word (int nameOffset) @ abi_word (int innerOffset) @ abi_word (int nameBytes) @
         namePadded @ abi_word (int innerBytes) @ innerPadded)"

text \<open>The longest typed array; a longer one is a \<^verbatim>\<open>RangeError\<close>.\<close>

definition MAX_TYPED_ARRAY :: nat where "MAX_TYPED_ARRAY = 2 ^ 32"

definition decodeString :: "string \<Rightarrow> string result" where
  "decodeString returned =
     (if returned = [] then Inr []
      else
        bindR (bigint_hex (js_slice returned 0 64)) (\<lambda>o1. let offset = nat o1 * 2 in
        bindR (bigint_hex (js_slice returned offset (offset + 64))) (\<lambda>l1. let len = nat l1 in
          if len > MAX_TYPED_ARRAY then Inl (ErrorMessage ''RangeError'')
          else
            let body = js_slice returned (offset + 64) (offset + 64 + len * 2)
            in Inr (text_decode (map (\<lambda>i. parse_byte (js_slice body (i * 2) (i * 2 + 2))) [0..<len])))))"

section \<open>ENSIdentity\<close>

record ENSIdentityOptions =
  en_chain :: ChainReader
  en_universalResolver :: Address
  en_ttlMs :: "int option"

definition ens_ttl :: "ENSIdentityOptions \<Rightarrow> int" where
  "ens_ttl opt = or_else (en_ttlMs opt) 30000"

type_synonym 'w ens_world = "string cache \<times> 'w"

definition universalResolve :: "ENSIdentityOptions \<Rightarrow> string \<Rightarrow> Hex \<Rightarrow> string result" where
  "universalResolve opt name inner =
     bindR (dnsEncode name) (\<lambda>dnsName.
     bindR (cr_call (en_chain opt) (en_universalResolver opt) (encodeResolveCall dnsName inner)) (\<lambda>raw.
       if raw = ''0x'' then Inl (ENSRecordError name ''resolve'' ''Universal Resolver returned no data'')
       else
         let body = drop 2 raw in
         bindR (bigint_hex (js_slice body 0 64)) (\<lambda>o1. let offset = nat o1 * 2 in
         bindR (bigint_hex (js_slice body offset (offset + 64))) (\<lambda>l1. let len = nat l1 * 2 in
           Inr (js_slice body (offset + 64) (offset + 64 + len))))))"

definition ens_key :: "string \<Rightarrow> string \<Rightarrow> string" where
  "ens_key name key = name @ ''|'' @ key"

definition ens_cached :: "ENSIdentityOptions \<Rightarrow> ('w \<Rightarrow> int \<times> 'w) \<Rightarrow> string \<Rightarrow> 'w ens_world \<Rightarrow> string option \<times> 'w ens_world" where
  "ens_cached opt clock cacheKey = (\<lambda>(cache, w).
     case (if 0 < ens_ttl opt then map_of cache cacheKey else None) of
       None \<Rightarrow> (None, (cache, w))
     | Some (v, expiresAt) \<Rightarrow>
         let (now, w1) = clock w in (if expiresAt > now then Some v else None, (cache, w1)))"

definition ens_text :: "ENSIdentityOptions \<Rightarrow> ('w \<Rightarrow> int \<times> 'w) \<Rightarrow> string \<Rightarrow> string \<Rightarrow> ('w ens_world, string) io" where
  "ens_text opt clock name key s =
     (case ens_cached opt clock (ens_key name key) s of
        (Some v, s1) \<Rightarrow> (Inr v, s1)
      | (None, (cache, w)) \<Rightarrow>
          (case bindR (universalResolve opt name (encodeText (namehash name) key)) decodeString of
             Inl e \<Rightarrow> (Inl e, (cache, w))
           | Inr v \<Rightarrow>
               if 0 < ens_ttl opt then
                 let (now, w1) = clock w in (Inr v, (cache_put (ens_key name key) v (now + ens_ttl opt) cache, w1))
               else (Inr v, (cache, w))))"

definition is_hash :: "string \<Rightarrow> bool" where
  "is_hash v = (length v = 66 \<and> take 2 v = ''0x'' \<and> list_all is_hex_digit (drop 2 v))"

definition record_error :: "string \<Rightarrow> string \<Rightarrow> string \<Rightarrow> string \<Rightarrow> js_error" where
  "record_error name key expected v = ENSRecordError name key (''expected '' @ expected @ '', got '' @ print_json (JStr v))"

definition ens_resolvePolicyHash :: "ENSIdentityOptions \<Rightarrow> ('w \<Rightarrow> int \<times> 'w) \<Rightarrow> string \<Rightarrow> ('w ens_world, Hex) io" where
  "ens_resolvePolicyHash opt clock name =
     bind_io (ens_text opt clock name ENS_KEY_POLICY) (\<lambda>value.
       if \<not> is_hash value then throw_io (record_error name ENS_KEY_POLICY ''a 32-byte hash'' value)
       else return_io (toLowerCase value))"

definition ens_resolveHook :: "ENSIdentityOptions \<Rightarrow> ('w \<Rightarrow> int \<times> 'w) \<Rightarrow> string \<Rightarrow> ('w ens_world, Address) io" where
  "ens_resolveHook opt clock name =
     bind_io (ens_text opt clock name ENS_KEY_HOOK) (\<lambda>value.
       case normalizeAddress value of
         Inr a \<Rightarrow> return_io a
       | Inl _ \<Rightarrow> throw_io (record_error name ENS_KEY_HOOK ''an address'' value))"

definition ens_resolveStatus :: "ENSIdentityOptions \<Rightarrow> ('w \<Rightarrow> int \<times> 'w) \<Rightarrow> string \<Rightarrow> ('w ens_world, string) io" where
  "ens_resolveStatus opt clock name =
     bind_io (ens_text opt clock name ENS_KEY_STATUS) (\<lambda>value. return_io (if value = [] then ''active'' else value))"

definition ens_resolveAccount :: "ENSIdentityOptions \<Rightarrow> string \<Rightarrow> ('w ens_world, Address) io" where
  "ens_resolveAccount opt name =
     lift_io (bindR (universalResolve opt name (ADDR_SELECTOR @ drop 2 (namehash name))) (\<lambda>returned.
       let word = drop (length returned - 64) returned in normalizeAddress (''0x'' @ drop 24 word)))"

definition ens_identity :: "ENSIdentityOptions \<Rightarrow> ('w \<Rightarrow> int \<times> 'w) \<Rightarrow> 'w ens_world IdentityProvider" where
  "ens_identity opt clock =
     \<lparr>ip_resolvePolicyHash = ens_resolvePolicyHash opt clock, ip_resolveAccount = ens_resolveAccount opt,
      ip_resolveHook = ens_resolveHook opt clock, ip_resolveStatus = ens_resolveStatus opt clock\<rparr>"

section \<open>Lemmas\<close>

lemma length_TEXT_SELECTOR: "length TEXT_SELECTOR = 10"
  by (simp add: TEXT_SELECTOR_def js_slice_def keccak256_def bytesToHex_def length_concat_byte_hex)

lemma utf8_decode_char: "utf8_decode (utf8_char c @ bs) = c # utf8_decode bs"
proof -
  define n where "n = (of_char c :: nat)"
  have n: "n < 256" "char_of n = c" by (simp_all add: n_def)
  show ?thesis
  proof (cases "n < 128")
    case True
    have "unat (word_of_nat n :: byte) = n" using True by (simp add: unat_of_nat take_bit_nat_eq_self)
    moreover from this have "(word_of_nat n :: byte) < 128" using True by (simp add: word_less_nat_alt)
    ultimately show ?thesis using True n by (cases bs) (auto simp: utf8_char_def n_def [symmetric] Let_def)
  next
    case False
    then have d: "n div 64 = 2 \<or> n div 64 = 3" using n(1) by linarith
    let ?b = "word_of_nat (192 + n div 64) :: byte" and ?c = "word_of_nat (128 + n mod 64) :: byte"
    have u: "unat ?b = 192 + n div 64" "unat ?c = 128 + n mod 64"
      using n(1) by (simp_all add: unat_of_nat take_bit_nat_eq_self del: of_nat_add)
    then have "\<not> ?b < 128" "?b = 0xC2 \<or> ?b = 0xC3" "128 \<le> ?c" "?c < 192"
      using d by (auto simp: word_less_nat_alt word_le_nat_alt simp del: of_nat_add)
    moreover have "(unat ?b - 192) * 64 + (unat ?c - 128) = n" using u by simp
    ultimately show ?thesis
      using False n(2) by (simp add: utf8_char_def n_def [symmetric] Let_def del: of_nat_add)
  qed
qed

lemma utf8_decode_encode: "utf8_decode (utf8 s) = s"
proof (induction s)
  case (Cons c s)
  then show ?case using utf8_decode_char [of c "utf8 s"] by (simp add: utf8_def)
qed (simp add: utf8_def)

lemma utf8_no_bom: "take 3 (utf8 s) \<noteq> [0xEF, 0xBB, 0xBF]"
proof (cases s)
  case (Cons c r)
  define n where "n = (of_char c :: nat)"
  have n: "n < 256" by (simp add: n_def)
  obtain b bs where b: "utf8 s = b # bs" "unat b \<le> 195"
  proof (cases "n < 128")
    case True
    then show ?thesis
      using that [of "word_of_nat n" "utf8 r"] Cons
      by (simp add: utf8_def utf8_char_def n_def [symmetric] Let_def unat_of_nat take_bit_nat_eq_self)
  next
    case False
    have "unat (word_of_nat (192 + n div 64) :: byte) = 192 + n div 64" "n div 64 \<le> 3"
      using n by (simp_all add: unat_of_nat take_bit_nat_eq_self del: of_nat_add)
    then show ?thesis
      using that [of "word_of_nat (192 + n div 64)" "word_of_nat (128 + n mod 64) # utf8 r"] Cons False
      by (simp add: utf8_def utf8_char_def n_def [symmetric] Let_def del: of_nat_add)
  qed
  then have "b \<noteq> 0xEF" by auto
  with b(1) show ?thesis by simp
qed (simp add: utf8_def)

lemma text_decode_encode: "text_decode (utf8 s) = s"
  by (simp add: text_decode_def utf8_no_bom utf8_decode_encode)

text \<open>The ABI encoding of a string and of the resolver's answer \<^verbatim>\<open>(bytes result, address resolver)\<close>.\<close>

definition abi_bytes :: "byte list \<Rightarrow> string" where
  "abi_bytes bs = abi_word (int (length bs)) @ padBytes (concat (map byte_hex bs))"

definition text_result :: "string \<Rightarrow> string" where
  "text_result v = abi_word 32 @ abi_bytes (utf8 v)"

definition resolver_reply :: "Address \<Rightarrow> string \<Rightarrow> Hex" where
  "resolver_reply resolver hexBody =
     ''0x'' @ abi_word 64 @ abi_word (address_value resolver) @ abi_word (int (length hexBody div 2)) @ hexBody"

lemma slice_bytes: "i < length bs \<Longrightarrow>
    parse_byte (js_slice (concat (map byte_hex bs)) (i * 2) (i * 2 + 2)) = bs ! i"
proof (induction bs arbitrary: i)
  case (Cons b bs)
  then show ?case
    by (cases i) (auto simp: js_slice_append_left js_slice_append_right js_slice_full)
qed simp

lemma decodeString_text:
  assumes "length (utf8 v) \<le> MAX_TYPED_ARRAY"
  shows "decodeString (text_result v) = Inr v"
proof -
  let ?bs = "utf8 v" and ?h = "concat (map byte_hex (utf8 v))"
  obtain k where pad: "padBytes ?h = ?h @ replicate k (CHR ''0'')" using padBytes_split by blast
  have u: "uint256 32" "uint256 (int (length ?bs))"
    using assms by (auto simp: uint256_def UINT256_MAX_def MAX_TYPED_ARRAY_def)
  then have w: "list_all uint256 [32, int (length ?bs)]" by simp
  have r: "text_result v = concat (map abi_word [32, int (length ?bs)]) @ padBytes ?h"
    by (simp add: text_result_def abi_bytes_def)
  have s0: "js_slice (text_result v) 0 64 = abi_word 32" and s1: "js_slice (text_result v) 64 128 = abi_word (int (length ?bs))"
    using slice_words [OF w, of 0 "padBytes ?h"] slice_words [OF w, of 1 "padBytes ?h"] unfolding r by simp_all
  have l: "length (abi_word 32) = 64" "length (abi_word (int (length ?bs))) = 64"
    using u by (simp_all add: length_abi_word)
  then have body: "js_slice (text_result v) 128 (128 + length ?bs * 2) = ?h"
    using js_slice_mid [of "abi_word 32 @ abi_word (int (length ?bs))" 128 ?h "length ?bs * 2"]
    by (simp add: text_result_def abi_bytes_def pad length_concat_byte_hex)
  have m: "map (\<lambda>i. parse_byte (js_slice ?h (i * 2) (i * 2 + 2))) [0..<length ?bs] = ?bs"
    by (rule nth_equalityI) (simp_all add: slice_bytes [simplified])
  have "text_result v \<noteq> []" using l by (auto simp: text_result_def)
  then show ?thesis
    using s0 s1 body m u assms by (simp add: decodeString_def text_decode_encode)
qed

lemma universalResolve_reply:
  assumes "dnsEncode name = Inr dns" and "cr_call (en_chain opt) (en_universalResolver opt) (encodeResolveCall dns inner) =
      Inr (resolver_reply resolver hexBody)"
    and "is_address resolver" and "even (length hexBody)" and "uint256 (int (length hexBody div 2))"
  shows "universalResolve opt name inner = Inr hexBody"
proof -
  let ?ws = "[64, address_value resolver, int (length hexBody div 2)]"
  have w: "list_all uint256 ?ws" using assms(3,5) by (simp add: uint256_small)
  have r: "drop 2 (resolver_reply resolver hexBody) = concat (map abi_word ?ws) @ hexBody"
    by (simp add: resolver_reply_def)
  have s: "js_slice (drop 2 (resolver_reply resolver hexBody)) 0 64 = abi_word 64"
    "js_slice (drop 2 (resolver_reply resolver hexBody)) 128 192 = abi_word (int (length hexBody div 2))"
    using slice_words [OF w, of 0 hexBody] slice_words [OF w, of 2 hexBody] unfolding r by simp_all
  have l: "length (concat (map abi_word ?ws)) = 192" using length_concat_abi_word [OF w] by simp
  have b: "js_slice (drop 2 (resolver_reply resolver hexBody)) 192 (192 + length hexBody) = hexBody"
    unfolding r using l js_slice_append_right [of "concat (map abi_word ?ws)" 192 hexBody] by (simp add: js_slice_full)
  have "length (resolver_reply resolver hexBody) \<ge> 194" using l by (simp add: resolver_reply_def)
  then have "resolver_reply resolver hexBody \<noteq> ''0x''" by auto
  with assms(1,2,4,5) s b show ?thesis
    by (simp add: universalResolve_def Let_def uint256_small)
qed

lemma text_result_size:
  assumes "length (utf8 v) \<le> MAX_TYPED_ARRAY"
  shows "even (length (text_result v))" "uint256 (int (length (text_result v) div 2))"
proof -
  have u: "uint256 32" "uint256 (int (length (utf8 v)))"
    using assms by (auto simp: uint256_def UINT256_MAX_def MAX_TYPED_ARRAY_def)
  have l: "length (text_result v) = 128 + ((2 * length (utf8 v) + 63) div 64) * 64"
    using u by (simp add: text_result_def abi_bytes_def length_padBytes length_concat_byte_hex)
  then show "even (length (text_result v))" by simp
  have "length (text_result v) div 2 < 2 ^ 64" using assms l by (simp add: MAX_TYPED_ARRAY_def)
  then show "uint256 (int (length (text_result v) div 2))" by (intro uint256_small) auto
qed

text \<open>The chain publishes the text records \<open>rec\<close> of a name.\<close>

definition publishes :: "ENSIdentityOptions \<Rightarrow> string \<Rightarrow> (string \<Rightarrow> string) \<Rightarrow> bool" where
  "publishes opt name rec \<longleftrightarrow>
     (\<exists>dns resolver. dnsEncode name = Inr dns \<and> is_address resolver \<and>
        (\<forall>key. length (utf8 (rec key)) \<le> MAX_TYPED_ARRAY \<and>
           cr_call (en_chain opt) (en_universalResolver opt) (encodeResolveCall dns (encodeText (namehash name) key)) =
             Inr (resolver_reply resolver (text_result (rec key)))))"

lemma publishes_read:
  assumes "publishes opt name rec"
  shows "bindR (universalResolve opt name (encodeText (namehash name) key)) decodeString = Inr (rec key)"
proof -
  obtain dns resolver where "dnsEncode name = Inr dns" "is_address resolver" "length (utf8 (rec key)) \<le> MAX_TYPED_ARRAY"
    "cr_call (en_chain opt) (en_universalResolver opt) (encodeResolveCall dns (encodeText (namehash name) key)) =
       Inr (resolver_reply resolver (text_result (rec key)))"
    using assms by (auto simp: publishes_def)
  then show ?thesis
    using universalResolve_reply text_result_size decodeString_text by simp
qed

text \<open>A cache is sound for the records when every entry of the name holds the published value.\<close>

definition cache_sound :: "string \<Rightarrow> (string \<Rightarrow> string) \<Rightarrow> string cache \<Rightarrow> bool" where
  "cache_sound name rec cache \<longleftrightarrow> (\<forall>key v e. map_of cache (ens_key name key) = Some (v, e) \<longrightarrow> v = rec key)"

lemma ens_text_published:
  assumes "publishes opt name rec" and "cache_sound name rec cache"
  shows "\<exists>cache' w'. ens_text opt clock name key (cache, w) = (Inr (rec key), (cache', w')) \<and> cache_sound name rec cache'"
proof -
  obtain hit s where Pair: "ens_cached opt clock (ens_key name key) (cache, w) = (hit, s)"
    by (cases "ens_cached opt clock (ens_key name key) (cache, w)")
  obtain w1 where s: "s = (cache, w1)" and hit: "hit = None \<or> hit = Some (rec key)"
    using Pair assms(2)
    by (auto simp: ens_cached_def cache_sound_def Let_def split: option.splits prod.splits if_splits)
  obtain now w2 where t: "clock w1 = (now, w2)" by fastforce
  have "cache_sound name rec (cache_put (ens_key name key) (rec key) e cache)" for e
    using assms(2) by (auto simp: cache_sound_def cache_put_def update_conv' ens_key_def split: if_splits)
  with hit s t Pair assms publishes_read [OF assms(1), of key] show ?thesis
    by (auto simp: ens_text_def)
qed

lemma ens_resolves_published_cold:
  assumes "publishes opt name rec" and "cache_sound name rec cache"
  obtains c1 w1 where "cache_sound name rec c1"
    and "ens_resolvePolicyHash opt clock name (cache, w) =
       (if is_hash (rec ENS_KEY_POLICY) then Inr (toLowerCase (rec ENS_KEY_POLICY))
        else Inl (record_error name ENS_KEY_POLICY ''a 32-byte hash'' (rec ENS_KEY_POLICY)), (c1, w1))"
proof -
  obtain c1 w1 where "ens_text opt clock name ENS_KEY_POLICY (cache, w) = (Inr (rec ENS_KEY_POLICY), (c1, w1))"
    "cache_sound name rec c1"
    using ens_text_published [OF assms, of clock ENS_KEY_POLICY w] by auto
  then show ?thesis by (intro that [of c1 w1]) (simp_all add: ens_resolvePolicyHash_def bind_io_def)
qed

section \<open>Properties\<close>

text \<open>
  What the name publishes is what the SDK reads: with the Universal Resolver answering for the name in the
  ABI encoding, each lookup decodes to the published record and validates it (a policy record must be a
  32-byte hash, a hook record an address, a missing status means active), and leaves a cache from which
  later lookups give the same answers.
\<close>

theorem ens_resolves_published:
  assumes "publishes opt name rec" and "cache_sound name rec cache"
  shows "\<exists>c1 c2 c3 w1 w2 w3. cache_sound name rec c1 \<and> cache_sound name rec c2 \<and> cache_sound name rec c3 \<and>
     ens_resolvePolicyHash opt clock name (cache, w) =
       (if is_hash (rec ENS_KEY_POLICY) then Inr (toLowerCase (rec ENS_KEY_POLICY))
        else Inl (record_error name ENS_KEY_POLICY ''a 32-byte hash'' (rec ENS_KEY_POLICY)), (c1, w1)) \<and>
     ens_resolveHook opt clock name (cache, w) =
       (if is_address (rec ENS_KEY_HOOK) then Inr (toLowerCase (rec ENS_KEY_HOOK))
        else Inl (record_error name ENS_KEY_HOOK ''an address'' (rec ENS_KEY_HOOK)), (c2, w2)) \<and>
     ens_resolveStatus opt clock name (cache, w) =
       (Inr (if rec ENS_KEY_STATUS = [] then ''active'' else rec ENS_KEY_STATUS), (c3, w3))"
proof -
  note read = ens_text_published [OF assms, of clock _ w]
  obtain c1 w1 c2 w2 c3 w3 where
    "ens_text opt clock name ENS_KEY_POLICY (cache, w) = (Inr (rec ENS_KEY_POLICY), (c1, w1))" "cache_sound name rec c1"
    "ens_text opt clock name ENS_KEY_HOOK (cache, w) = (Inr (rec ENS_KEY_HOOK), (c2, w2))" "cache_sound name rec c2"
    "ens_text opt clock name ENS_KEY_STATUS (cache, w) = (Inr (rec ENS_KEY_STATUS), (c3, w3))" "cache_sound name rec c3"
    using read [of ENS_KEY_POLICY] read [of ENS_KEY_HOOK] read [of ENS_KEY_STATUS] by blast
  then show ?thesis
    by (intro exI [of _ c1] exI [of _ c2] exI [of _ c3] exI [of _ w1] exI [of _ w2] exI [of _ w3])
      (simp add: ens_resolvePolicyHash_def ens_resolveHook_def ens_resolveStatus_def bind_io_def normalizeAddress_def)
qed

text \<open>
  (C10) An agent whose public name does not commit to its policy does not start: with the ENS provider
  configured, start-up succeeds only if the published policy record is the hash of the very document that
  was loaded and the published status is active or absent.
\<close>

theorem start_requires_published_policy:
  assumes "createAgentProof pt config (cache, w) = (Inr ap, s')" and "cf_identity config = Some (ens_identity opt clock)"
    and "publishes opt (doc_agent (rp_document (ap_policy ap))) rec"
    and "cache_sound (doc_agent (rp_document (ap_policy ap))) rec cache"
  shows "is_hash (rec ENS_KEY_POLICY) \<and>
    toLowerCase (rec ENS_KEY_POLICY) = toLowerCase (policyHash (rp_document (ap_policy ap))) \<and>
    rec ENS_KEY_STATUS \<in> {[], ''active''}"
proof -
  let ?n = "doc_agent (rp_document (ap_policy ap))"
  obtain d where d: "resolvePolicy d = Inr (ap_policy ap)"
    and c: "check_identity config (ap_policy ap) (cache, w) = (Inr (), s')"
    using assms(1) by (rule createAgentProof_Inr)
  note f = resolvePolicy_fields [OF d]
  obtain published s1 where p: "ens_resolvePolicyHash opt clock ?n (cache, w) = (Inr published, s1)"
    "toLowerCase published = toLowerCase (rp_hash (ap_policy ap))"
    and st: "ens_resolveStatus opt clock ?n s1 = (Inr ''active'', s')"
    using c assms(2) by (auto simp: check_identity_def Let_def io_inversion ens_identity_def split: if_splits)
  obtain c1 w1 where r: "ens_text opt clock ?n ENS_KEY_POLICY (cache, w) = (Inr (rec ENS_KEY_POLICY), (c1, w1))"
    "cache_sound ?n rec c1"
    using ens_text_published [OF assms(3,4), of clock ENS_KEY_POLICY w] by auto
  with p have h: "is_hash (rec ENS_KEY_POLICY)" "published = toLowerCase (rec ENS_KEY_POLICY)" "s1 = (c1, w1)"
    by (auto simp: ens_resolvePolicyHash_def bind_io_def split: if_splits)
  obtain c2 w2 where "ens_text opt clock ?n ENS_KEY_STATUS (c1, w1) = (Inr (rec ENS_KEY_STATUS), (c2, w2))"
    using ens_text_published [OF assms(3) r(2), of clock ENS_KEY_STATUS w1] by auto
  with st h(3) have "rec ENS_KEY_STATUS \<in> {[], ''active''}"
    by (auto simp: ens_resolveStatus_def bind_io_def split: if_splits)
  with h p(2) f show ?thesis by (metis toLowerCase_idem)
qed

section \<open>Witnesses\<close>

lemma is_hash_keccak: "is_hash (keccak256 s)"
  using hex_digit_concat_byte_hex [of "keccak256Bytes (utf8 s)"]
  by (simp add: is_hash_def keccak256_def bytesToHex_def length_concat_byte_hex)

lemma length_utf8: "length (utf8 s) \<le> 2 * length s"
  by (induction s) (auto simp: utf8_def utf8_char_def Let_def)

definition sample_name :: string where "sample_name = doc_agent sample_document"

lemma sample_dns: "\<exists>dns. dnsEncode sample_name = Inr dns"
proof -
  have "splitOn (CHR ''.'') sample_name = [''trader'', ''eth'']"
    by (simp add: sample_name_def sample_document_def)
  moreover have "length (utf8 ''trader'') \<le> 63" "length (utf8 ''eth'') \<le> 63"
    using length_utf8 [of "''trader''"] length_utf8 [of "''eth''"] by simp_all
  ultimately show ?thesis by (simp add: dnsEncode_def Let_def)
qed

lemma padEnd_inj: "length x = length y \<Longrightarrow> padEnd n c x = padEnd n c y \<longleftrightarrow> x = y"
  by (simp add: padEnd_def)

text \<open>The two keys the witness needs lead to different calls.\<close>

lemma sample_calls_differ:
  "encodeResolveCall dns (encodeText node ENS_KEY_POLICY) \<noteq> encodeResolveCall dns (encodeText node ENS_KEY_STATUS)"
proof -
  let ?p = "concat (map byte_hex (utf8 ENS_KEY_POLICY))" and ?s = "concat (map byte_hex (utf8 ENS_KEY_STATUS))"
  have u: "utf8 ENS_KEY_POLICY = [97,103,101,110,116,112,114,111,111,102,46,112,111,108,105,99,121]"
    "utf8 ENS_KEY_STATUS = [97,103,101,110,116,112,114,111,111,102,46,115,116,97,116,117,115]"
    by code_simp+
  then have l: "length (utf8 ENS_KEY_POLICY) = 17" "length (utf8 ENS_KEY_STATUS) = 17" by simp_all
  have "?p \<noteq> ?s"
  proof
    assume "?p = ?s"
    then have "pairs_to_bytes ?p = pairs_to_bytes ?s" by simp
    then have "utf8 ENS_KEY_POLICY = utf8 ENS_KEY_STATUS" by (simp only: pairs_to_bytes_hex)
    then show False using u by simp
  qed
  then have ne: "encodeText node ENS_KEY_POLICY \<noteq> encodeText node ENS_KEY_STATUS"
    using l by (simp add: encodeText_def padEnd_inj length_concat_byte_hex)
  have len: "length (encodeText node ENS_KEY_POLICY) = length (encodeText node ENS_KEY_STATUS)"
    using l by (simp add: encodeText_def length_padEnd length_concat_byte_hex)
  have pre: "take 2 (encodeText node k) = take 2 TEXT_SELECTOR" for k
    using length_TEXT_SELECTOR by (simp add: encodeText_def Let_def)
  have "drop 2 (encodeText node ENS_KEY_POLICY) \<noteq> drop 2 (encodeText node ENS_KEY_STATUS)"
    using ne pre by (metis append_take_drop_id)
  then show ?thesis using len by (simp add: encodeResolveCall_def Let_def padEnd_inj)
qed

definition sample_record_of :: "Hex \<Rightarrow> string \<Rightarrow> string" where
  "sample_record_of dns key =
     (if encodeResolveCall dns (encodeText (namehash sample_name) key) =
         encodeResolveCall dns (encodeText (namehash sample_name) ENS_KEY_STATUS) then []
      else policyHash sample_document)"

definition sample_ens :: "Hex \<Rightarrow> ENSIdentityOptions" where
  "sample_ens dns = \<lparr>en_chain = (sample_chain [])\<lparr>cr_call := (\<lambda>_ d. Inr (resolver_reply sample_router (text_result
       (if d = encodeResolveCall dns (encodeText (namehash sample_name) ENS_KEY_STATUS) then []
        else policyHash sample_document))))\<rparr>, en_universalResolver = sample_router, en_ttlMs = None\<rparr>"

lemma sample_publishes:
  assumes "dnsEncode sample_name = Inr dns"
  shows "publishes (sample_ens dns) sample_name (sample_record_of dns)"
    and "sample_record_of dns ENS_KEY_POLICY = policyHash sample_document" and "sample_record_of dns ENS_KEY_STATUS = []"
proof -
  have "length (policyHash sample_document) = 66"
    using is_hash_keccak by (simp add: policyHash_def is_hash_def)
  then have "length (utf8 (policyHash sample_document)) \<le> MAX_TYPED_ARRAY"
    using length_utf8 [of "policyHash sample_document"] by (simp add: MAX_TYPED_ARRAY_def)
  moreover have "length (utf8 []) \<le> MAX_TYPED_ARRAY" by (simp add: utf8_def)
  ultimately show "publishes (sample_ens dns) sample_name (sample_record_of dns)"
    using assms sample_wf unfolding publishes_def
    by (intro exI [of _ dns] exI [of _ sample_router]) (simp add: sample_ens_def sample_record_of_def)
  show "sample_record_of dns ENS_KEY_POLICY = policyHash sample_document" "sample_record_of dns ENS_KEY_STATUS = []"
    using sample_calls_differ by (simp_all add: sample_record_of_def)
qed

theorem ens_resolves_published_witness:
  "\<exists>opt s'. ens_resolvePolicyHash opt (\<lambda>w. (0, w)) sample_name ([], ()) = (Inr (toLowerCase (policyHash sample_document)), s')"
proof -
  obtain dns where dns: "dnsEncode sample_name = Inr dns" using sample_dns ..
  have "cache_sound sample_name (sample_record_of dns) []" by (simp add: cache_sound_def)
  moreover have "is_hash (policyHash sample_document)" using is_hash_keccak by (simp add: policyHash_def)
  ultimately show ?thesis
    using ens_resolves_published [OF sample_publishes(1) [OF dns], of "[]" "\<lambda>w. (0, w)" "()"] sample_publishes(2,3) [OF dns]
    by auto
qed

definition sample_ens_config :: "Hex \<Rightarrow> (unit ens_world) AgentProofConfig" where
  "sample_ens_config dns = \<lparr>cf_policy = Inl sample_document,
     cf_state = \<lparr>sp_getDailySpend = (\<lambda>_ _. return_io 0), sp_getBalance = (\<lambda>_ _. return_io 0),
       sp_recordExecution = (\<lambda>_ _ _. return_io ())\<rparr>,
     cf_identity = Some (ens_identity (sample_ens dns) (\<lambda>w. (0, w))),
     cf_approver = None, cf_enforcement = None, cf_decoders = None, cf_proofs = None,
     cf_clock = (\<lambda>w. (0, w)), cf_allowUnknownSelectors = False, cf_onDecision = None, cf_onAuditRecord = None\<rparr>"

definition sample_ens_platform :: "(unit ens_world) Platform" where
  "sample_ens_platform = \<lparr>pt_readPolicy = (\<lambda>_. Inr sample_document), pt_proofFiles = (\<lambda>_. Inr []),
     pt_parseProof = (\<lambda>_. Inr sample_proof), pt_proofSummary = (\<lambda>_. Inr None), pt_salt = ''0x'',
     pt_dateNow = (\<lambda>w. (0, w))\<rparr>"

theorem start_requires_published_policy_witness:
  "\<exists>dns ap s'. dnsEncode sample_name = Inr dns \<and>
     createAgentProof sample_ens_platform (sample_ens_config dns) ([], ()) = (Inr ap, s') \<and>
     is_hash (sample_record_of dns ENS_KEY_POLICY)"
proof -
  obtain dns where dns: "dnsEncode sample_name = Inr dns" using sample_dns ..
  let ?opt = "sample_ens dns" and ?clock = "\<lambda>w :: unit. (0 :: int, w)"
  note pub = sample_publishes [OF dns]
  have sound: "cache_sound sample_name (sample_record_of dns) []" by (simp add: cache_sound_def)
  have n: "doc_agent (rp_document sample_policy) = sample_name"
    by (simp add: sample_policy_def sample_name_def)
  have h: "is_hash (policyHash sample_document)" using is_hash_keccak by (simp add: policyHash_def)
  obtain c1 w1 where a: "ens_resolvePolicyHash ?opt ?clock sample_name ([], ()) =
      (Inr (toLowerCase (policyHash sample_document)), (c1, w1))" "cache_sound sample_name (sample_record_of dns) c1"
    using ens_resolves_published_cold [OF pub(1) sound, of ?clock "()"] pub h by auto
  obtain c2 w2 where b: "ens_resolveStatus ?opt ?clock sample_name (c1, w1) = (Inr ''active'', (c2, w2))"
    using ens_text_published [OF pub(1) a(2), of ?clock ENS_KEY_STATUS w1] pub(3)
    by (auto simp: ens_resolveStatus_def bind_io_def)
  have "check_identity (sample_ens_config dns) sample_policy ([], ()) = (Inr (), (c2, w2))"
    using a(1) b n by (simp add: check_identity_def sample_ens_config_def ens_identity_def bind_io_def)
      (simp add: sample_policy_def)
  moreover have cfg: "cf_policy (sample_ens_config dns) = Inl sample_document" "cf_proofs (sample_ens_config dns) = None"
    "cf_decoders (sample_ens_config dns) = None" "cf_enforcement (sample_ens_config dns) = None"
    by (simp_all add: sample_ens_config_def)
  ultimately obtain ap where ap: "createAgentProof sample_ens_platform (sample_ens_config dns) ([], ()) = (Inr ap, (c2, w2))"
    "ap_policy ap = sample_policy"
    using cfg by (simp add: createAgentProof_def bind_io_def sample_policy_resolves createDefaultRegistry_eq check_hook_def
        make_enforcer_def load_registry_def)
  have "cf_identity (sample_ens_config dns) = Some (ens_identity ?opt ?clock)" by (simp add: sample_ens_config_def)
  from start_requires_published_policy [OF ap(1) this, of "sample_record_of dns"] show ?thesis
    using dns ap pub(1) sound n by auto
qed

end
