(* ===== verification/Adapters.thy ===== *)
theory Adapters
  imports X402 Identity
begin

text \<open>
  \<^verbatim>\<open>packages/sdk/src/adapters/\<close>: the JSON-RPC chain reader, the two executors and the viem-backed signer.

  The network is a parameter: \<open>fetch\<close> posts a JSON body and answers with a status and a body. Timers only pass
  time, so waiting two seconds is an operation \<open>sleep\<close> on the world; the abort of a slow request is a fetch that
  throws.
\<close>

section \<open>JSON-RPC\<close>

text \<open>The body of a reply: \<^verbatim>\<open>result\<close> (\<open>JUndefined\<close> when absent) and \<^verbatim>\<open>error\<close> with its message.\<close>

record RpcReply =
  rr_status :: nat
  rr_result :: json
  rr_error :: "string option"

definition response_ok :: "nat \<Rightarrow> bool" where
  "response_ok status = (200 \<le> status \<and> status < 300)"

definition rpc_request :: "nat \<Rightarrow> string \<Rightarrow> json list \<Rightarrow> json" where
  "rpc_request i method params = JObj
     [(''jsonrpc'', JStr ''2.0''), (''id'', JNum (int i)), (''method'', JStr method), (''params'', JArr params)]"

record 'w JsonRpcChainReader =
  jr_url :: string
  jr_chainId :: int
  jr_fetch :: "string \<Rightarrow> json \<Rightarrow> ('w, RpcReply) io"

text \<open>The reader's own state is the next request id; it is spent even when the request fails.\<close>

type_synonym 'w rpc_world = "nat \<times> 'w"

definition reader_rpc :: "'w JsonRpcChainReader \<Rightarrow> string \<Rightarrow> json list \<Rightarrow> ('w rpc_world, json) io" where
  "reader_rpc r method params = (\<lambda>(nextId, w).
     case jr_fetch r (jr_url r) (rpc_request nextId method params) w of
       (Inl e, w') \<Rightarrow> (Inl e, (nextId + 1, w'))
     | (Inr response, w') \<Rightarrow>
         (if \<not> response_ok (rr_status response) then
            Inl (ErrorMessage (''RPC '' @ method @ '' returned HTTP '' @ to_dec (rr_status response)))
          else (case rr_error response of
              Some message \<Rightarrow> Inl (ErrorMessage (method @ '': '' @ message))
            | None \<Rightarrow> Inr (rr_result response)), (nextId + 1, w')))"

text \<open>A result used as a hex string; every use of one that is not a string throws.\<close>

definition as_hex :: "json \<Rightarrow> Hex result" where
  "as_hex j = (case j of JStr s \<Rightarrow> Inr s | _ \<Rightarrow> Inl TypeErrorUndefined)"

definition reader_call :: "'w JsonRpcChainReader \<Rightarrow> Address \<Rightarrow> Hex \<Rightarrow> ('w rpc_world, Hex) io" where
  "reader_call r to data =
     bind_io (reader_rpc r ''eth_call'' [JObj [(''to'', JStr to), (''data'', JStr data)], JStr ''latest''])
       (\<lambda>j. lift_io (as_hex j))"

definition BALANCE_OF :: string where
  "BALANCE_OF = js_slice (keccak256 ''balanceOf(address)'') 0 10"

definition reader_getErc20Balance :: "'w JsonRpcChainReader \<Rightarrow> Address \<Rightarrow> Address \<Rightarrow> ('w rpc_world, int) io" where
  "reader_getErc20Balance r asset account =
     bind_io (reader_call r asset (BALANCE_OF @ padStart 64 (CHR ''0'') (toLowerCase (drop 2 account)))) (\<lambda>raw.
       lift_io (if raw = ''0x'' then Inr 0 else bigint_of_string raw))"

definition reader_getBlockTimestamp :: "'w JsonRpcChainReader \<Rightarrow> ('w rpc_world, int) io" where
  "reader_getBlockTimestamp r =
     bind_io (reader_rpc r ''eth_getBlockByNumber'' [JStr ''latest'', JBool False]) (\<lambda>block.
       lift_io (case block of
           JObj es \<Rightarrow> bindR (as_hex (or_else (map_of es ''timestamp'') JUndefined)) bigint_of_string
         | _ \<Rightarrow> Inl TypeErrorUndefined))"

definition assertChainId :: "'w JsonRpcChainReader \<Rightarrow> ('w rpc_world, unit) io" where
  "assertChainId r =
     bind_io (reader_rpc r ''eth_chainId'' []) (\<lambda>j. lift_io (
       bindR (as_hex j) (\<lambda>s. bindR (bigint_of_string s) (\<lambda>actual.
         if actual \<noteq> jr_chainId r then
           Inl (ErrorMessage (''RPC endpoint is chain '' @ bigint_to_string actual @ '' but this SDK is configured for '' @
             bigint_to_string (jr_chainId r) @ ''. Refusing to evaluate policy against the wrong chain.''))
         else Inr ()))))"

section \<open>Executors\<close>

record TxRequest =
  tx_to :: Address
  tx_data :: Hex
  tx_value :: int

record 'w Signer =
  sg_address :: Address
  sg_sendTransaction :: "TxRequest \<Rightarrow> ('w, Hex) io"

record 'w EoaExecutor =
  eo_account :: Address
  eo_agentSigner :: "'w Signer"
  eo_ownerSigner :: "'w Signer option"

definition eoa_dispatch :: "'w EoaExecutor \<Rightarrow> 'w Signer \<Rightarrow> UserOperationRequest \<Rightarrow> ('w, Hex) io" where
  "eoa_dispatch x signer request =
     bind_io (lift_io (executor_encodeErc7579Execute (uo_to request) (uo_value request) (uo_data request))) (\<lambda>data.
       sg_sendTransaction signer \<lparr>tx_to = eo_account x, tx_data = data, tx_value = 0\<rparr>)"

definition eoa_send :: "'w EoaExecutor \<Rightarrow> UserOperationRequest \<Rightarrow> ('w, Hex) io" where
  "eoa_send x request = eoa_dispatch x (eo_agentSigner x) request"

definition eoa_sendAsOwner :: "'w EoaExecutor \<Rightarrow> UserOperationRequest \<Rightarrow> ('w, Hex) io" where
  "eoa_sendAsOwner x request =
     (case eo_ownerSigner x of
        None \<Rightarrow> throw_io NoOwnerExecutor
      | Some signer \<Rightarrow> eoa_dispatch x signer request)"

definition eoa_executor :: "'w EoaExecutor \<Rightarrow> 'w Executor" where
  "eoa_executor x = \<lparr>ex_send = eoa_send x, ex_sendAsOwner = Some (\<lambda>request signature. eoa_sendAsOwner x request)\<rparr>"

subsection \<open>BundlerExecutor\<close>

definition ENTRY_POINT_V07 :: Address where
  "ENTRY_POINT_V07 = ''0x0000000071727de22e5e9d8baf0edac6f37da032''"

record 'w BundlerExecutor =
  be_account :: Address
  be_bundlerUrl :: string
  be_entryPoint :: Address
  be_signUserOpHash :: "Hex \<Rightarrow> ('w, Hex) io"
  be_validator :: "Address option"
  be_chain :: "ChainReader option"
  be_fetch :: "string \<Rightarrow> json \<Rightarrow> ('w, RpcReply) io"
  be_sleep :: "'w \<Rightarrow> 'w" \<comment> \<open>two seconds pass\<close>

text \<open>\<^verbatim>\<open>.catch(handler)\<close> of a promise.\<close>

definition catch_io :: "('w, 'a) io \<Rightarrow> (js_error \<Rightarrow> ('w, 'a) io) \<Rightarrow> ('w, 'a) io" where
  "catch_io m h w = (case m w of (Inl e, w') \<Rightarrow> h e w' | (Inr x, w') \<Rightarrow> (Inr x, w'))"

text \<open>This client does not look at the HTTP status.\<close>

definition bundler_rpc :: "'w BundlerExecutor \<Rightarrow> string \<Rightarrow> json list \<Rightarrow> ('w, json) io" where
  "bundler_rpc b method params =
     bind_io (be_fetch b (be_bundlerUrl b) (rpc_request 1 method params)) (\<lambda>body.
       case rr_error body of Some message \<Rightarrow> throw_io (ErrorMessage message) | None \<Rightarrow> return_io (rr_result body))"

definition nonce_call :: "'w BundlerExecutor \<Rightarrow> int \<Rightarrow> Hex" where
  "nonce_call b validator =
     ''0x35567e1a'' @ padStart 64 (CHR ''0'') (toLowerCase (drop 2 (be_account b))) @ abi_word (validator * 2 ^ 32)"

definition resolveNonce :: "'w BundlerExecutor \<Rightarrow> ('w, Hex) io" where
  "resolveNonce b =
     (case be_validator b of
        Some validator \<Rightarrow>
          bind_io (lift_io (bigint_of_string validator)) (\<lambda>v.
          bind_io (case be_chain b of
              Some chain \<Rightarrow> lift_io (cr_call chain (be_entryPoint b) (nonce_call b v))
            | None \<Rightarrow> bind_io (bundler_rpc b ''eth_call''
                [JObj [(''to'', JStr (be_entryPoint b)), (''data'', JStr (nonce_call b v))], JStr ''latest''])
                (\<lambda>j. lift_io (as_hex j))) (\<lambda>raw.
          bind_io (lift_io (bigint_of_string raw)) (\<lambda>n. return_io (''0x'' @ bigint_to_hex n))))
      | None \<Rightarrow>
          bind_io (catch_io (bundler_rpc b ''eth_getUserOperationNonce'' [JStr (be_account b), JStr (be_entryPoint b)])
            (\<lambda>_. return_io (JStr ''0x0''))) (\<lambda>j. lift_io (as_hex j)))"

text \<open>\<^verbatim>\<open>Object.assign\<close>: existing members keep their place, new ones are appended.\<close>

definition assign :: "(string \<times> json) list \<Rightarrow> (string \<times> json) list \<Rightarrow> (string \<times> json) list" where
  "assign target src = fold (\<lambda>(k, v) t. AList.update k v t) src target"

definition json_members :: "json \<Rightarrow> (string \<times> json) list" where
  "json_members j = (case j of JObj es \<Rightarrow> es | _ \<Rightarrow> [])"

definition initial_userOp :: "'w BundlerExecutor \<Rightarrow> Hex \<Rightarrow> Hex \<Rightarrow> (string \<times> json) list" where
  "initial_userOp b nonce callData =
     [(''sender'', JStr (be_account b)), (''nonce'', JStr nonce), (''callData'', JStr callData),
      (''callGasLimit'', JStr ''0x186a0''), (''verificationGasLimit'', JStr ''0x186a0''),
      (''preVerificationGas'', JStr ''0xc350''), (''maxFeePerGas'', JStr ''0x59682f00''),
      (''maxPriorityFeePerGas'', JStr ''0x3b9aca00''), (''signature'', JStr ''0x'')]"

text \<open>
  The poll: at most \<open>attempts\<close> requests. A reply \<^verbatim>\<open>null\<close> or a failed request means not mined yet.
\<close>

record UserOpReceipt =
  ur_success :: bool
  ur_transactionHash :: Hex
  ur_reason :: "string option"

fun waitForReceipt :: "('w \<Rightarrow> 'w) \<Rightarrow> (Hex \<Rightarrow> ('w, UserOpReceipt option) io) \<Rightarrow> Hex \<Rightarrow> nat \<Rightarrow> nat \<Rightarrow> ('w, Hex) io" where
  "waitForReceipt sleep poll opHash attempts 0 w =
     (Inl (ErrorMessage (''UserOperation '' @ opHash @ '' was not mined within '' @ to_dec (attempts * 2) @ '' seconds'')), w)"
| "waitForReceipt sleep poll opHash attempts (Suc left) w =
     (case catch_io (poll opHash) (\<lambda>_. return_io None) w of
        (Inr (Some receipt), w') \<Rightarrow>
          (if \<not> ur_success receipt then
             Inl (ErrorMessage (''UserOperation reverted on chain: '' @ or_else (ur_reason receipt) ''no reason returned''))
           else Inr (ur_transactionHash receipt), w')
      | (_, w') \<Rightarrow> waitForReceipt sleep poll opHash attempts left (sleep w'))"

text \<open>\<open>receipt_of\<close> reads the members of a receipt; \<open>message\<close> is \<^verbatim>\<open>describe\<close> of an error.\<close>

definition bundler_poll :: "(json \<Rightarrow> UserOpReceipt option) \<Rightarrow> 'w BundlerExecutor \<Rightarrow> Hex \<Rightarrow> ('w, UserOpReceipt option) io" where
  "bundler_poll receipt_of b opHash =
     bind_io (bundler_rpc b ''eth_getUserOperationReceipt'' [JStr opHash]) (\<lambda>j. return_io (receipt_of j))"

definition bundler_submit ::
  "(js_error \<Rightarrow> string) \<Rightarrow> (json \<Rightarrow> UserOpReceipt option) \<Rightarrow> 'w BundlerExecutor \<Rightarrow> UserOperationRequest \<Rightarrow> ('w, Hex) io" where
  "bundler_submit message receipt_of b request =
     bind_io (lift_io (executor_encodeErc7579Execute (uo_to request) (uo_value request) (uo_data request))) (\<lambda>callData.
     bind_io (case uo_nonce request of Some n \<Rightarrow> return_io n | None \<Rightarrow> resolveNonce b) (\<lambda>nonce.
     bind_io (catch_io (bundler_rpc b ''eth_estimateUserOperationGas''
         [JObj (initial_userOp b nonce callData), JStr (be_entryPoint b)])
         (\<lambda>e. throw_io (ErrorMessage (''UserOperation rejected during estimation: '' @ message e)))) (\<lambda>estimated.
     let userOp = assign (initial_userOp b nonce callData) (json_members estimated) in
     bind_io (bind_io (catch_io (bundler_rpc b ''eth_getUserOperationHash'' [JObj userOp, JStr (be_entryPoint b)])
         (\<lambda>_. return_io (JStr (keccak256 (JSON_stringify (JObj userOp)))))) (\<lambda>j. lift_io (as_hex j))) (\<lambda>hash.
     bind_io (be_signUserOpHash b hash) (\<lambda>signature.
     bind_io (bind_io (bundler_rpc b ''eth_sendUserOperation''
         [JObj (AList.update ''signature'' (JStr signature) userOp), JStr (be_entryPoint b)]) (\<lambda>j. lift_io (as_hex j))) (\<lambda>opHash.
       waitForReceipt (be_sleep b) (bundler_poll receipt_of b) opHash 30 30))))))"

text \<open>\<^verbatim>\<open>send\<close> and \<^verbatim>\<open>sendUnsigned\<close> are both \<open>bundler_submit\<close>.\<close>

definition bundler_executor ::
  "(js_error \<Rightarrow> string) \<Rightarrow> (json \<Rightarrow> UserOpReceipt option) \<Rightarrow> 'w BundlerExecutor \<Rightarrow> 'w Executor" where
  "bundler_executor message receipt_of b = \<lparr>ex_send = bundler_submit message receipt_of b, ex_sendAsOwner = None\<rparr>"

section \<open>The viem signer\<close>

text \<open>What the code calls of viem: the simulated call, the broadcast and the wait for a receipt's status.\<close>

record 'w Viem =
  vm_call :: "TxRequest \<Rightarrow> ('w, unit) io"
  vm_send :: "TxRequest \<Rightarrow> ('w, Hex) io"
  vm_wait :: "Hex \<Rightarrow> ('w, string) io"
  vm_address :: Address

fun js_includes :: "string \<Rightarrow> string \<Rightarrow> bool" where
  "js_includes needle s = (take (length needle) s = needle \<or> (case s of [] \<Rightarrow> False | _ # r \<Rightarrow> js_includes needle r))"

definition KNOWN_REVERTS :: "string list" where
  "KNOWN_REVERTS = [''ExceedsMaxTransaction'', ''ExceedsDailyLimit'', ''TargetNotAllowed'', ''BelowMinBalance'',
     ''UnsupportedCallType'', ''NotInstalled'']"

definition describeRevert :: "string \<Rightarrow> string" where
  "describeRevert message =
     (case find (\<lambda>name. js_includes name message) KNOWN_REVERTS of
        Some matched \<Rightarrow> matched @ '' (AgentPolicyHook)''
      | None \<Rightarrow> hd (splitOn (CHR 0x0A) message))"

definition viem_sendTransaction :: "(js_error \<Rightarrow> string) \<Rightarrow> 'w Viem \<Rightarrow> TxRequest \<Rightarrow> ('w, Hex) io" where
  "viem_sendTransaction message v tx =
     bind_io (catch_io (vm_call v tx) (\<lambda>e. throw_io (ErrorMessage (''Execution would revert: '' @ describeRevert (message e)))))
     (\<lambda>_. bind_io (vm_send v tx) (\<lambda>hash.
     bind_io (vm_wait v hash) (\<lambda>status.
       if status \<noteq> ''success'' then throw_io (ErrorMessage (''Transaction '' @ hash @ '' reverted on chain''))
       else return_io hash)))"

text \<open>The dash of the message, U+2014, is written as a hyphen.\<close>

definition createViemSigner :: "(js_error \<Rightarrow> string) \<Rightarrow> 'w Viem option \<Rightarrow> 'w Signer result" where
  "createViemSigner message viem =
     (case viem of
        None \<Rightarrow> Inl (ErrorMessage (''createViemSigner needs viem installed: pnpm add viem. '' @
          ''The policy engine does not require it - only signing does.''))
      | Some v \<Rightarrow> Inr \<lparr>sg_address = toLowerCase (vm_address v), sg_sendTransaction = viem_sendTransaction message v\<rparr>)"

section \<open>Properties\<close>

lemma length_executor_prefix: "length (''0xe9ae5c53'' @ abi_word 0 @ abi_word 64) = 138"
  by (simp add: uint256_small)

text \<open>
  The executor submits the request it was given, to the account, with the right key: the transaction goes
  to the protected account with no value of its own, its data is the ERC-7579 wrapper from which the target,
  the value and the call data of the request are read back, the agent's path uses the agent's signer and the
  approved path the owner's, which without an owner signer fails with nothing sent.
\<close>

theorem executor_wraps_request:
  assumes "is_address (uo_to request)" and "uint256 (uo_value request)"
    and "even (length (uo_data request))" and "uo_data request = ''0x'' @ body" and "length body < 2 ^ 64"
  shows "\<exists>data. (\<forall>x w. eoa_send x request w =
         sg_sendTransaction (eo_agentSigner x) \<lparr>tx_to = eo_account x, tx_data = data, tx_value = 0\<rparr> w \<and>
       eoa_sendAsOwner x request w = (case eo_ownerSigner x of None \<Rightarrow> (Inl NoOwnerExecutor, w)
         | Some signer \<Rightarrow> sg_sendTransaction signer \<lparr>tx_to = eo_account x, tx_data = data, tx_value = 0\<rparr> w)) \<and>
     ''0x'' @ js_slice data 202 242 = uo_to request \<and>
     bigint_hex (js_slice data 242 306) = Inr (uo_value request) \<and>
     js_slice data 306 (306 + length body) = body"
proof -
  obtain t where t: "uo_to request = ''0x'' @ t" "length t = 40" using assms(1) by (elim is_addressE)
  let ?v = "abi_word (uo_value request)"
  let ?p = "t @ ?v @ body"
  have v: "length ?v = 64" using assms(2) by simp
  have ev: "even (length ?p)" using assms(3,4) t(2) v by simp
  let ?n = "length ?p div 2"
  obtain pad where pad: "padEnd (((?n + 31) div 32) * 64) (CHR ''0'') ?p = ?p @ pad" by (simp add: padEnd_def)
  let ?pre = "''0xe9ae5c53'' @ abi_word 0 @ abi_word 64 @ abi_word (int ?n)"
  let ?data = "?pre @ ?p @ pad"
  have e: "executor_encodeErc7579Execute (uo_to request) (uo_value request) (uo_data request) = Inr ?data"
    using ev pad t(1) assms(4) by (simp add: executor_encodeErc7579Execute_def Let_def)
  have "uint256 (int ?n)" using assms(5) t(2) v by (intro uint256_small) simp_all
  then have pre: "length ?pre = 202" using length_executor_prefix by simp
  have "js_slice ?data 202 242 = t"
    using js_slice_mid [of ?pre 202 t 40 242 "?v @ body @ pad"] pre t(2) by simp
  moreover have "js_slice ?data 242 306 = ?v"
    using js_slice_mid [of "?pre @ t" 242 ?v 64 306 "body @ pad"] pre t(2) v by simp
  moreover have "js_slice ?data 306 (306 + length body) = body"
    using js_slice_mid [of "?pre @ t @ ?v" 306 body "length body" "306 + length body" pad] pre t(2) v by simp
  ultimately show ?thesis
    using e t(1) assms(2)
    by (intro exI [of _ ?data]) (simp add: eoa_send_def eoa_sendAsOwner_def eoa_dispatch_def bind_io_def uint256_def
        split: option.splits)
qed

text \<open>
  An operation the chain would reject is never signed or broadcast. When the bundler's gas estimation
  fails, the call fails there, in the world the estimation left, whatever the signer is and whatever the
  bundler would answer to a submission; when viem's simulated call fails, the signer fails with the hook's
  error named, and nothing is sent, whatever broadcasting would do.
\<close>

theorem rejected_never_broadcast:
  assumes "executor_encodeErc7579Execute (uo_to request) (uo_value request) (uo_data request) = Inr callData"
    and "(case uo_nonce request of Some n \<Rightarrow> return_io n | None \<Rightarrow> resolveNonce b) w = (Inr nonce, w1)"
    and "bundler_rpc b ''eth_estimateUserOperationGas'' [JObj (initial_userOp b nonce callData), JStr (be_entryPoint b)] w1 =
      (Inl e, w2)"
    and "vm_call v tx w = (Inl e', w3)"
  shows "bundler_submit message receipt_of (b\<lparr>be_signUserOpHash := sign\<rparr>) request w =
       (Inl (ErrorMessage (''UserOperation rejected during estimation: '' @ message e)), w2) \<and>
     viem_sendTransaction message (v\<lparr>vm_send := send\<rparr>) tx w =
       (Inl (ErrorMessage (''Execution would revert: '' @ describeRevert (message e'))), w3)"
proof -
  let ?b = "b\<lparr>be_signUserOpHash := sign\<rparr>"
  have "bundler_rpc ?b = bundler_rpc b" "nonce_call ?b = nonce_call b" "initial_userOp ?b = initial_userOp b"
    by (intro ext; simp add: bundler_rpc_def nonce_call_def initial_userOp_def)+
  moreover from this have "resolveNonce ?b = resolveNonce b"
    by (cases "be_validator b"; cases "be_chain b") (simp_all add: resolveNonce_def)
  ultimately show ?thesis
    using assms by (cases "uo_nonce request")
      (simp_all add: bundler_submit_def viem_sendTransaction_def bind_io_def catch_io_def)
qed

text \<open>The world after \<open>n\<close> unanswered polls.\<close>

fun polled :: "('w \<Rightarrow> 'w) \<Rightarrow> (Hex \<Rightarrow> ('w, UserOpReceipt option) io) \<Rightarrow> Hex \<Rightarrow> nat \<Rightarrow> 'w \<Rightarrow> 'w" where
  "polled sleep poll opHash 0 w = w"
| "polled sleep poll opHash (Suc n) w = polled sleep poll opHash n (sleep (snd (poll opHash w)))"

definition unanswered :: "UserOpReceipt option result \<times> 'w \<Rightarrow> bool" where
  "unanswered r = (case fst r of Inr (Some _) \<Rightarrow> False | _ \<Rightarrow> True)"

lemma waitForReceipt_step:
  "waitForReceipt sleep poll h a (Suc n) w =
     (case poll h w of
        (Inr (Some r), w') \<Rightarrow> (if \<not> ur_success r then
             Inl (ErrorMessage (''UserOperation reverted on chain: '' @ or_else (ur_reason r) ''no reason returned''))
           else Inr (ur_transactionHash r), w')
      | (_, w') \<Rightarrow> waitForReceipt sleep poll h a n (sleep w'))"
  by (simp add: catch_io_def split: prod.splits sum.splits option.splits)

lemma waitForReceipt_timeout:
  "(\<forall>i < n. unanswered (poll h (polled sleep poll h i w))) \<Longrightarrow>
   waitForReceipt sleep poll h a n w =
     (Inl (ErrorMessage (''UserOperation '' @ h @ '' was not mined within '' @ to_dec (a * 2) @ '' seconds'')),
      polled sleep poll h n w)"
proof (induction n arbitrary: w)
  case (Suc n)
  obtain r w' where r: "poll h w = (r, w')" by fastforce
  have "unanswered (poll h w)" using Suc.prems by (metis polled.simps(1) zero_less_Suc)
  moreover have "\<forall>i < n. unanswered (poll h (polled sleep poll h i (sleep w')))"
    using Suc.prems r by (metis Suc_less_eq polled.simps(2) snd_conv)
  ultimately show ?case
    using Suc.IH [of "sleep w'"] r unfolding waitForReceipt_step
    by (auto simp: unanswered_def split: sum.splits option.splits)
qed simp

lemma waitForReceipt_answered:
  "k < n \<Longrightarrow> (\<forall>i < k. unanswered (poll h (polled sleep poll h i w))) \<Longrightarrow>
   poll h (polled sleep poll h k w) = (Inr (Some r), w') \<Longrightarrow>
   waitForReceipt sleep poll h a n w = (if \<not> ur_success r then
       Inl (ErrorMessage (''UserOperation reverted on chain: '' @ or_else (ur_reason r) ''no reason returned''))
     else Inr (ur_transactionHash r), w')"
proof (induction k arbitrary: n w)
  case 0
  then obtain m where "n = Suc m" by (cases n) auto
  with 0 show ?case unfolding \<open>n = Suc m\<close> waitForReceipt_step by simp
next
  case (Suc k)
  obtain m where m: "n = Suc m" "k < m" using Suc.prems(1) by (cases n) auto
  obtain q v where q: "poll h w = (q, v)" by fastforce
  have "unanswered (poll h w)" using Suc.prems(2) by (metis polled.simps(1) zero_less_Suc)
  moreover have "\<forall>i < k. unanswered (poll h (polled sleep poll h i (sleep v)))"
    using Suc.prems(2) q by (metis Suc_less_eq polled.simps(2) snd_conv)
  moreover have "poll h (polled sleep poll h k (sleep v)) = (Inr (Some r), w')" using Suc.prems(3) q by simp
  ultimately show ?case
    using Suc.IH [OF m(2), of "sleep v"] q unfolding m(1) waitForReceipt_step
    by (auto simp: unanswered_def split: sum.splits option.splits)
qed

text \<open>
  (C31) Waiting for a receipt ends: after at most thirty polls the call returns. It returns a transaction
  hash only from a receipt marked successful, the first one that arrives decides, a failed one is reported as a
  revert, and with none the call fails after exactly thirty polls.
\<close>

theorem receipt_poll_bounded:
  "(\<exists>k < 30. \<exists>r w'. (\<forall>i < k. unanswered (poll h (polled sleep poll h i w))) \<and>
       poll h (polled sleep poll h k w) = (Inr (Some r), w') \<and>
       waitForReceipt sleep poll h 30 30 w = (if ur_success r then Inr (ur_transactionHash r)
         else Inl (ErrorMessage (''UserOperation reverted on chain: '' @ or_else (ur_reason r) ''no reason returned'')), w')) \<or>
   ((\<forall>i < 30. unanswered (poll h (polled sleep poll h i w))) \<and>
     waitForReceipt sleep poll h 30 30 w =
       (Inl (ErrorMessage (''UserOperation '' @ h @ '' was not mined within 60 seconds'')), polled sleep poll h 30 w))"
proof (cases "\<forall>i < 30. unanswered (poll h (polled sleep poll h i w))")
  case True
  moreover have "to_dec (30 * 2) = ''60''" by code_simp
  ultimately show ?thesis using waitForReceipt_timeout [of 30 poll h sleep w 30] by simp
next
  case False
  define P where "P k \<longleftrightarrow> k < 30 \<and> \<not> unanswered (poll h (polled sleep poll h k w))" for k
  obtain k where "P k" and least: "\<forall>i < k. \<not> P i" using False exists_least_iff [of P] by (auto simp: P_def)
  then have k: "k < 30" "\<not> unanswered (poll h (polled sleep poll h k w))"
    "\<forall>i < k. unanswered (poll h (polled sleep poll h i w))"
    by (auto simp: P_def)
  obtain r w' where r: "poll h (polled sleep poll h k w) = (Inr (Some r), w')"
    using k(2) by (cases "poll h (polled sleep poll h k w)") (auto simp: unanswered_def split: sum.splits option.splits)
  from waitForReceipt_answered [OF k(1,3) r, of 30] k r show ?thesis by (intro disjI1 exI [of _ k] conjI exI) auto
qed

section \<open>Witnesses\<close>

theorem executor_wraps_request_witness:
  "\<exists>data. bigint_hex (js_slice data 242 306) = Inr 5 \<and> js_slice data 306 310 = ''abcd''"
  using executor_wraps_request [of "\<lparr>uo_account = sample_account, uo_to = sample_router, uo_data = ''0xabcd'', uo_value = 5,
      uo_nonce = None\<rparr>" "''abcd''"] sample_wf by (auto simp: uint256_small)

definition sample_bundler :: "unit BundlerExecutor" where
  "sample_bundler = \<lparr>be_account = sample_account, be_bundlerUrl = [], be_entryPoint = ENTRY_POINT_V07,
     be_signUserOpHash = (\<lambda>_. return_io ''0x''), be_validator = None, be_chain = None,
     be_fetch = (\<lambda>_ _. return_io \<lparr>rr_status = 200, rr_result = JNull, rr_error = Some ''reverted''\<rparr>), be_sleep = (\<lambda>w. w)\<rparr>"

definition sample_viem :: "unit Viem" where
  "sample_viem = \<lparr>vm_call = (\<lambda>_. throw_io (ErrorMessage ''ExceedsDailyLimit()'')), vm_send = (\<lambda>_. return_io ''0x1''),
     vm_wait = (\<lambda>_. return_io ''success''), vm_address = sample_account\<rparr>"

theorem rejected_never_broadcast_witness:
  "\<exists>r e. bundler_submit (\<lambda>_. ''m'') (\<lambda>_. None) (sample_bundler\<lparr>be_signUserOpHash := (\<lambda>_. return_io [])\<rparr>) r () = (Inl e, ()) \<and>
     viem_sendTransaction (\<lambda>_. ''ExceedsDailyLimit()'') (sample_viem\<lparr>vm_send := (\<lambda>_. return_io [])\<rparr>)
       \<lparr>tx_to = sample_account, tx_data = ''0x'', tx_value = 0\<rparr> () =
     (Inl (ErrorMessage ''Execution would revert: ExceedsDailyLimit (AgentPolicyHook)''), ())"
proof -
  let ?r = "\<lparr>uo_account = sample_account, uo_to = sample_router, uo_data = ''0x'', uo_value = 0, uo_nonce = Some ''0x0''\<rparr>"
  let ?tx = "\<lparr>tx_to = sample_account, tx_data = ''0x'', tx_value = 0\<rparr>"
  have "even (length sample_router)" using sample_wf by (simp add: wf_address_def is_address_def)
  then obtain d where d: "executor_encodeErc7579Execute (uo_to ?r) (uo_value ?r) (uo_data ?r) = Inr d"
    by (simp add: executor_encodeErc7579Execute_def Let_def uint256_small)
  have n: "(case uo_nonce ?r of Some n \<Rightarrow> return_io n | None \<Rightarrow> resolveNonce sample_bundler) () = (Inr ''0x0'', ())" by simp
  have x: "bundler_rpc sample_bundler ''eth_estimateUserOperationGas''
      [JObj (initial_userOp sample_bundler ''0x0'' d), JStr (be_entryPoint sample_bundler)] () =
      (Inl (ErrorMessage ''reverted''), ())"
    by (simp add: bundler_rpc_def bind_io_def) (simp add: sample_bundler_def)
  have y: "vm_call sample_viem ?tx () = (Inl (ErrorMessage ''ExceedsDailyLimit()''), ())" by (simp add: sample_viem_def)
  have "describeRevert ''ExceedsDailyLimit()'' = ''ExceedsDailyLimit (AgentPolicyHook)''" by code_simp
  with rejected_never_broadcast [OF d n x y, of "\<lambda>_. ''m''"] rejected_never_broadcast [OF d n x y, of "\<lambda>_. ''ExceedsDailyLimit()''"]
  show ?thesis by (intro exI [of _ ?r]) auto
qed


text \<open>A receipt that is there from the third poll on; the world counts the pauses.\<close>

definition sample_poll :: "Hex \<Rightarrow> (nat, UserOpReceipt option) io" where
  "sample_poll h n = (Inr (if n < 2 then None else Some \<lparr>ur_success = True, ur_transactionHash = ''0x1'', ur_reason = None\<rparr>), n)"

lemma sample_polled: "polled Suc sample_poll h n w = n + w"
  by (induction n arbitrary: w) (simp_all add: sample_poll_def)

theorem receipt_poll_bounded_witness: "waitForReceipt Suc sample_poll ''0x2'' 30 30 0 = (Inr ''0x1'', 2)"
proof -
  have u: "unanswered (sample_poll h n) \<longleftrightarrow> n < 2" for h n by (simp add: unanswered_def sample_poll_def)
  have "\<not> (\<forall>i < 30. i < (2 :: nat))" by (auto intro: exI [of _ 2])
  with receipt_poll_bounded [of sample_poll "''0x2''" Suc 0] obtain k r w' where
    k: "\<forall>i < k. i < 2" "sample_poll ''0x2'' k = (Inr (Some r), w')"
      "waitForReceipt Suc sample_poll ''0x2'' 30 30 0 = (if ur_success r then Inr (ur_transactionHash r)
         else Inl (ErrorMessage (''UserOperation reverted on chain: '' @ or_else (ur_reason r) ''no reason returned'')), w')"
    unfolding sample_polled u by auto
  have "k = 2" using k(1) [rule_format, of "k - 1"] k(2) by (cases "k \<le> 2") (auto simp: sample_poll_def split: if_splits)
  with k(2,3) show ?thesis by (auto simp: sample_poll_def)
qed

end
