(* ===== verification/Hook.thy ===== *)
theory Hook
  imports Subgraph Adapters
begin

text \<open>
  The enforcement contract: \<^verbatim>\<open>contracts/src/AgentPolicyHook.sol\<close> with its libraries
  \<^verbatim>\<open>lib/PolicyLib.sol\<close> and \<^verbatim>\<open>lib/ExecutionLib.sol\<close>, on the machine's words.

  An address is a 160-bit word, an amount a 256-bit word, a mapping a total function with the zero value as its
  default, calldata a byte list read with zeros beyond its end. A call returns the new storage and the events it
  emits, or the error it reverts with. The token's \<^verbatim>\<open>balanceOf\<close> is a parameter; \<open>None\<close> is a call that fails.

  The lemmas: what a completed execution guarantees; the daily limit over every run, with executions nested in one
  another and with any other activity between them; the hook reads back what the executors encode; the events
  are the ones the subgraph's totals rest on.
\<close>

section \<open>Words and bytes\<close>

type_synonym evm_address = "160 word"
type_synonym uint256 = "256 word"

definition bytes_value :: "byte list \<Rightarrow> nat" where
  "bytes_value bs = foldl (\<lambda>acc b. acc * 256 + unat b) 0 bs"

fun nat_bytes :: "nat \<Rightarrow> nat \<Rightarrow> byte list" where
  "nat_bytes 0 v = []"
| "nat_bytes (Suc n) v = nat_bytes n (v div 256) @ [of_nat (v mod 256)]"

definition address_bytes :: "evm_address \<Rightarrow> byte list" where
  "address_bytes a = nat_bytes 20 (unat a)"

definition word_bytes :: "uint256 \<Rightarrow> byte list" where
  "word_bytes v = nat_bytes 32 (unat v)"

text \<open>\<^verbatim>\<open>calldataload\<close>: thirty-two bytes from a position, zeros beyond the end.\<close>

definition byte_at :: "byte list \<Rightarrow> nat \<Rightarrow> byte" where
  "byte_at cd p = (if p < length cd then cd ! p else 0)"

definition calldataload :: "byte list \<Rightarrow> uint256 \<Rightarrow> uint256" where
  "calldataload cd p = of_nat (bytes_value (map (\<lambda>i. byte_at cd (unat p + i)) [0..<32]))"

text \<open>The word at a position of a byte string in memory.\<close>

definition word_at :: "byte list \<Rightarrow> nat \<Rightarrow> nat" where
  "word_at bs p = bytes_value (take 32 (drop p bs))"

section \<open>Errors\<close>

datatype hook_error =
    NotInstalled
  | AlreadyInstalled
  | TargetNotAllowed evm_address
  | BelowMinBalance uint256 uint256
  | PolicyMismatch uint256 uint256
  | UnsupportedCallType byte
  | UnsupportedSelector "32 word"
  | MalformedExecution
  | ExceedsMaxTransaction_error uint256 uint256
  | ExceedsDailyLimit_error uint256 uint256
  | WindowMovedBackwards_error "64 word" "64 word"
  | ArithmeticPanic
  | AbiDecodeRevert
  | CallFailed

type_synonym 'a evm = "hook_error + 'a"

definition bindE :: "'a evm \<Rightarrow> ('a \<Rightarrow> 'b evm) \<Rightarrow> 'b evm" where
  "bindE m k = (case m of Inl e \<Rightarrow> Inl e | Inr x \<Rightarrow> k x)"

lemma bindE_simps [simp]: "bindE (Inl e) k = Inl e" "bindE (Inr x) k = k x"
  by (simp_all add: bindE_def)

lemma bindE_eq_Inr: "bindE m k = Inr y \<longleftrightarrow> (\<exists>x. m = Inr x \<and> k x = Inr y)"
  by (cases m) auto

section \<open>PolicyLib\<close>

record Window =
  wn_day :: "64 word"
  wn_spent :: uint256

record Limits =
  li_maxTransaction :: uint256
  li_dailyLimit :: uint256

text \<open>
  The error of the daily limit is built with a checked addition, which panics where the sum does not fit.
\<close>

definition applySpend :: "Window \<Rightarrow> Limits \<Rightarrow> uint256 \<Rightarrow> 64 word \<Rightarrow> Window evm" where
  "applySpend w l amount today =
     (case policylib_evaluate (wn_day w) (wn_spent w) (li_maxTransaction l) (li_dailyLimit l) amount today of
        (WindowMovedBackwards, _, _) \<Rightarrow> Inl (WindowMovedBackwards_error (wn_day w) today)
      | (ExceedsMaxTransaction, _, _) \<Rightarrow> Inl (ExceedsMaxTransaction_error amount (li_maxTransaction l))
      | (ExceedsDailyLimit, _, _) \<Rightarrow>
          (let base = (if wn_day w = today then wn_spent w else 0) in
           if unat base + unat amount < 2 ^ 256 then Inl (ExceedsDailyLimit_error (base + amount) (li_dailyLimit l))
           else Inl ArithmeticPanic)
      | (Allow, nextDay, nextSpent) \<Rightarrow> Inr \<lparr>wn_day = nextDay, wn_spent = nextSpent\<rparr>)"

definition policylib_remainingToday :: "Window \<Rightarrow> Limits \<Rightarrow> 64 word \<Rightarrow> uint256" where
  "policylib_remainingToday w l today =
     (let base = (if wn_day w = today then wn_spent w else 0) in
      if li_dailyLimit l \<le> base then 0 else li_dailyLimit l - base)"

section \<open>ExecutionLib\<close>

text \<open>A \<^verbatim>\<open>bytes calldata\<close> value: its position in the calldata and its length, neither of them checked.\<close>

type_synonym cd_slice = "uint256 \<times> uint256"

definition EXECUTE_SELECTOR :: "32 word" where "EXECUTE_SELECTOR = 0xe9ae5c53"
definition EXECUTE_FROM_EXECUTOR_SELECTOR :: "32 word" where "EXECUTE_FROM_EXECUTOR_SELECTOR = 0xd691c964"
definition ERC20_TRANSFER :: "32 word" where "ERC20_TRANSFER = 0xa9059cbb"
definition ERC20_APPROVE :: "32 word" where "ERC20_APPROVE = 0x095ea7b3"
definition ERC20_TRANSFER_FROM :: "32 word" where "ERC20_TRANSFER_FROM = 0x23b872dd"

definition high_selector :: "uint256 \<Rightarrow> 32 word" where
  "high_selector v = of_nat (unat v div 2 ^ 224)"

definition decodeSingleExecution :: "byte list \<Rightarrow> cd_slice \<Rightarrow> (evm_address \<times> cd_slice) evm" where
  "decodeSingleExecution cd msgData =
     (let (off, len) = msgData in
      if len < 4 then Inl MalformedExecution
      else
        let sel = high_selector (calldataload cd off) in
        if sel \<noteq> EXECUTE_SELECTOR \<and> sel \<noteq> EXECUTE_FROM_EXECUTOR_SELECTOR then Inl (UnsupportedSelector sel)
        else
          let mode = calldataload cd (off + 4);
              rel = calldataload cd (off + 36);
              dataOffset = (off + 4) + (rel + 32);
              dataLength = calldataload cd (dataOffset - 32);
              callType = (of_nat (unat mode div 2 ^ 248) :: byte)
          in if callType \<noteq> 0 then Inl (UnsupportedCallType callType)
             else if dataLength < 52 then Inl MalformedExecution
             else Inr (of_nat (unat (calldataload cd dataOffset) div 2 ^ 96), (dataOffset + 52, dataLength - 52)))"

definition decodeErc20Counterparty :: "byte list \<Rightarrow> cd_slice \<Rightarrow> evm_address evm" where
  "decodeErc20Counterparty cd callData =
     (let (off, len) = callData in
      if len < 4 then Inr 0
      else
        let sel = high_selector (calldataload cd off) in
        if sel = ERC20_TRANSFER \<or> sel = ERC20_APPROVE then
          (if len < 68 then Inl MalformedExecution else Inr (ucast (calldataload cd (off + 4))))
        else if sel = ERC20_TRANSFER_FROM then
          (if len < 100 then Inl MalformedExecution else Inr (ucast (calldataload cd (off + 36))))
        else Inr 0)"

section \<open>Storage\<close>

record Config =
  hc_asset :: evm_address
  hc_maxTransaction :: uint256
  hc_dailyLimit :: uint256
  hc_minBalance :: uint256
  hc_policyHash :: uint256
  hc_installed :: bool

definition zero_config :: Config where
  "zero_config = \<lparr>hc_asset = 0, hc_maxTransaction = 0, hc_dailyLimit = 0, hc_minBalance = 0, hc_policyHash = 0,
     hc_installed = False\<rparr>"

definition zero_window :: Window where
  "zero_window = \<lparr>wn_day = 0, wn_spent = 0\<rparr>"

record AgentPolicyHook =
  hk_config :: "evm_address \<Rightarrow> Config"
  hk_window :: "evm_address \<Rightarrow> Window"
  hk_allowedTarget :: "evm_address \<Rightarrow> evm_address \<Rightarrow> bool"

definition newAgentPolicyHook :: AgentPolicyHook where
  "newAgentPolicyHook = \<lparr>hk_config = (\<lambda>_. zero_config), hk_window = (\<lambda>_. zero_window), hk_allowedTarget = (\<lambda>_ _. False)\<rparr>"

section \<open>The module\<close>

text \<open>
  \<^verbatim>\<open>abi.decode(data, (Config, address[]))\<close>: six words of the struct, the position of the array, its length, its
  elements. A value outside its type's range and anything that reaches beyond the data revert.
\<close>

definition decode_array :: "byte list \<Rightarrow> nat \<Rightarrow> evm_address list evm" where
  "decode_array data p =
     (if p + 32 > length data then Inl AbiDecodeRevert
      else
        let n = word_at data p in
        if p + 32 + 32 * n > length data then Inl AbiDecodeRevert
        else
          let vs = map (\<lambda>i. word_at data (p + 32 + 32 * i)) [0..<n] in
          if list_ex (\<lambda>v. 2 ^ 160 \<le> v) vs then Inl AbiDecodeRevert else Inr (map of_nat vs))"

definition decode_install :: "byte list \<Rightarrow> (Config \<times> evm_address list) evm" where
  "decode_install data =
     (if length data < 224 \<or> 2 ^ 160 \<le> word_at data 0 \<or> 1 < word_at data 160 then Inl AbiDecodeRevert
      else
        bindE (decode_array data (word_at data 192)) (\<lambda>targets.
          Inr (\<lparr>hc_asset = of_nat (word_at data 0), hc_maxTransaction = of_nat (word_at data 32),
                 hc_dailyLimit = of_nat (word_at data 64), hc_minBalance = of_nat (word_at data 96),
                 hc_policyHash = of_nat (word_at data 128), hc_installed = (word_at data 160 = 1)\<rparr>, targets)))"

definition allow_targets :: "evm_address \<Rightarrow> evm_address list \<Rightarrow> AgentPolicyHook \<Rightarrow> AgentPolicyHook" where
  "allow_targets sender targets s =
     s\<lparr>hk_allowedTarget := fold (\<lambda>t m. m(sender := (m sender)(t := True))) targets (hk_allowedTarget s)\<rparr>"

definition onInstall :: "evm_address \<Rightarrow> byte list \<Rightarrow> AgentPolicyHook \<Rightarrow> (AgentPolicyHook \<times> HookEvent list) evm" where
  "onInstall sender data s =
     (if hc_installed (hk_config s sender) then Inl AlreadyInstalled
      else
        bindE (decode_install data) (\<lambda>(c, targets).
          let c' = c\<lparr>hc_installed := True\<rparr>; account = address_bytes sender in
          Inr (allow_targets sender targets (s\<lparr>hk_config := (hk_config s)(sender := c')\<rparr>),
               map (\<lambda>t. HookEvent.TargetAllowed account (address_bytes t) True) targets @
               [PolicyInstalled account (word_bytes (hc_policyHash c')) (address_bytes (hc_asset c'))])))"

definition onUninstall :: "evm_address \<Rightarrow> AgentPolicyHook \<Rightarrow> AgentPolicyHook \<times> HookEvent list" where
  "onUninstall sender s =
     (s\<lparr>hk_config := (hk_config s)(sender := zero_config), hk_window := (hk_window s)(sender := zero_window)\<rparr>,
      [PolicyUninstalled (address_bytes sender)])"

definition isModuleType :: "uint256 \<Rightarrow> bool" where
  "isModuleType t = (t = 4)"

definition isInitialized :: "evm_address \<Rightarrow> AgentPolicyHook \<Rightarrow> bool" where
  "isInitialized account s = hc_installed (hk_config s account)"

definition assertPolicyHash :: "evm_address \<Rightarrow> uint256 \<Rightarrow> AgentPolicyHook \<Rightarrow> unit evm" where
  "assertPolicyHash account expected s =
     (let actual = hc_policyHash (hk_config s account) in
      if actual \<noteq> expected then Inl (PolicyMismatch expected actual) else Inr ())"

section \<open>The hook\<close>

text \<open>The token contracts: \<^verbatim>\<open>balanceOf\<close> of an account at an asset.\<close>

type_synonym balances = "evm_address \<Rightarrow> evm_address \<Rightarrow> uint256 option"

definition block_day :: "uint256 \<Rightarrow> 64 word" where
  "block_day timestamp = ucast (timestamp div 86400)"

definition balance_of :: "balances \<Rightarrow> evm_address \<Rightarrow> evm_address \<Rightarrow> uint256 evm" where
  "balance_of b asset account = (case b asset account of None \<Rightarrow> Inl CallFailed | Some v \<Rightarrow> Inr v)"

text \<open>\<^verbatim>\<open>abi.encode\<close> of the snapshot, and \<^verbatim>\<open>abi.decode\<close> with its range checks.\<close>

definition encode_hookData :: "uint256 \<Rightarrow> 64 word \<Rightarrow> evm_address \<Rightarrow> byte list" where
  "encode_hookData balanceBefore today target =
     nat_bytes 32 (unat balanceBefore) @ nat_bytes 32 (unat today) @ nat_bytes 32 (unat target)"

definition decode_hookData :: "byte list \<Rightarrow> (uint256 \<times> 64 word \<times> evm_address) evm" where
  "decode_hookData data =
     (if length data < 96 \<or> 2 ^ 64 \<le> word_at data 32 \<or> 2 ^ 160 \<le> word_at data 64 then Inl AbiDecodeRevert
      else Inr (of_nat (word_at data 0), of_nat (word_at data 32), of_nat (word_at data 64)))"

definition hook_preCheck ::
  "evm_address \<Rightarrow> byte list \<Rightarrow> cd_slice \<Rightarrow> balances \<Rightarrow> uint256 \<Rightarrow> AgentPolicyHook \<Rightarrow> byte list evm" where
  "hook_preCheck sender cd msgData b timestamp s =
     (let c = hk_config s sender in
      if \<not> hc_installed c then Inl NotInstalled
      else
        bindE (decodeSingleExecution cd msgData) (\<lambda>(target, innerCalldata).
          if \<not> hk_allowedTarget s sender target then Inl (TargetNotAllowed target)
          else
            bindE (if target = hc_asset c then
                bindE (decodeErc20Counterparty cd innerCalldata) (\<lambda>counterparty.
                  if counterparty \<noteq> 0 \<and> \<not> hk_allowedTarget s sender counterparty
                  then Inl (TargetNotAllowed counterparty) else Inr ())
              else Inr ()) (\<lambda>_.
            bindE (balance_of b (hc_asset c) sender) (\<lambda>balanceBefore.
              Inr (encode_hookData balanceBefore (block_day timestamp) target)))))"

definition hook_postCheck ::
  "evm_address \<Rightarrow> byte list \<Rightarrow> balances \<Rightarrow> AgentPolicyHook \<Rightarrow> (AgentPolicyHook \<times> HookEvent list) evm" where
  "hook_postCheck sender hookData b s =
     (let c = hk_config s sender in
      if \<not> hc_installed c then Inl NotInstalled
      else
        bindE (decode_hookData hookData) (\<lambda>(balanceBefore, today, target).
        bindE (balance_of b (hc_asset c) sender) (\<lambda>balanceAfter.
          let outflow = (if balanceBefore > balanceAfter then balanceBefore - balanceAfter else 0) in
          bindE (if outflow > 0 then
              bindE (applySpend (hk_window s sender)
                  \<lparr>li_maxTransaction = hc_maxTransaction c, li_dailyLimit = hc_dailyLimit c\<rparr> outflow today) (\<lambda>next.
                Inr (s\<lparr>hk_window := (hk_window s)(sender := next)\<rparr>,
                  [SpendRecorded \<lparr>se_account = address_bytes sender, se_target = address_bytes target,
                     se_amount = uint outflow, se_dayTotal = uint (wn_spent next), se_day = uint today\<rparr>]))
            else Inr (s, [])) (\<lambda>r.
          if balanceAfter < hc_minBalance c then Inl (BelowMinBalance balanceAfter (hc_minBalance c)) else Inr r))))"

definition hook_remainingToday :: "evm_address \<Rightarrow> uint256 \<Rightarrow> AgentPolicyHook \<Rightarrow> uint256" where
  "hook_remainingToday account timestamp s =
     (let c = hk_config s account in
      policylib_remainingToday (hk_window s account)
        \<lparr>li_maxTransaction = hc_maxTransaction c, li_dailyLimit = hc_dailyLimit c\<rparr> (block_day timestamp))"

section \<open>Lemmas on bytes\<close>

lemma bytes_value_simps [simp]:
  "bytes_value [] = 0" "bytes_value (bs @ [b]) = bytes_value bs * 256 + unat b"
  by (simp_all add: bytes_value_def)

lemma bytes_value_append: "bytes_value (xs @ ys) = bytes_value xs * 256 ^ length ys + bytes_value ys"
  by (induction ys rule: rev_induct) (simp_all add: algebra_simps flip: append_assoc)

lemma length_nat_bytes [simp]: "length (nat_bytes n v) = n"
  by (induction n v rule: nat_bytes.induct) auto

lemma bytes_value_nat_bytes [simp]: "v < 256 ^ n \<Longrightarrow> bytes_value (nat_bytes n v) = v"
proof (induction n v rule: nat_bytes.induct)
  case (2 n v)
  have "unat (of_nat (v mod 256) :: byte) = v mod 256" by (simp add: unat_of_nat)
  moreover have "v div 256 < 256 ^ n" using 2(2) by (simp add: less_mult_imp_div_less mult.commute)
  ultimately show ?case using 2(1) by simp
qed simp

lemma nat_bytes_inj: "u < 256 ^ n \<Longrightarrow> v < 256 ^ n \<Longrightarrow> nat_bytes n u = nat_bytes n v \<longleftrightarrow> u = v"
  by (metis bytes_value_nat_bytes)

lemma unat_less_bytes: "unat (v :: 256 word) < 256 ^ 32" "unat (a :: 160 word) < 256 ^ 20" "unat (d :: 64 word) < 256 ^ 8"
  using unsigned_less [of v] unsigned_less [of a] unsigned_less [of d] by simp_all

lemma address_bytes_inj [simp]: "address_bytes a = address_bytes b \<longleftrightarrow> a = b"
  using unat_less_bytes(2) [of a] unat_less_bytes(2) [of b] unfolding address_bytes_def
  by (subst nat_bytes_inj) (simp_all add: word_unat_eq_iff)

lemma bytes_value_less: "bytes_value bs < 256 ^ length bs"
proof (induction bs rule: rev_induct)
  case (snoc b bs)
  have "unat b < 256" using unsigned_less [of b] by simp
  with snoc show ?case by simp
qed simp

lemma word_at_append:
  "length xs = p \<Longrightarrow> length v = 32 \<Longrightarrow> word_at (xs @ v @ ys) p = bytes_value v"
  by (simp add: word_at_def)

lemma word_at_words:
  assumes "i < length ws" "\<forall>v \<in> set ws. v < 2 ^ 256"
  shows "word_at (concat (map (nat_bytes 32) ws)) (32 * i) = ws ! i"
proof -
  have "length (concat (map (nat_bytes 32) vs)) = 32 * length vs" for vs by (induction vs) auto
  then have "word_at (concat (map (nat_bytes 32) (take i ws)) @ nat_bytes 32 (ws ! i) @
      concat (map (nat_bytes 32) (drop (Suc i) ws))) (32 * i) = bytes_value (nat_bytes 32 (ws ! i))"
    using assms(1) by (intro word_at_append) simp_all
  moreover have "concat (map (nat_bytes 32) ws) =
      concat (map (nat_bytes 32) (take i ws)) @ nat_bytes 32 (ws ! i) @ concat (map (nat_bytes 32) (drop (Suc i) ws))"
    using assms(1) by (subst id_take_nth_drop [of i ws]) simp_all
  ultimately show ?thesis using assms by simp
qed

text \<open>The standard encoding of the installation data is read back.\<close>

definition encode_install :: "Config \<Rightarrow> evm_address list \<Rightarrow> byte list" where
  "encode_install c targets = concat (map (nat_bytes 32)
     ([unat (hc_asset c), unat (hc_maxTransaction c), unat (hc_dailyLimit c), unat (hc_minBalance c),
       unat (hc_policyHash c), (if hc_installed c then 1 else 0), 224, length targets] @ map unat targets))"

lemma decode_encode_install:
  assumes "length targets < 2 ^ 64"
  shows "decode_install (encode_install c targets) = Inr (c, targets)"
proof -
  define ws where "ws = [unat (hc_asset c), unat (hc_maxTransaction c), unat (hc_dailyLimit c), unat (hc_minBalance c),
       unat (hc_policyHash c), (if hc_installed c then 1 else 0), 224, length targets] @ map unat targets"
  have a: "unat (x :: evm_address) < 2 ^ 160" "unat x < 2 ^ 256" for x using unat_less_bytes(2) [of x] by simp_all
  have "\<forall>v \<in> set ws. v < 2 ^ 256" using assms a(2) unat_less_bytes(1) by (auto simp: ws_def)
  then have w: "word_at (encode_install c targets) (32 * i) = ws ! i" if "i < 8 + length targets" for i
    using that word_at_words [of i ws] by (simp add: encode_install_def ws_def)
  have l: "length (encode_install c targets) = 256 + 32 * length targets"
    by (simp add: encode_install_def length_concat comp_def sum_list_triv)
  have arr: "map (\<lambda>i. word_at (encode_install c targets) (256 + 32 * i)) [0..<length targets] = map unat targets"
    using w [of "8 + i" for i] by (intro nth_equalityI) (simp_all add: ws_def nth_append)
  have "decode_array (encode_install c targets) 224 = Inr targets"
    using w [of 7] l arr a(1) by (simp add: decode_array_def Let_def ws_def list_ex_iff not_le comp_def)
  with w [of 0] w [of 1] w [of 2] w [of 3] w [of 4] w [of 5] w [of 6] l a(1) [of "hc_asset c"] show ?thesis
    by (simp add: decode_install_def ws_def not_le)
qed

lemma decode_encode_hookData [simp]: "decode_hookData (encode_hookData v d t) = Inr (v, d, t)"
proof -
  let ?v = "nat_bytes 32 (unat v)" and ?d = "nat_bytes 32 (unat d)" and ?t = "nat_bytes 32 (unat t)"
  have b: "unat v < 256 ^ 32" "unat d < 256 ^ 32" "unat t < 256 ^ 32" "unat d < 2 ^ 64" "unat t < 2 ^ 160"
    using unat_less_bytes(1) [of v] unat_less_bytes(2) [of t] unat_less_bytes(3) [of d] by simp_all
  have "word_at (encode_hookData v d t) 0 = unat v" "word_at (encode_hookData v d t) 32 = unat d"
    "word_at (encode_hookData v d t) 64 = unat t"
    using word_at_append [of "[]" 0 ?v "?d @ ?t"] word_at_append [of ?v 32 ?d ?t] word_at_append [of "?v @ ?d" 64 ?t "[]"] b(1-3)
    by (simp_all add: encode_hookData_def)
  with b show ?thesis by (simp add: decode_hookData_def) (simp add: encode_hookData_def)
qed

section \<open>What the operations guarantee\<close>

text \<open>A committed spend is within both limits and the accumulator does not wrap.\<close>

lemma applySpend_Inr:
  assumes "applySpend w l amount today = Inr next"
  shows "amount \<le> li_maxTransaction l" "wn_day w \<le> today" "wn_day next = today" "wn_spent next \<le> li_dailyLimit l"
    "uint (wn_spent next) = (if wn_day w = today then uint (wn_spent w) else 0) + uint amount"
proof -
  define base where "base = (if wn_day w = today then wn_spent w else 0)"
  from assms have n: "\<not> today < wn_day w" "\<not> amount > li_maxTransaction l" "\<not> amount > - 1 - base"
      "\<not> base + amount > li_dailyLimit l" "next = \<lparr>wn_day = today, wn_spent = base + amount\<rparr>"
    by (auto simp: applySpend_def policylib_evaluate_def Let_def base_def split: if_splits)
  then show "amount \<le> li_maxTransaction l" "wn_day w \<le> today" "wn_day next = today" "wn_spent next \<le> li_dailyLimit l"
    by simp_all
  show "uint (wn_spent next) = (if wn_day w = today then uint (wn_spent w) else 0) + uint amount"
    using no_wrap(2) [of amount base] n(3,5) by (simp add: base_def split: if_splits)
qed

section \<open>Runs\<close>

text \<open>
  Every call that writes the storage: any account may install and uninstall itself, and may reach \<^verbatim>\<open>postCheck\<close>
  with any snapshot and any balance, whatever else happens in between.
\<close>

inductive hook_call :: "AgentPolicyHook \<Rightarrow> HookEvent list \<Rightarrow> AgentPolicyHook \<Rightarrow> bool" where
  install: "onInstall a data s = Inr (s', es) \<Longrightarrow> hook_call s es s'"
| uninstall: "onUninstall a s = (s', es) \<Longrightarrow> hook_call s es s'"
| post: "hook_postCheck a hookData b s = Inr (s', es) \<Longrightarrow> hook_call s es s'"

inductive hook_run :: "AgentPolicyHook \<Rightarrow> HookEvent list \<Rightarrow> AgentPolicyHook \<Rightarrow> bool" where
  start: "hook_run s [] s"
| more: "hook_run s es s1 \<Longrightarrow> hook_call s1 es' s2 \<Longrightarrow> hook_run s (es @ es') s2"

text \<open>
  An execution of an account: the first check, the call with everything it causes, and the second check against the
  balances the call leaves behind. Anything that reverts undoes the whole execution.
\<close>

definition hook_execution ::
  "evm_address \<Rightarrow> byte list \<Rightarrow> cd_slice \<Rightarrow> balances \<Rightarrow> uint256 \<Rightarrow> AgentPolicyHook \<Rightarrow> HookEvent list \<Rightarrow> AgentPolicyHook \<Rightarrow>
     HookEvent list \<Rightarrow> AgentPolicyHook \<Rightarrow> balances \<Rightarrow> bool" where
  "hook_execution a cd msgData b t s es s1 es' s' b' =
     (\<exists>hookData. hook_preCheck a cd msgData b t s = Inr hookData \<and> hook_run s es s1 \<and>
        hook_postCheck a hookData b' s1 = Inr (s', es'))"

text \<open>The spends of an account in a history, and those since its policy was last removed.\<close>

fun spend_in :: "byte list \<Rightarrow> HookEvent \<Rightarrow> SpendEvent list" where
  "spend_in a (SpendRecorded e) = (if se_account e = a then [e] else [])"
| "spend_in a _ = []"

fun spends_since :: "byte list \<Rightarrow> SpendEvent list \<Rightarrow> HookEvent list \<Rightarrow> SpendEvent list" where
  "spends_since a xs [] = xs"
| "spends_since a xs (e # es) = spends_since a (if e = PolicyUninstalled a then [] else xs @ spend_in a e) es"

definition current_spends :: "byte list \<Rightarrow> HookEvent list \<Rightarrow> SpendEvent list" where
  "current_spends a es = spends_since a [] es"

lemma spends_since_append: "spends_since a xs (es @ fs) = spends_since a (spends_since a xs es) fs"
  by (induction es arbitrary: xs) auto

lemma spends_since_quiet:
  "(\<And>e. e \<in> set es \<Longrightarrow> e \<noteq> PolicyUninstalled a \<and> spend_in a e = []) \<Longrightarrow> spends_since a xs es = xs"
  by (induction es arbitrary: xs) auto

lemma current_spends_simps [simp]:
  "current_spends a [] = []"
  "current_spends a (es @ fs) = spends_since a (current_spends a es) fs"
  by (simp_all add: current_spends_def spends_since_append)

text \<open>What the storage of one account says about its history.\<close>

definition account_inv :: "Config \<Rightarrow> Window \<Rightarrow> SpendEvent list \<Rightarrow> bool" where
  "account_inv c w xs =
     ((hc_installed c \<or> xs = []) \<and>
      (if xs = [] then w = zero_window else uint (wn_day w) = se_day (last xs) \<and> uint (wn_spent w) = se_dayTotal (last xs)) \<and>
      sorted (map se_day xs) \<and>
      (\<forall>d. accumulates 0 (filter (\<lambda>e. se_day e = d) xs)) \<and>
      (\<forall>e \<in> set xs. 0 < se_amount e \<and> se_amount e \<le> uint (hc_maxTransaction c) \<and> se_dayTotal e \<le> uint (hc_dailyLimit c)))"

definition hook_inv :: "HookEvent list \<Rightarrow> AgentPolicyHook \<Rightarrow> bool" where
  "hook_inv es s = (\<forall>a. account_inv (hk_config s a) (hk_window s a) (current_spends (address_bytes a) es))"

lemma accumulates_snoc:
  "accumulates t (ys @ [e]) \<longleftrightarrow>
     accumulates t ys \<and> se_dayTotal e = (if ys = [] then t else se_dayTotal (last ys)) + se_amount e"
  by (induction ys arbitrary: t) auto

lemma account_inv_spend:
  assumes inv: "account_inv c w xs" and "hc_installed c"
    and spend: "applySpend w \<lparr>li_maxTransaction = hc_maxTransaction c, li_dailyLimit = hc_dailyLimit c\<rparr> amount today = Inr next"
    and "0 < amount"
    and e: "se_amount e = uint amount" "se_dayTotal e = uint (wn_spent next)" "se_day e = uint today"
  shows "account_inv c next (xs @ [e])"
proof -
  note n = applySpend_Inr [OF spend]
  have day: "se_day x \<le> uint (wn_day w)" if "x \<in> set xs" for x
  proof -
    from that obtain ys y where xs: "xs = ys @ [y]" by (cases xs rule: rev_cases) auto
    then have "sorted (map se_day (ys @ [y]))" "uint (wn_day w) = se_day y" using inv by (auto simp: account_inv_def)
    then show ?thesis using that xs by (auto simp: sorted_append)
  qed
  have le: "uint (wn_day w) \<le> uint today" using n(2) by (simp add: word_le_def)
  let ?today = "filter (\<lambda>e. se_day e = uint today) xs"
  have "(if ?today = [] then 0 else se_dayTotal (last ?today)) = (if wn_day w = today then uint (wn_spent w) else 0)"
  proof (cases "wn_day w = today \<and> xs \<noteq> []")
    case True
    then obtain ys y where xs: "xs = ys @ [y]" by (cases xs rule: rev_cases) auto
    with True inv have "se_day y = uint today" "se_dayTotal y = uint (wn_spent w)" by (auto simp: account_inv_def)
    with True show ?thesis by (simp add: xs)
  next
    case False
    then have "xs = [] \<or> uint (wn_day w) < uint today" using le by (auto simp: word_uint_eq_iff)
    then have "?today = []" using day by (fastforce simp: filter_empty_conv)
    with False inv show ?thesis by (auto simp: account_inv_def zero_window_def)
  qed
  then have acc: "accumulates 0 (filter (\<lambda>e. se_day e = d) (xs @ [e]))" for d
    using inv n(5) e by (auto simp: account_inv_def accumulates_snoc)
  have "sorted (map se_day (xs @ [e]))"
    using inv day le e(3) by (fastforce simp: account_inv_def sorted_append)
  moreover have "\<forall>x \<in> set (xs @ [e]). 0 < se_amount x \<and> se_amount x \<le> uint (hc_maxTransaction c) \<and>
      se_dayTotal x \<le> uint (hc_dailyLimit c)"
    using inv n(1,4) e(1,2) assms(4) by (auto simp: account_inv_def word_le_def word_less_def)
  ultimately show ?thesis using acc assms(2) n(3) e(2,3) unfolding account_inv_def by simp
qed

text \<open>The outcomes of \<^verbatim>\<open>postCheck\<close>.\<close>

lemma postCheck_Inr:
  assumes "hook_postCheck a hookData b s = Inr (s', es)"
  obtains balanceBefore today target balanceAfter where
    "hc_installed (hk_config s a)" "decode_hookData hookData = Inr (balanceBefore, today, target)"
    "b (hc_asset (hk_config s a)) a = Some balanceAfter" "hc_minBalance (hk_config s a) \<le> balanceAfter"
    "balanceBefore \<le> balanceAfter \<and> s' = s \<and> es = [] \<or>
     balanceAfter < balanceBefore \<and>
       (\<exists>next. applySpend (hk_window s a) \<lparr>li_maxTransaction = hc_maxTransaction (hk_config s a),
            li_dailyLimit = hc_dailyLimit (hk_config s a)\<rparr> (balanceBefore - balanceAfter) today = Inr next \<and>
          s' = s\<lparr>hk_window := (hk_window s)(a := next)\<rparr> \<and>
          es = [SpendRecorded \<lparr>se_account = address_bytes a, se_target = address_bytes target,
            se_amount = uint (balanceBefore - balanceAfter), se_dayTotal = uint (wn_spent next), se_day = uint today\<rparr>])"
proof -
  have pos: "0 < x - y \<longleftrightarrow> x \<noteq> y" for x y :: "256 word" by (simp add: word_gt_0)
  from assms show thesis
    by (auto simp: hook_postCheck_def Let_def bindE_eq_Inr balance_of_def pos not_less split: if_splits option.splits
        intro!: that)
qed

lemma hook_inv_start: "hook_inv [] newAgentPolicyHook"
  by (simp add: hook_inv_def account_inv_def newAgentPolicyHook_def)

lemma allow_targets_frame [simp]:
  "hk_config (allow_targets a ts s) = hk_config s" "hk_window (allow_targets a ts s) = hk_window s"
  by (simp_all add: allow_targets_def)

lemma allowed_fold: "fold (\<lambda>t m. m(a := (m a)(t := True))) ts m a t \<longleftrightarrow> m a t \<or> t \<in> set ts"
  by (induction ts arbitrary: m) auto

lemma hook_inv_call:
  assumes "hook_call s es' s'" and "hook_inv es s"
  shows "hook_inv (es @ es') s'"
  using assms(1)
proof cases
  case (install a data)
  then obtain c ts where i: "\<not> hc_installed (hk_config s a)" "hk_config s' = (hk_config s)(a := c\<lparr>hc_installed := True\<rparr>)"
      "hk_window s' = hk_window s"
      "es' = map (\<lambda>t. HookEvent.TargetAllowed (address_bytes a) (address_bytes t) True) ts @
         [PolicyInstalled (address_bytes a) (word_bytes (hc_policyHash c)) (address_bytes (hc_asset c))]"
    by (auto simp: onInstall_def bindE_eq_Inr Let_def split: if_splits)
  then have "spends_since x ys es' = ys" for x ys by (intro spends_since_quiet) auto
  moreover have "current_spends (address_bytes a) es = []"
    using assms(2) i(1) by (auto simp: hook_inv_def account_inv_def)
  ultimately show ?thesis using assms(2) i(2,3) by (auto simp: hook_inv_def account_inv_def)
next
  case (uninstall a)
  moreover have "account_inv zero_config zero_window []" by (simp add: account_inv_def)
  ultimately show ?thesis using assms(2) by (auto simp: hook_inv_def onUninstall_def)
next
  case (post a hookData b)
  from post(1) show ?thesis
  proof (cases rule: postCheck_Inr)
    case (1 balanceBefore today target balanceAfter)
    from 1(5) show ?thesis
    proof (elim disjE conjE exE)
      assume "s' = s" "es' = []"
      then show ?thesis using assms(2) by simp
    next
      fix "next" assume out: "balanceAfter < balanceBefore"
        and spend: "applySpend (hk_window s a) \<lparr>li_maxTransaction = hc_maxTransaction (hk_config s a),
            li_dailyLimit = hc_dailyLimit (hk_config s a)\<rparr> (balanceBefore - balanceAfter) today = Inr next"
        and s': "s' = s\<lparr>hk_window := (hk_window s)(a := next)\<rparr>"
        and es': "es' = [SpendRecorded \<lparr>se_account = address_bytes a, se_target = address_bytes target,
            se_amount = uint (balanceBefore - balanceAfter), se_dayTotal = uint (wn_spent next), se_day = uint today\<rparr>]"
      have "0 < balanceBefore - balanceAfter" using out by (auto simp: word_gt_0)
      with account_inv_spend [OF _ 1(1) spend] assms(2) show ?thesis
        by (auto simp: hook_inv_def s' es')
    qed
  qed
qed

lemma hook_inv_run: "hook_run s es' s' \<Longrightarrow> hook_inv es s \<Longrightarrow> hook_inv (es @ es') s'"
  by (induction rule: hook_run.induct) (auto simp: hook_inv_call simp flip: append_assoc)

lemma config_kept:
  assumes "hook_run s es s'" "hc_installed (hk_config s a)" "PolicyUninstalled (address_bytes a) \<notin> set es"
  shows "hk_config s' a = hk_config s a"
  using assms
proof (induction rule: hook_run.induct)
  case (more s es s1 es' s2)
  have s1: "hk_config s1 a = hk_config s a" using more by simp
  from more(2) show ?case
  proof cases
    case (install b data)
    with more(4) s1 show ?thesis by (auto simp: onInstall_def bindE_eq_Inr Let_def split: if_splits)
  next
    case (uninstall b)
    with more(5) s1 show ?thesis by (auto simp: onUninstall_def)
  next
    case (post b hookData bal)
    from post(1) s1 show ?thesis by (cases rule: postCheck_Inr) auto
  qed
qed simp

section \<open>Reading the calldata the executors write\<close>

lemma calldataload_eq: "calldataload cd p = of_nat (bytes_value (take 32 (drop (unat p) cd @ replicate 32 0)))"
proof -
  have "map (\<lambda>i. byte_at cd (unat p + i)) [0..<32] = take 32 (drop (unat p) cd @ replicate 32 0)"
    by (rule nth_equalityI) (auto simp: byte_at_def nth_append)
  then show ?thesis by (simp add: calldataload_def)
qed

lemma unat_of_bytes: "length bs \<le> 32 \<Longrightarrow> unat (of_nat (bytes_value bs) :: uint256) = bytes_value bs"
proof -
  assume "length bs \<le> 32"
  then have "(256 :: nat) ^ length bs \<le> 256 ^ 32" by (intro power_increasing) simp_all
  with bytes_value_less [of bs] have "bytes_value bs < 256 ^ 32" by linarith
  then show ?thesis by (simp add: unat_of_nat)
qed

lemma calldataload_word:
  assumes "cd = xs @ v @ ys" "unat p = length xs" "length v = 32"
  shows "calldataload cd p = of_nat (bytes_value v)"
  using assms by (simp add: calldataload_eq)

text \<open>The leading bytes of a loaded word.\<close>

lemma calldataload_prefix:
  assumes "cd = xs @ v @ ys" "unat p = length xs" "length v = k" "k \<le> 32"
  shows "unat (calldataload cd p) div 256 ^ (32 - k) = bytes_value v"
proof -
  let ?w = "take (32 - k) (ys @ replicate 32 0)"
  have t: "take 32 (drop (unat p) cd @ replicate 32 0) = v @ ?w" using assms by simp
  have w: "length ?w = 32 - k" by simp
  have "unat (calldataload cd p) = bytes_value v * 256 ^ (32 - k) + bytes_value ?w"
    unfolding calldataload_eq t using assms(3,4) w by (subst unat_of_bytes) (simp_all add: bytes_value_append del: take_append)
  moreover have "bytes_value ?w < 256 ^ (32 - k)" using bytes_value_less [of ?w] w by simp
  ultimately show ?thesis by simp
qed

lemma nat_bytes_value: "nat_bytes (length bs) (bytes_value bs) = bs"
proof (induction bs rule: rev_induct)
  case (snoc b bs)
  have "unat b < 256" using unsigned_less [of b] by simp
  with snoc show ?case by simp
qed simp

lemma pairs_to_bytes_append: "even (length s) \<Longrightarrow> pairs_to_bytes (s @ t) = pairs_to_bytes s @ pairs_to_bytes t"
  by (induction s rule: pairs_to_bytes.induct) auto

lemma length_pairs_to_bytes: "length (pairs_to_bytes s) = length s div 2"
  by (induction s rule: pairs_to_bytes.induct) auto

lemma parse_byte_value: "is_hex_digit c \<Longrightarrow> is_hex_digit d \<Longrightarrow> unat (parse_byte [c, d]) = digit_val c * 16 + digit_val d"
proof -
  assume h: "is_hex_digit c" "is_hex_digit d"
  have not: "x \<noteq> CHR ''-''" "x \<noteq> CHR ''+''" "lower_char x \<noteq> CHR ''x''" if "is_hex_digit x" for x
  proof -
    have "is_hex_digit (lower_char x)" using that by simp
    moreover have "\<not> is_hex_digit (CHR ''-'')" "\<not> is_hex_digit (CHR ''+'')" "\<not> is_hex_digit (CHR ''x'')" by code_simp+
    ultimately show "x \<noteq> CHR ''-''" "x \<noteq> CHR ''+''" "lower_char x \<noteq> CHR ''x''" using that by metis+
  qed
  have "digit_val c < 16" "digit_val d < 16" using h by (simp_all add: digit_val_less16)
  then have "digit_val c * 16 + digit_val d < 256" by simp
  moreover have "parseInt16 [c, d] = Some (int (digit_val c * 16 + digit_val d))"
    using h not [OF h(1)] not [OF h(2)] by (simp add: parseInt16_def Let_def of_base_Cons hex_digit_not_space toLowerCase_def)
  ultimately show ?thesis by (simp add: parse_byte_def unat_of_nat del: of_nat_add of_nat_mult)
qed

lemma bytes_value_pairs:
  "list_all is_hex_digit s \<Longrightarrow> even (length s) \<Longrightarrow> bytes_value (pairs_to_bytes s) = of_hex s"
proof (induction s rule: pairs_to_bytes.induct)
  case (1 a b s)
  from 1(3) obtain k where "length s = 2 * k" by (auto elim: evenE)
  then have "256 ^ (length s div 2) = (16 :: nat) ^ length s" by (simp add: power_mult)
  with 1 bytes_value_append [of "[parse_byte [a, b]]" "pairs_to_bytes s"] parse_byte_value [of a b] show ?case
    by (simp add: of_base_Cons length_pairs_to_bytes bytes_value_def algebra_simps)
qed auto

lemma pairs_abi_word: "uint256 v \<Longrightarrow> pairs_to_bytes (abi_word v) = nat_bytes 32 (nat v)"
proof -
  assume v: "uint256 v"
  then have "0 \<le> v" by (simp add: uint256_def)
  then have "bytes_value (pairs_to_bytes (abi_word v)) = nat v"
    using v abi_word_hex by (subst bytes_value_pairs) (simp, simp, simp add: abi_word_nat)
  with nat_bytes_value [of "pairs_to_bytes (abi_word v)"] v show ?thesis by (simp add: length_pairs_to_bytes)
qed

lemma pairs_append_simps:
  "uint256 v \<Longrightarrow> pairs_to_bytes (abi_word v @ t) = nat_bytes 32 (nat v) @ pairs_to_bytes t"
  "pairs_to_bytes (concat (map byte_hex bs) @ t) = bs @ pairs_to_bytes t"
  "is_address a \<Longrightarrow> pairs_to_bytes (drop 2 a @ t) = pairs_to_bytes (drop 2 a) @ pairs_to_bytes t"
  by (simp_all add: pairs_to_bytes_append pairs_abi_word length_concat_byte_hex pairs_to_bytes_hex is_address_def)

text \<open>The address a hexadecimal string denotes.\<close>

definition evm_of :: "Address \<Rightarrow> evm_address" where
  "evm_of a = of_int (address_value a)"

lemma address_value_less: "is_address a \<Longrightarrow> address_value a < 2 ^ 160"
proof (elim is_addressE)
  fix s assume s: "a = ''0x'' @ s" "length s = 40" "list_all is_hex_digit s"
  have "of_hex s < 16 ^ length s" by (rule of_base_less) (use s in \<open>auto simp: list_all_iff digit_val_less16\<close>)
  with s show ?thesis by (simp add: address_value_def)
qed

lemma unat_evm_of: "is_address a \<Longrightarrow> unat (evm_of a) = nat (address_value a)"
  using address_value_less [of a] by (simp add: evm_of_def address_value_def unat_of_nat)

lemma pairs_address: "is_address a \<Longrightarrow> bytes_value (pairs_to_bytes (drop 2 a)) = unat (evm_of a) \<and> length (pairs_to_bytes (drop 2 a)) = 20"
  by (frule unat_evm_of, elim is_addressE) (simp add: bytes_value_pairs address_value_def length_pairs_to_bytes)

lemma executor_bytes:
  assumes "is_address to" "uint256 v" "executor_encodeErc7579Execute to v (bytesToHex body) = Inr msg"
    and "hexToBytes msg = Inr md" and "length body < 2 ^ 64"
  shows "\<exists>pad. md = [0xe9, 0xae, 0x5c, 0x53] @ nat_bytes 32 0 @ nat_bytes 32 64 @ nat_bytes 32 (52 + length body) @
    nat_bytes 20 (unat (evm_of to)) @ nat_bytes 32 (nat v) @ body @ pad"
proof -
  let ?a = "drop 2 to" and ?b = "concat (map byte_hex body)"
  define p where "p = ?a @ abi_word v @ ?b"
  have la: "length ?a = 40" using assms(1) by (simp add: is_address_def)
  have lp: "length p = 2 * (52 + length body)" using la assms(2) by (simp add: p_def length_concat_byte_hex)
  obtain z where z: "padEnd (((length p div 2 + 31) div 32) * 64) (CHR ''0'') p = p @ z" by (simp add: padEnd_def)
  have msg: "msg = ''0xe9ae5c53'' @ abi_word 0 @ abi_word 64 @ abi_word (int (52 + length body)) @ p @ z"
  proof -
    have "?a @ abi_word v @ drop 2 (bytesToHex body) = p" by (simp add: p_def bytesToHex_def)
    with assms(3) lp z show ?thesis by (simp add: executor_encodeErc7579Execute_def Let_def)
  qed
  have u: "uint256 0" "uint256 64" "uint256 (int (52 + length body))"
    using assms(5) by (auto simp: uint256_def UINT256_MAX_def)
  have sel: "pairs_to_bytes ''e9ae5c53'' = [0xe9, 0xae, 0x5c, 0x53]" by code_simp
  have a: "pairs_to_bytes ?a = nat_bytes 20 (unat (evm_of to))"
    using pairs_address [OF assms(1)] nat_bytes_value [of "pairs_to_bytes ?a"] by simp
  have "md = pairs_to_bytes (''e9ae5c53'' @ abi_word 0 @ abi_word 64 @ abi_word (int (52 + length body)) @ p @ z)"
    using assms(4) by (auto simp: hexToBytes_def msg Let_def split: if_splits)
  also have "\<dots> = [0xe9, 0xae, 0x5c, 0x53] @ nat_bytes 32 0 @ nat_bytes 32 64 @ nat_bytes 32 (52 + length body) @
      nat_bytes 20 (unat (evm_of to)) @ nat_bytes 32 (nat v) @ body @ pairs_to_bytes z"
    using u assms(1,2) a sel by (simp add: p_def pairs_append_simps nat_add_distrib)
  finally show ?thesis by blast
qed

lemma unat_pos: "n < 2 ^ 64 \<Longrightarrow> k < 2 ^ 64 \<Longrightarrow> unat (of_nat (n + k) :: uint256) = n + k"
  by (simp add: unat_of_nat del: of_nat_add)

lemma load_nat:
  assumes "cd = xs @ nat_bytes 32 v @ ys" "unat p = length xs" "v < 2 ^ 256"
  shows "calldataload cd p = of_nat v"
  using calldataload_word [OF assms(1,2)] assms(3) by simp

lemma high_selector_load:
  assumes "cd = xs @ v @ ys" "unat p = length xs" "length v = 4"
  shows "high_selector (calldataload cd p) = of_nat (bytes_value v)"
  using calldataload_prefix [OF assms] by (simp add: high_selector_def)

lemma wrapper_longer:
  assumes "executor_encodeErc7579Execute to v (bytesToHex body) = Inr msg" "hexToBytes msg = Inr md"
  shows "length body \<le> length md"
proof -
  have "2 * length body \<le> length (drop 2 msg)"
    using assms(1) by (auto simp: executor_encodeErc7579Execute_def Let_def bytesToHex_def length_padEnd length_concat_byte_hex
        split: if_splits)
  moreover have "length md = length (drop 2 msg) div 2"
    using assms(2) by (auto simp: hexToBytes_def Let_def length_pairs_to_bytes split: if_splits)
  ultimately show ?thesis by linarith
qed

lemma wrapper_decoded:
  assumes "is_address to" "uint256 v" "executor_encodeErc7579Execute to v (bytesToHex body) = Inr msg"
    and "hexToBytes msg = Inr md" and cd: "cd = pre @ md @ rest" and bounds: "length pre < 2 ^ 64" "length md < 2 ^ 64"
  shows "decodeSingleExecution cd (of_nat (length pre), of_nat (length md)) =
      Inr (evm_of to, (of_nat (length pre + 152), of_nat (length body)))"
    and "\<exists>xs ys. cd = xs @ body @ ys \<and> length xs = length pre + 152"
proof -
  let ?n = "length pre" and ?s = "[0xe9, 0xae, 0x5c, 0x53] :: byte list"
  let ?a = "nat_bytes 20 (unat (evm_of to))" and ?l = "nat_bytes 32 (52 + length body)"
  have small: "length pre < 2 ^ 64" "length body < 2 ^ 64" using bounds wrapper_longer [OF assms(3,4)] by simp_all
  obtain pad where md: "md = ?s @ nat_bytes 32 0 @ nat_bytes 32 64 @ ?l @ ?a @ nat_bytes 32 (nat v) @ body @ pad"
    using executor_bytes [OF assms(1-4) small(2)] by blast
  have pos: "of_nat ?n + 4 = (of_nat (?n + 4) :: uint256)" "of_nat ?n + 36 = (of_nat (?n + 36) :: uint256)"
    "of_nat (?n + 4) + (64 + 32) = (of_nat (?n + 100) :: uint256)" "of_nat (?n + 100) - 32 = (of_nat (?n + 68) :: uint256)"
    "of_nat (?n + 100) + 52 = (of_nat (?n + 152) :: uint256)" "of_nat (52 + length body) - 52 = (of_nat (length body) :: uint256)"
    by simp_all
  have at: "unat (of_nat ?n :: uint256) = ?n" "unat (of_nat (?n + 4) :: uint256) = ?n + 4"
    "unat (of_nat (?n + 36) :: uint256) = ?n + 36" "unat (of_nat (?n + 68) :: uint256) = ?n + 68"
    "unat (of_nat (?n + 100) :: uint256) = ?n + 100"
    using unat_pos [OF small(1), of 0] unat_pos [OF small(1), of 4] unat_pos [OF small(1), of 36] unat_pos [OF small(1), of 68]
      unat_pos [OF small(1), of 100] by simp_all
  have sel: "high_selector (calldataload cd (of_nat ?n)) = EXECUTE_SELECTOR"
    using high_selector_load [of cd pre ?s _ "of_nat ?n"] at(1) by (simp add: cd md EXECUTE_SELECTOR_def bytes_value_def)
  have mode: "calldataload cd (of_nat (?n + 4)) = 0"
    using load_nat [of cd "pre @ ?s" 0 _ "of_nat (?n + 4)"] at(2) by (simp add: cd md)
  have rel: "calldataload cd (of_nat (?n + 36)) = 64"
    using load_nat [of cd "pre @ ?s @ nat_bytes 32 0" 64 _ "of_nat (?n + 36)"] at(3) by (simp add: cd md)
  have len: "calldataload cd (of_nat (?n + 68)) = of_nat (52 + length body)"
    using load_nat [of cd "pre @ ?s @ nat_bytes 32 0 @ nat_bytes 32 64" "52 + length body" _ "of_nat (?n + 68)"] at(4) small(2)
    by (simp add: cd md del: of_nat_add)
  have "unat (calldataload cd (of_nat (?n + 100))) div 256 ^ (32 - 20) = bytes_value ?a"
    using calldataload_prefix [of cd "pre @ ?s @ nat_bytes 32 0 @ nat_bytes 32 64 @ ?l" ?a _ "of_nat (?n + 100)" 20] at(5)
    by (simp add: cd md)
  then have target: "of_nat (unat (calldataload cd (of_nat (?n + 100))) div 2 ^ 96) = evm_of to"
    using unat_less_bytes(2) [of "evm_of to"] by simp
  have ok: "\<not> (of_nat (length md) :: uint256) < 4" "\<not> (of_nat (52 + length body) :: uint256) < 52"
    using bounds(2) small(2) by (simp_all add: word_less_nat_alt unat_of_nat md del: of_nat_add)
  have type: "(of_nat (unat (0 :: uint256) div 2 ^ 248) :: byte) = 0" by simp
  show "decodeSingleExecution cd (of_nat (length pre), of_nat (length md)) =
      Inr (evm_of to, (of_nat (length pre + 152), of_nat (length body)))"
    unfolding decodeSingleExecution_def Let_def prod.case pos(1,2) sel mode rel
    unfolding pos(3) unfolding pos(4,5) len type target pos(6) by (simp only: ok simp_thms if_False)
  show "\<exists>xs ys. cd = xs @ body @ ys \<and> length xs = length pre + 152"
    by (intro exI [of _ "pre @ ?s @ nat_bytes 32 0 @ nat_bytes 32 64 @ ?l @ ?a @ nat_bytes 32 (nat v)"] exI [of _ "pad @ rest"])
      (simp add: cd md)
qed

lemma byte_hex_lower: "c \<in> set (byte_hex b) \<Longrightarrow> is_hex_digit c \<and> lower_char c = c"
proof -
  have "unat b < 256" using unsigned_less [of b] by simp
  then have "unat b div 16 < 16" by (simp add: less_mult_imp_div_less)
  then show "c \<in> set (byte_hex b) \<Longrightarrow> is_hex_digit c \<and> lower_char c = c" by (auto simp: byte_hex_eq)
qed

lemma hex_nat_bytes:
  assumes "uint256 v"
  shows "concat (map byte_hex (nat_bytes 32 (nat v))) = abi_word v"
proof -
  let ?s = "concat (map byte_hex (nat_bytes 32 (nat v)))"
  have l: "length ?s = 64" by (simp add: length_concat_byte_hex)
  have "of_hex ?s = bytes_value (nat_bytes 32 (nat v))"
    using bytes_value_pairs [of ?s] l by (simp add: hex_digit_concat_byte_hex pairs_to_bytes_hex)
  also have "\<dots> = nat v" using assms by (intro bytes_value_nat_bytes) (simp add: uint256_def UINT256_MAX_def nat_less_iff)
  finally have v: "of_hex ?s = nat v" .
  have "?s \<noteq> []" using l by (metis length_0_conv zero_neq_numeral)
  then have "padStart (length ?s) (CHR ''0'') (to_hex (of_hex ?s)) = ?s"
    by (intro padStart_to_hex_of_hex) (use byte_hex_lower in \<open>fastforce+\<close>)
  then show ?thesis using assms l v by (simp add: abi_word_nat uint256_def)
qed

lemma transfer_bytes:
  assumes "is_address recipient" "uint256 amount" "encodeErc20Transfer recipient amount = Inr (bytesToHex body)"
  shows "body = [0xa9, 0x05, 0x9c, 0xbb] @ nat_bytes 32 (unat (evm_of recipient)) @ nat_bytes 32 (nat amount)"
proof -
  let ?body = "[0xa9, 0x05, 0x9c, 0xbb] @ nat_bytes 32 (nat (address_value recipient)) @ nat_bytes 32 (nat amount)"
  have "concat (map byte_hex [0xa9, 0x05, 0x9c, 0xbb]) = ''a9059cbb''" by code_simp
  then have "bytesToHex ?body = ''0xa9059cbb'' @ abi_word (address_value recipient) @ abi_word amount"
    using assms(1,2) by (simp add: bytesToHex_def hex_nat_bytes)
  then have "bytesToHex body = bytesToHex ?body" using assms(1,3) by (simp add: encodeErc20Transfer_def)
  then show ?thesis using unat_evm_of [OF assms(1)] by simp
qed

lemma transfer_counterparty:
  assumes "is_address recipient" "uint256 amount" "encodeErc20Transfer recipient amount = Inr (bytesToHex body)"
    and "cd = xs @ body @ ys" "length xs < 2 ^ 64"
  shows "decodeErc20Counterparty cd (of_nat (length xs), of_nat (length body)) = Inr (evm_of recipient)"
proof -
  let ?s = "[0xa9, 0x05, 0x9c, 0xbb] :: byte list" and ?r = "unat (evm_of recipient)"
  note body = transfer_bytes [OF assms(1-3)]
  have at: "unat (of_nat (length xs) :: uint256) = length xs" "unat (of_nat (length xs + 4) :: uint256) = length xs + 4"
    using unat_pos [OF assms(5), of 0] unat_pos [OF assms(5), of 4] by simp_all
  have sel: "high_selector (calldataload cd (of_nat (length xs))) = ERC20_TRANSFER"
    using high_selector_load [of cd xs ?s _ "of_nat (length xs)"] at(1)
    by (simp add: assms(4) body ERC20_TRANSFER_def bytes_value_def)
  have "unat (evm_of recipient) < 2 ^ 256" using unat_less_bytes(2) [of "evm_of recipient"] by simp
  then have word: "calldataload cd (of_nat (length xs + 4)) = of_nat ?r"
    using load_nat [of cd "xs @ ?s" ?r _ "of_nat (length xs + 4)"] at(2) by (simp add: assms(4) body)
  have pos: "of_nat (length xs) + 4 = (of_nat (length xs + 4) :: uint256)" by simp
  have len: "length body = 68" by (simp add: body)
  have "ucast (of_nat (unat x) :: uint256) = x" for x :: evm_address by (subst of_nat_unat, transfer) simp
  then have "ucast (of_nat ?r :: uint256) = evm_of recipient" .
  then show ?thesis
    unfolding decodeErc20Counterparty_def Let_def prod.case pos sel word len by (simp add: ERC20_TRANSFER_def)
qed

lemma preCheck_wrapped_transfer:
  assumes "is_address token" "is_address recipient" "uint256 amount" "uint256 v" "evm_of recipient \<noteq> 0"
    and "encodeErc20Transfer recipient amount = Inr data" "data = bytesToHex body"
    and "executor_encodeErc7579Execute token v data = Inr msg" "hexToBytes msg = Inr md"
    and "cd = pre @ md @ rest" "length pre < 2 ^ 63" "length md < 2 ^ 64"
    and "hc_installed (hk_config s a)" "hc_asset (hk_config s a) = evm_of token" "b (evm_of token) a = Some before"
  shows "hook_preCheck a cd (of_nat (length pre), of_nat (length md)) b t s =
    (if \<not> hk_allowedTarget s a (evm_of token) then Inl (TargetNotAllowed (evm_of token))
     else if \<not> hk_allowedTarget s a (evm_of recipient) then Inl (TargetNotAllowed (evm_of recipient))
     else Inr (encode_hookData before (block_day t) (evm_of token)))"
proof -
  have pre: "length pre < 2 ^ 64" using assms(11) by simp
  have msg: "executor_encodeErc7579Execute token v (bytesToHex body) = Inr msg" using assms(7,8) by simp
  note w = wrapper_decoded [OF assms(1,4) msg assms(9,10) pre assms(12)]
  obtain xs ys where cd: "cd = xs @ body @ ys" "length xs = length pre + 152" using w(2) by blast
  then have "length xs < 2 ^ 64" using assms(11) by simp
  then have "decodeErc20Counterparty cd (of_nat (length pre + 152), of_nat (length body)) = Inr (evm_of recipient)"
    using transfer_counterparty [OF assms(2,3) _ cd(1)] assms(6,7) cd(2) by metis
  with w(1) assms(5,13-15) show ?thesis
    by (simp add: hook_preCheck_def Let_def balance_of_def del: of_nat_add)
qed

section \<open>Properties\<close>



text \<open>
  The hook judges what the executors send. For a transfer of the tracked asset wrapped by an executor of the SDK
  and embedded anywhere in the calldata of \<^verbatim>\<open>preCheck\<close>, the hook recovers token and recipient from the bytes: it
  reverts naming the token when that is not allowed, naming the recipient when that is not allowed, and otherwise
  returns the snapshot of the account's balance. (The zero address is not checked.)
\<close>

theorem hook_judges_wrapped_transfer:
  assumes "is_address token" "is_address recipient" "uint256 amount" "uint256 v" "evm_of recipient \<noteq> 0"
    and "encodeErc20Transfer recipient amount = Inr data" "data = bytesToHex body"
    and "executor_encodeErc7579Execute token v data = Inr msg" "hexToBytes msg = Inr md"
    and "cd = pre @ md @ rest" "length pre < 2 ^ 63" "length md < 2 ^ 64"
    and "hc_installed (hk_config s a)" "hc_asset (hk_config s a) = evm_of token" "b (evm_of token) a = Some before"
  shows "hook_preCheck a cd (of_nat (length pre), of_nat (length md)) b t s =
    (if \<not> hk_allowedTarget s a (evm_of token) then Inl (TargetNotAllowed (evm_of token))
     else if \<not> hk_allowedTarget s a (evm_of recipient) then Inl (TargetNotAllowed (evm_of recipient))
     else Inr (encode_hookData before (block_day t) (evm_of token)))"
  using assms by (rule preCheck_wrapped_transfer)

text \<open>
  (C39) Removing a policy does not remove its allowlist. An account that uninstalls and installs again, with any
  document, keeps every target the first installation allowed, and starts the day with an empty window.
\<close>

theorem reinstall_keeps_targets:
  assumes "onUninstall a s = (s1, es)" "onInstall a data s1 = Inr (s2, es')" "decode_install data = Inr (c, targets)"
  shows "(hk_allowedTarget s2 a t \<longleftrightarrow> hk_allowedTarget s a t \<or> t \<in> set targets) \<and> hk_window s2 a = zero_window \<and>
    hk_config s2 a = c\<lparr>hc_installed := True\<rparr>"
  using assms
  by (auto simp: onUninstall_def onInstall_def allow_targets_def allowed_fold Let_def zero_config_def split: if_splits)

section \<open>Witnesses\<close>

definition sample_hook_config :: Config where
  "sample_hook_config = \<lparr>hc_asset = evm_of sample_token, hc_maxTransaction = 100, hc_dailyLimit = 150, hc_minBalance = 10,
     hc_policyHash = 5, hc_installed = True\<rparr>"

definition sample_installed :: AgentPolicyHook where
  "sample_installed = allow_targets 7 [evm_of sample_token, evm_of sample_payee]
     (newAgentPolicyHook\<lparr>hk_config := (hk_config newAgentPolicyHook)(7 := sample_hook_config)\<rparr>)"

definition sample_balance :: "uint256 \<Rightarrow> balances" where
  "sample_balance v = (\<lambda>_ _. Some v)"

definition sample_spent :: AgentPolicyHook where
  "sample_spent = sample_installed\<lparr>hk_window := (hk_window sample_installed)(7 := \<lparr>wn_day = 20000, wn_spent = 60\<rparr>)\<rparr>"

definition sample_spend_record :: SpendEvent where
  "sample_spend_record = \<lparr>se_account = address_bytes 7, se_target = address_bytes (evm_of sample_token), se_amount = 60,
     se_dayTotal = 60, se_day = 20000\<rparr>"

definition sample_install_events :: "HookEvent list" where
  "sample_install_events = [HookEvent.TargetAllowed (address_bytes 7) (address_bytes (evm_of sample_token)) True,
     HookEvent.TargetAllowed (address_bytes 7) (address_bytes (evm_of sample_payee)) True,
     PolicyInstalled (address_bytes 7) (word_bytes 5) (address_bytes (evm_of sample_token))]"

lemma sample_onInstall:
  "onInstall 7 (encode_install sample_hook_config [evm_of sample_token, evm_of sample_payee]) newAgentPolicyHook =
     Inr (sample_installed, sample_install_events)"
  by (simp add: onInstall_def decode_encode_install sample_installed_def sample_install_events_def)
    (simp add: newAgentPolicyHook_def zero_config_def sample_hook_config_def Let_def)

lemma sample_installed_simps [simp]:
  "hk_config sample_installed 7 = sample_hook_config" "hk_window sample_installed 7 = zero_window"
  "hk_allowedTarget sample_installed 7 t \<longleftrightarrow> t = evm_of sample_token \<or> t = evm_of sample_payee"
  by (auto simp: sample_installed_def newAgentPolicyHook_def allow_targets_def allowed_fold)

lemma sample_postCheck:
  "hook_postCheck 7 (encode_hookData 100 20000 (evm_of sample_token)) (sample_balance 40) sample_installed =
     Inr (sample_spent, [SpendRecorded sample_spend_record])"
  by (simp add: hook_postCheck_def sample_hook_config_def sample_balance_def balance_of_def applySpend_def policylib_evaluate_def
      zero_window_def sample_spent_def sample_spend_record_def)

lemma sample_hook_run: "hook_run newAgentPolicyHook (sample_install_events @ [SpendRecorded sample_spend_record]) sample_spent"
  using hook_run.more [OF hook_run.more [OF hook_run.start hook_call.install [OF sample_onInstall]] hook_call.post [OF sample_postCheck]]
  by simp

lemma sample_current: "current_spends (address_bytes 7) (sample_install_events @ [SpendRecorded sample_spend_record]) = [sample_spend_record]"
  by (simp add: current_spends_def sample_install_events_def sample_spend_record_def)


lemma sample_transfer_bytes:
  assumes "is_address r"
  shows "encodeErc20Transfer r 60 = Inr (bytesToHex ([0xa9, 0x05, 0x9c, 0xbb] @
     nat_bytes 32 (nat (address_value r)) @ nat_bytes 32 60))"
proof -
  have "concat (map byte_hex [0xa9, 0x05, 0x9c, 0xbb]) = ''a9059cbb''" by code_simp
  moreover have "uint256 60" by (simp add: uint256_def UINT256_MAX_def)
  ultimately show ?thesis
    using assms hex_nat_bytes [of 60] by (simp add: encodeErc20Transfer_def bytesToHex_def hex_nat_bytes)
qed

lemma evm_sample_nonzero:
  assumes "digit_val c \<noteq> 0" "is_address (sample_address c)"
  shows "evm_of (sample_address c) \<noteq> 0"
proof -
  have "drop 2 (sample_address c) = c # replicate 39 c"
    unfolding sample_address_def using replicate_Suc [of 39 c] by simp
  then have "address_value (sample_address c) \<noteq> 0" using assms(1) by (simp add: address_value_def of_base_Cons)
  then show ?thesis using unat_evm_of [OF assms(2)] by (auto simp: address_value_def)
qed

lemma sample_values: "uint256 60" "uint256 0" "is_address sample_token" "is_address sample_payee" "evm_of sample_payee \<noteq> 0"
proof -
  have "digit_val (CHR ''c'') = 12" by code_simp
  then show "evm_of sample_payee \<noteq> 0" by (intro evm_sample_nonzero) simp_all
qed (simp_all add: uint256_def UINT256_MAX_def)

lemma sample_wrapper:
  assumes "is_address r"
  obtains data body msg md where "encodeErc20Transfer r 60 = Inr data" "data = bytesToHex body"
    "executor_encodeErc7579Execute sample_token 0 data = Inr msg" "hexToBytes msg = Inr md" "length md < 2 ^ 64"
proof -
  let ?body = "[0xa9, 0x05, 0x9c, 0xbb] @ nat_bytes 32 (nat (address_value r)) @ nat_bytes 32 60"
  have u: "length (abi_word 0) = 64" "length (abi_word 64) = 64" "length (abi_word 120) = 64"
    by (simp_all add: uint256_def UINT256_MAX_def)
  have p: "length (drop 2 sample_token @ abi_word 0 @ drop 2 (bytesToHex ?body)) = 240"
    using u(1) by (simp add: bytesToHex_def length_concat_byte_hex sample_address_def)
  define msg where "msg = ''0xe9ae5c53'' @ abi_word 0 @ abi_word 64 @ abi_word 120 @
    padEnd 256 (CHR ''0'') (drop 2 sample_token @ abi_word 0 @ drop 2 (bytesToHex ?body))"
  have msg: "executor_encodeErc7579Execute sample_token 0 (bytesToHex ?body) = Inr msg"
    using p by (simp add: executor_encodeErc7579Execute_def Let_def msg_def)
  have "length (drop 2 msg) = 456" using u p by (simp add: msg_def length_padEnd)
  then have "hexToBytes msg = Inr (pairs_to_bytes (drop 2 msg))" "length (pairs_to_bytes (drop 2 msg)) < 2 ^ 64"
    by (simp_all add: hexToBytes_def length_pairs_to_bytes)
  then show thesis by (rule that [OF sample_transfer_bytes [OF assms] refl msg])
qed

theorem hook_judges_wrapped_transfer_witness:
  "\<exists>cd msgData. hook_preCheck 7 cd msgData (sample_balance 100) 1728000000 sample_installed =
     Inr (encode_hookData 100 (block_day 1728000000) (evm_of sample_token))"
proof -
  obtain data body msg md where w: "encodeErc20Transfer sample_payee 60 = Inr data" "data = bytesToHex body"
    "executor_encodeErc7579Execute sample_token 0 data = Inr msg" "hexToBytes msg = Inr md" "length md < 2 ^ 64"
    by (rule sample_wrapper [OF sample_values(4)])
  have "hook_preCheck 7 ([] @ md @ []) (of_nat (length ([] :: byte list)), of_nat (length md)) (sample_balance 100) 1728000000 sample_installed =
      Inr (encode_hookData 100 (block_day 1728000000) (evm_of sample_token))"
    by (subst hook_judges_wrapped_transfer [OF sample_values(3,4,1,2,5) w(1-4) refl _ w(5)])
      (simp_all add: sample_hook_config_def sample_balance_def)
  then show ?thesis by blast
qed

lemma sample_preCheck:
  "\<exists>cd msgData. hook_preCheck 7 cd msgData (sample_balance 100) 1728000000 sample_installed =
     Inr (encode_hookData 100 (block_day 1728000000) (evm_of sample_token))"
proof -
  obtain data body msg md where w: "encodeErc20Transfer sample_payee 60 = Inr data" "data = bytesToHex body"
    "executor_encodeErc7579Execute sample_token 0 data = Inr msg" "hexToBytes msg = Inr md" "length md < 2 ^ 64"
    by (rule sample_wrapper [OF sample_values(4)])
  have "hook_preCheck 7 ([] @ md @ []) (of_nat (length ([] :: byte list)), of_nat (length md)) (sample_balance 100) 1728000000 sample_installed =
      Inr (encode_hookData 100 (block_day 1728000000) (evm_of sample_token))"
    by (subst preCheck_wrapped_transfer [OF sample_values(3,4,1,2,5) w(1-4) refl _ w(5)])
      (simp_all add: sample_hook_config_def sample_balance_def)
  then show ?thesis by blast
qed

lemma sample_execution:
  "\<exists>cd msgData. hook_execution 7 cd msgData (sample_balance 100) 1728000000 sample_installed [] sample_installed
     [SpendRecorded sample_spend_record] sample_spent (sample_balance 40)"
proof -
  have d: "block_day 1728000000 = 20000" by (simp add: block_day_def)
  obtain cd msgData where "hook_preCheck 7 cd msgData (sample_balance 100) 1728000000 sample_installed =
     Inr (encode_hookData 100 20000 (evm_of sample_token))"
    using sample_preCheck unfolding d by blast
  then show ?thesis using sample_postCheck hook_run.start unfolding hook_execution_def by blast
qed


theorem reinstall_keeps_targets_witness:
  "\<exists>s1 es s2 es'. onUninstall 7 sample_installed = (s1, es) \<and> onInstall 7 (encode_install sample_hook_config []) s1 = Inr (s2, es') \<and>
     hk_allowedTarget s2 7 (evm_of sample_payee)"
proof -
  obtain s1 es where u: "onUninstall 7 sample_installed = (s1, es)" by fastforce
  have d: "decode_install (encode_install sample_hook_config []) = Inr (sample_hook_config, [])"
    by (simp add: decode_encode_install)
  obtain s2 es' where i: "onInstall 7 (encode_install sample_hook_config []) s1 = Inr (s2, es')"
    using u d by (auto simp: onUninstall_def onInstall_def zero_config_def Let_def)
  from reinstall_keeps_targets [OF u i d, of "evm_of sample_payee"] u i show ?thesis by auto
qed

end
