(* ===== verification/HookSim.thy ===== *)
theory HookSim
  imports Hook
begin

text \<open>
  The in-process account of the SDK against the contract it stands for: for a transfer of the tracked asset, wrapped
  the way the executors wrap it, the two accept and refuse together and keep the same window.
\<close>

section \<open>The simulated account and the contract\<close>

lemma applySpend_iff:
  "(\<exists>next. applySpend w l amount today = Inr next) \<longleftrightarrow>
     wn_day w \<le> today \<and> amount \<le> li_maxTransaction l \<and>
     (if wn_day w = today then uint (wn_spent w) else 0) + uint amount \<le> uint (li_dailyLimit l)"
proof -
  define base where "base = (if wn_day w = today then wn_spent w else 0)"
  have base: "(if wn_day w = today then uint (wn_spent w) else 0) = uint base" by (simp add: base_def)
  have "(\<exists>next. applySpend w l amount today = Inr next) \<longleftrightarrow>
      wn_day w \<le> today \<and> amount \<le> li_maxTransaction l \<and> amount \<le> - 1 - base \<and> base + amount \<le> li_dailyLimit l"
    by (auto simp: applySpend_def policylib_evaluate_def Let_def base_def [symmetric] not_less not_le)
  also have "\<dots> \<longleftrightarrow> wn_day w \<le> today \<and> amount \<le> li_maxTransaction l \<and> uint base + uint amount \<le> uint (li_dailyLimit l)"
    using no_wrap [of amount base] uint_lt2p [of "li_dailyLimit l"] by (auto simp: word_le_def)
  finally show ?thesis unfolding base .
qed

text \<open>The contract's storage for an account says what the simulated account holds.\<close>

definition mirrors :: "SimulatedAccount \<Rightarrow> AgentPolicyHook \<Rightarrow> evm_address \<Rightarrow> bool" where
  "mirrors s h a =
     (let c = sa_config s; k = hk_config h a; w = hk_window h a in
      hc_installed k \<and> hc_asset k = evm_of (sc_asset c) \<and> uint (hc_maxTransaction k) = sc_maxTransaction c \<and>
      uint (hc_dailyLimit k) = sc_dailyLimit c \<and> uint (hc_minBalance k) = sc_minBalance c \<and>
      uint (wn_day w) = sa_windowDay s \<and> uint (wn_spent w) = sa_windowSpent s \<and>
      (\<forall>t. wf_address t \<longrightarrow> (hk_allowedTarget h a (evm_of t) \<longleftrightarrow> t \<in> set (sa_allowed s))))"

lemma send_transfer_iff:
  assumes "encodeErc20Transfer to amount = Inr (uo_data request)" "wf_address to" "uint256 amount" "0 < amount"
    and "normalizeAddress (uo_to request) = Inr (sc_asset (sa_config s))"
    and "sc_asset (sa_config s) \<in> set (sa_allowed s)" and "0 \<le> sc_minBalance (sa_config s)"
  shows "(\<exists>h s'. sendUnchecked request s = (Inr h, s')) \<longleftrightarrow>
    to \<in> set (sa_allowed s) \<and> amount \<le> sc_maxTransaction (sa_config s) \<and>
    sim_spentToday s + amount \<le> sc_dailyLimit (sa_config s) \<and> sc_minBalance (sa_config s) \<le> sa_balance s - amount"
proof (cases "to \<in> set (sa_allowed s)")
  case True
  note send = send_transfer [OF assms(1-3,5,6) True]
  show ?thesis
    unfolding send using assms(4,7) True
    by (auto simp: postCheck_def Let_def sim_spentToday_def sim_today_def)
next
  case False
  then have "preCheck request s = Inl (PolicyRevert ''TargetNotAllowed'' (revert_detail [(''target'', to)]))"
    using read_transfer [OF assms(1-3)] assms(5,6) by (simp add: preCheck_def decodeCounterparty_def)
  with False show ?thesis by (simp add: sendUnchecked_def)
qed

lemma hook_execution_simple:
  "(\<exists>es' h'. hook_execution a cd msgData b t h [] h es' h' b') \<longleftrightarrow>
     (\<exists>hookData es' h'. hook_preCheck a cd msgData b t h = Inr hookData \<and> hook_postCheck a hookData b' h = Inr (h', es'))"
  using hook_run.start by (auto simp: hook_execution_def)

text \<open>The second check after an outflow.\<close>

lemma uint_outflow: "amount \<le> before \<Longrightarrow> uint (before - amount :: uint256) = uint before - uint amount"
  using uint_sub_lem [of amount before] by (simp add: word_le_def)

lemma outflow_less: "0 < amount \<Longrightarrow> amount \<le> before \<Longrightarrow> before - amount < (before :: uint256)"
  using uint_outflow [of amount before] by (simp add: word_less_def)

lemma postCheck_outflow_iff:
  assumes "hc_installed (hk_config h a)" "b' (hc_asset (hk_config h a)) a = Some (before - amount)" "0 < amount" "amount \<le> before"
  shows "(\<exists>h' es'. hook_postCheck a (encode_hookData before today target) b' h = Inr (h', es')) \<longleftrightarrow>
    wn_day (hk_window h a) \<le> today \<and> amount \<le> hc_maxTransaction (hk_config h a) \<and>
    (if wn_day (hk_window h a) = today then uint (wn_spent (hk_window h a)) else 0) + uint amount \<le> uint (hc_dailyLimit (hk_config h a)) \<and>
    hc_minBalance (hk_config h a) \<le> before - amount"
proof -
  let ?l = "\<lparr>li_maxTransaction = hc_maxTransaction (hk_config h a), li_dailyLimit = hc_dailyLimit (hk_config h a)\<rparr>"
  have out: "before - amount < before" using outflow_less assms(3,4) by simp
  have "(\<exists>h' es'. hook_postCheck a (encode_hookData before today target) b' h = Inr (h', es')) \<longleftrightarrow>
      (\<exists>next. applySpend (hk_window h a) ?l amount today = Inr next) \<and> \<not> before - amount < hc_minBalance (hk_config h a)"
    using assms out by (auto simp: hook_postCheck_def balance_of_def bindE_eq_Inr Let_def)
  then show ?thesis unfolding applySpend_iff by (auto simp: not_less)
qed

lemma postCheck_outflow_window:
  assumes "hook_postCheck a (encode_hookData before today target) b' h = Inr (h', es')"
    and "b' (hc_asset (hk_config h a)) a = Some (before - amount)" "before - amount < before"
  shows "hk_config h' = hk_config h" "hk_allowedTarget h' = hk_allowedTarget h" "wn_day (hk_window h' a) = today"
    "uint (wn_spent (hk_window h' a)) = (if wn_day (hk_window h a) = today then uint (wn_spent (hk_window h a)) else 0) + uint amount"
  using assms by (auto elim!: postCheck_Inr simp: applySpend_Inr)

text \<open>When the contract accepts a wrapped transfer of the tracked asset.\<close>

definition hook_spentToday :: "AgentPolicyHook \<Rightarrow> evm_address \<Rightarrow> uint256 \<Rightarrow> int" where
  "hook_spentToday h a t = (if wn_day (hk_window h a) = block_day t then uint (wn_spent (hk_window h a)) else 0)"

lemma hook_transfer_iff:
  assumes enc: "encodeErc20Transfer to amount = Inr data" "is_address to" "uint256 amount" "0 < amount" "evm_of to \<noteq> 0"
    and wrap: "data = bytesToHex body" "is_address token" "uint256 v" "executor_encodeErc7579Execute token v data = Inr msg"
      "hexToBytes msg = Inr md" "cd = pre @ md @ rest" "length pre < 2 ^ 63" "length md < 2 ^ 64"
    and hook: "hc_installed (hk_config h a)" "hc_asset (hk_config h a) = evm_of token" "hk_allowedTarget h a (evm_of token)"
      "wn_day (hk_window h a) \<le> block_day t"
    and bal: "b (evm_of token) a = Some before" "amount \<le> uint before" "b' (evm_of token) a = Some (before - of_int amount)"
    and msgData: "msgData = (of_nat (length pre), of_nat (length md))"
  shows "(\<exists>es' h'. hook_execution a cd msgData b t h [] h es' h' b') \<longleftrightarrow> hk_allowedTarget h a (evm_of to) \<and>
      amount \<le> uint (hc_maxTransaction (hk_config h a)) \<and>
      hook_spentToday h a t + amount \<le> uint (hc_dailyLimit (hk_config h a)) \<and>
      uint (hc_minBalance (hk_config h a)) \<le> uint before - amount"
proof -
  let ?amt = "of_int amount :: uint256"
  have amt: "uint ?amt = amount" using enc(3) by (simp add: uint256_def UINT256_MAX_def uint_word_of_int)
  have le: "0 < ?amt" "?amt \<le> before" using amt enc(4) bal(2) by (simp_all add: word_less_def word_le_def)
  have pre: "hook_preCheck a cd msgData b t h = (if \<not> hk_allowedTarget h a (evm_of to) then Inl (TargetNotAllowed (evm_of to))
      else Inr (encode_hookData before (block_day t) (evm_of token)))"
    unfolding msgData using preCheck_wrapped_transfer [of token to amount v data body msg md cd pre rest h a b before t]
      enc wrap bal(1) hook by simp
  have bal': "b' (hc_asset (hk_config h a)) a = Some (before - ?amt)" using bal(3) hook(2) by simp
  have "(\<exists>es' h'. hook_execution a cd msgData b t h [] h es' h' b') \<longleftrightarrow> hk_allowedTarget h a (evm_of to) \<and>
      (\<exists>h' es'. hook_postCheck a (encode_hookData before (block_day t) (evm_of token)) b' h = Inr (h', es'))"
    unfolding hook_execution_simple pre by auto
  also have "\<dots> \<longleftrightarrow> hk_allowedTarget h a (evm_of to) \<and> amount \<le> uint (hc_maxTransaction (hk_config h a)) \<and>
      hook_spentToday h a t + amount \<le> uint (hc_dailyLimit (hk_config h a)) \<and>
      uint (hc_minBalance (hk_config h a)) \<le> uint before - amount"
    unfolding postCheck_outflow_iff [where b' = b' and h = h and a = a, OF hook(1) bal' le]
    using uint_outflow [OF le(2)] amt hook(4) by (auto simp: word_le_def hook_spentToday_def)
  finally show ?thesis .
qed

lemma hook_transfer_window:
  assumes "hook_execution a cd msgData b t h [] h es' h' b'" "0 < amount" "uint256 amount" "amount \<le> uint before"
    and "b (hc_asset (hk_config h a)) a = Some before" "b' (hc_asset (hk_config h a)) a = Some (before - of_int amount)"
  shows "hk_config h' = hk_config h" "hk_allowedTarget h' = hk_allowedTarget h" "wn_day (hk_window h' a) = block_day t"
    "uint (wn_spent (hk_window h' a)) = hook_spentToday h a t + amount"
proof -
  let ?amt = "of_int amount :: uint256"
  have amt: "uint ?amt = amount" using assms(3) by (simp add: uint256_def UINT256_MAX_def uint_word_of_int)
  have le: "0 < ?amt" "?amt \<le> before" using amt assms(2,4) by (simp_all add: word_less_def word_le_def)
  from assms(1,5) obtain target where "hook_postCheck a (encode_hookData before (block_day t) target) b' h = Inr (h', es')"
    by (auto simp: hook_execution_def hook_preCheck_def Let_def bindE_eq_Inr balance_of_def split: if_splits)
  from postCheck_outflow_window [OF this assms(6) outflow_less [OF le]]
  show "hk_config h' = hk_config h" "hk_allowedTarget h' = hk_allowedTarget h" "wn_day (hk_window h' a) = block_day t"
    "uint (wn_spent (hk_window h' a)) = hook_spentToday h a t + amount"
    by (simp_all add: hook_spentToday_def amt)
qed

lemma sim_success:
  assumes "encodeErc20Transfer to amount = Inr (uo_data request)" "wf_address to" "uint256 amount" "0 < amount"
    and "normalizeAddress (uo_to request) = Inr (sc_asset (sa_config s))"
    and "sc_asset (sa_config s) \<in> set (sa_allowed s)" "to \<in> set (sa_allowed s)"
    and "sendUnchecked request s = (Inr hash, s')"
  shows "sa_config s' = sa_config s" "sa_allowed s' = sa_allowed s" "sa_windowDay s' = sim_today s"
    "sa_windowSpent s' = (if sa_windowDay s = sim_today s then sa_windowSpent s else 0) + amount"
  using assms(4,8) unfolding send_transfer [OF assms(1-3,5-7)]
  by (auto simp: postCheck_def Let_def sim_today_def split: if_splits)

section \<open>Properties\<close>

text \<open>
  (C20) The account the SDK simulates decides as the contract does. Let the contract's storage mirror the simulated
  account. For a transfer of the tracked asset that the balance covers, wrapped by an executor, the simulated
  account accepts the operation exactly when the contract accepts the execution of its bytes that moves the
  amount; and after both accepted, the storage still mirrors the account.
\<close>

theorem simulated_is_hook:
  assumes mir: "mirrors s h a"
    and enc: "encodeErc20Transfer to amount = Inr (uo_data request)" "wf_address to" "uint256 amount" "0 < amount"
    and "amount \<le> sa_balance s" "evm_of to \<noteq> 0"
    and tok: "uo_to request = sc_asset (sa_config s)" "wf_address (sc_asset (sa_config s))"
      "sc_asset (sa_config s) \<in> set (sa_allowed s)"
    and wrap: "uo_data request = bytesToHex body" "uint256 v"
      "executor_encodeErc7579Execute (uo_to request) v (uo_data request) = Inr msg" "hexToBytes msg = Inr md"
      "cd = pre @ md @ rest" "length pre < 2 ^ 63" "length md < 2 ^ 64"
    and bal: "b (evm_of (uo_to request)) a = Some before" "uint before = sa_balance s"
      "b' (evm_of (uo_to request)) a = Some (before - of_int amount)"
    and time: "uint (block_day t) = sim_today s" "sa_windowDay s \<le> sim_today s"
    and msgData: "msgData = (of_nat (length pre), of_nat (length md))"
  shows "((\<exists>hash s'. sendUnchecked request s = (Inr hash, s')) \<longleftrightarrow>
      (\<exists>es' h'. hook_execution a cd msgData b t h [] h es' h' b')) \<and>
    (sendUnchecked request s = (Inr hash, s') \<and> hook_execution a cd msgData b t h [] h es' h' b' \<longrightarrow> mirrors s' h' a)"
proof -
  let ?token = "sc_asset (sa_config s)"
  have m: "hc_installed (hk_config h a)" "hc_asset (hk_config h a) = evm_of ?token"
      "uint (hc_maxTransaction (hk_config h a)) = sc_maxTransaction (sa_config s)"
      "uint (hc_dailyLimit (hk_config h a)) = sc_dailyLimit (sa_config s)"
      "uint (hc_minBalance (hk_config h a)) = sc_minBalance (sa_config s)"
      "uint (wn_day (hk_window h a)) = sa_windowDay s" "uint (wn_spent (hk_window h a)) = sa_windowSpent s"
    and allowed: "\<And>t. wf_address t \<Longrightarrow> hk_allowedTarget h a (evm_of t) \<longleftrightarrow> t \<in> set (sa_allowed s)"
    using mir by (simp_all add: mirrors_def Let_def)
  have day: "wn_day (hk_window h a) = block_day t \<longleftrightarrow> sa_windowDay s = sim_today s" "wn_day (hk_window h a) \<le> block_day t"
    using m(6) time by (simp_all add: word_uint_eq_iff word_le_def)
  have spent: "hook_spentToday h a t = sim_spentToday s"
    using day(1) m(7) by (simp add: hook_spentToday_def sim_spentToday_def)
  have "(\<exists>es' h'. hook_execution a cd msgData b t h [] h es' h' b') \<longleftrightarrow> to \<in> set (sa_allowed s) \<and>
      amount \<le> sc_maxTransaction (sa_config s) \<and> sim_spentToday s + amount \<le> sc_dailyLimit (sa_config s) \<and>
      sc_minBalance (sa_config s) \<le> sa_balance s - amount"
    using hook_transfer_iff [of to amount "uo_data request" body ?token v msg md cd pre rest h a t b before b' msgData]
      enc tok wrap bal m(1-5) assms(6,7) allowed day(2) spent msgData by simp
  also have "\<dots> \<longleftrightarrow> (\<exists>hash s'. sendUnchecked request s = (Inr hash, s'))"
    using send_transfer_iff [OF enc, of s] tok uint_ge_0 [of "hc_minBalance (hk_config h a)"] unfolding m(5) by simp
  finally have iff: "(\<exists>hash s'. sendUnchecked request s = (Inr hash, s')) \<longleftrightarrow>
      (\<exists>es' h'. hook_execution a cd msgData b t h [] h es' h' b')" by blast
  have "mirrors s' h' a" if ok: "sendUnchecked request s = (Inr hash, s')" "hook_execution a cd msgData b t h [] h es' h' b'"
  proof -
    have to: "to \<in> set (sa_allowed s)"
      using send_transfer_iff [OF enc, of s] ok(1) tok uint_ge_0 [of "hc_minBalance (hk_config h a)"] unfolding m(5) by auto
    have norm: "normalizeAddress (uo_to request) = Inr ?token" using tok by simp
    note sim = sim_success [OF enc norm tok(3) to ok(1)]
    note hk = hook_transfer_window [OF ok(2) enc(4,3), of before]
    show ?thesis using mir sim hk bal tok(1) assms(6) m(2) spent time(1)
      by (simp add: mirrors_def Let_def sim_spentToday_def)
  qed
  with iff show ?thesis by blast
qed

section \<open>Witness\<close>

lemma evm_of_inj: "wf_address a \<Longrightarrow> wf_address b \<Longrightarrow> evm_of a = evm_of b \<longleftrightarrow> a = b"
proof
  assume wf: "wf_address a" "wf_address b" and "evm_of a = evm_of b"
  then have "nat (address_value a) = nat (address_value b)" using unat_evm_of [of a] unat_evm_of [of b] by simp
  then have "address_value a = address_value b" by (simp add: address_value_def)
  then show "a = b" using address_string_value [OF wf(1)] address_string_value [OF wf(2)] by metis
qed simp

definition sample_mirror :: SimulatedAccount where
  "sample_mirror = \<lparr>sa_chainId = 1, sa_address = sample_account, sa_config = \<lparr>sc_asset = sample_token, sc_maxTransaction = 100,
     sc_dailyLimit = 150, sc_minBalance = 10, sc_policyHash = [], sc_allowedTargets = []\<rparr>, sa_balance = 100, sa_windowDay = 0,
     sa_windowSpent = 0, sa_nonce = 0, sa_clockMs = 1728000000000, sa_allowed = [sample_token, sample_payee], sa_log = []\<rparr>"

lemma sample_mirrors: "mirrors sample_mirror sample_installed 7"
  by (auto simp: mirrors_def Let_def sample_mirror_def sample_hook_config_def zero_window_def evm_of_inj)

theorem simulated_is_hook_witness:
  "\<exists>request cd msgData. (\<exists>hash s'. sendUnchecked request sample_mirror = (Inr hash, s')) \<and>
     (\<exists>es' h'. hook_execution 7 cd msgData (sample_balance 100) 1728000000 sample_installed [] sample_installed es' h' (sample_balance 40))"
proof -
  obtain data body msg md where w: "encodeErc20Transfer sample_payee 60 = Inr data" "data = bytesToHex body"
    "executor_encodeErc7579Execute sample_token 0 data = Inr msg" "hexToBytes msg = Inr md" "length md < 2 ^ 64"
    by (rule sample_wrapper [OF sample_values(4)])
  define request where "request = \<lparr>uo_account = sample_account, uo_to = sample_token, uo_data = data, uo_value = 0, uo_nonce = None\<rparr>"
  have "(\<exists>hash s'. sendUnchecked request sample_mirror = (Inr hash, s'))"
    using send_transfer_iff [of sample_payee 60 request sample_mirror] w(1) sample_values
    by (simp add: request_def sample_mirror_def sim_spentToday_def sim_today_def)
  moreover have "(\<exists>hash s'. sendUnchecked request sample_mirror = (Inr hash, s')) \<longleftrightarrow>
      (\<exists>es' h'. hook_execution 7 ([] @ md @ []) (of_nat (length ([] :: byte list)), of_nat (length md)) (sample_balance 100) 1728000000
         sample_installed [] sample_installed es' h' (sample_balance 40))"
    using simulated_is_hook [OF sample_mirrors, of sample_payee 60 request body 0 msg md _ "[]" "[]" "sample_balance 100" 100
        "sample_balance 40" 1728000000] w sample_values
    by (simp add: request_def sample_mirror_def sample_balance_def sim_today_def block_day_def)
  ultimately show ?thesis by blast
qed

end
