(* ===== verification/X402Client.thy ===== *)
theory X402Client
  imports X402 AgentProof
begin

text \<open>
  \<^verbatim>\<open>packages/x402-client/src/\<close>: the client that answers a payment challenge under policy, and the Hedera
  signer. The network, the signer's vendor library and the policy callback are parameters.

  A JavaScript number read from a string is an exact rational, NaN or infinite; the rounding of doubles is
  not modelled, so statements about amounts concern those a double represents exactly.
\<close>

section \<open>Numbers from strings\<close>

datatype js_number = NaN | Infinite bool | Finite rat

definition scale10 :: "rat \<Rightarrow> int \<Rightarrow> rat" where
  "scale10 x k = (if 0 \<le> k then x * 10 ^ nat k else x / 10 ^ nat (- k))"

definition is_exp_mark :: "char \<Rightarrow> bool" where
  "is_exp_mark c = (c = CHR ''e'' \<or> c = CHR ''E'')"

definition read_exponent :: "string \<Rightarrow> int option" where
  "read_exponent s =
     (case s of
        [] \<Rightarrow> Some 0
      | _ # rest \<Rightarrow>
          let ds = (case rest of c # cs \<Rightarrow> if c = CHR ''+'' \<or> c = CHR ''-'' then cs else rest | [] \<Rightarrow> []) in
          if ds = [] \<or> \<not> list_all is_digit ds then None
          else Some (if rest \<noteq> [] \<and> hd rest = CHR ''-'' then - int (of_dec ds) else int (of_dec ds)))"

text \<open>An unsigned decimal literal with optional fraction and exponent.\<close>

definition read_decimal :: "string \<Rightarrow> js_number" where
  "read_decimal s =
     (let m = takeWhile (\<lambda>c. \<not> is_exp_mark c) s; parts = splitOn (CHR ''.'') m;
          w = hd parts; f = (case tl parts of [] \<Rightarrow> [] | x # _ \<Rightarrow> x)
      in if s = ''Infinity'' then Infinite True
         else if length parts > 2 \<or> w @ f = [] \<or> \<not> list_all is_digit (w @ f) then NaN
         else (case read_exponent (dropWhile (\<lambda>c. \<not> is_exp_mark c) s) of
             None \<Rightarrow> NaN
           | Some e \<Rightarrow> Finite (scale10 (of_nat (of_dec (w @ f))) (e - int (length f)))))"

definition js_negate :: "js_number \<Rightarrow> js_number" where
  "js_negate x = (case x of NaN \<Rightarrow> NaN | Infinite p \<Rightarrow> Infinite (\<not> p) | Finite q \<Rightarrow> Finite (- q))"

definition js_Number :: "string \<Rightarrow> js_number" where
  "js_Number s =
     (let t = trim s; p = toLowerCase (take 2 t); body = drop 2 t in
      if t = [] then Finite 0
      else if p = ''0x'' \<and> in_base 16 body then Finite (of_nat (of_base 16 body))
      else if p = ''0o'' \<and> in_base 8 body then Finite (of_nat (of_base 8 body))
      else if p = ''0b'' \<and> in_base 2 body then Finite (of_nat (of_base 2 body))
      else if hd t = CHR ''-'' then js_negate (read_decimal (tl t))
      else if hd t = CHR ''+'' then read_decimal (tl t)
      else read_decimal t)"

fun js_greater :: "js_number \<Rightarrow> js_number \<Rightarrow> bool" where
  "js_greater (Finite x) (Finite y) = (x > y)"
| "js_greater (Infinite p) (Finite y) = p"
| "js_greater (Finite x) (Infinite q) = (\<not> q)"
| "js_greater (Infinite p) (Infinite q) = (p \<and> \<not> q)"
| "js_greater _ _ = False"

text \<open>\<^verbatim>\<open>BigInt(Math.round(x * 1e6))\<close>, which throws for NaN and the infinities.\<close>

definition bigint_micro :: "js_number \<Rightarrow> int result" where
  "bigint_micro x = (case x of Finite q \<Rightarrow> Inr (js_round (q * 1000000)) | _ \<Rightarrow> Inl (ErrorMessage ''RangeError''))"

section \<open>The client\<close>

record ClientRequirements =
  cq_scheme :: string
  cq_network :: string
  cq_asset :: string
  cq_amount :: string
  cq_payTo :: string
  cq_resource :: string
  cq_nonce :: string
  cq_maxTimeoutSeconds :: "int option"
  cq_feePayer :: "string option"

record PolicyContext =
  px_facilitator :: Address
  px_token :: Address
  px_chainId :: int

text \<open>A response: its status, its JSON body, the payment requirements in that body, and the payment header.\<close>

record FetchResponse =
  fr_status :: nat
  fr_json :: "json result"
  fr_accepts :: "ClientRequirements list option"
  fr_paymentResponse :: "string option"

record 'w X402ClientOptions =
  xc_attempt :: "string \<Rightarrow> json \<Rightarrow> string option \<Rightarrow> ('w, FetchResponse) io"
  xc_signPayment :: "ClientRequirements \<Rightarrow> ('w, string) io"
  xc_authorise :: "(Action \<Rightarrow> ClientRequirements \<Rightarrow> ('w, bool) io) option"
  xc_policyContext :: "PolicyContext option"
  xc_maxPricePerCall :: "string option"

definition checkPrice :: "'w X402ClientOptions \<Rightarrow> ClientRequirements \<Rightarrow> unit result" where
  "checkPrice options requirements =
     (case xc_maxPricePerCall options of
        None \<Rightarrow> Inr ()
      | Some most \<Rightarrow>
          if most = [] then Inr ()
          else if js_greater (js_Number (cq_amount requirements)) (js_Number most) then
            Inl (PaymentRefused (''service asked for '' @ cq_amount requirements @ '' but this client'' @ [CHR 0x27] @
              ''s ceiling is '' @ most @ '' per call''))
          else Inr ())"

definition toEvmAddress :: "string \<Rightarrow> Address result" where
  "toEvmAddress accountId =
     (if is_address accountId then Inr (toLowerCase accountId)
      else bindR (bigint_of_string (last (splitOn (CHR ''.'') accountId))) (\<lambda>num.
        Inr (''0x'' @ padStart 40 (CHR ''0'') (int_to_base 16 num))))"

definition request_id :: "string \<Rightarrow> Hex" where
  "request_id nonce = ''0x'' @ take 64 (padEnd 64 (CHR ''0'') (filter (\<lambda>c. c \<noteq> CHR ''-'') nonce))"

definition payment_action :: "PolicyContext \<Rightarrow> ClientRequirements \<Rightarrow> Action result" where
  "payment_action ctx requirements =
     bindR (toEvmAddress (cq_payTo requirements)) (\<lambda>payTo.
     bindR (bigint_micro (js_Number (cq_amount requirements))) (\<lambda>amount.
       x402PaymentAction \<lparr>xp_facilitator = px_facilitator ctx, xp_token = px_token ctx, xp_payTo = payTo,
         xp_amount = amount, xp_requestId = request_id (cq_nonce requirements), xp_chainId = px_chainId ctx\<rparr>))"

definition checkPolicy :: "'w X402ClientOptions \<Rightarrow> ClientRequirements \<Rightarrow> ('w, unit) io" where
  "checkPolicy options requirements =
     (case (xc_authorise options, xc_policyContext options) of
        (Some authorise, Some ctx) \<Rightarrow>
          bind_io (lift_io (payment_action ctx requirements)) (\<lambda>action.
          bind_io (authorise action requirements) (\<lambda>ok.
            if \<not> ok then throw_io (PaymentRefused ''AgentProof policy declined this payment'') else return_io ()))
      | _ \<Rightarrow> return_io ())"

record PaidResult =
  pd_data :: json
  pd_paid :: bool
  pd_transactionId :: "string option"

definition json_member :: "string \<Rightarrow> json \<Rightarrow> string option" where
  "json_member k j = (case j of JObj es \<Rightarrow> (case map_of es k of Some (JStr s) \<Rightarrow> Some s | _ \<Rightarrow> None) | _ \<Rightarrow> None)"

definition second_attempt :: "(string \<Rightarrow> json result) \<Rightarrow> FetchResponse \<Rightarrow> PaidResult result" where
  "second_attempt parse second =
     (if fr_status second = 402 then Inl (PaymentRefused ''endpoint rejected a signed payment'')
      else if \<not> (200 \<le> fr_status second \<and> fr_status second < 300) then Inl (HttpStatus (fr_status second))
      else bindR (case fr_paymentResponse second of
            None \<Rightarrow> Inr None
          | Some header \<Rightarrow> if header = [] then Inr None else bindR (parse header) (\<lambda>j. Inr (json_member ''transaction'' j)))
        (\<lambda>transaction. bindR (fr_json second) (\<lambda>d.
          Inr \<lparr>pd_data = d, pd_paid = True, pd_transactionId = transaction\<rparr>)))"

definition fetchPaid :: "(string \<Rightarrow> json result) \<Rightarrow> 'w X402ClientOptions \<Rightarrow> string \<Rightarrow> json \<Rightarrow> ('w, PaidResult) io" where
  "fetchPaid parse options url body =
     bind_io (xc_attempt options url body None) (\<lambda>first.
       if fr_status first \<noteq> 402 then
         lift_io (bindR (fr_json first) (\<lambda>d. Inr \<lparr>pd_data = d, pd_paid = False, pd_transactionId = None\<rparr>))
       else bind_io (lift_io (fr_json first)) (\<lambda>_.
         case fr_accepts first of
           Some (requirements # _) \<Rightarrow>
             bind_io (lift_io (checkPrice options requirements)) (\<lambda>_.
             bind_io (checkPolicy options requirements) (\<lambda>_.
             bind_io (xc_signPayment options requirements) (\<lambda>payload.
             bind_io (xc_attempt options url body (Some payload)) (\<lambda>second.
               lift_io (second_attempt parse second)))))
         | _ \<Rightarrow> throw_io (PaymentRefused ''402 response carried no payment requirements'')))"

section \<open>The Hedera signer\<close>

definition accepted_json :: "ClientRequirements \<Rightarrow> json" where
  "accepted_json r = JObj
     [(''scheme'', JStr ''exact''), (''network'', JStr (cq_network r)), (''amount'', JStr (cq_amount r)),
      (''payTo'', JStr (cq_payTo r)), (''maxTimeoutSeconds'', JNum (or_else (cq_maxTimeoutSeconds r) 60)),
      (''asset'', JStr (cq_asset r)), (''extra'', JObj [(''feePayer'', JStr (or_else (cq_feePayer r) []))])]"

definition envelope_json :: "ClientRequirements \<Rightarrow> json \<Rightarrow> json" where
  "envelope_json r outcome = JObj
     [(''x402Version'', JNum 2), (''scheme'', JStr (cq_scheme r)), (''network'', JStr (cq_network r)),
      (''accepted'', accepted_json r),
      (''payload'', case outcome of JObj es \<Rightarrow>
         (case map_of es ''payload'' of Some JNull \<Rightarrow> outcome | Some JUndefined \<Rightarrow> outcome | Some p \<Rightarrow> p | None \<Rightarrow> outcome)
       | _ \<Rightarrow> outcome)]"

text \<open>\<open>scheme\<close> is the vendor's \<^verbatim>\<open>createPaymentPayload(2, ...)\<close>.\<close>

definition hedera_signPayment :: "(json \<Rightarrow> ('w, json) io) \<Rightarrow> ClientRequirements \<Rightarrow> ('w, string) io" where
  "hedera_signPayment scheme requirements =
     bind_io (lift_io (bigint_of_string (cq_amount requirements))) (\<lambda>amount.
       if amount \<le> 0 then
         throw_io (ErrorMessage (''Refusing to sign a non-positive payment: '' @ cq_amount requirements))
       else bind_io (scheme (accepted_json requirements)) (\<lambda>outcome.
         return_io (base64_string False (JSON_stringify (envelope_json requirements outcome)))))"

section \<open>Properties\<close>

lemma checkPrice_ok:
  assumes "checkPrice options r = Inr ()" and "xc_maxPricePerCall options = Some m"
    and "js_Number (cq_amount r) = Finite a" and "js_Number m = Finite c" and "m \<noteq> []"
  shows "a \<le> c"
  using assms by (auto simp: checkPrice_def split: if_splits)

lemma checkPolicy_ok:
  assumes "checkPolicy options r w = (Inr (), w')"
    and "xc_authorise options = Some authorise" and "xc_policyContext options = Some ctx"
  shows "\<exists>action. payment_action ctx r = Inr action \<and> authorise action r w = (Inr True, w')"
  using assms by (auto simp: checkPolicy_def io_inversion throw_io_def split: if_splits)

lemma fetchPaid_paid:
  assumes "fetchPaid parse options url body w = (Inr r, w')" and "pd_paid r"
  shows "\<exists>first requirements rest w1 w2 w3 payload second.
     xc_attempt options url body None w = (Inr first, w1) \<and> fr_status first = 402 \<and>
     fr_accepts first = Some (requirements # rest) \<and>
     (\<forall>m a c. xc_maxPricePerCall options = Some m \<and> m \<noteq> [] \<and> js_Number (cq_amount requirements) = Finite a \<and>
        js_Number m = Finite c \<longrightarrow> a \<le> c) \<and>
     (\<forall>authorise ctx. xc_authorise options = Some authorise \<and> xc_policyContext options = Some ctx \<longrightarrow>
        (\<exists>action. payment_action ctx requirements = Inr action \<and> authorise action requirements w1 = (Inr True, w2))) \<and>
     checkPolicy options requirements w1 = (Inr (), w2) \<and>
     xc_signPayment options requirements w2 = (Inr payload, w3) \<and>
     xc_attempt options url body (Some payload) w3 = (Inr second, w') \<and>
     200 \<le> fr_status second \<and> fr_status second < 300"
proof -
  obtain first w1 where f: "xc_attempt options url body None w = (Inr first, w1)" "fr_status first = 402"
    and rest: "(bind_io (lift_io (fr_json first)) (\<lambda>_.
         case fr_accepts first of
           Some (requirements # _) \<Rightarrow>
             bind_io (lift_io (checkPrice options requirements)) (\<lambda>_.
             bind_io (checkPolicy options requirements) (\<lambda>_.
             bind_io (xc_signPayment options requirements) (\<lambda>payload.
             bind_io (xc_attempt options url body (Some payload)) (\<lambda>second.
               lift_io (second_attempt parse second)))))
         | _ \<Rightarrow> throw_io (PaymentRefused ''402 response carried no payment requirements''))) w1 = (Inr r, w')"
    using assms unfolding fetchPaid_def io_inversion
    by (auto simp: io_inversion bindR_eq_Inr split: if_splits)
  from rest obtain requirements more where q: "fr_accepts first = Some (requirements # more)"
    by (auto simp: io_inversion throw_io_def split: option.splits list.splits)
  with rest obtain payload second w2 w3 where
    "checkPrice options requirements = Inr ()" "checkPolicy options requirements w1 = (Inr (), w2)"
    "xc_signPayment options requirements w2 = (Inr payload, w3)"
    "xc_attempt options url body (Some payload) w3 = (Inr second, w')" "second_attempt parse second = Inr r"
    by (auto simp: io_inversion)
  moreover from this(5) have "200 \<le> fr_status second" "fr_status second < 300"
    by (auto simp: second_attempt_def split: if_splits)
  ultimately show ?thesis
    using f q checkPrice_ok [of options requirements] checkPolicy_ok [of options requirements w1 w2] by blast
qed

text \<open>
  A result marked paid was paid for once, under both belts: the first answer was a 402 with requirements,
  the asked amount is within the configured ceiling (when both read as numbers), the policy callback was
  asked about the payment action built from those requirements and said yes, exactly one payload was signed,
  after that answer, and it was sent exactly once, with a success status.
\<close>

theorem client_pays_once:
  assumes "fetchPaid parse options url body w = (Inr r, w')" and "pd_paid r"
  shows "\<exists>first requirements rest w1 w2 w3 payload second.
     xc_attempt options url body None w = (Inr first, w1) \<and> fr_status first = 402 \<and>
     fr_accepts first = Some (requirements # rest) \<and>
     (\<forall>m a c. xc_maxPricePerCall options = Some m \<and> m \<noteq> [] \<and> js_Number (cq_amount requirements) = Finite a \<and>
        js_Number m = Finite c \<longrightarrow> a \<le> c) \<and>
     (\<forall>authorise ctx. xc_authorise options = Some authorise \<and> xc_policyContext options = Some ctx \<longrightarrow>
        (\<exists>action. payment_action ctx requirements = Inr action \<and> authorise action requirements w1 = (Inr True, w2))) \<and>
     xc_signPayment options requirements w2 = (Inr payload, w3) \<and>
     xc_attempt options url body (Some payload) w3 = (Inr second, w') \<and>
     200 \<le> fr_status second \<and> fr_status second < 300"
  using fetchPaid_paid [OF assms] by blast

text \<open>
  A payment the client declines is never signed and the service is not called again: when the price
  check or the policy check refuses, the call fails with that refusal in the world the check left, whatever
  the signer is.
\<close>

theorem declined_never_signs:
  assumes "xc_attempt options url body None w = (Inr first, w1)" and "fr_status first = 402" and "fr_json first = Inr j"
    and "fr_accepts first = Some (requirements # rest)"
  shows "(checkPrice options requirements = Inl e \<longrightarrow>
       fetchPaid parse (options\<lparr>xc_signPayment := signer\<rparr>) url body w = (Inl e, w1)) \<and>
     (checkPrice options requirements = Inr () \<and> checkPolicy options requirements w1 = (Inl e, w2) \<longrightarrow>
       fetchPaid parse (options\<lparr>xc_signPayment := signer\<rparr>) url body w = (Inl e, w2))"
proof -
  have "checkPrice (options\<lparr>xc_signPayment := signer\<rparr>) = checkPrice options"
    "checkPolicy (options\<lparr>xc_signPayment := signer\<rparr>) = checkPolicy options"
    by (intro ext; simp add: checkPrice_def checkPolicy_def)+
  with assms show ?thesis by (simp add: fetchPaid_def bind_io_def)
qed

lemma digit_facts: "is_digit c \<Longrightarrow> \<not> is_space c \<and> \<not> is_exp_mark c \<and> lower_char c = c \<and>
    c \<noteq> CHR ''x'' \<and> c \<noteq> CHR ''o'' \<and> c \<noteq> CHR ''b'' \<and> c \<noteq> CHR ''-'' \<and> c \<noteq> CHR ''+'' \<and> c \<noteq> CHR ''.'' \<and> c \<noteq> CHR ''I''"
  by (auto simp: is_digit_def is_space_def is_exp_mark_def lower_char_def Let_def)

lemma js_Number_digits:
  assumes "s \<noteq> []" and "list_all is_digit s"
  shows "js_Number s = Finite (of_nat (of_dec s))"
proof -
  have d: "\<forall>c \<in> set s. is_digit c" using assms(2) by (simp add: list_all_iff)
  have letter: "take 2 s \<noteq> [a, c]" if "\<not> is_digit c" for a c
    using that d in_set_takeD [of c 2 s] by auto
  have "trim s = s" using d by (intro trim_id) (auto dest: digit_facts)
  moreover have "toLowerCase (take 2 s) = take 2 s" using d by (intro toLowerCase_id) (auto dest!: in_set_takeD digit_facts)
  moreover have "take 2 s \<noteq> ''0x''" "take 2 s \<noteq> ''0o''" "take 2 s \<noteq> ''0b''"
    using letter [of "CHR ''x''"] letter [of "CHR ''o''"] letter [of "CHR ''b''"] by (auto dest: digit_facts)
  moreover have "hd s \<noteq> CHR ''-''" "hd s \<noteq> CHR ''+''" "s \<noteq> ''Infinity''"
    using assms(1) d digit_facts by fastforce+
  moreover have no_exp: "takeWhile (\<lambda>c. \<not> is_exp_mark c) s = s" "dropWhile (\<lambda>c. \<not> is_exp_mark c) s = []"
    using d digit_facts by (auto simp: takeWhile_eq_all_conv dropWhile_eq_Nil_conv)
  moreover have "splitOn (CHR ''.'') s = [s]" using d digit_facts by (intro splitOn_free) blast
  ultimately show ?thesis
    using assms by (simp add: js_Number_def read_decimal_def no_exp Let_def read_exponent_def scale10_def del: takeWhile_eq_all_conv
        dropWhile_eq_Nil_conv)
qed


lemma payment_action_reads:
  assumes "payment_action ctx r = Inr action" and "wf_address (px_token ctx)" and "wf_address (cq_payTo r)"
    and "bigint_micro (js_Number (cq_amount r)) = Inr v" and "uint256 v"
  shows "selectorOf (act_data action) = SELECTOR_X402_SETTLE" "readAddress (act_data action) 0 = Inr (px_token ctx)"
    "readAddress (act_data action) 1 = Inr (cq_payTo r)" "readWord (act_data action) 2 = Inr v"
    "act_to action = px_facilitator ctx"
proof -
  have "toEvmAddress (cq_payTo r) = Inr (cq_payTo r)" using assms(3) by (simp add: toEvmAddress_def wf_address_def)
  moreover have b: "bigint_hex (drop 2 a) = Inr (address_value a)" if "wf_address a" for a
    using bigint_address_wf [of a] that by (simp add: bigint_address_def)
  ultimately have d: "act_data action = SELECTOR_X402_SETTLE @
      concat (map abi_word [address_value (px_token ctx), address_value (cq_payTo r), v]) @
      padStart 64 (CHR ''0'') (drop 2 (request_id (cq_nonce r)))" and "act_to action = px_facilitator ctx"
    using assms by (auto simp: payment_action_def x402PaymentAction_def)
  then show "act_to action = px_facilitator ctx" by simp
  note reads = read_encoded [OF d]
  have w: "length SELECTOR_X402_SETTLE = 10"
    "list_all uint256 [address_value (px_token ctx), address_value (cq_payTo r), v]"
    using assms by (simp_all add: SELECTOR_X402_SETTLE_def)
  show "selectorOf (act_data action) = SELECTOR_X402_SETTLE" "readAddress (act_data action) 0 = Inr (px_token ctx)"
    "readAddress (act_data action) 1 = Inr (cq_payTo r)" "readWord (act_data action) 2 = Inr v"
    using reads(1) [OF w] reads(3) [OF w, of 0 "px_token ctx"] reads(3) [OF w, of 1 "cq_payTo r"] reads(2) [OF w, of 2]
      assms(2,3) by simp_all
qed


section \<open>Witnesses\<close>

definition sample_challenge :: ClientRequirements where
  "sample_challenge = \<lparr>cq_scheme = ''exact'', cq_network = ''hedera:testnet'', cq_asset = ''0.0.429274'',
     cq_amount = ''10000'', cq_payTo = sample_router, cq_resource = ''/verify'', cq_nonce = ''n'',
     cq_maxTimeoutSeconds = None, cq_feePayer = None\<rparr>"

definition sample_context :: PolicyContext where
  "sample_context = \<lparr>px_facilitator = sample_hook, px_token = sample_token, px_chainId = 296\<rparr>"

text \<open>A service that asks for payment and then delivers; the world counts the signatures.\<close>

definition sample_client :: "bool \<Rightarrow> string \<Rightarrow> nat X402ClientOptions" where
  "sample_client yes most = \<lparr>xc_attempt = (\<lambda>_ _ payment w. (Inr
       \<lparr>fr_status = (if payment = None then 402 else 200), fr_json = Inr JNull, fr_accepts = Some [sample_challenge],
        fr_paymentResponse = None\<rparr>, w)),
     xc_signPayment = (\<lambda>_ w. (Inr ''sig'', w + 1)), xc_authorise = Some (\<lambda>_ _ w. (Inr yes, w)),
     xc_policyContext = Some sample_context, xc_maxPricePerCall = Some most\<rparr>"

lemma sample_prices: "js_Number ''10000'' = Finite 10000" "js_Number ''20000'' = Finite 20000" "js_Number ''9999'' = Finite 9999"
  by (simp_all add: js_Number_digits is_digit_def of_base_def digit_val_def)

lemma sample_challenge_amount: "cq_amount sample_challenge = ''10000''"
  by (simp add: sample_challenge_def)

lemma sample_payment_action: "\<exists>action. payment_action sample_context sample_challenge = Inr action"
  using bigint_address_wf [of sample_token] bigint_address_wf [of sample_router] sample_wf
  by (simp add: payment_action_def x402PaymentAction_def toEvmAddress_def wf_address_def bigint_address_def
      sample_context_def sample_challenge_def sample_prices bigint_micro_def)

theorem client_pays_once_witness:
  "\<exists>r w'. fetchPaid (\<lambda>_. Inr JNull) (sample_client True ''20000'') [] JNull 0 = (Inr r, w') \<and> pd_paid r \<and> w' = 1"
proof -
  obtain action where "payment_action sample_context sample_challenge = Inr action" using sample_payment_action ..
  then obtain r w' where r: "fetchPaid (\<lambda>_. Inr JNull) (sample_client True ''20000'') [] JNull 0 = (Inr r, w')" "pd_paid r"
    by (simp add: fetchPaid_def bind_io_def sample_client_def checkPrice_def checkPolicy_def second_attempt_def
        sample_prices sample_challenge_amount)
  from client_pays_once [OF r] have "w' = 1" by (auto simp: sample_client_def)
  with r show ?thesis by blast
qed

theorem declined_never_signs_witness:
  "\<exists>e w'. fetchPaid (\<lambda>_. Inr JNull) (sample_client True ''9999''\<lparr>xc_signPayment := (\<lambda>_ w. (Inr [], 77))\<rparr>) [] JNull 0 = (Inl e, w') \<and> w' = 0"
proof -
  have "\<exists>e. checkPrice (sample_client True ''9999'') sample_challenge = Inl e"
    by (simp add: checkPrice_def sample_client_def sample_prices sample_challenge_amount)
  then obtain e where e: "checkPrice (sample_client True ''9999'') sample_challenge = Inl e" ..
  have a: "xc_attempt (sample_client True ''9999'') [] JNull None 0 = (Inr \<lparr>fr_status = 402, fr_json = Inr JNull,
      fr_accepts = Some [sample_challenge], fr_paymentResponse = None\<rparr>, 0)" by (simp add: sample_client_def)
  from declined_never_signs [OF a, of JNull sample_challenge "[]"] e show ?thesis by auto
qed


end
