(* ===== verification/Routes.thy ===== *)
theory Routes
  imports X402Client Adapters
begin

text \<open>
  \<^verbatim>\<open>packages/api/src/config.ts\<close>, \<^verbatim>\<open>http.ts\<close>, \<^verbatim>\<open>stream.ts\<close> and \<^verbatim>\<open>routes/index.ts\<close>: the preflight of the API process, its
  HTTP client, the event stream of the dashboard and the handlers of the routes.

  A request body is a parsed JSON value. \<open>digest\<close> is the SHA-256 of \<^verbatim>\<open>node:crypto\<close> in hex, \<open>parse_url\<close> is
  \<^verbatim>\<open>new URL\<close>, giving origin and path.
\<close>

section \<open>config.ts\<close>

datatype ApiMode = Simulation | Production

record RuntimeConfig =
  cg_mode :: ApiMode
  cg_adminToken :: "string option"
  cg_graph :: "(string \<times> string) option"

text \<open>An environment variable counts as set when it is not empty.\<close>

definition env_set :: "(string \<Rightarrow> string option) \<Rightarrow> string \<Rightarrow> string option" where
  "env_set env k = (case env k of Some v \<Rightarrow> if v = [] then None else Some v | None \<Rightarrow> None)"

definition is_zero_address :: "string \<Rightarrow> bool" where
  "is_zero_address a = (toLowerCase a = ''0x'' @ replicate 40 (CHR ''0''))"

definition preflight_missing :: "(string \<Rightarrow> string option) \<Rightarrow> PolicyDocument \<Rightarrow> string list" where
  "preflight_missing env policy =
     (if env ''AGENTPROOF_MODE'' = Some ''production'' then
        (if env_set env ''SEPOLIA_RPC_URL'' = None then [''SEPOLIA_RPC_URL''] else []) @
        (if env_set env ''GRAPH_ENDPOINT'' = None \<or> env_set env ''GRAPH_API_KEY'' = None
          then [''GRAPH_ENDPOINT + GRAPH_API_KEY''] else []) @
        (if doc_chainId policy \<noteq> 11155111 then [''policy.chainId must be 11155111''] else []) @
        (if doc_assetDecimals policy \<noteq> 6 then [''policy.asset.decimals must be 6''] else []) @
        (if is_zero_address (doc_hook policy) then [''policy.enforcement.hook must be deployed''] else []) @
        (if is_zero_address (doc_account policy) then [''policy.enforcement.account must be deployed''] else [])
      else []) @
     (if env_set env ''OWNER_PRIVATE_KEY'' \<noteq> None \<or> env_set env ''PRIVATE_KEY'' \<noteq> None
       then [''owner private keys must not be present in the API/agent process''] else [])"

definition readRuntimeConfig :: "(string \<Rightarrow> string option) \<Rightarrow> PolicyDocument \<Rightarrow> RuntimeConfig result" where
  "readRuntimeConfig env policy =
     (let missing = preflight_missing env policy in
      if missing \<noteq> [] then Inl (PreflightError missing)
      else Inr \<lparr>cg_mode = (if env ''AGENTPROOF_MODE'' = Some ''production'' then Production else Simulation),
        cg_adminToken = env ''AGENTPROOF_ADMIN_TOKEN'',
        cg_graph = (case (env_set env ''GRAPH_ENDPOINT'', env_set env ''GRAPH_API_KEY'') of
            (Some endpoint, Some apiKey) \<Rightarrow> Some (endpoint, apiKey) | _ \<Rightarrow> None)\<rparr>)"

definition has_token :: "string option \<Rightarrow> bool" where
  "has_token token = (case token of None \<Rightarrow> False | Some t \<Rightarrow> t \<noteq> [])"

definition tokenFingerprint :: "(string \<Rightarrow> string) \<Rightarrow> string option \<Rightarrow> string option" where
  "tokenFingerprint digest token =
     (case token of None \<Rightarrow> None | Some t \<Rightarrow> if t = [] then None else Some (js_slice (digest t) 0 12))"

section \<open>http.ts\<close>

definition redactUrl :: "(string \<Rightarrow> (string \<times> string) option) \<Rightarrow> string \<Rightarrow> string" where
  "redactUrl parse_url url =
     (case parse_url url of Some (origin, pathname) \<Rightarrow> origin @ pathname | None \<Rightarrow> ''[unparseable-url]'')"

text \<open>\<open>fetch\<close> answers with a status and the parsed body; an aborted request is a fetch that throws.\<close>

definition http_request ::
  "(string \<Rightarrow> (string \<times> string) option) \<Rightarrow> (string \<Rightarrow> string \<Rightarrow> json option \<Rightarrow> ('w, nat \<times> json result) io) \<Rightarrow> string \<Rightarrow> string \<Rightarrow>
   json option \<Rightarrow> ('w, json) io" where
  "http_request parse_url fetch url method body =
     bind_io (fetch method url body) (\<lambda>(status, answer).
       if \<not> response_ok status then
         throw_io (ErrorMessage (method @ '' '' @ redactUrl parse_url url @ '' failed with '' @ to_dec status))
       else lift_io answer)"

definition postJson ::
  "(string \<Rightarrow> (string \<times> string) option) \<Rightarrow> (string \<Rightarrow> string \<Rightarrow> json option \<Rightarrow> ('w, nat \<times> json result) io) \<Rightarrow> string \<Rightarrow> json \<Rightarrow> ('w, json) io" where
  "postJson parse_url fetch url body = http_request parse_url fetch url ''POST'' (Some body)"

definition getJson ::
  "(string \<Rightarrow> (string \<times> string) option) \<Rightarrow> (string \<Rightarrow> string \<Rightarrow> json option \<Rightarrow> ('w, nat \<times> json result) io) \<Rightarrow> string \<Rightarrow> ('w, json) io" where
  "getJson parse_url fetch url = http_request parse_url fetch url ''GET'' None"

section \<open>stream.ts\<close>

datatype StreamType = decision_event | thought_event | approval_event | identity_event

record StreamEvent =
  sv_type :: StreamType
  sv_data :: json

text \<open>A client is a number; \<open>es_written\<close> is what each one has been sent, oldest first.\<close>

record EventStream =
  es_clients :: "nat list"
  es_recent :: "StreamEvent list"
  es_backlog :: nat
  es_written :: "nat \<Rightarrow> StreamEvent list"

definition newEventStream :: "nat option \<Rightarrow> EventStream" where
  "newEventStream backlog = \<lparr>es_clients = [], es_recent = [], es_backlog = or_else backlog 50, es_written = (\<lambda>_. [])\<rparr>"

definition stream_write :: "nat \<Rightarrow> StreamEvent \<Rightarrow> EventStream \<Rightarrow> EventStream" where
  "stream_write c e s = s\<lparr>es_written := (es_written s)(c := es_written s c @ [e])\<rparr>"

definition subscribe :: "nat \<Rightarrow> EventStream \<Rightarrow> EventStream" where
  "subscribe c s = (let s1 = fold (stream_write c) (es_recent s) s in s1\<lparr>es_clients := List.insert c (es_clients s1)\<rparr>)"

definition stream_close :: "nat \<Rightarrow> EventStream \<Rightarrow> EventStream" where
  "stream_close c s = s\<lparr>es_clients := remove1 c (es_clients s)\<rparr>"

definition stream_publish :: "StreamEvent \<Rightarrow> EventStream \<Rightarrow> EventStream" where
  "stream_publish e s =
     (let recent = es_recent s @ [e];
          s1 = s\<lparr>es_recent := (if length recent > es_backlog s then tl recent else recent)\<rparr>
      in fold (\<lambda>c. stream_write c e) (es_clients s) s1)"

definition clientCount :: "EventStream \<Rightarrow> nat" where
  "clientCount s = length (es_clients s)"

fun type_string :: "StreamType \<Rightarrow> string" where
  "type_string decision_event = ''decision''"
| "type_string thought_event = ''thought''"
| "type_string approval_event = ''approval''"
| "type_string identity_event = ''identity''"

definition stream_frame :: "StreamEvent \<Rightarrow> string" where
  "stream_frame e = ''event: '' @ type_string (sv_type e) @ [CHR 0x0A] @ ''data: '' @ JSON_stringify (sv_data e) @ [CHR 0x0A, CHR 0x0A]"

section \<open>JSON values\<close>

text \<open>Reading a member: of \<^verbatim>\<open>null\<close> and \<^verbatim>\<open>undefined\<close> it throws, of other values an absent member is \<^verbatim>\<open>undefined\<close>.\<close>

definition member :: "string \<Rightarrow> json \<Rightarrow> json result" where
  "member k j =
     (case j of JNull \<Rightarrow> Inl TypeErrorUndefined | JUndefined \<Rightarrow> Inl TypeErrorUndefined
      | JObj es \<Rightarrow> Inr (or_else (map_of es k) JUndefined) | _ \<Rightarrow> Inr JUndefined)"

definition is_object :: "json \<Rightarrow> bool" where
  "is_object j = (case j of JObj _ \<Rightarrow> True | JArr _ \<Rightarrow> True | _ \<Rightarrow> False)"

definition is_string :: "json \<Rightarrow> bool" where
  "is_string j = (case j of JStr _ \<Rightarrow> True | _ \<Rightarrow> False)"

text \<open>\<^verbatim>\<open>String(j)\<close>.\<close>

function js_string :: "json \<Rightarrow> string" where
  "js_string JUndefined = ''undefined''"
| "js_string JNull = ''null''"
| "js_string (JBool b) = (if b then ''true'' else ''false'')"
| "js_string (JNum n) = bigint_to_string n"
| "js_string (JStr s) = s"
| "js_string (JArr vs) = join '','' (map (\<lambda>v. if v = JNull \<or> v = JUndefined then [] else js_string v) vs)"
| "js_string (JObj es) = ''[object Object]''"
  by pat_completeness auto

termination
  by (relation "measure size") (auto intro!: size_json_elem less_Suc_eq_le [THEN iffD2] size_list_estimation')

text \<open>\<^verbatim>\<open>BigInt(j)\<close>.\<close>

definition js_BigInt :: "json \<Rightarrow> int result" where
  "js_BigInt j =
     (case j of JNum n \<Rightarrow> Inr n | JBool b \<Rightarrow> Inr (if b then 1 else 0)
      | JNull \<Rightarrow> Inl TypeErrorUndefined | JUndefined \<Rightarrow> Inl TypeErrorUndefined | _ \<Rightarrow> bigint_of_string (js_string j))"

text \<open>\<^verbatim>\<open>Number(j)\<close> where it is an integer; the code only passes the value on, and any other value is read as 0.\<close>

definition js_integer :: "json \<Rightarrow> int" where
  "js_integer j =
     (case j of JNum n \<Rightarrow> n | JBool b \<Rightarrow> (if b then 1 else 0) | JNull \<Rightarrow> 0 | JUndefined \<Rightarrow> 0
      | _ \<Rightarrow> (case js_Number (js_string j) of Finite q \<Rightarrow> if q = of_int \<lfloor>q\<rfloor> then \<lfloor>q\<rfloor> else 0 | _ \<Rightarrow> 0))"

definition opt_int_json :: "int option \<Rightarrow> json" where
  "opt_int_json v = (case v of None \<Rightarrow> JUndefined | Some n \<Rightarrow> JStr (bigint_to_string n))"

section \<open>routes/index.ts\<close>

fun provenance_string :: "Provenance \<Rightarrow> string" where
  "provenance_string DECLARED = ''DECLARED''"
| "provenance_string DECODED = ''DECODED''"
| "provenance_string MEASURED = ''MEASURED''"

fun property_string :: "ProofProperty \<Rightarrow> string" where
  "property_string MAX_TRANSFER = ''MAX_TRANSFER''"
| "property_string DAILY_SPEND = ''DAILY_SPEND''"

fun status_string :: "ProofStatus \<Rightarrow> string" where
  "status_string PROVEN = ''PROVEN''"
| "status_string UNPROVEN = ''UNPROVEN''"
| "status_string COUNTEREXAMPLE = ''COUNTEREXAMPLE''"
| "status_string NOT_RUN = ''NOT_RUN''"

fun tool_string :: "ProofTool \<Rightarrow> string" where
  "tool_string SolcSmtchecker = ''solc-smtchecker''"
| "tool_string Certora = ''certora''"

definition opt_provenance :: "Provenance option \<Rightarrow> json" where
  "opt_provenance p = (case p of None \<Rightarrow> JUndefined | Some x \<Rightarrow> JStr (provenance_string x))"

definition serialiseIntent :: "NormalizedIntent \<Rightarrow> json" where
  "serialiseIntent intent = JObj
     [(''kind'', JStr (kind_string (in_kind intent))), (''target'', JStr (in_target intent)),
      (''selector'', JStr (in_selector intent)), (''counterparty'', opt_json (in_counterparty intent)),
      (''nativeValue'', JStr (bigint_to_string (in_nativeValue intent))),
      (''notionalUSDC'', JStr (bigint_to_string (in_notionalUSDC intent))), (''summary'', JStr (in_summary intent)),
      (''outflow'', JArr (map (\<lambda>flow. JObj [(''asset'', JStr (aa_asset flow)),
         (''amount'', JStr (bigint_to_string (aa_amount flow))),
         (''provenance'', JStr (provenance_string (aa_provenance flow)))]) (in_outflow intent)))]"

definition serialisePolicyRow :: "PolicyRow \<Rightarrow> json" where
  "serialisePolicyRow row = JObj
     [(''id'', JStr (pr_id row)), (''name'', JStr (pr_name row)), (''decision'', JStr (decision_string (pr_decision row))),
      (''passed'', JBool (pr_passed row)), (''formallyVerified'', JBool (pr_formallyVerified row)),
      (''reason'', JStr (pr_reason row)), (''limit'', opt_int_json (pr_limit row)),
      (''observed'', opt_int_json (pr_observed row)), (''provenance'', opt_provenance (pr_provenance row))]"

definition violation_json :: "PolicyViolation \<Rightarrow> json" where
  "violation_json v = JObj
     [(''policy'', JStr (pv_policy v)), (''limit'', JStr (bigint_to_string (pv_limit v))),
      (''observed'', JStr (bigint_to_string (pv_observed v))), (''provenance'', JStr (provenance_string (pv_provenance v))),
      (''message'', JStr (pv_message v))]"

definition check_json :: "PolicyCheck \<Rightarrow> json" where
  "check_json c = JObj
     [(''policy'', JStr (pc_policy c)), (''decision'', JStr (decision_string (pc_decision c))),
      (''reason'', opt_json (pc_reason c)), (''provenance'', opt_provenance (pc_provenance c))]"

definition proof_json :: "ProofReference \<Rightarrow> json" where
  "proof_json p = JObj
     [(''property'', JStr (property_string (pf_property p))), (''status'', JStr (status_string (pf_status p))),
      (''tool'', JStr (tool_string (pf_tool p))), (''solverTimeMs'', JNum (pf_solverTimeMs p)),
      (''artifactPath'', JStr (pf_artifactPath p)), (''counterexample'', opt_json (pf_counterexample p))]"

record 'w RouteContext =
  rc_engine :: PolicyEngineOptions
  rc_policy :: ResolvedPolicy
  rc_state :: "'w StateProvider"
  rc_proofs :: ProofRegistry
  rc_unevaluated :: "(string \<times> string) list"
  rc_mode :: ApiMode
  rc_resolvePolicyByName :: "(string \<Rightarrow> ('w, json) io) option"
  rc_readOnchainSpend :: "(string \<Rightarrow> ('w, int option) io) option"
  rc_poolFor :: "(NormalizedIntent \<Rightarrow> ('w, PoolState option option) io) option"

fun mode_string :: "ApiMode \<Rightarrow> string" where
  "mode_string Simulation = ''simulation''"
| "mode_string Production = ''production''"

definition parseAction :: "json \<Rightarrow> Action result" where
  "parseAction input =
     (if \<not> is_object input then Inl (BadRequest ''body.action must be an object'')
      else
        bindR (member ''to'' input) (\<lambda>to. bindR (member ''data'' input) (\<lambda>data0.
        let data = (if data0 = JUndefined \<or> data0 = JNull then JStr ''0x'' else data0) in
        case to of
          JStr t \<Rightarrow>
            if \<not> is_address t then Inl (BadRequest ''action.to must be a 20-byte address'')
            else (case data of
                JStr d \<Rightarrow>
                  if \<not> isHex d then Inl (BadRequest ''action.data must be 0x-prefixed hex'')
                  else bindR (member ''value'' input) (\<lambda>v.
                    case (if v = JUndefined then Inr 0 else js_BigInt v) of
                      Inl _ \<Rightarrow> Inl (BadRequest ''action.value must be an integer string of wei'')
                    | Inr value \<Rightarrow> bindR (member ''chainId'' input) (\<lambda>c.
                        Inr \<lparr>act_to = toLowerCase t, act_data = d, act_value = value,
                          act_chainId = (if c = JUndefined \<or> c = JNull then 11155111 else js_integer c),
                          act_metadata = None\<rparr>))
              | _ \<Rightarrow> Inl (BadRequest ''action.data must be 0x-prefixed hex''))
        | _ \<Rightarrow> Inl (BadRequest ''action.to must be a 20-byte address''))))"

record VerifyOutcome =
  vo_body :: json
  vo_result :: PolicyResult

definition verify_wire :: "'w RouteContext \<Rightarrow> PolicyResult \<Rightarrow> json" where
  "verify_wire ctx result = JObj
     [(''decision'', JStr (decision_string (res_decision result))), (''reason'', JStr (res_reason result)),
      (''violations'', JArr (map violation_json (res_violations result))),
      (''policyRows'', JArr (map serialisePolicyRow (res_policyRows result))),
      (''checks'', JArr (map check_json (res_checks result))), (''intent'', serialiseIntent (res_intent result)),
      (''proof'', case res_proof result of None \<Rightarrow> JUndefined | Some p \<Rightarrow> proof_json p),
      (''enforcement'', JObj
         [(''advisory'', JBool True),
          (''note'', JStr ''This endpoint is advisory. Enforcement is the ERC-7579 hook installed on the account.''),
          (''hook'', JStr (rp_hook (rc_policy ctx))), (''account'', JStr (rp_account (rc_policy ctx))),
          (''mode'', JStr (mode_string (rc_mode ctx))),
          (''unevaluatedPolicies'', JArr (map (\<lambda>(p, r). JObj [(''policy'', JStr p), (''reason'', JStr r)])
             (rc_unevaluated ctx)))])]"

text \<open>The world of the routes: the engine's sequence number and the outside world, whose clock is \<^verbatim>\<open>Date.now()\<close>.\<close>

definition verify_io :: "PolicyEngineOptions \<Rightarrow> ('w \<Rightarrow> int \<times> 'w) \<Rightarrow> Action \<Rightarrow> PolicyState \<Rightarrow> ('w agent_world, PolicyResult) io" where
  "verify_io engine clock action state s =
     (case engine_decode engine action None of
        Inl e \<Rightarrow> (Inl e, s)
      | Inr intent \<Rightarrow>
          let (now, w) = clock (snd s); (result, n) = evaluate engine intent state now (fst s) in (Inr result, (n, w)))"

definition check_agent :: "'w RouteContext \<Rightarrow> json \<Rightarrow> unit result" where
  "check_agent ctx body =
     bindR (member ''agent'' body) (\<lambda>agent.
       let expected = doc_agent (rp_document (rc_policy ctx)) in
       if agent \<noteq> JUndefined \<and> agent \<noteq> JStr expected then
         Inl (BadRequest (''unknown agent '' @ JSON_stringify agent @ ''; expected '' @ expected))
       else Inr ())"

definition verifyRoute :: "('w \<Rightarrow> int \<times> 'w) \<Rightarrow> 'w RouteContext \<Rightarrow> json \<Rightarrow> ('w agent_world, VerifyOutcome) io" where
  "verifyRoute clock ctx body =
     bind_io (lift_io (check_agent ctx body)) (\<lambda>_.
     bind_io (lift_io (bindR (member ''action'' body) parseAction)) (\<lambda>action.
     bind_io (outside (read_clock clock)) (\<lambda>t0.
     let dayUtc = utcDay t0; account = rp_account (rc_policy ctx); asset = rp_asset (rc_policy ctx) in
     bind_io (outside (both_io (sp_getDailySpend (rc_state ctx) account dayUtc) (sp_getBalance (rc_state ctx) account asset)))
       (\<lambda>(dailySpend, balance).
     bind_io (lift_io (engine_decode (rc_engine ctx) action None)) (\<lambda>intent.
     bind_io (case rc_poolFor ctx of None \<Rightarrow> return_io None | Some poolFor \<Rightarrow> outside (poolFor intent)) (\<lambda>pool.
     bind_io (outside (read_clock clock)) (\<lambda>now.
     bind_io (verify_io (rc_engine ctx) clock action
         \<lparr>st_account = account, st_dayUtc = dayUtc, st_dailySpend = dailySpend, st_balance = balance, st_asset = asset,
          st_now = now, st_pool = pool\<rparr>) (\<lambda>result.
       return_io \<lparr>vo_body = verify_wire ctx result, vo_result = result\<rparr>))))))))"

definition decodeRoute :: "'w RouteContext \<Rightarrow> json \<Rightarrow> json result" where
  "decodeRoute ctx body =
     bindR (parseAction body) (\<lambda>action. bindR (engine_decode (rc_engine ctx) action None) (\<lambda>intent.
       Inr (JObj [(''intent'', serialiseIntent intent)])))"

definition policyRoute :: "'w RouteContext \<Rightarrow> string \<Rightarrow> ('w, json) io" where
  "policyRoute ctx name =
     bind_io (case rc_resolvePolicyByName ctx of
         Some resolve \<Rightarrow> resolve name
       | None \<Rightarrow> return_io (document_json (rp_document (rc_policy ctx)))) (\<lambda>policy.
       return_io (JObj [(''name'', JStr name), (''policy'', policy), (''policyHash'', JStr (rp_hash (rc_policy ctx)))]))"

definition spendRoute :: "('w \<Rightarrow> int \<times> 'w) \<Rightarrow> 'w RouteContext \<Rightarrow> string \<Rightarrow> ('w, json) io" where
  "spendRoute clock ctx account =
     bind_io (read_clock clock) (\<lambda>now.
     bind_io (sp_getDailySpend (rc_state ctx) account (utcDay now)) (\<lambda>spentGraph.
     bind_io (case rc_readOnchainSpend ctx of None \<Rightarrow> return_io None | Some read \<Rightarrow> read account) (\<lambda>spentOnchain.
       let limit = rp_dailySpend (rc_policy ctx) in
       return_io (JObj
         [(''account'', JStr account), (''dayUtc'', JNum (utcDay now)), (''spentGraph'', JStr (bigint_to_string spentGraph)),
          (''spentOnchain'', case spentOnchain of None \<Rightarrow> JNull | Some v \<Rightarrow> JStr (bigint_to_string v)),
          (''reconciled'', case spentOnchain of None \<Rightarrow> JNull | Some v \<Rightarrow> JBool (spentGraph = v)),
          (''limit'', JStr (bigint_to_string limit)),
          (''remaining'', JStr (bigint_to_string (if limit > spentGraph then limit - spentGraph else 0)))]))))"

definition negative_control_json :: "NegativeControl option \<Rightarrow> json" where
  "negative_control_json nc = (case nc of None \<Rightarrow> JNull | Some c \<Rightarrow> JObj
     [(''contract'', JStr (nc_contract c)), (''counterexampleProduced'', JBool (nc_counterexampleProduced c)),
      (''counterexample'', opt_json (nc_counterexample c))])"

definition proofsRoute :: "'w RouteContext \<Rightarrow> json" where
  "proofsRoute ctx = JObj
     [(''proofs'', JArr (map proof_json (all_proofs (rc_proofs ctx)))), (''allProven'', JBool (allProven (rc_proofs ctx))),
      (''negativeControl'', negative_control_json (prf_negativeControl (rc_proofs ctx)))]"

text \<open>One field of the patch: absent, or a value that must have the right shape.\<close>

definition patch_amount :: "string \<Rightarrow> json \<Rightarrow> string option \<Rightarrow> string option result" where
  "patch_amount key patch old =
     bindR (member key patch) (\<lambda>value.
       case value of
         JUndefined \<Rightarrow> Inr old
       | JStr s \<Rightarrow> if s \<noteq> [] \<and> list_all is_digit s then Inr (Some s)
           else Inl (BadRequest (''policies.'' @ key @ '' must be a base-unit integer string, e.g. '' @ [CHR 0x22] @ ''100000000'' @
             [CHR 0x22] @ '' for 100 USDC''))
       | _ \<Rightarrow> Inl (BadRequest (''policies.'' @ key @ '' must be a base-unit integer string, e.g. '' @ [CHR 0x22] @ ''100000000'' @
             [CHR 0x22] @ '' for 100 USDC'')))"

definition json_address :: "json \<Rightarrow> string option" where
  "json_address j = (case j of JStr s \<Rightarrow> if is_address s then Some s else None | _ \<Rightarrow> None)"

definition patch_addresses :: "string \<Rightarrow> json \<Rightarrow> string list option \<Rightarrow> string list option result" where
  "patch_addresses key patch old =
     bindR (member key patch) (\<lambda>value.
       case value of
         JUndefined \<Rightarrow> Inr old
       | JArr vs \<Rightarrow>
           if list_all (\<lambda>v. json_address v \<noteq> None) vs then
             Inr (Some (map toLowerCase (List.map_filter json_address vs)))
           else Inl (BadRequest (''policies.'' @ key @ '' must be an array of 20-byte addresses''))
       | _ \<Rightarrow> Inl (BadRequest (''policies.'' @ key @ '' must be an array of 20-byte addresses'')))"

definition patch_limits :: "json \<Rightarrow> PolicyLimits \<Rightarrow> PolicyLimits result" where
  "patch_limits patch p =
     bindR (patch_amount ''maxTransaction'' patch (pl_maxTransaction p)) (\<lambda>a.
     bindR (patch_amount ''dailySpend'' patch (pl_dailySpend p)) (\<lambda>b.
     bindR (patch_amount ''approvalThreshold'' patch (pl_approvalThreshold p)) (\<lambda>c.
     bindR (patch_amount ''minBalance'' patch (pl_minBalance p)) (\<lambda>d.
     bindR (patch_addresses ''allowedContracts'' patch (pl_allowedContracts p)) (\<lambda>e.
     bindR (patch_addresses ''allowedRecipients'' patch (pl_allowedRecipients p)) (\<lambda>f.
       Inr \<lparr>pl_maxTransaction = a, pl_dailySpend = b, pl_approvalThreshold = c, pl_minBalance = d,
         pl_allowedContracts = e, pl_allowedRecipients = f\<rparr>))))))"

text \<open>\<open>message\<close> is \<^verbatim>\<open>error.message\<close>.\<close>

definition applyPolicyPatch :: "(js_error \<Rightarrow> string) \<Rightarrow> 'w RouteContext \<Rightarrow> json \<Rightarrow> (PolicyDocument \<times> ResolvedPolicy) result" where
  "applyPolicyPatch message ctx body =
     (if \<not> is_object body then Inl (BadRequest ''body must be an object'')
      else
        let old = rp_document (rc_policy ctx) in
        bindR (patch_limits body (doc_policies old)) (\<lambda>limits.
          let document = old\<lparr>doc_policies := limits\<rparr> in
          case resolvePolicy document of
            Inl e \<Rightarrow> Inl (BadRequest (message e))
          | Inr resolved \<Rightarrow> Inr (document, resolved)))"

text \<open>\<open>shown\<close> is \<^verbatim>\<open>String(error)\<close>, the name of the error's class and its message.\<close>

definition error_status :: "(js_error \<Rightarrow> string) \<Rightarrow> js_error \<Rightarrow> nat" where
  "error_status shown e =
     (case e of
        BadRequest _ \<Rightarrow> 400
      | _ \<Rightarrow> if list_ex (\<lambda>word. js_includes word (toLowerCase (shown e))) [''unreachable'', ''unavailable'', ''cannot determine'']
          then 503 else 500)"

definition respondError :: "(js_error \<Rightarrow> string) \<Rightarrow> (js_error \<Rightarrow> string) \<Rightarrow> js_error \<Rightarrow> HttpReply" where
  "respondError shown message e = respondJson [] (error_status shown e) (JObj [(''error'', JStr (message e))])"

section \<open>Properties\<close>

lemma verify_io_Inr:
  assumes "verify_io engine clock action st s = (Inr r, s')"
  obtains intent now where "engine_decode engine action None = Inr intent"
    and "r = fst (evaluate engine intent st now (fst s))" and "fst s' = fst s + 1"
  using assms evaluate_simps(6) [of engine _ st _ "fst s"]
  by (auto simp: verify_io_def Let_def split: sum.splits prod.splits) (metis fst_conv snd_conv)

lemma verify_route_wire:
  assumes "verifyRoute clock ctx body s = (Inr out, s')"
  shows "member ''decision'' (vo_body out) = Inr (JStr (decision_string (res_decision (vo_result out))))"
  using assms unfolding verifyRoute_def Let_def io_inversion
  by (auto simp: io_inversion verify_wire_def member_def split: prod.splits)

text \<open>
  The paid route answers what the engine decides: a response carries exactly the decision the configured
  policies take on the decoded action against the spend, balance and pool the providers reported, for this
  deployment's agent only, and says which policies it could not evaluate.
\<close>

theorem verify_route_decides:
  assumes "verifyRoute clock ctx body s = (Inr out, s')"
  shows "\<exists>action intent st t0. check_agent ctx body = Inr () \<and> bindR (member ''action'' body) parseAction = Inr action \<and>
     engine_decode (rc_engine ctx) action None = Inr intent \<and>
     (\<exists>w1 w2. both_io (sp_getDailySpend (rc_state ctx) (rp_account (rc_policy ctx)) (utcDay t0))
        (sp_getBalance (rc_state ctx) (rp_account (rc_policy ctx)) (rp_asset (rc_policy ctx))) w1 =
        (Inr (st_dailySpend st, st_balance st), w2)) \<and>
     (st_pool st \<noteq> None \<longrightarrow> (\<exists>poolFor w1 w2. rc_poolFor ctx = Some poolFor \<and> poolFor intent w1 = (Inr (st_pool st), w2))) \<and>
     res_decision (vo_result out) = verdict_of (eo_policies (rc_engine ctx)) intent st \<and>
     member ''decision'' (vo_body out) = Inr (JStr (decision_string (res_decision (vo_result out)))) \<and>
     bindR (member ''enforcement'' (vo_body out)) (member ''unevaluatedPolicies'') =
       Inr (JArr (map (\<lambda>(p, r). JObj [(''policy'', JStr p), (''reason'', JStr r)]) (rc_unevaluated ctx)))"
proof -
  obtain action intent t0 dailySpend balance pool now w1 w2 s3 s4 s5 r where
    steps: "check_agent ctx body = Inr ()" "bindR (member ''action'' body) parseAction = Inr action"
    "both_io (sp_getDailySpend (rc_state ctx) (rp_account (rc_policy ctx)) (utcDay t0))
        (sp_getBalance (rc_state ctx) (rp_account (rc_policy ctx)) (rp_asset (rc_policy ctx))) w1 =
        (Inr (dailySpend, balance), w2)"
    "engine_decode (rc_engine ctx) action None = Inr intent"
    "(case rc_poolFor ctx of None \<Rightarrow> return_io None | Some poolFor \<Rightarrow> outside (poolFor intent)) s3 = (Inr pool, s4)"
    "verify_io (rc_engine ctx) clock action
         \<lparr>st_account = rp_account (rc_policy ctx), st_dayUtc = utcDay t0, st_dailySpend = dailySpend, st_balance = balance,
          st_asset = rp_asset (rc_policy ctx), st_now = now, st_pool = pool\<rparr> s5 = (Inr r, s')"
    and out: "out = \<lparr>vo_body = verify_wire ctx r, vo_result = r\<rparr>"
    using assms unfolding verifyRoute_def Let_def io_inversion by (auto simp: io_inversion split: prod.splits)
  let ?st = "\<lparr>st_account = rp_account (rc_policy ctx), st_dayUtc = utcDay t0, st_dailySpend = dailySpend, st_balance = balance,
          st_asset = rp_asset (rc_policy ctx), st_now = now, st_pool = pool\<rparr>"
  obtain i n where i: "engine_decode (rc_engine ctx) action None = Inr i" "r = fst (evaluate (rc_engine ctx) i ?st n (fst s5))"
    using steps(6) by (rule verify_io_Inr)
  have pool: "pool \<noteq> None \<longrightarrow> (\<exists>poolFor w1 w2. rc_poolFor ctx = Some poolFor \<and> poolFor intent w1 = (Inr pool, w2))"
    using steps(5) by (auto simp: outside_Inr split: option.splits)
  have d: "res_decision r = verdict_of (eo_policies (rc_engine ctx)) intent ?st"
    using i steps(4) by (simp add: evaluate_simps)
  have wire: "member ''decision'' (verify_wire ctx r) = Inr (JStr (decision_string (res_decision r)))"
    "bindR (member ''enforcement'' (verify_wire ctx r)) (member ''unevaluatedPolicies'') =
       Inr (JArr (map (\<lambda>(p, r). JObj [(''policy'', JStr p), (''reason'', JStr r)]) (rc_unevaluated ctx)))"
    by (simp_all add: verify_wire_def member_def)
  from steps(1-4) pool d wire out show ?thesis
    by (intro exI [of _ action] exI [of _ intent] exI [of _ ?st] exI [of _ t0]) auto
qed

lemma patch_amount_Inr:
  assumes "patch_amount key patch old = Inr v"
  shows "(member key patch = Inr JUndefined \<and> v = old) \<or>
    (\<exists>s. member key patch = Inr (JStr s) \<and> s \<noteq> [] \<and> list_all is_digit s \<and> v = Some s)"
proof -
  obtain val where val: "member key patch = Inr val" using assms by (auto simp: patch_amount_def bindR_eq_Inr)
  with assms show ?thesis by (cases val) (auto simp: patch_amount_def split: if_splits)
qed

lemma patch_addresses_Inr:
  assumes "patch_addresses key patch old = Inr v"
  shows "(member key patch = Inr JUndefined \<and> v = old) \<or>
    (\<exists>xs. member key patch = Inr (JArr (map JStr xs)) \<and> list_all is_address xs \<and> v = Some (map toLowerCase xs))"
proof -
  have j: "json_address x = Some y \<Longrightarrow> x = JStr y \<and> is_address y" for x y
    by (auto simp: json_address_def split: json.splits if_splits)
  have k: "is_address y \<Longrightarrow> json_address (JStr y) = Some y" for y by (simp add: json_address_def)
  have "\<exists>xs. vs = map JStr xs \<and> list_all is_address xs \<and> List.map_filter json_address vs = xs"
    if "list_all (\<lambda>v. json_address v \<noteq> None) vs" for vs
    using that by (induction vs) (auto simp: map_filter_simps k dest!: j)
  note filtered = this
  obtain val where val: "member key patch = Inr val" using assms by (auto simp: patch_addresses_def bindR_eq_Inr)
  with assms filtered show ?thesis by (cases val) (fastforce simp: patch_addresses_def split: if_splits)+
qed

lemma patch_limits_Inr:
  assumes "patch_limits patch p = Inr l"
  shows "patch_amount ''maxTransaction'' patch (pl_maxTransaction p) = Inr (pl_maxTransaction l)"
    "patch_amount ''dailySpend'' patch (pl_dailySpend p) = Inr (pl_dailySpend l)"
    "patch_amount ''approvalThreshold'' patch (pl_approvalThreshold p) = Inr (pl_approvalThreshold l)"
    "patch_amount ''minBalance'' patch (pl_minBalance p) = Inr (pl_minBalance l)"
    "patch_addresses ''allowedContracts'' patch (pl_allowedContracts p) = Inr (pl_allowedContracts l)"
    "patch_addresses ''allowedRecipients'' patch (pl_allowedRecipients p) = Inr (pl_allowedRecipients l)"
  using assms unfolding patch_limits_def bindR_eq_Inr by auto

lemma patch_absent:
  "patch_amount key patch old = Inr v \<Longrightarrow> member key patch = Inr JUndefined \<Longrightarrow> v = old"
  "patch_addresses key patch old' = Inr v' \<Longrightarrow> member key patch = Inr JUndefined \<Longrightarrow> v' = old'"
  using patch_amount_Inr [of key patch old v] patch_addresses_Inr [of key patch old' v'] by auto

text \<open>
  (C27) A limit edited through the API obeys the rules of a policy file: an accepted patch yields a resolved
  policy with all the invariants of a policy loaded at start-up and the hash of the new document; it leaves
  the agent, asset, chain, hook and account as they were and every limit it does not mention unchanged; and a
  malformed or incoherent patch is a bad request, never a server fault.
\<close>

theorem policy_edit_sound:
  assumes "is_object body"
  shows "case applyPolicyPatch message ctx body of
      Inl e \<Rightarrow> \<exists>m. e = BadRequest m
    | Inr (document, resolved) \<Rightarrow>
        wf_policy resolved \<and> rp_document resolved = document \<and> rp_hash resolved = policyHash document \<and>
        document = (rp_document (rc_policy ctx))\<lparr>doc_policies := doc_policies document\<rparr> \<and>
        (member ''maxTransaction'' body = Inr JUndefined \<longrightarrow>
           pl_maxTransaction (doc_policies document) = pl_maxTransaction (doc_policies (rp_document (rc_policy ctx)))) \<and>
        (member ''dailySpend'' body = Inr JUndefined \<longrightarrow>
           pl_dailySpend (doc_policies document) = pl_dailySpend (doc_policies (rp_document (rc_policy ctx)))) \<and>
        (member ''approvalThreshold'' body = Inr JUndefined \<longrightarrow>
           pl_approvalThreshold (doc_policies document) = pl_approvalThreshold (doc_policies (rp_document (rc_policy ctx)))) \<and>
        (member ''minBalance'' body = Inr JUndefined \<longrightarrow>
           pl_minBalance (doc_policies document) = pl_minBalance (doc_policies (rp_document (rc_policy ctx)))) \<and>
        (member ''allowedContracts'' body = Inr JUndefined \<longrightarrow>
           pl_allowedContracts (doc_policies document) = pl_allowedContracts (doc_policies (rp_document (rc_policy ctx)))) \<and>
        (member ''allowedRecipients'' body = Inr JUndefined \<longrightarrow>
           pl_allowedRecipients (doc_policies document) = pl_allowedRecipients (doc_policies (rp_document (rc_policy ctx))))"
proof -
  let ?old = "rp_document (rc_policy ctx)"
  have bad: "\<exists>m. e = BadRequest m" if "patch_limits body p = Inl e" for e p
  proof -
    have m: "\<exists>v. member k body = Inr v" for k using assms by (auto simp: member_def is_object_def split: json.splits)
    have "patch_amount k body q = Inl e \<Longrightarrow> \<exists>m. e = BadRequest m" for k q e
      using m [of k] by (auto simp: patch_amount_def split: json.splits if_splits)
    moreover have "patch_addresses k body q = Inl e \<Longrightarrow> \<exists>m. e = BadRequest m" for k q e
      using m [of k] by (auto simp: patch_addresses_def split: json.splits if_splits)
    ultimately show ?thesis
      using that unfolding patch_limits_def bindR_def by (auto split: sum.splits)
  qed
  show ?thesis
  proof (cases "patch_limits body (doc_policies ?old)")
    case (Inl e)
    then show ?thesis using assms bad by (simp add: applyPolicyPatch_def)
  next
    case (Inr limits)
    let ?d = "?old\<lparr>doc_policies := limits\<rparr>"
    have keep: "member ''maxTransaction'' body = Inr JUndefined \<longrightarrow> pl_maxTransaction limits = pl_maxTransaction (doc_policies ?old)"
      "member ''dailySpend'' body = Inr JUndefined \<longrightarrow> pl_dailySpend limits = pl_dailySpend (doc_policies ?old)"
      "member ''approvalThreshold'' body = Inr JUndefined \<longrightarrow> pl_approvalThreshold limits = pl_approvalThreshold (doc_policies ?old)"
      "member ''minBalance'' body = Inr JUndefined \<longrightarrow> pl_minBalance limits = pl_minBalance (doc_policies ?old)"
      "member ''allowedContracts'' body = Inr JUndefined \<longrightarrow> pl_allowedContracts limits = pl_allowedContracts (doc_policies ?old)"
      "member ''allowedRecipients'' body = Inr JUndefined \<longrightarrow> pl_allowedRecipients limits = pl_allowedRecipients (doc_policies ?old)"
      using patch_limits_Inr [OF Inr] by (blast intro: patch_absent)+
    show ?thesis
    proof (cases "resolvePolicy ?d")
      case (Inl e)
      then show ?thesis using assms Inr by (simp add: applyPolicyPatch_def)
    next
      case (Inr r)
      note resolved = resolvePolicy_fields [OF Inr]
      have "applyPolicyPatch message ctx body = Inr (?d, r)"
        using assms \<open>patch_limits body (doc_policies ?old) = Inr limits\<close> Inr by (simp add: applyPolicyPatch_def)
      with resolved keep show ?thesis by simp
    qed
  qed
qed

lemma fold_write:
  "es_recent (fold (\<lambda>c. stream_write c e) cs s) = es_recent s"
  "es_clients (fold (\<lambda>c. stream_write c e) cs s) = es_clients s"
  "es_backlog (fold (\<lambda>c. stream_write c e) cs s) = es_backlog s"
  "distinct cs \<Longrightarrow> es_written (fold (\<lambda>c. stream_write c e) cs s) c = es_written s c @ (if c \<in> set cs then [e] else [])"
  by (induction cs arbitrary: s) (auto simp: stream_write_def)

lemma fold_replay:
  "es_recent (fold (stream_write c) es s) = es_recent s" "es_clients (fold (stream_write c) es s) = es_clients s"
  "es_backlog (fold (stream_write c) es s) = es_backlog s"
  "es_written (fold (stream_write c) es s) d = es_written s d @ (if d = c then es else [])"
  by (induction es arbitrary: s) (auto simp: stream_write_def)

datatype stream_event = Published StreamEvent | Subscribed nat | Closed nat

fun stream_step :: "stream_event \<Rightarrow> EventStream \<Rightarrow> EventStream" where
  "stream_step (Published e) s = stream_publish e s"
| "stream_step (Subscribed c) s = subscribe c s"
| "stream_step (Closed c) s = stream_close c s"

definition published_in :: "stream_event list \<Rightarrow> StreamEvent list" where
  "published_in es = List.map_filter (\<lambda>e. case e of Published x \<Rightarrow> Some x | _ \<Rightarrow> None) es"

definition last_n :: "nat \<Rightarrow> 'a list \<Rightarrow> 'a list" where
  "last_n n xs = drop (length xs - n) xs"

lemma last_n_snoc:
  "(let ys = last_n n xs @ [x] in if length ys > n then tl ys else ys) = last_n n (xs @ [x])"
proof (cases "length xs < n")
  case False
  then have l: "length (last_n n xs) = n" by (simp add: last_n_def)
  have "tl (last_n n xs @ [x]) = last_n n (xs @ [x])"
  proof (cases n)
    case (Suc m)
    then have "drop (length xs - n) xs \<noteq> []" "Suc (length xs - n) = length xs - m" using False by auto
    then show ?thesis using Suc by (simp add: last_n_def tl_append2 tl_drop flip: drop_Suc)
  qed (simp add: last_n_def)
  with l show ?thesis by simp
qed (simp add: last_n_def)

lemma stream_inv:
  "es_recent (fold stream_step es (newEventStream b)) = last_n (or_else b 50) (published_in es) \<and>
   es_backlog (fold stream_step es (newEventStream b)) = or_else b 50 \<and>
   distinct (es_clients (fold stream_step es (newEventStream b)))"
proof (induction es rule: rev_induct)
  case Nil
  then show ?case by (simp add: newEventStream_def published_in_def map_filter_simps last_n_def)
next
  case (snoc e es)
  let ?s = "fold stream_step es (newEventStream b)"
  have p: "published_in (es @ [e]) = published_in es @ (case e of Published x \<Rightarrow> [x] | _ \<Rightarrow> [])"
    by (cases e) (simp_all add: published_in_def map_filter_def)
  show ?case
  proof (cases e)
    case (Published x)
    then show ?thesis
      using snoc p last_n_snoc [of "or_else b 50" "published_in es" x]
      by (simp add: stream_publish_def fold_write Let_def)
  qed (use snoc p in \<open>simp_all add: subscribe_def stream_close_def fold_replay Let_def\<close>)
qed

lemma stream_written:
  assumes "s = fold stream_step es (newEventStream b)" and "c \<notin> set (es_clients s)"
    and "\<forall>e \<in> set later. e \<noteq> Closed c \<and> e \<noteq> Subscribed c"
  shows "es_written (fold stream_step later (subscribe c s)) c = es_written s c @ es_recent s @ published_in later"
proof -
  have "c \<in> set (es_clients (fold stream_step later (subscribe c s))) \<and>
      es_written (fold stream_step later (subscribe c s)) c = es_written s c @ es_recent s @ published_in later"
    using assms(3)
  proof (induction later rule: rev_induct)
    case Nil
    then show ?case by (simp add: subscribe_def fold_replay Let_def published_in_def map_filter_simps)
  next
    case (snoc e later)
    let ?t = "fold stream_step later (subscribe c s)"
    have "?t = fold stream_step (es @ [Subscribed c] @ later) (newEventStream b)" using assms(1) by simp
    then have d: "distinct (es_clients ?t)" using stream_inv by metis
    have p: "published_in (later @ [e]) = published_in later @ (case e of Published x \<Rightarrow> [x] | _ \<Rightarrow> [])"
      by (cases e) (simp_all add: published_in_def map_filter_def)
    show ?case
    proof (cases e)
      case (Published x)
      then show ?thesis using snoc p d by (simp add: stream_publish_def fold_write Let_def)
    next
      case (Subscribed k)
      then have "k \<noteq> c" using snoc.prems by auto
      then show ?thesis using Subscribed snoc p by (simp add: subscribe_def fold_replay Let_def)
    next
      case (Closed k)
      then have "k \<noteq> c" using snoc.prems by auto
      then show ?thesis using Closed snoc p by (simp add: stream_close_def)
    qed
  qed
  then show ?thesis ..
qed

text \<open>
  The dashboard's window is bounded and lossless: over any run of publications, connections and
  disconnections the backlog holds exactly the last events published, at most its capacity; a tab that connects
  is sent those, and then every event published while it stays connected, in order and once.
\<close>

theorem stream_delivers:
  assumes "s = fold stream_step es (newEventStream b)" and "c \<notin> set (es_clients s)"
    and "\<forall>e \<in> set later. e \<noteq> Closed c \<and> e \<noteq> Subscribed c"
  shows "es_recent s = last_n (or_else b 50) (published_in es) \<and> length (es_recent s) \<le> or_else b 50 \<and>
     es_written (fold stream_step later (subscribe c s)) c = es_written s c @ es_recent s @ published_in later"
  using stream_written [OF assms] stream_inv [of es b] assms(1) by (simp add: last_n_def)

section \<open>Witnesses\<close>

definition sample_route_context :: "SimulatedAccount RouteContext" where
  "sample_route_context = \<lparr>rc_engine = ap_engine sample_agent, rc_policy = sample_policy, rc_state = account_provider,
     rc_proofs = notRun, rc_unevaluated = [], rc_mode = Simulation, rc_resolvePolicyByName = None,
     rc_readOnchainSpend = None, rc_poolFor = None\<rparr>"

definition sample_body :: "Hex \<Rightarrow> json" where
  "sample_body d = JObj [(''action'', JObj [(''to'', JStr sample_token), (''data'', JStr d)])]"

lemma encodeErc20Transfer_isHex: "encodeErc20Transfer to amount = Inr d \<Longrightarrow> 0 \<le> amount \<Longrightarrow> is_address to \<Longrightarrow> isHex d"
proof -
  assume d: "encodeErc20Transfer to amount = Inr d" "0 \<le> amount" "is_address to"
  have "list_all is_hex_digit ''a9059cbb''" by code_simp
  moreover have "0 \<le> address_value to" by (simp add: address_value_def)
  ultimately show "isHex d" using d by (auto simp: encodeErc20Transfer_def isHex_def abi_word_hex)
qed

lemma sample_verify_allows:
  assumes "encodeErc20Transfer sample_router 60 = Inr d"
  shows "\<exists>out s'. verifyRoute (\<lambda>w. (sa_clockMs w, w)) sample_route_context (sample_body d) (0, sample_sim) = (Inr out, s') \<and>
    res_decision (vo_result out) = ALLOW"
proof -
  let ?opts = "ap_engine sample_agent"
  let ?a = "\<lparr>act_to = sample_token, act_data = d, act_value = 0, act_chainId = 11155111, act_metadata = None\<rparr>"
  have "isHex d" using assms sample_wf by (intro encodeErc20Transfer_isHex [of sample_router 60]) simp_all
  moreover have "toLowerCase sample_token = sample_token" "is_address sample_token"
    using sample_wf by (simp_all add: wf_address_def)
  ultimately have a: "bindR (member ''action'' (sample_body d)) parseAction = Inr ?a"
    by (simp add: sample_body_def member_def parseAction_def is_object_def)
  have "uint256 60" by (simp add: uint256_small)
  moreover have "eo_decoders ?opts = default_registry"
    "normalizeAddress (act_to ?a) = Inr (dc_trackedAsset (eo_decoderContext ?opts))"
    by (simp_all add: sample_agent_def)
  ultimately obtain i where i: "engine_decode ?opts ?a None = Inr i" "in_kind i = TRANSFER"
    "in_counterparty i = Some sample_router" "in_target i = dc_trackedAsset (eo_decoderContext ?opts)" "in_notionalUSDC i = 60"
    using assms engine_decode_transfer [of ?opts sample_router 60 ?a] sample_wf by auto
  have c: "check_agent sample_route_context (sample_body d) = Inr ()"
    by (simp add: check_agent_def sample_body_def member_def)
  have ctx: "rc_engine sample_route_context = ?opts" "rc_state sample_route_context = account_provider"
    "rc_poolFor sample_route_context = None" by (simp_all add: sample_route_context_def)
  let ?st = "\<lparr>st_account = rp_account (rc_policy sample_route_context), st_dayUtc = utcDay (sa_clockMs sample_sim),
     st_dailySpend = sim_spentToday sample_sim, st_balance = sa_balance sample_sim,
     st_asset = rp_asset (rc_policy sample_route_context), st_now = sa_clockMs sample_sim, st_pool = None\<rparr>"
  have spent: "sim_spentToday sample_sim = 0" "sa_balance sample_sim = 1000"
    by (simp_all add: sample_sim_def sim_spentToday_def)
  have "verdict_of (eo_policies ?opts) i ?st = ALLOW"
    using default_policies_verdict [of sample_policy False i ?st] i(2-5) spent
    by (auto simp: sample_agent_def rule_defs sample_policy_def)
  then have "res_decision (fst (evaluate ?opts i ?st n k)) = ALLOW" for n k by (simp add: evaluate_simps)
  moreover have "\<exists>s'. verifyRoute (\<lambda>w. (sa_clockMs w, w)) sample_route_context (sample_body d) (0, sample_sim) =
      (Inr \<lparr>vo_body = verify_wire sample_route_context (fst (evaluate ?opts i ?st (sa_clockMs sample_sim) 0)),
        vo_result = fst (evaluate ?opts i ?st (sa_clockMs sample_sim) 0)\<rparr>, s')"
    using a i(1) c ctx
    by (simp add: verifyRoute_def bind_io_def outside_def read_clock_def both_io_def account_provider_def Let_def verify_io_def
        split_beta)
  ultimately show ?thesis by auto
qed

theorem verify_route_decides_witness:
  "\<exists>d out s' i st. encodeErc20Transfer sample_router 60 = Inr d \<and>
     verifyRoute (\<lambda>w. (sa_clockMs w, w)) sample_route_context (sample_body d) (0, sample_sim) = (Inr out, s') \<and>
     res_decision (vo_result out) = verdict_of (eo_policies (ap_engine sample_agent)) i st"
proof -
  obtain d where d: "encodeErc20Transfer sample_router 60 = Inr d" by (simp add: encodeErc20Transfer_def)
  obtain out s' where out: "verifyRoute (\<lambda>w. (sa_clockMs w, w)) sample_route_context (sample_body d) (0, sample_sim) = (Inr out, s')"
    using sample_verify_allows [OF d] by blast
  have "rc_engine sample_route_context = ap_engine sample_agent" by (simp add: sample_route_context_def)
  moreover obtain i st where "res_decision (vo_result out) = verdict_of (eo_policies (rc_engine sample_route_context)) i st"
    using verify_route_decides [OF out] by blast
  ultimately show ?thesis using d out by auto
qed

theorem policy_edit_sound_witness:
  "\<exists>document resolved. applyPolicyPatch (\<lambda>_. []) sample_route_context (JObj []) = Inr (document, resolved) \<and> wf_policy resolved"
proof -
  have p: "rc_policy sample_route_context = sample_policy" "rp_document sample_policy = sample_document"
    by (simp_all add: sample_route_context_def sample_policy_def)
  have "patch_limits (JObj []) l = Inr l" for l
    by (simp add: patch_limits_def patch_amount_def patch_addresses_def member_def)
  then have "applyPolicyPatch (\<lambda>_. []) sample_route_context (JObj []) = Inr (sample_document, sample_policy)"
    using p sample_policy_resolves by (simp add: applyPolicyPatch_def is_object_def)
  with policy_edit_sound [where body = "JObj []" and message = "\<lambda>_. []" and ctx = sample_route_context] show ?thesis by (simp add: is_object_def)
qed

theorem stream_delivers_witness:
  "es_written (fold stream_step [Published \<lparr>sv_type = decision_event, sv_data = JNum 3\<rparr>] (subscribe 7
     (fold stream_step [Published \<lparr>sv_type = decision_event, sv_data = JNum 1\<rparr>, Published \<lparr>sv_type = decision_event, sv_data = JNum 2\<rparr>]
        (newEventStream (Some 1))))) 7 =
   [\<lparr>sv_type = decision_event, sv_data = JNum 2\<rparr>, \<lparr>sv_type = decision_event, sv_data = JNum 3\<rparr>]"
  using stream_delivers [OF refl, of 7 "[Published \<lparr>sv_type = decision_event, sv_data = JNum 1\<rparr>, Published \<lparr>sv_type = decision_event, sv_data = JNum 2\<rparr>]"
    "Some 1" "[Published \<lparr>sv_type = decision_event, sv_data = JNum 3\<rparr>]"]
  by (simp add: stream_publish_def newEventStream_def published_in_def map_filter_simps last_n_def Let_def)

end
