(* ===== verification/Server.thy ===== *)
theory Server
  imports Routes
begin

text \<open>
  \<^verbatim>\<open>packages/api/src/server.ts\<close>: the engine and context of the API, its sessions, its body reader and the dispatch
  of requests.

  The server's own state is its current context (policy and engine, replaced by an edit), the engine's sequence
  number, the event stream, the pending approvals and the audit queue; the replay guard of the payment gates
  stands beside it. A route is a computation over these and the outside world \<open>'w\<close>. While a request waits for a
  human other handlers run: \<open>wait\<close> is an arbitrary such interlude, ending with the outcome of the promise.
\<close>

section \<open>Options and state\<close>

record 'w Payments =
  py_facilitator :: "'w Facilitator"
  py_verify :: X402Options
  py_decode :: X402Options

record 'w ServerOptions =
  so_mode :: ApiMode
  so_agent :: string
  so_policyPath :: "string option"
  so_state :: "'w StateProvider"
  so_proofs :: ProofRegistry
  so_chain :: "ChainReader option"
  so_identity :: "'w IdentityProvider option"
  so_pools :: "(Address \<Rightarrow> Address \<Rightarrow> ('w, PoolState option) io) option"
  so_minTvlUsd :: "rat option"
  so_x402 :: "'w Payments option"
  so_adminToken :: "string option"
  so_approvalTimeoutMs :: int

text \<open>The platform: clocks, random values, files, JSON text, hashing, and the texts of errors.\<close>

record 'w ServerPlatform =
  pf_now :: "'w \<Rightarrow> int \<times> 'w"
  pf_uuid :: "'w \<Rightarrow> string \<times> 'w"
  pf_salt :: "'w \<Rightarrow> Hex \<times> 'w"
  pf_digest :: "string \<Rightarrow> string"
  pf_parsePayment :: "string \<Rightarrow> json result"
  pf_parseJson :: "string \<Rightarrow> json result"
  pf_readFile :: "string \<Rightarrow> ('w, string) io"
  pf_writeFile :: "string \<Rightarrow> string \<Rightarrow> ('w, unit) io"
  pf_message :: "js_error \<Rightarrow> string"
  pf_shown :: "js_error \<Rightarrow> string"

record 'w Server =
  sv_ctx :: "'w RouteContext"
  sv_seq :: nat
  sv_stream :: EventStream
  sv_approver :: DashboardApprover
  sv_audit :: "HcsAuditTrail option"

type_synonym 'w server_world = "'w Server \<times> 'w"

text \<open>Running a computation on one part of the state.\<close>

definition in_snd :: "('w, 'a) io \<Rightarrow> ('s \<times> 'w, 'a) io" where
  "in_snd m s = (let (r, w) = m (snd s) in (r, (fst s, w)))"

definition with_seq :: "('w agent_world, 'a) io \<Rightarrow> ('w server_world, 'a) io" where
  "with_seq m s = (let (r, (n, w)) = m (sv_seq (fst s), snd s) in (r, ((fst s)\<lparr>sv_seq := n\<rparr>, w)))"

definition update_server :: "('w Server \<Rightarrow> 'w Server) \<Rightarrow> ('w server_world, unit) io" where
  "update_server f s = (Inr (), (f (fst s), snd s))"

definition publish_event :: "StreamType \<Rightarrow> json \<Rightarrow> ('w server_world, unit) io" where
  "publish_event t j = update_server (\<lambda>sv. sv\<lparr>sv_stream := stream_publish \<lparr>sv_type = t, sv_data = j\<rparr> (sv_stream sv)\<rparr>)"

section \<open>Engine and context\<close>

definition can_read :: "'w ServerOptions \<Rightarrow> bool" where
  "can_read opts = (so_chain opts \<noteq> None \<or> so_mode opts = Production)"

definition buildEngine :: "'w ServerOptions \<Rightarrow> ResolvedPolicy \<Rightarrow> PolicyEngineOptions result" where
  "buildEngine opts p =
     bindR createDefaultRegistry (\<lambda>decoders.
       Inr \<lparr>eo_decoders = decoders,
         eo_policies =
           [AllowlistPolicy (rp_allowedContracts p) (rp_allowedRecipients p) False, MaxTransactionPolicy (rp_maxTransaction p)] @
           (if can_read opts then [MinBalancePolicy (rp_minBalance p)] else []) @ [DailySpendPolicy (rp_dailySpend p)] @
           (if so_pools opts \<noteq> None then [PoolLiquidityPolicy (or_else (so_minTvlUsd opts) 50000)] else []) @
           [ApprovalThresholdPolicy (rp_approvalThreshold p)],
         eo_decoderContext = \<lparr>dc_account = rp_account p, dc_trackedAsset = rp_asset p, dc_decimals = rp_decimals p\<rparr>,
         eo_proofs = Some (prf_byPolicy (so_proofs opts))\<rparr>)"

definition server_poolFor ::
  "ResolvedPolicy \<Rightarrow> (Address \<Rightarrow> Address \<Rightarrow> ('w, PoolState option) io) \<Rightarrow> NormalizedIntent \<Rightarrow> ('w, PoolState option option) io" where
  "server_poolFor policy deepest intent =
     (if in_kind intent \<noteq> SWAP then return_io None
      else
        let other = find (\<lambda>flow. toLowerCase (aa_asset flow) \<noteq> toLowerCase (rp_asset policy)) (in_outflow intent);
            pair = (case other of Some flow \<Rightarrow> Some (aa_asset flow) | None \<Rightarrow> in_counterparty intent)
        in case pair of
             None \<Rightarrow> return_io None
           | Some a \<Rightarrow> if a = [] then return_io None
               else catch_io (bind_io (deepest (rp_asset policy) a) (\<lambda>pool. return_io (Some pool))) (\<lambda>_. return_io None))"

definition SERVER_WINDOW_SELECTOR :: string where "SERVER_WINDOW_SELECTOR = ''0xf3dac3da''"

definition server_readOnchainSpend :: "('w \<Rightarrow> int \<times> 'w) \<Rightarrow> ResolvedPolicy \<Rightarrow> ChainReader \<Rightarrow> string \<Rightarrow> ('w, int option) io" where
  "server_readOnchainSpend clock policy chain account =
     catch_io
       (bind_io (lift_io (cr_call chain (rp_hook policy)
           (SERVER_WINDOW_SELECTOR @ padStart 64 (CHR ''0'') (toLowerCase (drop 2 account))))) (\<lambda>raw.
         if length raw < 2 + 128 then return_io None
         else bind_io (lift_io (bigint_hex (js_slice raw 2 66))) (\<lambda>day.
           bind_io (lift_io (bigint_hex (js_slice raw 66 130))) (\<lambda>spent.
           bind_io (read_clock clock) (\<lambda>now. return_io (Some (if day = now div 1000 div 86400 then spent else 0)))))))
       (\<lambda>_. return_io None)"

text \<open>
  \<^verbatim>\<open>Promise.all\<close> of the three lookups: the first may reject, the other two have defaults.
\<close>

definition server_resolvePolicyByName :: "ResolvedPolicy \<Rightarrow> 'w IdentityProvider \<Rightarrow> string \<Rightarrow> ('w, json) io" where
  "server_resolvePolicyByName policy identity name =
     bind_io (both_io (ip_resolvePolicyHash identity name) (both_io
         (catch_io (bind_io (ip_resolveHook identity name) (\<lambda>a. return_io (JStr a))) (\<lambda>_. return_io JNull))
         (catch_io (ip_resolveStatus identity name) (\<lambda>_. return_io ''unknown''))))
       (\<lambda>(publishedHash, hook, status). return_io (JObj
          [(''resolvedVia'', JStr ''ensv2''), (''publishedPolicyHash'', JStr publishedHash),
           (''matchesLocal'', JBool (toLowerCase publishedHash = toLowerCase (rp_hash policy))), (''hook'', hook),
           (''status'', JStr status), (''document'', document_json (rp_document policy))]))"

definition make_context :: "'w ServerPlatform \<Rightarrow> 'w ServerOptions \<Rightarrow> ResolvedPolicy \<Rightarrow> 'w RouteContext result" where
  "make_context pf opts policy =
     bindR (buildEngine opts policy) (\<lambda>engine. Inr
       \<lparr>rc_engine = engine, rc_policy = policy, rc_state = so_state opts, rc_proofs = so_proofs opts,
        rc_unevaluated =
          (if can_read opts then [] else [(''minBalance'', ''simulation mode has no RPC, so the account balance cannot be read'')]) @
          (if so_pools opts \<noteq> None then []
           else [(''poolLiquidity'', ''no UNISWAP_SUBGRAPH_ENDPOINT is configured, so pool depth is unknown'')]),
        rc_mode = (if can_read opts then so_mode opts else Simulation),
        rc_resolvePolicyByName = (case so_chain opts of None \<Rightarrow> None
          | Some _ \<Rightarrow> map_option (server_resolvePolicyByName policy) (so_identity opts)),
        rc_readOnchainSpend = map_option (server_readOnchainSpend (pf_now pf) policy) (so_chain opts),
        rc_poolFor = map_option (server_poolFor policy) (so_pools opts)\<rparr>)"

section \<open>Sessions\<close>

record HttpRequest =
  hq_method :: string
  hq_path :: string
  hq_cookie :: "string option"
  hq_admin :: "string option"
  hq_payment :: "string option"
  hq_chunks :: "byte list list"
  hq_client :: nat

fun find_cookie :: "string \<Rightarrow> string list \<Rightarrow> string option" where
  "find_cookie name [] = None"
| "find_cookie name (part # parts) =
     (case splitOn (CHR ''='') (trim part) of
        key # rest \<Rightarrow> if key = name then Some (join ''='' rest) else find_cookie name parts
      | [] \<Rightarrow> find_cookie name parts)"

definition cookieValue :: "string option \<Rightarrow> string \<Rightarrow> string option" where
  "cookieValue cookie name =
     (case cookie of None \<Rightarrow> None | Some c \<Rightarrow> if c = [] then None else find_cookie name (splitOn (CHR '';'') c))"

definition session_cookie :: "string \<Rightarrow> string" where
  "session_cookie fingerprint = base64_string True (''v1:'' @ fingerprint)"

definition sessionValue :: "(string \<Rightarrow> string) \<Rightarrow> string \<Rightarrow> string" where
  "sessionValue digest token = session_cookie (or_else (tokenFingerprint digest (Some token)) ''undefined'')"

definition hasDashboardSession :: "(string \<Rightarrow> string) \<Rightarrow> string option \<Rightarrow> HttpRequest \<Rightarrow> bool" where
  "hasDashboardSession digest token req =
     (case token of
        None \<Rightarrow> True
      | Some t \<Rightarrow> t = [] \<or> cookieValue (hq_cookie req) ''agentproof_session'' = Some (sessionValue digest t))"

definition isInternalPublisher :: "string option \<Rightarrow> HttpRequest \<Rightarrow> bool" where
  "isInternalPublisher token req = (case token of None \<Rightarrow> True | Some t \<Rightarrow> t = [] \<or> hq_admin req = Some t)"

definition session_required :: HttpReply where
  "session_required = respondJson [] 401 (JObj [(''error'', JStr ''dashboard session required'')])"

definition publisher_required :: HttpReply where
  "publisher_required = respondJson [] 401 (JObj [(''error'', JStr ''internal publisher token required'')])"

definition setDashboardCookie :: "(string \<Rightarrow> string) \<Rightarrow> string \<Rightarrow> string \<times> string" where
  "setDashboardCookie digest token =
     (''Set-Cookie'', ''agentproof_session='' @ sessionValue digest token @ ''; HttpOnly; SameSite=Strict; Path=/; Max-Age=43200'')"

section \<open>Bodies\<close>

definition BODY_LIMIT :: nat where "BODY_LIMIT = 256 * 1024"

fun read_chunks :: "nat \<Rightarrow> byte list list \<Rightarrow> byte list result" where
  "read_chunks sofar [] = Inr []"
| "read_chunks sofar (c # cs) =
     (if sofar + length c > BODY_LIMIT then Inl (ErrorMessage ''Request body exceeds 256 KB'')
      else bindR (read_chunks (sofar + length c) cs) (\<lambda>rest. Inr (c @ rest)))"

definition readJson :: "(string \<Rightarrow> json result) \<Rightarrow> byte list list \<Rightarrow> json result" where
  "readJson parse chunks =
     bindR (read_chunks 0 chunks) (\<lambda>bytes.
       if bytes = [] then Inr (JObj [])
       else case parse (utf8_decode bytes) of
           Inr j \<Rightarrow> Inr j
         | Inl _ \<Rightarrow> Inl (ErrorMessage ''Request body is not valid JSON''))"

section \<open>Routes\<close>

text \<open>\<^verbatim>\<open>JSON.stringify(j, null, 2)\<close> at an indentation.\<close>

function pretty_json :: "nat \<Rightarrow> json \<Rightarrow> string" where
  "pretty_json n (JArr vs) =
     (if vs = [] then ''[]''
      else ''['' @ [CHR 0x0A] @ join ('','' @ [CHR 0x0A]) (map (\<lambda>v. replicate (n + 2) (CHR '' '') @ pretty_json (n + 2) v) vs) @
        [CHR 0x0A] @ replicate n (CHR '' '') @ '']'')"
| "pretty_json n (JObj es) =
     (if es = [] then ''{}''
      else ''{'' @ [CHR 0x0A] @ join ('','' @ [CHR 0x0A])
          (map (\<lambda>(k, v). replicate (n + 2) (CHR '' '') @ stringify_string k @ '': '' @ pretty_json (n + 2) v) es) @
        [CHR 0x0A] @ replicate n (CHR '' '') @ ''}'')"
| "pretty_json n JUndefined = ''null''"
| "pretty_json n JNull = ''null''"
| "pretty_json n (JBool b) = (if b then ''true'' else ''false'')"
| "pretty_json n (JNum k) = bigint_to_string k"
| "pretty_json n (JStr s) = stringify_string s"
  by pat_completeness auto

termination
  by (relation "measure (size \<circ> snd)") (auto intro!: size_json_elem less_Suc_eq_le [THEN iffD2] size_list_estimation')

definition corsHeaders :: "(string \<times> string) list" where
  "corsHeaders =
     [(''Access-Control-Allow-Origin'', ''*''), (''Access-Control-Allow-Methods'', ''GET, POST, OPTIONS''),
      (''Access-Control-Allow-Headers'', ''Content-Type, X-PAYMENT, X-AgentProof-Admin''),
      (''Access-Control-Expose-Headers'', ''X-PAYMENT-RESPONSE'')]"

definition health_body :: "'w ServerPlatform \<Rightarrow> 'w ServerOptions \<Rightarrow> 'w Server \<Rightarrow> HttpRequest \<Rightarrow> json" where
  "health_body pf opts sv req =
     (let policy = rc_policy (sv_ctx sv) in JObj
       [(''ok'', JBool True), (''mode'', JStr (mode_string (so_mode opts))), (''policyHash'', JStr (rp_hash policy)),
        (''agent'', JStr (so_agent opts)), (''account'', JStr (rp_account policy)), (''hook'', JStr (rp_hook policy)),
        (''proofs'', JArr (map (\<lambda>p. JObj [(''property'', JStr (property_string (pf_property p))),
           (''status'', JStr (status_string (pf_status p)))]) (all_proofs (so_proofs opts)))),
        (''x402'', JBool (case so_x402 opts of None \<Rightarrow> False | Some p \<Rightarrow> xo_enabled (py_verify p))),
        (''dashboardAuth'', JBool (has_token (so_adminToken opts))),
        (''dashboardSession'', JBool (hasDashboardSession (pf_digest pf) (so_adminToken opts) req)),
        (''adminTokenFingerprint'', opt_json (tokenFingerprint (pf_digest pf) (so_adminToken opts)))])"

definition file_route :: "'w ServerPlatform \<Rightarrow> string \<Rightarrow> string \<Rightarrow> ('w server_world, HttpReply) io" where
  "file_route pf path contentType =
     bind_io (in_snd (pf_readFile pf path)) (\<lambda>text.
       return_io \<lparr>hr_status = 200, hr_headers = [(''Content-Type'', contentType)], hr_body = JStr text\<rparr>)"

definition login_route :: "'w ServerPlatform \<Rightarrow> 'w ServerOptions \<Rightarrow> HttpRequest \<Rightarrow> HttpReply result" where
  "login_route pf opts req =
     bindR (readJson (pf_parseJson pf) (hq_chunks req)) (\<lambda>body.
       if \<not> has_token (so_adminToken opts) then
         Inr (respondJson [] 503 (JObj [(''error'', JStr ''dashboard auth is not configured'')]))
       else bindR (member ''token'' body) (\<lambda>given.
         case so_adminToken opts of
           Some token \<Rightarrow>
             if given \<noteq> JStr token then Inr (respondJson [] 401 (JObj [(''error'', JStr ''invalid dashboard token'')]))
             else Inr (respondJson [setDashboardCookie (pf_digest pf) token] 200 (JObj [(''ok'', JBool True)]))
         | None \<Rightarrow> Inr (respondJson [] 503 (JObj [(''error'', JStr ''dashboard auth is not configured'')]))))"

subsection \<open>The paid routes\<close>

definition action_json :: "Action \<Rightarrow> json" where
  "action_json a = JObj
     [(''to'', JStr (act_to a)), (''data'', JStr (act_data a)), (''value'', JStr (bigint_to_string (act_value a))),
      (''chainId'', JNum (act_chainId a)),
      (''metadata'', case act_metadata a of None \<Rightarrow> JUndefined | Some m \<Rightarrow> JObj (map (\<lambda>(k, v). (k, JStr v)) m))]"

definition intent_json :: "NormalizedIntent \<Rightarrow> json" where
  "intent_json i = JObj
     [(''kind'', JStr (kind_string (in_kind i))), (''target'', JStr (in_target i)), (''selector'', JStr (in_selector i)),
      (''nativeValue'', JStr (bigint_to_string (in_nativeValue i))),
      (''outflow'', JArr (map (\<lambda>flow. JObj [(''asset'', JStr (aa_asset flow)), (''amount'', JStr (bigint_to_string (aa_amount flow))),
         (''provenance'', JStr (provenance_string (aa_provenance flow)))]) (in_outflow i))),
      (''counterparty'', opt_json (in_counterparty i)), (''notionalUSDC'', JStr (bigint_to_string (in_notionalUSDC i))),
      (''summary'', JStr (in_summary i)), (''raw'', action_json (in_raw i))]"

definition approval_json :: "ApprovalRequest \<Rightarrow> json" where
  "approval_json r = JObj [(''id'', JStr (ar_id r)), (''reason'', JStr (ar_reason r)), (''intent'', intent_json (ar_intent r)),
     (''expiresAt'', JNum (ar_expiresAt r))]"

definition resolved_body :: "json \<Rightarrow> ApprovalOutcome \<Rightarrow> json" where
  "resolved_body body approval = JObj (assign (json_members body)
     [(''approval'', JObj [(''requested'', JBool True), (''approved'', JBool (ao_approved approval)), (''by'', JStr (ao_by approval))]),
      (''decision'', JStr (if ao_approved approval then ''ALLOW'' else ''BLOCK'')),
      (''reason'', JStr (if ao_approved approval then ''approved by '' @ ao_by approval
         else if ends_with '':timeout'' (ao_by approval) then ''nobody approved it in time - silence is not consent''
         else ''declined by '' @ ao_by approval))])"

text \<open>The dash of the message, U+2014, is written as a hyphen. Opening an approval: the promise's number. The approver announces the request on the stream.\<close>

definition open_approval :: "ApprovalRequest \<Rightarrow> ('w server_world, nat) io" where
  "open_approval r s =
     (let (k, d) = dashboard_request r (sv_approver (fst s)) in
      (Inr k, ((fst s)\<lparr>sv_approver := d,
         sv_stream := stream_publish \<lparr>sv_type = approval_event, sv_data = approval_json r\<rparr> (sv_stream (fst s))\<rparr>, snd s)))"

definition draw_uuid :: "'w ServerPlatform \<Rightarrow> ('w, string) io" where
  "draw_uuid pf w = (let (u, w') = pf_uuid pf w in (Inr u, w'))"

definition current_threshold :: "('w server_world, int) io" where
  "current_threshold s = (Inr (rp_approvalThreshold (rc_policy (sv_ctx (fst s)))), s)"

definition escalate ::
  "'w ServerPlatform \<Rightarrow> 'w ServerOptions \<Rightarrow> (nat \<Rightarrow> ('w server_world, ApprovalOutcome) io) \<Rightarrow> VerifyOutcome \<Rightarrow> ('w server_world, json) io" where
  "escalate pf opts wait outcome =
     bind_io (in_snd (draw_uuid pf)) (\<lambda>uuid.
     bind_io current_threshold (\<lambda>threshold.
     bind_io (in_snd (read_clock (pf_now pf))) (\<lambda>now.
     bind_io (open_approval \<lparr>ar_id = uuid, ar_intent = res_intent (vo_result outcome),
         ar_reason = res_reason (vo_result outcome), ar_threshold = threshold,
         ar_expiresAt = now + so_approvalTimeoutMs opts\<rparr>) (\<lambda>k.
     bind_io (wait k) (\<lambda>approval.
     bind_io (publish_event decision_event (resolved_body (vo_body outcome) approval)) (\<lambda>_.
       return_io (resolved_body (vo_body outcome) approval)))))))"

text \<open>
  The work of \<^verbatim>\<open>/v1/verify\<close>, beside the variable \<^verbatim>\<open>evaluated\<close> it assigns.
\<close>

definition run_verify :: "'w ServerPlatform \<Rightarrow> json \<Rightarrow> ('w server_world, VerifyOutcome) io" where
  "run_verify pf body s = with_seq (verifyRoute (pf_now pf) (sv_ctx (fst s)) body) s"

definition verify_work ::
  "'w ServerPlatform \<Rightarrow> 'w ServerOptions \<Rightarrow> (nat \<Rightarrow> ('w server_world, ApprovalOutcome) io) \<Rightarrow> json \<Rightarrow>
   (PolicyResult option \<times> 'w server_world, json) io" where
  "verify_work pf opts wait body =
     bind_io (in_snd (run_verify pf body)) (\<lambda>outcome.
     bind_io (in_snd (publish_event decision_event (vo_body outcome))) (\<lambda>_.
     bind_io (modify_io (\<lambda>t. (Some (vo_result outcome), snd t))) (\<lambda>_.
       if res_decision (vo_result outcome) = REQUIRE_APPROVAL then in_snd (escalate pf opts wait outcome)
       else return_io (vo_body outcome))))"

definition publishAudit :: "'w ServerPlatform \<Rightarrow> (PolicyResult option \<times> 'w server_world, unit) io" where
  "publishAudit pf = (\<lambda>(evaluated, (sv, w)).
     case (sv_audit sv, evaluated) of
       (Some audit, Some result) \<Rightarrow>
         let (salt, w') = pf_salt pf w; policy = rc_policy (sv_ctx sv) in
         (Inr (), (evaluated, (sv\<lparr>sv_audit := Some (hcs_record
            (toPublicAuditRecord result (rp_account policy) (rp_hash policy) salt) audit)\<rparr>, w')))
     | _ \<Rightarrow> (Inr (), (evaluated, (sv, w))))"

definition lift_facilitator :: "'w Facilitator \<Rightarrow> ('s \<times> 'w) Facilitator" where
  "lift_facilitator f = \<lparr>fc_verify = (\<lambda>h r. in_snd (fc_verify f h r)), fc_settle = (\<lambda>h r. in_snd (fc_settle f h r))\<rparr>"

text \<open>
  A priced route: through the gate when payments are configured. An enabled gate draws
  its nonce and reads the clock of the replay guard first.
\<close>

definition priced ::
  "'w ServerPlatform \<Rightarrow> ('w Facilitator \<times> X402Options) option \<Rightarrow> string \<Rightarrow> HttpRequest \<Rightarrow>
   (PolicyResult option \<times> 'w server_world, json) io \<Rightarrow> (PolicyResult option \<times> 'w server_world, unit) io \<Rightarrow>
   (ReplayGuard \<times> 'w server_world, HttpReply) io" where
  "priced pf payments resource req work audit = (\<lambda>(g, sv, w).
     case payments of
       None \<Rightarrow>
         (case bind_io work (\<lambda>wire. bind_io audit (\<lambda>_. return_io (respondJson [] 200 wire))) (None, (sv, w)) of
            (r, (_, t)) \<Rightarrow> (r, (g, t)))
     | Some (facilitator, options) \<Rightarrow>
         let (nonce, w1) = (if xo_enabled options then pf_uuid pf w else ([], w));
             (now, w2) = (if xo_enabled options then pf_now pf w1 else (0, w1)) in
         (case gate (pf_digest pf) (pf_parsePayment pf) (pf_message pf) options (lift_facilitator (lift_facilitator facilitator))
             nonce resource (hq_payment req) now work (\<lambda>_ _. audit) (g, (None, (sv, w2))) of
            (r, (g', (_, t))) \<Rightarrow> (r, (g', t))))"

definition verify_route ::
  "'w ServerPlatform \<Rightarrow> 'w ServerOptions \<Rightarrow> (nat \<Rightarrow> ('w server_world, ApprovalOutcome) io) \<Rightarrow> HttpRequest \<Rightarrow>
   (ReplayGuard \<times> 'w server_world, HttpReply) io" where
  "verify_route pf opts wait req =
     bind_io (lift_io (readJson (pf_parseJson pf) (hq_chunks req))) (\<lambda>body.
       priced pf (map_option (\<lambda>p. (py_facilitator p, py_verify p)) (so_x402 opts)) ''/v1/verify'' req
         (verify_work pf opts wait body) (publishAudit pf))"

definition decode_route :: "'w ServerPlatform \<Rightarrow> 'w ServerOptions \<Rightarrow> HttpRequest \<Rightarrow> (ReplayGuard \<times> 'w server_world, HttpReply) io" where
  "decode_route pf opts req =
     bind_io (lift_io (readJson (pf_parseJson pf) (hq_chunks req))) (\<lambda>body.
       priced pf (map_option (\<lambda>p. (py_facilitator p, py_decode p)) (so_x402 opts)) ''/v1/decode'' req
         (in_snd (\<lambda>t. (decodeRoute (sv_ctx (fst t)) body, t))) (return_io ()))"

subsection \<open>The dashboard's routes\<close>

definition approve_route :: "'w ServerPlatform \<Rightarrow> 'w ServerOptions \<Rightarrow> HttpRequest \<Rightarrow> ('w server_world, HttpReply) io" where
  "approve_route pf opts req =
     (if \<not> hasDashboardSession (pf_digest pf) (so_adminToken opts) req then return_io session_required
      else
        bind_io (lift_io (readJson (pf_parseJson pf) (hq_chunks req))) (\<lambda>body.
        bind_io (lift_io (member ''id'' body)) (\<lambda>rid.
        bind_io (lift_io (member ''approved'' body)) (\<lambda>approved.
          case rid of
            JStr i \<Rightarrow> (\<lambda>(sv, w).
              let (settled, d) = dashboard_resolve i
                    \<lparr>ao_approved = (approved = JBool True), ao_signature = None, ao_by = ''dashboard:owner''\<rparr> (sv_approver sv) in
              (Inr (respondJson [] (if settled then 200 else 404) (JObj [(''settled'', JBool settled),
                 (''error'', if settled then JUndefined else JStr ''no pending approval with that id'')])),
               (sv\<lparr>sv_approver := d\<rparr>, w)))
          | _ \<Rightarrow> return_io (respondJson [] 400 (JObj [(''error'', JStr ''id is required'')]))))))"

definition stream_type :: "json \<Rightarrow> StreamType" where
  "stream_type t =
     (if t = JStr ''thought'' then thought_event else if t = JStr ''approval'' then approval_event
      else if t = JStr ''identity'' then identity_event else decision_event)"

definition publish_route :: "'w ServerPlatform \<Rightarrow> HttpRequest \<Rightarrow> ('w server_world, HttpReply) io" where
  "publish_route pf req =
     bind_io (lift_io (readJson (pf_parseJson pf) (hq_chunks req))) (\<lambda>body.
     bind_io (lift_io (member ''type'' body)) (\<lambda>t.
     bind_io (lift_io (member ''data'' body)) (\<lambda>d.
     bind_io (publish_event (stream_type t) d) (\<lambda>_ s.
       (Inr (respondJson [] 202 (JObj [(''published'', JBool True),
          (''clients'', JNum (int (clientCount (sv_stream (fst s)))))])), s)))))"

definition stream_route :: "'w ServerPlatform \<Rightarrow> 'w ServerOptions \<Rightarrow> HttpRequest \<Rightarrow> ('w server_world, HttpReply) io" where
  "stream_route pf opts req =
     (if \<not> hasDashboardSession (pf_digest pf) (so_adminToken opts) req then return_io session_required
      else bind_io (update_server (\<lambda>sv. sv\<lparr>sv_stream := subscribe (hq_client req) (sv_stream sv)\<rparr>)) (\<lambda>_.
        return_io \<lparr>hr_status = 200, hr_headers = [(''Content-Type'', ''text/event-stream''), (''Cache-Control'', ''no-store''),
          (''Connection'', ''keep-alive''), (''Access-Control-Allow-Origin'', ''*'')], hr_body = JUndefined\<rparr>))"

text \<open>
  The edit is validated, then written to disk, then put in force with a fresh engine; a write that fails
  leaves the old policy in force.
\<close>

definition ens_summary :: "json \<Rightarrow> json" where
  "ens_summary j = JObj (map (\<lambda>k. (k, or_else (map_of (json_members j) k) JUndefined))
     [''resolvedVia'', ''matchesLocal'', ''publishedPolicyHash''])"

definition put_policy_route :: "'w ServerPlatform \<Rightarrow> 'w ServerOptions \<Rightarrow> HttpRequest \<Rightarrow> ('w server_world, HttpReply) io" where
  "put_policy_route pf opts req =
     (if \<not> hasDashboardSession (pf_digest pf) (so_adminToken opts) req then return_io session_required
      else
        bind_io (lift_io (readJson (pf_parseJson pf) (hq_chunks req))) (\<lambda>body.
        bind_io (\<lambda>t. (applyPolicyPatch (pf_message pf) (sv_ctx (fst t)) body, t)) (\<lambda>(document, resolved).
        bind_io (case so_policyPath opts of
            Some path \<Rightarrow> if path = [] then return_io False
              else bind_io (in_snd (pf_writeFile pf path (pretty_json 0 (strip_json (document_json document)) @ [CHR 0x0A])))
                (\<lambda>_. return_io True)
          | None \<Rightarrow> return_io False) (\<lambda>persisted.
        bind_io (lift_io (make_context pf opts resolved)) (\<lambda>ctx.
        bind_io (update_server (\<lambda>sv. sv\<lparr>sv_ctx := ctx, sv_seq := 0\<rparr>)) (\<lambda>_.
        bind_io (case rc_resolvePolicyByName ctx of
            Some resolve \<Rightarrow> catch_io (in_snd (resolve (doc_agent document))) (\<lambda>_. return_io JNull)
          | None \<Rightarrow> return_io JNull) (\<lambda>ens.
          return_io (respondJson [] 200 (JObj
            [(''ok'', JBool True), (''policyHash'', JStr (rp_hash resolved)), (''policy'', limits_json (doc_policies document)),
             (''persisted'', JBool persisted), (''policyPath'', case so_policyPath opts of None \<Rightarrow> JNull | Some p \<Rightarrow> JStr p),
             (''ens'', if ens = JNull then JNull else ens_summary ens)])))))))))"

subsection \<open>Dispatch\<close>

fun pct_decode :: "string \<Rightarrow> byte list result" where
  "pct_decode [] = Inr []"
| "pct_decode (c # s) =
     (if c = CHR ''%'' then
        (case s of
           a # b # r \<Rightarrow> if is_hex_digit a \<and> is_hex_digit b then
               bindR (pct_decode r) (\<lambda>rest. Inr (of_nat (of_hex [a, b]) # rest))
             else Inl (ErrorMessage ''URI malformed'')
         | _ \<Rightarrow> Inl (ErrorMessage ''URI malformed''))
      else bindR (pct_decode s) (\<lambda>rest. Inr (utf8_char c @ rest)))"

definition decodeURIComponent :: "string \<Rightarrow> string result" where
  "decodeURIComponent s = bindR (pct_decode s) (\<lambda>bs. Inr (utf8_decode bs))"

definition after_prefix :: "string \<Rightarrow> string \<Rightarrow> string option" where
  "after_prefix p s = (if take (length p) s = p \<and> length p < length s then Some (drop (length p) s) else None)"

definition policy_match :: "string \<Rightarrow> string option" where
  "policy_match path = after_prefix ''/v1/policy/'' path"

definition spend_match :: "string \<Rightarrow> string option" where
  "spend_match path = (case after_prefix ''/v1/spend/'' path of Some a \<Rightarrow> if is_address a then Some a else None | None \<Rightarrow> None)"

definition get_policy_route :: "string \<Rightarrow> ('w server_world, HttpReply) io" where
  "get_policy_route encoded =
     bind_io (lift_io (decodeURIComponent encoded)) (\<lambda>name s.
       in_snd (bind_io (policyRoute (sv_ctx (fst s)) name) (\<lambda>j. return_io (respondJson [] 200 j))) s)"

definition get_spend_route :: "'w ServerPlatform \<Rightarrow> string \<Rightarrow> ('w server_world, HttpReply) io" where
  "get_spend_route pf account s =
     in_snd (bind_io (spendRoute (pf_now pf) (sv_ctx (fst s)) account) (\<lambda>j. return_io (respondJson [] 200 j))) s"

definition route ::
  "'w ServerPlatform \<Rightarrow> 'w ServerOptions \<Rightarrow> (nat \<Rightarrow> ('w server_world, ApprovalOutcome) io) \<Rightarrow> HttpRequest \<Rightarrow>
   (ReplayGuard \<times> 'w server_world, HttpReply) io" where
  "route pf opts wait req =
     (let path = hq_path req; method = hq_method req in
      if method = ''OPTIONS'' then return_io \<lparr>hr_status = 204, hr_headers = corsHeaders, hr_body = JUndefined\<rparr>
      else if path = ''/health'' then (\<lambda>s. (Inr (respondJson [] 200 (health_body pf opts (fst (snd s)) req)), s))
      else if path = ''/'' \<or> path = ''/dashboard'' then in_snd (file_route pf ''../public/dashboard.html'' ''text/html; charset=utf-8'')
      else if path = ''/openapi.yaml'' then in_snd (file_route pf ''../public/openapi.yaml'' ''text/yaml; charset=utf-8'')
      else if path = ''/v1/dashboard/login'' \<and> method = ''POST'' then lift_io (login_route pf opts req)
      else if path = ''/v1/verify'' \<and> method = ''POST'' then verify_route pf opts wait req
      else if path = ''/v1/decode'' \<and> method = ''POST'' then decode_route pf opts req
      else case (if method = ''GET'' then policy_match path else None) of
          Some name \<Rightarrow> in_snd (get_policy_route name)
        | None \<Rightarrow>
      (case (if method = ''GET'' then spend_match path else None) of
          Some account \<Rightarrow> in_snd (get_spend_route pf account)
        | None \<Rightarrow>
      if path = ''/v1/stream'' \<and> method = ''GET'' then in_snd (stream_route pf opts req)
      else if path = ''/v1/approve'' \<and> method = ''POST'' then in_snd (approve_route pf opts req)
      else if path = ''/v1/internal/publish'' \<and> method = ''POST'' then
        (if isInternalPublisher (so_adminToken opts) req then in_snd (publish_route pf req) else return_io publisher_required)
      else if path = ''/v1/publish'' \<and> method = ''POST'' then in_snd (publish_route pf req)
      else if path = ''/v1/proofs'' \<and> method = ''GET'' then
        (\<lambda>s. (Inr (respondJson [] 200 (proofsRoute (sv_ctx (fst (snd s))))), s))
      else if path = ''/v1/policy'' \<and> method = ''PUT'' then in_snd (put_policy_route pf opts req)
      else return_io (respondJson [] 404 (JObj [(''error'', JStr (''No route for '' @ method @ '' '' @ path))]))))"

definition serve ::
  "'w ServerPlatform \<Rightarrow> 'w ServerOptions \<Rightarrow> (nat \<Rightarrow> ('w server_world, ApprovalOutcome) io) \<Rightarrow> HttpRequest \<Rightarrow>
   (ReplayGuard \<times> 'w server_world, HttpReply) io" where
  "serve pf opts wait req =
     catch_io (route pf opts wait req) (\<lambda>e. return_io (respondError (pf_shown pf) (pf_message pf) e))"

section \<open>What a computation leaves alone\<close>

definition keeps :: "('w \<Rightarrow> 'p) \<Rightarrow> ('w, 'a) io \<Rightarrow> bool" where
  "keeps P m \<longleftrightarrow> (\<forall>s r s'. m s = (r, s') \<longrightarrow> P s' = P s)"

named_theorems keeping

lemma keepsI: "(\<And>s r s'. m s = (r, s') \<Longrightarrow> P s' = P s) \<Longrightarrow> keeps P m"
  by (simp add: keeps_def)

lemma keepsD: "keeps P m \<Longrightarrow> m s = (r, s') \<Longrightarrow> P s' = P s"
  by (simp add: keeps_def)

lemma keeps_snd: "keeps P m \<longleftrightarrow> (\<forall>s. P (snd (m s)) = P s)"
  unfolding keeps_def by (metis prod.collapse snd_conv)

lemma keeps_return [keeping]: "keeps P (return_io x)" by (auto intro: keepsI)
lemma keeps_throw [keeping]: "keeps P (throw_io e)" by (auto intro: keepsI)
lemma keeps_lift [keeping]: "keeps P (lift_io r)" by (auto intro: keepsI)

lemma keeps_bind [keeping]:
  assumes "keeps P m" and "\<And>x. keeps P (f x)"
  shows "keeps P (bind_io m f)"
proof (rule keepsI)
  fix s r s' assume b: "bind_io m f s = (r, s')"
  obtain x t where t: "m s = (x, t)" by (cases "m s")
  show "P s' = P s"
    using b t keepsD [OF assms(1) t] by (cases x) (auto simp: bind_io_def dest: keepsD [OF assms(2)])
qed

lemma keeps_catch [keeping]:
  assumes "keeps P m" and "\<And>e. keeps P (h e)"
  shows "keeps P (catch_io m h)"
proof (rule keepsI)
  fix s r s' assume b: "catch_io m h s = (r, s')"
  obtain x t where t: "m s = (x, t)" by (cases "m s")
  show "P s' = P s"
    using b t keepsD [OF assms(1) t] by (cases x) (auto simp: catch_io_def dest: keepsD [OF assms(2)])
qed

lemma keeps_in_snd [keeping]: "keeps P m \<Longrightarrow> keeps (\<lambda>s. P (snd s)) (in_snd m)"
  by (simp add: keeps_snd in_snd_def Let_def split_beta)

lemma keeps_in_snd_fst [keeping]: "keeps (\<lambda>s. P (fst s)) (in_snd m)"
  by (simp add: keeps_snd in_snd_def Let_def split_beta)

lemma keeps_read: "keeps P (\<lambda>s. (f s, s))" by (simp add: keeps_snd)

lemma keeps_state: "(\<And>s. keeps P (m s)) \<Longrightarrow> keeps P (\<lambda>s. m s s)" by (simp add: keeps_snd)

text \<open>The payment gate touches nothing but its guard, beyond what the work, the facilitator and the hook do.\<close>

lemma keeps_gate:
  fixes P :: "'w \<Rightarrow> 'p"
  assumes "keeps P work" and "\<And>x y. keeps P (after x y)" and "\<And>h r. keeps P (fc_verify f h r)" and "\<And>h r. keeps P (fc_settle f h r)"
  shows "keeps (\<lambda>s. P (snd s)) (gate digest parse message options f nonce resource header now work after)"
proof -
  have g: "keeps (\<lambda>s. P (snd s)) (guarded m)" if "keeps P m" for m :: "('w, 'b) io"
    using that by (simp add: keeps_snd guarded_def Let_def split_beta)
  have d: "keeps P (gate_deliver message f after r h out)" for r h out
  proof -
    have "keeps P (bind_io (after out s) (\<lambda>_. return_io (gate_finish out s)))" for s
      using assms(2) by (intro keeping)
    then show ?thesis
      using assms(4) by (simp add: keeps_snd gate_deliver_def Let_def split_beta)
  qed
  have disabled: "keeps (\<lambda>s. P (snd s)) (guarded (bind_io work (\<lambda>outcome. bind_io (after outcome disabled_settlement) (\<lambda>_.
      return_io (respondJson [] 200 outcome)))))"
    using assms(1,2) by (intro g keeping)
  have enabled: "P (snd (snd (gate digest parse message options f nonce resource header now work after s))) = P (snd s)"
    if on: "xo_enabled options" for s
  proof -
    obtain gd w where s: "s = (gd, w)" by fastforce
    note step = keepsD [OF assms(3)] keepsD [OF assms(1)] 
    have deliver: "P (snd (snd (guarded (gate_deliver message f after r h out) (x, u)))) = P u" for r h out x u
      using g [OF d] by (simp add: keeps_snd)
    show ?thesis
      using on unfolding gate_def bind_io_def s
      by (auto split: sum.splits prod.splits option.splits simp: deliver dest!: step)
  qed
  show ?thesis
  proof (cases "xo_enabled options")
    case True
    then show ?thesis using enabled by (simp add: keeps_snd)
  next
    case False
    then have "gate digest parse message options f nonce resource header now work after =
        guarded (bind_io work (\<lambda>outcome. bind_io (after outcome disabled_settlement) (\<lambda>_. return_io (respondJson [] 200 outcome))))"
      by (simp add: gate_def)
    with disabled show ?thesis by simp
  qed
qed

section \<open>Properties\<close>

lemma keeps_priced:
  fixes Q :: "'w Server \<Rightarrow> 'p"
  assumes "keeps (\<lambda>s. Q (fst (snd s))) work" and "keeps (\<lambda>s. Q (fst (snd s))) audit"
  shows "keeps (\<lambda>s. Q (fst (snd s))) (priced pf payments resource req work audit)"
proof (rule keepsI)
  fix s r s' assume p: "priced pf payments resource req work audit s = (r, s')"
  obtain g sv w where s: "s = (g, sv, w)" by (cases s)
  show "Q (fst (snd s')) = Q (fst (snd s))"
  proof (cases payments)
    case None
    have "keeps (\<lambda>s. Q (fst (snd s))) (bind_io work (\<lambda>wire. bind_io audit (\<lambda>_. return_io (respondJson [] 200 wire))))"
      using assms by (intro keeping)
    then show ?thesis
      using p None unfolding s by (auto simp: priced_def split: prod.splits dest: keepsD)
  next
    case (Some fo)
    obtain f options where fo: "payments = Some (f, options)" using Some by (cases fo) auto
    have gate: "keeps (\<lambda>s. Q (fst (snd (snd s)))) (gate (pf_digest pf) (pf_parsePayment pf) (pf_message pf) options
        (lift_facilitator (lift_facilitator f)) nonce resource (hq_payment req) now work (\<lambda>_ _. audit))" for nonce now
      using assms
      by (intro keeps_gate [of "\<lambda>s. Q (fst (snd s))"])
        (simp_all add: lift_facilitator_def keeps_in_snd [OF keeps_in_snd_fst [of Q]])
    show ?thesis
      using p fo unfolding s by (auto simp: priced_def Let_def split: prod.splits dest!: keepsD [OF gate])
  qed
qed

text \<open>What an operator guards: the policy in force with its engine, and the approvals.\<close>

definition guards :: "'w Server \<Rightarrow> 'w RouteContext \<times> DashboardApprover" where
  "guards sv = (sv_ctx sv, sv_approver sv)"

abbreviation keeps_guards :: "('w server_world, 'a) io \<Rightarrow> bool" where
  "keeps_guards m \<equiv> keeps (\<lambda>s. guards (fst s)) m"

lemma guarded_routes:
  "keeps_guards (publish_event t j)" "keeps_guards (publish_route pf req)" "keeps_guards (file_route pf path ct)"
  "keeps_guards (get_policy_route name)" "keeps_guards (get_spend_route pf account)"
proof -
  show p: "keeps_guards (publish_event t j)" for t j
    by (simp add: keeps_snd publish_event_def update_server_def guards_def)
  show "keeps_guards (publish_route pf req)"
    unfolding publish_route_def by (intro keeps_bind keeps_lift p keeps_read)
  show "keeps_guards (file_route pf path ct)" unfolding file_route_def by (intro keeps_bind keeps_in_snd_fst keeps_return)
  show "keeps_guards (get_policy_route name)"
    unfolding get_policy_route_def
    by (intro keeps_bind keeps_lift) (simp add: keeps_snd in_snd_def Let_def split_beta)
  show "keeps_guards (get_spend_route pf account)"
    unfolding keeps_snd get_spend_route_def by (simp add: in_snd_def Let_def split_beta)
qed

lemma unauthenticated_routes:
  assumes "\<not> hasDashboardSession (pf_digest pf) (so_adminToken opts) req"
  shows "keeps_guards (stream_route pf opts req)" "keeps_guards (approve_route pf opts req)"
    "keeps_guards (put_policy_route pf opts req)"
  using assms keeps_return by (simp_all add: stream_route_def approve_route_def put_policy_route_def)

lemma decode_route_keeps: "keeps (\<lambda>s. guards (fst (snd s))) (decode_route pf opts req)"
  unfolding decode_route_def
  by (intro keeps_bind keeps_lift keeps_priced keeps_return keeps_in_snd keeps_read)


lemma b64_char: "k < 64 \<Longrightarrow> b64_chars True ! k \<in> set (b64_chars True)"
  by (intro nth_mem) (simp add: b64_chars_def)

lemma base64_chars: "list_all (\<lambda>b. b < 256) bs \<Longrightarrow> set (base64 True bs) \<subseteq> set (b64_chars True)"
proof (induction True bs rule: base64.induct)
  case (1 a b c bs)
  then have "a div 4 < 64" "(a mod 4) * 16 + b div 16 < 64" "(b mod 16) * 4 + c div 64 < 64" "c mod 64 < 64"
    by (simp_all add: less_mult_imp_div_less) linarith+
  with 1 show ?case by (auto intro: b64_char)
next
  case (2 a b)
  then have "a div 4 < 64" "(a mod 4) * 16 + b div 16 < 64" "(b mod 16) * 4 < 64"
    by (simp_all add: less_mult_imp_div_less) linarith+
  then show ?case by (auto intro: b64_char)
next
  case (3 a)
  then have "a div 4 < 64" "(a mod 4) * 16 < 64" by (simp_all add: less_mult_imp_div_less)
  then show ?case by (auto intro: b64_char)
qed simp

lemma session_cookie_chars: "c \<in> set (session_cookie f) \<Longrightarrow> c \<noteq> CHR '';'' \<and> \<not> is_space c"
proof -
  have "unat b < 256" for b :: byte using unsigned_less [of b] by simp
  then have "list_all (\<lambda>b. b < 256) (map unat (utf8 s))" for s by (auto simp: list_all_iff)
  then have "set (session_cookie f) \<subseteq> set (b64_chars True)"
    unfolding session_cookie_def base64_string_def by (rule base64_chars)
  moreover have "\<forall>c \<in> set (b64_chars True). c \<noteq> CHR '';'' \<and> \<not> is_space c"
    by (simp add: b64_chars_def is_space_def)
  ultimately show "c \<in> set (session_cookie f) \<Longrightarrow> c \<noteq> CHR '';'' \<and> \<not> is_space c" by blast
qed

lemma cookieValue_session:
  "cookieValue (Some (''agentproof_session='' @ session_cookie f)) ''agentproof_session'' = Some (session_cookie f)"
proof -
  let ?c = "''agentproof_session='' @ session_cookie f"
  have "CHR '';'' \<notin> set ?c" using session_cookie_chars by auto
  then have one: "splitOn (CHR '';'') ?c = [?c]" by (rule splitOn_free)
  have "\<forall>c \<in> set ?c. \<not> is_space c" using session_cookie_chars by (auto simp: is_space_def)
  then have t: "trim ?c = ?c" by (rule trim_id)
  have "splitOn (CHR ''='') (''agentproof_session'' @ CHR ''='' # session_cookie f) =
      ''agentproof_session'' # splitOn (CHR ''='') (session_cookie f)"
    by (rule splitOn_once) simp
  then have e: "splitOn (CHR ''='') (trim ?c) = ''agentproof_session'' # splitOn (CHR ''='') (session_cookie f)"
    unfolding t by simp
  have "find_cookie ''agentproof_session'' [?c] = Some (session_cookie f)"
    unfolding find_cookie.simps e by (simp add: join_splitOn)
  with one show ?thesis by (simp add: cookieValue_def)
qed

text \<open>
  (C37) The session can be forged from the public health page. For every admin token, the reply to
  \<^verbatim>\<open>/health\<close>, which needs no session, contains a fingerprint from which anyone can compute, without the token, a
  cookie that every guarded route accepts as the owner's session.
\<close>

theorem session_from_health:
  assumes "so_adminToken opts = Some token" and "token \<noteq> []" and "hq_path probe = ''/health''" and "hq_method probe \<noteq> ''OPTIONS''"
  shows "\<exists>reply fingerprint. serve pf opts wait probe s = (Inr reply, s) \<and> hr_status reply = 200 \<and>
     member ''adminTokenFingerprint'' (hr_body reply) = Inr (JStr fingerprint) \<and>
     hasDashboardSession (pf_digest pf) (so_adminToken opts)
       (req\<lparr>hq_cookie := Some (''agentproof_session='' @ session_cookie fingerprint)\<rparr>)"
proof -
  define f where "f = js_slice (pf_digest pf token) 0 12"
  have fp: "tokenFingerprint (pf_digest pf) (Some token) = Some f"
    using assms(2) by (simp add: tokenFingerprint_def f_def)
  let ?reply = "respondJson [] 200 (health_body pf opts (fst (snd s)) probe)"
  have "serve pf opts wait probe s = (Inr ?reply, s)"
    using assms(3,4) by (simp add: serve_def route_def catch_io_def)
  moreover have "member ''adminTokenFingerprint'' (hr_body ?reply) = Inr (JStr f)"
    using fp assms(1) by (simp add: respondJson_def health_body_def member_def opt_json_def Let_def)
  moreover have "sessionValue (pf_digest pf) token = session_cookie f" using fp by (simp add: sessionValue_def)
  then have "hasDashboardSession (pf_digest pf) (so_adminToken opts)
       (req\<lparr>hq_cookie := Some (''agentproof_session='' @ session_cookie f)\<rparr>)"
    using assms(1) cookieValue_session [of f] by (simp add: hasDashboardSession_def)
  moreover have "hr_status ?reply = 200" by (simp add: respondJson_def)
  ultimately show ?thesis by blast
qed

lemma in_snd_Inr: "in_snd m s = (Inr x, s') \<longleftrightarrow> (\<exists>w. m (snd s) = (Inr x, w) \<and> s' = (fst s, w))"
  by (auto simp: in_snd_def Let_def split: prod.splits)

lemma escalate_Inr:
  "escalate pf opts wait outcome u = (Inr wire, u') \<Longrightarrow>
   \<exists>k v approval v'. wait k v = (Inr approval, v') \<and> wire = resolved_body (vo_body outcome) approval"
  unfolding escalate_def io_inversion by blast

lemma assign_decision:
  "member ''decision'' (resolved_body body a) = Inr (JStr (if ao_approved a then ''ALLOW'' else ''BLOCK''))"
  by (simp add: resolved_body_def assign_def member_def update_conv')

lemma verify_work_outcome:
  assumes "verify_work pf opts wait body s = (Inr wire, s')"
  obtains outcome t' where
    "verifyRoute (pf_now pf) (sv_ctx (fst (snd s))) body (sv_seq (fst (snd s)), snd (snd s)) = (Inr outcome, t')"
    and "if res_decision (vo_result outcome) = REQUIRE_APPROVAL
      then \<exists>k u approval u'. wait k u = (Inr approval, u') \<and> wire = resolved_body (vo_body outcome) approval
      else wire = vo_body outcome"
proof -
  obtain outcome t1 and u2 u3 :: "PolicyResult option \<times> 'a server_world" where v: "in_snd (run_verify pf body) s = (Inr outcome, t1)"
    and rest: "(if res_decision (vo_result outcome) = REQUIRE_APPROVAL then in_snd (escalate pf opts wait outcome)
       else return_io (vo_body outcome)) u2 = (Inr wire, u3)"
    using assms(1) unfolding verify_work_def io_inversion by blast
  obtain t' where "verifyRoute (pf_now pf) (sv_ctx (fst (snd s))) body (sv_seq (fst (snd s)), snd (snd s)) = (Inr outcome, t')"
    using v by (auto simp: in_snd_Inr run_verify_def with_seq_def Let_def split: prod.splits)
  moreover have "if res_decision (vo_result outcome) = REQUIRE_APPROVAL
      then \<exists>k u approval u'. wait k u = (Inr approval, u') \<and> wire = resolved_body (vo_body outcome) approval
      else wire = vo_body outcome"
  proof (cases "res_decision (vo_result outcome) = REQUIRE_APPROVAL")
    case True
    then obtain u' where u': "escalate pf opts wait outcome (snd u2) = (Inr wire, u')" using rest unfolding in_snd_Inr if_P [OF True] by blast
    show ?thesis unfolding if_P [OF True] by (rule escalate_Inr [OF u'])
  next
    case False
    then show ?thesis using rest by (simp add: return_io_Inr)
  qed
  ultimately show thesis by (rule that)
qed

text \<open>
  (C12) The API says ALLOW only for an action the policies allowed, or one they escalated and a human approved:
  a body whose decision is ALLOW comes from an evaluation of this request with the decision ALLOW, or with
  REQUIRE_APPROVAL and an approval whose promise was settled as approved.
\<close>

theorem served_allow_is_decided:
  assumes "verify_work pf opts wait body s = (Inr wire, s')" and "member ''decision'' wire = Inr (JStr ''ALLOW'')"
  shows "\<exists>ctx t outcome t'. ctx = sv_ctx (fst (snd s)) \<and> verifyRoute (pf_now pf) ctx body t = (Inr outcome, t') \<and>
     (res_decision (vo_result outcome) = ALLOW \<or>
      res_decision (vo_result outcome) = REQUIRE_APPROVAL \<and>
        (\<exists>k u approval u'. wait k u = (Inr approval, u') \<and> ao_approved approval))"
proof -
  obtain outcome t' where v: "verifyRoute (pf_now pf) (sv_ctx (fst (snd s))) body (sv_seq (fst (snd s)), snd (snd s)) = (Inr outcome, t')"
    and wire: "if res_decision (vo_result outcome) = REQUIRE_APPROVAL
      then \<exists>k u approval u'. wait k u = (Inr approval, u') \<and> wire = resolved_body (vo_body outcome) approval
      else wire = vo_body outcome"
    by (rule verify_work_outcome [OF assms(1)])
  have d: "member ''decision'' (vo_body outcome) = Inr (JStr (decision_string (res_decision (vo_result outcome))))"
    using verify_route_wire [OF v] .
  show ?thesis
  proof (cases "res_decision (vo_result outcome) = REQUIRE_APPROVAL")
    case True
    with wire obtain k u approval u' where a: "wait k u = (Inr approval, u')" "wire = resolved_body (vo_body outcome) approval"
      unfolding if_P [OF True] by blast
    with assms(2) have "ao_approved approval" by (simp add: assign_decision split: if_splits)
    with v True a(1) show ?thesis by blast
  next
    case False
    then have "decision_string (res_decision (vo_result outcome)) = ''ALLOW''" using wire d assms(2) by simp
    then have "res_decision (vo_result outcome) = ALLOW" by (cases "res_decision (vo_result outcome)") simp_all
    then show ?thesis using v by blast
  qed
qed

lemma read_chunks_total: "read_chunks n cs = Inr bs \<Longrightarrow> bs = concat cs \<and> (cs = [] \<or> n + length bs \<le> BODY_LIMIT)"
proof (induction cs arbitrary: n bs)
  case (Cons c cs)
  then obtain rest where r: "n + length c \<le> BODY_LIMIT" "read_chunks (n + length c) cs = Inr rest" "bs = c @ rest"
    by (auto simp: bindR_eq_Inr split: if_splits)
  with Cons.IH [OF r(2)] show ?case by auto
qed simp

lemma read_chunks_ok: "n + length (concat cs) \<le> BODY_LIMIT \<Longrightarrow> read_chunks n cs = Inr (concat cs)"
  by (induction cs arbitrary: n) auto

text \<open>
  A request body is bounded: the reader accepts a body exactly when it is at most 256 KB in all, however it
  is split into chunks, and what it parses is the chunks' concatenation; an empty body reads as an empty object.
\<close>

theorem body_bounded:
  "(length (concat chunks) \<le> 262144 \<longrightarrow> read_chunks 0 chunks = Inr (concat chunks)) \<and>
   (length (concat chunks) > 262144 \<longrightarrow> readJson parse chunks = Inl (ErrorMessage ''Request body exceeds 256 KB'')) \<and>
   (concat chunks = [] \<longrightarrow> readJson parse chunks = Inr (JObj []))"
proof -
  have limit: "BODY_LIMIT = 262144" by (simp add: BODY_LIMIT_def)
  have "read_chunks n cs = Inl (ErrorMessage ''Request body exceeds 256 KB'') \<or> (\<exists>bs. read_chunks n cs = Inr bs)" for n cs
  proof (induction cs arbitrary: n)
    case (Cons c cs)
    show ?case using Cons.IH [of "n + length c"] by (cases "read_chunks (n + length c) cs") auto
  qed simp
  then have "read_chunks 0 chunks = Inl (ErrorMessage ''Request body exceeds 256 KB'')" if "length (concat chunks) > 262144"
    using that limit read_chunks_total [of 0 chunks] by fastforce
  moreover have "read_chunks 0 chunks = Inr (concat chunks)" if "length (concat chunks) \<le> 262144"
    using that limit by (intro read_chunks_ok) simp
  moreover have "read_chunks 0 chunks = Inr []" if "concat chunks = []"
    using read_chunks_ok [of 0 chunks] unfolding that by simp
  ultimately show ?thesis unfolding readJson_def by (intro conjI impI) simp_all
qed

section \<open>Witnesses\<close>

definition sample_server_platform :: "SimulatedAccount ServerPlatform" where
  "sample_server_platform = \<lparr>pf_now = (\<lambda>w. (sa_clockMs w, w)), pf_uuid = (\<lambda>w. (''u'', w)), pf_salt = (\<lambda>w. (''0x'', w)),
     pf_digest = (\<lambda>s. s), pf_parsePayment = (\<lambda>_. Inr JNull), pf_parseJson = (\<lambda>_. Inr JNull),
     pf_readFile = (\<lambda>_. return_io []), pf_writeFile = (\<lambda>_ _. return_io ()), pf_message = (\<lambda>_. []), pf_shown = (\<lambda>_. [])\<rparr>"

definition sample_server_options :: "SimulatedAccount ServerOptions" where
  "sample_server_options = \<lparr>so_mode = Simulation, so_agent = ''trader.eth'', so_policyPath = None, so_state = account_provider,
     so_proofs = notRun, so_chain = None, so_identity = None, so_pools = None, so_minTvlUsd = None, so_x402 = None,
     so_adminToken = Some ''secret'', so_approvalTimeoutMs = 60000\<rparr>"

definition sample_server :: "SimulatedAccount Server" where
  "sample_server = \<lparr>sv_ctx = sample_route_context, sv_seq = 0, sv_stream = newEventStream None,
     sv_approver = newDashboardApprover, sv_audit = None\<rparr>"

definition sample_http :: "string \<Rightarrow> string \<Rightarrow> HttpRequest" where
  "sample_http method path = \<lparr>hq_method = method, hq_path = path, hq_cookie = None, hq_admin = None, hq_payment = None,
     hq_chunks = [], hq_client = 0\<rparr>"


theorem session_from_health_witness:
  "\<exists>fingerprint. hasDashboardSession (pf_digest sample_server_platform) (so_adminToken sample_server_options)
     (sample_http ''POST'' ''/v1/approve''\<lparr>hq_cookie := Some (''agentproof_session='' @ session_cookie fingerprint)\<rparr>)"
  using session_from_health [of sample_server_options "''secret''" "sample_http ''GET'' ''/health''" sample_server_platform
      "\<lambda>_. throw_io OddHexLength" "(newReplayGuard, (sample_server, sample_sim))" "sample_http ''POST'' ''/v1/approve''"]
  by (auto simp: sample_server_options_def sample_http_def)

theorem served_allow_is_decided_witness:
  "\<exists>d wire s' outcome t t'. encodeErc20Transfer sample_router 60 = Inr d \<and>
     verify_work sample_server_platform sample_server_options (\<lambda>_. throw_io OddHexLength) (sample_body d)
       (None, (sample_server, sample_sim)) = (Inr wire, s') \<and>
     verifyRoute (pf_now sample_server_platform) sample_route_context (sample_body d) t = (Inr outcome, t') \<and>
     res_decision (vo_result outcome) = ALLOW"
proof -
  obtain d where d: "encodeErc20Transfer sample_router 60 = Inr d" by (simp add: encodeErc20Transfer_def)
  have now: "pf_now sample_server_platform = (\<lambda>w. (sa_clockMs w, w))" by (simp add: sample_server_platform_def)
  obtain out n w where out: "verifyRoute (\<lambda>w. (sa_clockMs w, w)) sample_route_context (sample_body d) (0, sample_sim) = (Inr out, (n, w))"
    and allow: "res_decision (vo_result out) = ALLOW"
    using sample_verify_allows [OF d] by auto
  have run: "run_verify sample_server_platform (sample_body d) (sample_server, sample_sim) =
      (Inr out, (sample_server\<lparr>sv_seq := n\<rparr>, w))"
    using out by (simp add: run_verify_def with_seq_def now) (simp add: sample_server_def)
  then obtain s' where v: "verify_work sample_server_platform sample_server_options (\<lambda>_. throw_io OddHexLength) (sample_body d)
       (None, (sample_server, sample_sim)) = (Inr (vo_body out), s')"
    using allow by (simp add: verify_work_def bind_io_def in_snd_def publish_event_def update_server_def)
  have "member ''decision'' (vo_body out) = Inr (JStr ''ALLOW'')" using verify_route_wire [OF out] allow by simp
  from served_allow_is_decided [OF v this] obtain outcome t t' where
    "verifyRoute (pf_now sample_server_platform) (sv_ctx sample_server) (sample_body d) t = (Inr outcome, t')"
    "res_decision (vo_result outcome) = ALLOW" by auto
  moreover have "sv_ctx sample_server = sample_route_context" by (simp add: sample_server_def)
  ultimately show ?thesis using v d by metis
qed

theorem body_bounded_witness: "readJson (\<lambda>_. Inr JNull) [[], []] = Inr (JObj [])"
  using body_bounded [of "[[], []]" "\<lambda>_. Inr JNull"] by simp

end
