(* ===== verification/ConsoleStream.thy ===== *)
theory ConsoleStream
  imports Server
begin

text \<open>
  The dashboard's side of the event stream: \<^verbatim>\<open>apps/console/lib/useStream.ts\<close>. The React hook is a state
  machine: its five \<^verbatim>\<open>useState\<close> cells, the attempt counter, the \<^verbatim>\<open>EventSource\<close> and the pending retry
  timer are one record, its callbacks are functions on that record, and the browser decides only which callback
  runs next. The payload of a frame is read at its declared wire type; a frame whose data is not JSON, or not of
  that type, is one the hook skips.
\<close>

section \<open>The state of the hook\<close>

datatype ConnectionState = connecting | open_connection | unauthorized | closed_connection

datatype Resolution = resolved_approved | resolved_declined | resolved_expired

text \<open>\<^verbatim>\<open>EventSource.readyState\<close>.\<close>

datatype ReadyState = CONNECTING | OPEN | CLOSED

record Thought =
  th_at :: int
  th_text :: string
  th_agent :: "string option"

record ApprovalCard =
  ac_id :: string
  ac_reason :: string
  ac_intent :: json
  ac_expiresAt :: "int option"

record DashboardState =
  ss_connection :: ConnectionState
  ss_decisions :: "json list"
  ss_thoughts :: "Thought list"
  ss_approvals :: "ApprovalCard list"
  ss_resolved :: "string \<rightharpoonup> Resolution"
  ss_attempt :: nat
  ss_source :: "ReadyState option"
  ss_retry :: "nat option"
  ss_cancelled :: bool

definition APPROVAL_TTL_MS :: int where "APPROVAL_TTL_MS = 5 * 60 * 1000"

definition MAX_ITEMS :: nat where "MAX_ITEMS = 50"

definition initial_stream :: DashboardState where
  "initial_stream = \<lparr>ss_connection = closed_connection, ss_decisions = [], ss_thoughts = [], ss_approvals = [],
     ss_resolved = Map.empty, ss_attempt = 0, ss_source = None, ss_retry = None, ss_cancelled = False\<rparr>"

section \<open>Callbacks\<close>

definition markResolved :: "string \<Rightarrow> Resolution \<Rightarrow> DashboardState \<Rightarrow> DashboardState" where
  "markResolved i how s = s\<lparr>ss_resolved := (ss_resolved s)(i \<mapsto> how),
     ss_approvals := filter (\<lambda>request. ac_id request \<noteq> i) (ss_approvals s)\<rparr>"

definition stream_connect :: "DashboardState \<Rightarrow> DashboardState" where
  "stream_connect s =
     (if ss_cancelled s then s else s\<lparr>ss_connection := connecting, ss_source := Some CONNECTING\<rparr>)"

definition enable_stream :: "bool \<Rightarrow> DashboardState \<Rightarrow> DashboardState" where
  "enable_stream enabled s =
     (if \<not> enabled then s\<lparr>ss_connection := closed_connection\<rparr>
      else stream_connect (s\<lparr>ss_source := None, ss_retry := None, ss_cancelled := False\<rparr>))"

definition cleanup_stream :: "DashboardState \<Rightarrow> DashboardState" where
  "cleanup_stream s = s\<lparr>ss_cancelled := True, ss_retry := None, ss_source := map_option (\<lambda>_. CLOSED) (ss_source s)\<rparr>"

definition onopen :: "DashboardState \<Rightarrow> DashboardState" where
  "onopen s = s\<lparr>ss_attempt := 0, ss_connection := open_connection\<rparr>"

definition on_decision :: "json \<Rightarrow> DashboardState \<Rightarrow> DashboardState" where
  "on_decision verdict s = s\<lparr>ss_decisions := take MAX_ITEMS (verdict # ss_decisions s)\<rparr>"

datatype ThoughtPayload = thought_text string | thought_record Thought

definition on_thought :: "int \<Rightarrow> ThoughtPayload \<Rightarrow> DashboardState \<Rightarrow> DashboardState" where
  "on_thought now payload s =
     (let thought = (case payload of thought_text t \<Rightarrow> \<lparr>th_at = now, th_text = t, th_agent = None\<rparr> | thought_record t \<Rightarrow> t)
      in s\<lparr>ss_thoughts := take MAX_ITEMS (thought # ss_thoughts s)\<rparr>)"

definition on_approval :: "int \<Rightarrow> ApprovalCard \<Rightarrow> DashboardState \<Rightarrow> DashboardState" where
  "on_approval now request s = s\<lparr>ss_approvals :=
     request\<lparr>ac_expiresAt := Some (case ac_expiresAt request of Some t \<Rightarrow> t | None \<Rightarrow> now + APPROVAL_TTL_MS)\<rparr> #
     filter (\<lambda>existing. ac_id existing \<noteq> ac_id request) (ss_approvals s)\<rparr>"

definition connectionNeverOpened :: "DashboardState \<Rightarrow> bool" where
  "connectionNeverOpened s \<longleftrightarrow> ss_source s = Some CLOSED \<and> ss_attempt s = 0"

definition stream_onerror :: "DashboardState \<Rightarrow> DashboardState" where
  "stream_onerror s0 =
     (let s = s0\<lparr>ss_source := map_option (\<lambda>_. CLOSED) (ss_source s0)\<rparr> in
      if ss_cancelled s then s
      else if ss_attempt s = 0 \<and> connectionNeverOpened s then s\<lparr>ss_connection := unauthorized\<rparr>
      else let attempt = ss_attempt s + 1
           in s\<lparr>ss_attempt := attempt, ss_connection := closed_connection, ss_retry := Some (min (1000 * 2 ^ attempt) 15000)\<rparr>)"

definition expiry :: "ApprovalCard \<Rightarrow> int" where
  "expiry request = (case ac_expiresAt request of Some t \<Rightarrow> t | None \<Rightarrow> 0)"

definition expire_approvals :: "int \<Rightarrow> DashboardState \<Rightarrow> DashboardState" where
  "expire_approvals now s =
     (let live = filter (\<lambda>request. expiry request > now) (ss_approvals s);
          expired = filter (\<lambda>request. expiry request \<le> now) (ss_approvals s)
      in s\<lparr>ss_approvals := live,
           ss_resolved := (if length live \<noteq> length (ss_approvals s)
             then ss_resolved s ++ map_of (map (\<lambda>e. (ac_id e, resolved_expired)) (rev expired)) else ss_resolved s)\<rparr>)"

section \<open>Frames\<close>

text \<open>A named frame: \<open>None\<close> is data that is not JSON.\<close>

definition json_text :: "json \<Rightarrow> string option" where
  "json_text j = (case j of JStr t \<Rightarrow> Some t | _ \<Rightarrow> None)"

definition json_time :: "json \<Rightarrow> int option" where
  "json_time j = (case j of JNum n \<Rightarrow> Some n | _ \<Rightarrow> None)"

definition read_thought :: "json \<Rightarrow> ThoughtPayload option" where
  "read_thought j = (case j of
      JStr t \<Rightarrow> Some (thought_text t)
    | JObj _ \<Rightarrow> (case (member ''at'' j, member ''text'' j, member ''agent'' j) of
        (Inr (JNum n), Inr (JStr t), Inr a) \<Rightarrow> Some (thought_record \<lparr>th_at = n, th_text = t, th_agent = json_text a\<rparr>)
      | _ \<Rightarrow> None)
    | _ \<Rightarrow> None)"

definition read_approval :: "json \<Rightarrow> ApprovalCard option" where
  "read_approval j = (case (member ''id'' j, member ''reason'' j, member ''intent'' j, member ''expiresAt'' j) of
      (Inr (JStr i), Inr (JStr r), Inr intent, Inr t) \<Rightarrow>
        Some \<lparr>ac_id = i, ac_reason = r, ac_intent = intent, ac_expiresAt = json_time t\<rparr>
    | _ \<Rightarrow> None)"

definition on_frame :: "int \<Rightarrow> string \<Rightarrow> json option \<Rightarrow> DashboardState \<Rightarrow> DashboardState" where
  "on_frame now name frame s = (case frame of
      None \<Rightarrow> s
    | Some payload \<Rightarrow>
        if name = ''decision'' then on_decision payload s
        else if name = ''thought'' then (case read_thought payload of Some t \<Rightarrow> on_thought now t s | None \<Rightarrow> s)
        else if name = ''approval'' then (case read_approval payload of Some r \<Rightarrow> on_approval now r s | None \<Rightarrow> s)
        else s)"

section \<open>The browser's steps\<close>

text \<open>
  Which callbacks can run: the source opens once, delivers frames while open, reports an error as long as it is
  not closed (the browser then sets its state to connecting or closed), a pending retry fires, the owner resolves
  an approval, the one-second timer runs, and React unmounts and remounts the effect.
\<close>

inductive stream_move :: "DashboardState \<Rightarrow> DashboardState \<Rightarrow> bool" where
  opened: "ss_source s = Some CONNECTING \<Longrightarrow> stream_move s (onopen (s\<lparr>ss_source := Some OPEN\<rparr>))"
| frame: "ss_source s = Some OPEN \<Longrightarrow> stream_move s (on_frame now name payload s)"
| failed: "ss_source s = Some r \<Longrightarrow> r \<noteq> CLOSED \<Longrightarrow> r' \<noteq> OPEN \<Longrightarrow> stream_move s (stream_onerror (s\<lparr>ss_source := Some r'\<rparr>))"
| retried: "ss_retry s = Some delay \<Longrightarrow> stream_move s (stream_connect (s\<lparr>ss_retry := None\<rparr>))"
| answered: "how \<noteq> resolved_expired \<Longrightarrow> stream_move s (markResolved i how s)"
| ticked: "ss_approvals s \<noteq> [] \<Longrightarrow> stream_move s (expire_approvals now s)"
| toggled: "stream_move s (enable_stream enabled (cleanup_stream s))"

inductive_cases stream_moveE: "stream_move s s'"

definition dashboard_inv :: "DashboardState \<Rightarrow> bool" where
  "dashboard_inv s \<longleftrightarrow> length (ss_decisions s) \<le> MAX_ITEMS \<and> length (ss_thoughts s) \<le> MAX_ITEMS \<and>
     distinct (map ac_id (ss_approvals s)) \<and> list_all (\<lambda>a. ac_expiresAt a \<noteq> None) (ss_approvals s) \<and>
     ss_attempt s = 0 \<and> ss_retry s = None \<and>
     (ss_connection s = open_connection \<longrightarrow> ss_source s = Some OPEN) \<and>
     (ss_source s = Some CONNECTING \<or> ss_source s = Some OPEN \<longrightarrow> \<not> ss_cancelled s)"

definition dashboard_reachable :: "DashboardState \<Rightarrow> bool" where
  "dashboard_reachable s \<longleftrightarrow> stream_move\<^sup>*\<^sup>* initial_stream s"

section \<open>Properties\<close>

lemma distinct_map_filter: "distinct (map f xs) \<Longrightarrow> distinct (map f (filter P xs))"
  by (induction xs) auto

lemmas callback_defs = onopen_def stream_onerror_def connectionNeverOpened_def stream_connect_def enable_stream_def
  cleanup_stream_def markResolved_def expire_approvals_def Let_def

lemmas frame_defs = on_frame_def on_decision_def on_thought_def on_approval_def Let_def

lemma dashboard_inv_frame: "dashboard_inv s \<Longrightarrow> dashboard_inv (on_frame now name p s)"
  by (auto simp: dashboard_inv_def frame_defs MAX_ITEMS_def list_all_iff distinct_map_filter split: option.splits)

lemma dashboard_inv_move:
  assumes "stream_move s s'" and "dashboard_inv s"
  shows "dashboard_inv s'"
  using assms
proof (cases rule: stream_move.cases)
  case frame
  then show ?thesis using assms(2) dashboard_inv_frame by simp
qed (auto simp: dashboard_inv_def callback_defs distinct_map_filter list_all_iff split: if_splits)

lemma dashboard_reachable_inv: "dashboard_reachable s \<Longrightarrow> dashboard_inv s"
  unfolding dashboard_reachable_def
proof (induction rule: rtranclp_induct)
  case base
  then show ?case by (simp add: dashboard_inv_def initial_stream_def)
qed (rule dashboard_inv_move)

text \<open>
  Whatever the browser does, the dashboard's lists stay bounded at fifty, it never shows the same approval
  twice, every approval it shows has a time at which it expires, and it says \<open>open\<close> only while the source is.
\<close>

theorem dashboard_bounded:
  assumes "dashboard_reachable s"
  shows "length (ss_decisions s) \<le> 50 \<and> length (ss_thoughts s) \<le> 50 \<and> distinct (map ac_id (ss_approvals s)) \<and>
     list_all (\<lambda>a. ac_expiresAt a \<noteq> None) (ss_approvals s) \<and> (ss_connection s = open_connection \<longrightarrow> ss_source s = Some OPEN)"
  using dashboard_reachable_inv [OF assms] by (simp add: dashboard_inv_def MAX_ITEMS_def)

text \<open>
  The reconnection with backoff is dead code: the hook closes the source before it asks whether the connection
  ever opened, so every error, of a stream that was open too, is shown as a missing session, no retry is ever
  scheduled, and the source stays closed until the effect is mounted again.
\<close>

theorem drop_is_unauthorized:
  assumes "dashboard_reachable s" and "ss_source s = Some r" and "r \<noteq> CLOSED" and "r' \<noteq> OPEN"
  shows "stream_move s (stream_onerror (s\<lparr>ss_source := Some r'\<rparr>)) \<and>
     ss_connection (stream_onerror (s\<lparr>ss_source := Some r'\<rparr>)) = unauthorized \<and>
     ss_source (stream_onerror (s\<lparr>ss_source := Some r'\<rparr>)) = Some CLOSED \<and> ss_retry (stream_onerror (s\<lparr>ss_source := Some r'\<rparr>)) = None \<and>
     ss_attempt (stream_onerror (s\<lparr>ss_source := Some r'\<rparr>)) = 0"
proof -
  have "stream_move s (stream_onerror (s\<lparr>ss_source := Some r'\<rparr>))" using assms(2-4) by (rule stream_move.failed)
  moreover have "ss_attempt s = 0" "ss_retry s = None" "\<not> ss_cancelled s"
    using dashboard_reachable_inv [OF assms(1)] assms(2,3) by (cases r; simp add: dashboard_inv_def)+
  ultimately show ?thesis by (simp add: stream_onerror_def connectionNeverOpened_def Let_def)
qed

text \<open>
  Stale approvals leave the screen: after the timer ran at \<open>now\<close> the approvals shown are those that expire
  later, in their order, each one removed is recorded as expired, and nothing else is.
\<close>

theorem approvals_age_out:
  shows "ss_approvals (expire_approvals now s) = filter (\<lambda>a. now < expiry a) (ss_approvals s) \<and>
     ss_resolved (expire_approvals now s) = (\<lambda>i. if \<exists>a \<in> set (ss_approvals s). ac_id a = i \<and> expiry a \<le> now
       then Some resolved_expired else ss_resolved s i)"
proof -
  let ?expired = "filter (\<lambda>request. expiry request \<le> now) (ss_approvals s)"
  have m: "map_of (map (\<lambda>e. (ac_id e, v)) xs) i = (if i \<in> ac_id ` set xs then Some v else None)" for xs i and v :: Resolution
    by (induction xs) auto
  have "length (filter (\<lambda>request. expiry request > now) (ss_approvals s)) + length ?expired = length (ss_approvals s)"
    using sum_length_filter_compl [of "\<lambda>request. expiry request > now" "ss_approvals s"] by (simp add: not_less)
  then have "length (filter (\<lambda>request. expiry request > now) (ss_approvals s)) \<noteq> length (ss_approvals s) \<longleftrightarrow> length ?expired \<noteq> 0"
    by linarith
  then show ?thesis
    by (auto simp: expire_approvals_def Let_def fun_eq_iff map_add_def m filter_empty_conv split: option.splits)
qed

subsection \<open>Server and dashboard\<close>

text \<open>The frames of a connection, delivered in order at the times \<open>clock\<close> gives.\<close>

fun deliver_frames :: "(nat \<Rightarrow> int) \<Rightarrow> StreamEvent list \<Rightarrow> DashboardState \<Rightarrow> DashboardState" where
  "deliver_frames clock [] s = s"
| "deliver_frames clock (e # es) s =
     deliver_frames (\<lambda>n. clock (Suc n)) es (on_frame (clock 0) (type_string (sv_type e)) (Some (sv_data e)) s)"

definition decisions_in :: "StreamEvent list \<Rightarrow> json list" where
  "decisions_in es = map sv_data (filter (\<lambda>e. sv_type e = decision_event) es)"

lemma on_frame_decisions:
  "ss_decisions (on_frame now (type_string t) (Some p) s) =
     (if t = decision_event then take MAX_ITEMS (p # ss_decisions s) else ss_decisions s)"
  by (cases t) (auto simp: frame_defs split: option.splits)

lemma take_append_take: "take n (xs @ take n ys) = take n (xs @ ys)"
  by (simp add: min_def)

lemma deliver_decisions:
  "length (ss_decisions s) \<le> MAX_ITEMS \<Longrightarrow>
   ss_decisions (deliver_frames clock es s) = take MAX_ITEMS (rev (decisions_in es) @ ss_decisions s)"
proof (induction es arbitrary: s clock)
  case (Cons e es)
  let ?s = "on_frame (clock 0) (type_string (sv_type e)) (Some (sv_data e)) s"
  have "length (ss_decisions ?s) \<le> MAX_ITEMS" using Cons.prems by (simp add: on_frame_decisions)
  then have "ss_decisions (deliver_frames clock (e # es) s) = take MAX_ITEMS (rev (decisions_in es) @ ss_decisions ?s)"
    using Cons.IH by simp
  moreover have "ss_decisions ?s = (if sv_type e = decision_event then take MAX_ITEMS (sv_data e # ss_decisions s) else ss_decisions s)"
    by (rule on_frame_decisions)
  moreover have "rev (decisions_in (e # es)) = rev (decisions_in es) @ (if sv_type e = decision_event then [sv_data e] else [])"
    by (simp add: decisions_in_def)
  ultimately show ?case
    by (cases "sv_type e = decision_event") (simp_all only: append_assoc take_append_take append_Cons append_Nil if_True if_False simp_thms)
qed (simp add: decisions_in_def)

lemma decisions_in_append: "decisions_in (xs @ ys) = decisions_in xs @ decisions_in ys"
  by (simp add: decisions_in_def)

text \<open>
  (C25) What the owner sees is what the server decided: a dashboard that connects to a server with any history
  behind it, and stays connected through any further publications, shows the last fifty verdicts published, newest
  first, as far back as the server's own backlog of events reaches.
\<close>

theorem dashboard_shows_published:
  assumes "s = fold stream_step es (newEventStream b)" and "c \<notin> set (es_clients s)" and "es_written s c = []"
    and "\<forall>e \<in> set later. e \<noteq> Closed c \<and> e \<noteq> Subscribed c"
  shows "ss_decisions (deliver_frames clock (es_written (fold stream_step later (subscribe c s)) c) initial_stream) =
     take 50 (rev (decisions_in (last_n (or_else b 50) (published_in es) @ published_in later)))"
proof -
  have "es_written (fold stream_step later (subscribe c s)) c = last_n (or_else b 50) (published_in es) @ published_in later"
    using stream_written [OF assms(1,2,4)] stream_inv [of es b] assms(1,3) by simp
  then show ?thesis by (simp add: deliver_decisions initial_stream_def MAX_ITEMS_def)
qed

section \<open>Witnesses\<close>

definition sample_open_stream :: DashboardState where
  "sample_open_stream = onopen ((enable_stream True (cleanup_stream initial_stream))\<lparr>ss_source := Some OPEN\<rparr>)"

lemma sample_open_reachable: "dashboard_reachable sample_open_stream"
proof -
  have "stream_move initial_stream (enable_stream True (cleanup_stream initial_stream))" by (rule toggled)
  moreover have "stream_move (enable_stream True (cleanup_stream initial_stream)) sample_open_stream"
    unfolding sample_open_stream_def by (rule opened) (simp add: callback_defs initial_stream_def)
  ultimately show ?thesis unfolding dashboard_reachable_def by (meson rtranclp.simps)
qed

theorem dashboard_bounded_witness: "length (ss_decisions sample_open_stream) \<le> 50 \<and> ss_source sample_open_stream = Some OPEN"
  using dashboard_bounded [OF sample_open_reachable] by (simp add: sample_open_stream_def onopen_def)

theorem drop_is_unauthorized_witness:
  "ss_connection sample_open_stream = open_connection \<and>
   ss_connection (stream_onerror (sample_open_stream\<lparr>ss_source := Some CONNECTING\<rparr>)) = unauthorized"
proof -
  have "ss_source sample_open_stream = Some OPEN" "ss_connection sample_open_stream = open_connection"
    by (simp_all add: sample_open_stream_def onopen_def)
  then show ?thesis using drop_is_unauthorized [OF sample_open_reachable, of OPEN CONNECTING] by simp
qed

definition sample_card :: "string \<Rightarrow> int \<Rightarrow> ApprovalCard" where
  "sample_card i t = \<lparr>ac_id = i, ac_reason = [], ac_intent = JNull, ac_expiresAt = Some t\<rparr>"

theorem approvals_age_out_witness:
  "ss_approvals (expire_approvals 10 (initial_stream\<lparr>ss_approvals := [sample_card ''a'' 10, sample_card ''b'' 11]\<rparr>)) =
   [sample_card ''b'' 11]"
  using approvals_age_out [of 10 "initial_stream\<lparr>ss_approvals := [sample_card ''a'' 10, sample_card ''b'' 11]\<rparr>"]
  by (simp add: sample_card_def expiry_def)

theorem dashboard_shows_published_witness:
  "ss_decisions (deliver_frames (\<lambda>_. 0) (es_written (fold stream_step [Published \<lparr>sv_type = decision_event, sv_data = JNum 3\<rparr>]
     (subscribe 7 (fold stream_step [Published \<lparr>sv_type = decision_event, sv_data = JNum 1\<rparr>,
       Published \<lparr>sv_type = thought_event, sv_data = JNum 2\<rparr>] (newEventStream None)))) 7) initial_stream) = [JNum 3, JNum 1]"
  using dashboard_shows_published [OF refl, of 7 "[Published \<lparr>sv_type = decision_event, sv_data = JNum 1\<rparr>,
       Published \<lparr>sv_type = thought_event, sv_data = JNum 2\<rparr>]" None "[Published \<lparr>sv_type = decision_event, sv_data = JNum 3\<rparr>]" "\<lambda>_. 0"]
  by (simp add: stream_publish_def newEventStream_def published_in_def map_filter_simps last_n_def Let_def decisions_in_def)

end
