(* ===== verification/ConsoleApi.thy ===== *)
theory ConsoleApi
  imports ConsoleStream
begin

text \<open>
  The browser's calls of the Verification API: \<^verbatim>\<open>apps/console/lib/api.ts\<close>, the display functions of
  \<^verbatim>\<open>lib/format.ts\<close>, the owner's sign-in (\<^verbatim>\<open>components/LoginGate.tsx\<close>) and the approval card
  (\<^verbatim>\<open>components/Approvals.tsx\<close>), and the composition of the card with the API server behind the same-origin
  rewrite of \<^verbatim>\<open>next.config.mjs\<close>. \<^verbatim>\<open>fetch\<close> is a parameter: a computation that answers or throws.
\<close>

section \<open>lib/api.ts\<close>

record ApiCall =
  cl_path :: string
  cl_method :: "string option"
  cl_body :: "string option"

record ApiResponse =
  rs_status :: nat
  rs_statusText :: string
  rs_json :: "json result"

datatype 'a ApiResult = ApiOk 'a | ApiFailed string "nat option"

type_synonym 'w fetch = "ApiCall \<Rightarrow> ('w, ApiResponse) io"

definition rs_ok :: "ApiResponse \<Rightarrow> bool" where
  "rs_ok r \<longleftrightarrow> 200 \<le> rs_status r \<and> rs_status r < 300"

text \<open>\<open>body.error\<close> where it is a non-empty string; a body that is not JSON, or null, has none.\<close>

definition error_text :: "json result \<Rightarrow> string option" where
  "error_text body = (case bindR body (member ''error'') of Inr (JStr m) \<Rightarrow> if m = [] then None else Some m | _ \<Rightarrow> None)"

text \<open>\<open>timeout\<close> recognises the \<^verbatim>\<open>TimeoutError\<close> of the abort signal among the errors of \<^verbatim>\<open>fetch\<close>.\<close>

definition api_request :: "'w fetch \<Rightarrow> (js_error \<Rightarrow> bool) \<Rightarrow> ApiCall \<Rightarrow> 'w \<Rightarrow> json ApiResult \<times> 'w" where
  "api_request fetch timeout call w =
     (let failure = (\<lambda>e. ApiFailed (if timeout e then ''the API did not respond within 10 seconds'' else ''the API is unreachable'') None) in
      case fetch (call\<lparr>cl_path := ''/api'' @ cl_path call\<rparr>) w of
        (Inl e, w') \<Rightarrow> (failure e, w')
      | (Inr response, w') \<Rightarrow>
          if \<not> rs_ok response then
            (ApiFailed (case error_text (rs_json response) of Some m \<Rightarrow> m
               | None \<Rightarrow> bigint_to_string (int (rs_status response)) @ '' '' @ rs_statusText response)
               (Some (rs_status response)), w')
          else (case rs_json response of Inl e \<Rightarrow> failure e | Inr v \<Rightarrow> ApiOk v, w'))"

text \<open>\<^verbatim>\<open>encodeURIComponent\<close> on code units below 256.\<close>

definition is_unreserved :: "char \<Rightarrow> bool" where
  "is_unreserved c \<longleftrightarrow> c \<in> set ''ABCDEFGHIJKLMNOPQRSTUVWXYZabcdefghijklmnopqrstuvwxyz0123456789-_.!~*'' \<or>
     c = CHR 0x27 \<or> c = CHR ''('' \<or> c = CHR '')''"

definition pct_byte :: "byte \<Rightarrow> string" where
  "pct_byte b = CHR ''%'' # map (\<lambda>n. ''0123456789ABCDEF'' ! n) [unat b div 16, unat b mod 16]"

definition encodeURIComponent :: "string \<Rightarrow> string" where
  "encodeURIComponent s = concat (map (\<lambda>c. if is_unreserved c then [c] else concat (map pct_byte (utf8_char c))) s)"

definition get_call :: "string \<Rightarrow> ApiCall" where
  "get_call path = \<lparr>cl_path = path, cl_method = None, cl_body = None\<rparr>"

definition api_health :: "'w fetch \<Rightarrow> (js_error \<Rightarrow> bool) \<Rightarrow> 'w \<Rightarrow> json ApiResult \<times> 'w" where
  "api_health fetch timeout = api_request fetch timeout (get_call ''/health'')"

definition api_proofs :: "'w fetch \<Rightarrow> (js_error \<Rightarrow> bool) \<Rightarrow> 'w \<Rightarrow> json ApiResult \<times> 'w" where
  "api_proofs fetch timeout = api_request fetch timeout (get_call ''/v1/proofs'')"

definition api_spend :: "'w fetch \<Rightarrow> (js_error \<Rightarrow> bool) \<Rightarrow> string \<Rightarrow> 'w \<Rightarrow> json ApiResult \<times> 'w" where
  "api_spend fetch timeout account = api_request fetch timeout (get_call (''/v1/spend/'' @ account))"

definition api_policy :: "'w fetch \<Rightarrow> (js_error \<Rightarrow> bool) \<Rightarrow> string \<Rightarrow> 'w \<Rightarrow> json ApiResult \<times> 'w" where
  "api_policy fetch timeout name = api_request fetch timeout (get_call (''/v1/policy/'' @ encodeURIComponent name))"

definition api_updatePolicy :: "'w fetch \<Rightarrow> (js_error \<Rightarrow> bool) \<Rightarrow> json \<Rightarrow> 'w \<Rightarrow> json ApiResult \<times> 'w" where
  "api_updatePolicy fetch timeout patch =
     api_request fetch timeout \<lparr>cl_path = ''/v1/policy'', cl_method = Some ''PUT'', cl_body = Some (JSON_stringify patch)\<rparr>"

definition api_login :: "'w fetch \<Rightarrow> (js_error \<Rightarrow> bool) \<Rightarrow> string \<Rightarrow> 'w \<Rightarrow> json ApiResult \<times> 'w" where
  "api_login fetch timeout token = api_request fetch timeout
     \<lparr>cl_path = ''/v1/dashboard/login'', cl_method = Some ''POST'', cl_body = Some (JSON_stringify (JObj [(''token'', JStr token)]))\<rparr>"

definition api_approve :: "'w fetch \<Rightarrow> (js_error \<Rightarrow> bool) \<Rightarrow> string \<Rightarrow> bool \<Rightarrow> 'w \<Rightarrow> json ApiResult \<times> 'w" where
  "api_approve fetch timeout i approved = api_request fetch timeout
     \<lparr>cl_path = ''/v1/approve'', cl_method = Some ''POST'',
      cl_body = Some (JSON_stringify (JObj [(''id'', JStr i), (''approved'', JBool approved)]))\<rparr>"

section \<open>lib/format.ts\<close>

definition format_isUnbounded :: "string \<Rightarrow> bool" where
  "format_isUnbounded amount = (case bigint_of_string amount of Inl _ \<Rightarrow> False | Inr v \<Rightarrow> v \<ge> UNBOUNDED)"

definition format_usdc :: "string \<Rightarrow> nat \<Rightarrow> string" where
  "format_usdc amount decimals =
     (case bigint_of_string amount of
        Inl _ \<Rightarrow> em_dash
      | Inr v \<Rightarrow>
          if v \<ge> UNBOUNDED then ''UNBOUNDED''
          else
            let negative = v < 0; absolute = (if negative then - v else v); scale = 10 ^ decimals;
                whole = toLocaleString (absolute div scale);
                cents = padStart 2 (CHR ''0'') (bigint_to_string (absolute mod scale div 10 ^ (decimals - 2)))
            in (if negative then ''-'' else []) @ whole @ ''.'' @ cents)"

definition usdcLabel :: "string \<Rightarrow> string" where
  "usdcLabel amount = (if format_isUnbounded amount then ''an UNBOUNDED amount'' else format_usdc amount 6 @ '' USDC'')"

definition last_chars :: "nat \<Rightarrow> string \<Rightarrow> string" where
  "last_chars n s = drop (length s - n) s"

definition shortAddress :: "string option \<Rightarrow> string" where
  "shortAddress address =
     (case address of None \<Rightarrow> em_dash
      | Some a \<Rightarrow> if a = [] then em_dash else if length a < 12 then a else take 6 a @ ellipsis @ last_chars 4 a)"

definition shortHash :: "string option \<Rightarrow> string" where
  "shortHash hash = (case hash of None \<Rightarrow> em_dash
      | Some h \<Rightarrow> if h = [] then em_dash else take 10 h @ ellipsis @ last_chars 6 h)"

text \<open>\<^verbatim>\<open>percent\<close> in tenths: the number shown is a tenth of this one.\<close>

definition percent_tenths :: "string \<Rightarrow> string \<Rightarrow> int" where
  "percent_tenths spent limit =
     (case bindR (bigint_of_string spent) (\<lambda>s. bindR (bigint_of_string limit) (\<lambda>l. Inr (s, l))) of
        Inl _ \<Rightarrow> 0
      | Inr (s, l) \<Rightarrow> if l \<le> 0 then 0 else if s \<ge> l then 1000 else tdiv (s * 1000) l)"

text \<open>\<^verbatim>\<open>Math.round(a / b)\<close>: to the nearest integer, halves upwards.\<close>

definition round_div :: "int \<Rightarrow> int \<Rightarrow> int" where
  "round_div a b = (2 * a + b) div (2 * b)"

definition relativeTime :: "int \<Rightarrow> int \<Rightarrow> string" where
  "relativeTime now t =
     (let seconds = max 0 (round_div (now - t) 1000) in
      if seconds < 5 then ''just now''
      else if seconds < 60 then bigint_to_string seconds @ ''s ago''
      else let minutes = round_div seconds 60 in
        if minutes < 60 then bigint_to_string minutes @ ''m ago''
        else bigint_to_string (round_div minutes 60) @ ''h ago'')"

section \<open>components/LoginGate.tsx\<close>

definition looksLikeACommand :: "string \<Rightarrow> bool" where
  "looksLikeACommand s \<longleftrightarrow> list_ex is_space (trim s) \<or> js_includes ''='' s \<or> js_includes ''pnpm'' s"

text \<open>The form after a submission: the token field, the message shown, and whether \<^verbatim>\<open>onSuccess\<close> was called.\<close>

record LoginForm =
  lf_token :: string
  lf_error :: "string option"
  lf_success :: bool

definition login_submit :: "'w fetch \<Rightarrow> (js_error \<Rightarrow> bool) \<Rightarrow> string \<Rightarrow> 'w \<Rightarrow> LoginForm \<times> 'w" where
  "login_submit fetch timeout token w =
     (case api_login fetch timeout (trim token) w of
        (ApiOk _, w') \<Rightarrow> (\<lparr>lf_token = [], lf_error = None, lf_success = True\<rparr>, w')
      | (ApiFailed e status, w') \<Rightarrow> (\<lparr>lf_token = token, lf_error = Some
          (if status = Some 401 then
             if looksLikeACommand token then
               ''That looks like a shell command, not the token. Paste only the value of '' @
               ''AGENTPROOF_ADMIN_TOKEN '' @ em_dash @ '' for a server started with '' @
               ''`AGENTPROOF_ADMIN_TOKEN=abc123 pnpm api`, the token is `abc123`.''
             else ''That token was not accepted. It is the value AGENTPROOF_ADMIN_TOKEN was set to '' @
               ''when the API started.''
           else e), lf_success = False\<rparr>, w'))"

section \<open>components/Approvals.tsx\<close>

text \<open>Pressing a button of the card: the message it then shows, and the dashboard with what \<^verbatim>\<open>onResolved\<close> did to it.\<close>

definition card_resolve ::
  "'w fetch \<Rightarrow> (js_error \<Rightarrow> bool) \<Rightarrow> ApprovalCard \<Rightarrow> bool \<Rightarrow> 'w \<Rightarrow> DashboardState \<Rightarrow> string option \<times> 'w \<times> DashboardState" where
  "card_resolve fetch timeout request approved w s =
     (case api_approve fetch timeout (ac_id request) approved w of
        (ApiFailed e _, w') \<Rightarrow> (Some e, w', s)
      | (ApiOk v, w') \<Rightarrow>
          if member ''settled'' v \<noteq> Inr (JBool True) then
            (Some (case member ''error'' v of Inr (JStr m) \<Rightarrow> m | _ \<Rightarrow> ''that approval is no longer pending''), w', s)
          else (None, w', markResolved (ac_id request) (if approved then resolved_approved else resolved_declined) s))"

definition card_amount :: "string \<Rightarrow> string" where
  "card_amount notional = (if format_isUnbounded notional then ''an UNBOUNDED amount'' else format_usdc notional 6 @ '' USDC'')"

section \<open>The console in front of the server\<close>

text \<open>
  The rewrite of \<^verbatim>\<open>next.config.mjs\<close> strips \<open>/api\<close>; the browser adds the session cookie; the response body is
  the JSON text of the reply, read back by \<^verbatim>\<open>response.json()\<close>.
\<close>

definition proxied :: "string option \<Rightarrow> ApiCall \<Rightarrow> HttpRequest" where
  "proxied cookie call = \<lparr>hq_method = or_else (cl_method call) ''GET'', hq_path = drop 4 (cl_path call), hq_cookie = cookie,
     hq_admin = None, hq_payment = None, hq_chunks = (case cl_body call of None \<Rightarrow> [] | Some b \<Rightarrow> [utf8 b]), hq_client = 0\<rparr>"

definition server_fetch ::
  "'w ServerPlatform \<Rightarrow> 'w ServerOptions \<Rightarrow> (nat \<Rightarrow> ('w server_world, ApprovalOutcome) io) \<Rightarrow> string option \<Rightarrow>
   (nat \<Rightarrow> string) \<Rightarrow> (ReplayGuard \<times> 'w server_world) fetch" where
  "server_fetch pf opts wait cookie statusText call =
     bind_io (serve pf opts wait (proxied cookie call)) (\<lambda>reply.
       return_io \<lparr>rs_status = hr_status reply, rs_statusText = statusText (hr_status reply), rs_json = Inr (strip_json (hr_body reply))\<rparr>)"

section \<open>Properties\<close>

lemma readJson_body:
  assumes "parse b = Inr j" and "b \<noteq> []" and "2 * length b \<le> BODY_LIMIT"
  shows "readJson parse [utf8 b] = Inr j"
proof -
  have "read_chunks 0 [utf8 b] = Inr (utf8 b)"
    using assms(3) length_utf8 [of b] read_chunks_ok [of 0 "[utf8 b]"] by simp
  moreover have "utf8 b \<noteq> []" using assms(2) utf8_decode_encode [of b] by force
  ultimately show ?thesis using assms(1) by (simp add: readJson_def utf8_decode_encode)
qed

definition approve_text :: "string \<Rightarrow> bool \<Rightarrow> string" where
  "approve_text i approved = JSON_stringify (JObj [(''id'', JStr i), (''approved'', JBool approved)])"

definition owner_outcome :: "bool \<Rightarrow> ApprovalOutcome" where
  "owner_outcome approved = \<lparr>ao_approved = approved, ao_signature = None, ao_by = ''dashboard:owner''\<rparr>"

lemma serve_approve:
  assumes "hq_path req = ''/v1/approve''" and "hq_method req = ''POST''"
    and "hasDashboardSession (pf_digest pf) (so_adminToken opts) req"
    and "readJson (pf_parseJson pf) (hq_chunks req) = Inr (JObj [(''id'', JStr i), (''approved'', JBool approved)])"
  shows "serve pf opts wait req (g, (sv, w)) =
     (let (settled, d) = dashboard_resolve i (owner_outcome approved) (sv_approver sv) in
      (Inr (respondJson [] (if settled then 200 else 404) (JObj [(''settled'', JBool settled),
         (''error'', if settled then JUndefined else JStr ''no pending approval with that id'')])), (g, (sv\<lparr>sv_approver := d\<rparr>, w))))"
  using assms
  by (simp add: serve_def route_def catch_io_def in_snd_def approve_route_def bind_io_def member_def policy_match_def spend_match_def
      after_prefix_def owner_outcome_def Let_def split_beta)

lemma card_answer:
  assumes "pf_parseJson pf (approve_text (ac_id request) approved) = Inr (JObj [(''id'', JStr (ac_id request)), (''approved'', JBool approved)])"
    and "2 * length (approve_text (ac_id request) approved) \<le> BODY_LIMIT"
    and "req = proxied cookie \<lparr>cl_path = ''/api/v1/approve'', cl_method = Some ''POST'',
           cl_body = Some (approve_text (ac_id request) approved)\<rparr>"
  shows "card_resolve (server_fetch pf opts wait cookie statusText) timeout request approved (g, (sv, w)) s =
     (if \<not> hasDashboardSession (pf_digest pf) (so_adminToken opts) req then
        (Some ''dashboard session required'', (g, (sv, w)), s)
      else case map_of (da_pending (sv_approver sv)) (ac_id request) of
          None \<Rightarrow> (Some ''no pending approval with that id'', (g, (sv, w)), s)
        | Some k \<Rightarrow> (None, (g, (sv\<lparr>sv_approver := (sv_approver sv)\<lparr>da_timers := AList.delete k (da_timers (sv_approver sv)),
              da_pending := AList.delete (ac_id request) (da_pending (sv_approver sv)),
              da_settled := (k, owner_outcome approved) # da_settled (sv_approver sv)\<rparr>\<rparr>, w)),
            markResolved (ac_id request) (if approved then resolved_approved else resolved_declined) s))"
proof -
  have b: "hq_path req = ''/v1/approve''" "hq_method req = ''POST''" "hq_chunks req = [utf8 (approve_text (ac_id request) approved)]"
    using assms(3) by (simp_all add: proxied_def or_else_def)
  have "approve_text (ac_id request) approved \<noteq> []"
    by (simp add: approve_text_def JSON_stringify_def)
  then have r: "readJson (pf_parseJson pf) (hq_chunks req) = Inr (JObj [(''id'', JStr (ac_id request)), (''approved'', JBool approved)])"
    using readJson_body [of "pf_parseJson pf" "approve_text (ac_id request) approved"] assms(1,2) b(3) by simp
  have call: "api_approve (server_fetch pf opts wait cookie statusText) timeout (ac_id request) approved =
      api_request (server_fetch pf opts wait cookie statusText) timeout \<lparr>cl_path = ''/v1/approve'', cl_method = Some ''POST'',
        cl_body = Some (approve_text (ac_id request) approved)\<rparr>"
    by (simp add: api_approve_def approve_text_def)
  show ?thesis
  proof (cases "hasDashboardSession (pf_digest pf) (so_adminToken opts) req")
    case True
    from serve_approve [OF b(1,2) True r] show ?thesis using True assms(3)
      by (auto simp: card_resolve_def call api_request_def server_fetch_def bind_io_def dashboard_resolve_def rs_ok_def
          respondJson_def error_text_def member_def or_else_def Let_def split: option.splits)
  next
    case False
    then have "serve pf opts wait req (g, (sv, w)) = (Inr session_required, (g, (sv, w)))"
      using b(1,2) by (simp add: serve_def route_def catch_io_def in_snd_def approve_route_def bind_io_def policy_match_def
          spend_match_def after_prefix_def Let_def)
    with False show ?thesis using assms(3)
      by (simp add: card_resolve_def call api_request_def server_fetch_def bind_io_def rs_ok_def session_required_def
          respondJson_def error_text_def member_def or_else_def Let_def)
  qed
qed

text \<open>
  The button the owner presses is what is settled: with a session, answering a card settles the request that
  is pending under its id, with the owner's answer, and only then takes the card off the screen and records the
  answer; when nothing is pending under that id the card stays and says so; without a session nothing changes.
\<close>

theorem owner_answer_settles:
  assumes "pf_parseJson pf (approve_text (ac_id request) approved) = Inr (JObj [(''id'', JStr (ac_id request)), (''approved'', JBool approved)])"
    and "2 * length (approve_text (ac_id request) approved) \<le> BODY_LIMIT"
    and "req = proxied cookie \<lparr>cl_path = ''/api/v1/approve'', cl_method = Some ''POST'',
           cl_body = Some (approve_text (ac_id request) approved)\<rparr>"
  shows "card_resolve (server_fetch pf opts wait cookie statusText) timeout request approved (g, (sv, w)) s =
     (if \<not> hasDashboardSession (pf_digest pf) (so_adminToken opts) req then
        (Some ''dashboard session required'', (g, (sv, w)), s)
      else case map_of (da_pending (sv_approver sv)) (ac_id request) of
          None \<Rightarrow> (Some ''no pending approval with that id'', (g, (sv, w)), s)
        | Some k \<Rightarrow> (None, (g, (sv\<lparr>sv_approver := (sv_approver sv)\<lparr>da_timers := AList.delete k (da_timers (sv_approver sv)),
              da_pending := AList.delete (ac_id request) (da_pending (sv_approver sv)),
              da_settled := (k, owner_outcome approved) # da_settled (sv_approver sv)\<rparr>\<rparr>, w)),
            markResolved (ac_id request) (if approved then resolved_approved else resolved_declined) s))"
  using assms by (rule card_answer)

lemma read_approval_json:
  "read_approval (strip_json (approval_json r)) = Some \<lparr>ac_id = ar_id r, ac_reason = ar_reason r,
     ac_intent = strip_json (intent_json (ar_intent r)), ac_expiresAt = Some (ar_expiresAt r)\<rparr>"
  by (simp add: read_approval_def approval_json_def member_def json_time_def intent_json_def)


lemma tdiv_nonneg: "0 \<le> a \<Longrightarrow> 0 < b \<Longrightarrow> tdiv a b = a div b"
  by (auto simp: tdiv_def sgn_if)

text \<open>
  The spend gauge never understates a full budget and never leaves its scale: for a non-negative spend and a
  positive limit the value is between 0 and 100, it is 100 exactly when the limit is reached, and below that it is
  the percentage rounded down to a tenth.
\<close>

theorem gauge_bounds:
  assumes "bigint_of_string spent = Inr x" and "bigint_of_string limit = Inr y" and "0 \<le> x" and "0 < y"
  shows "0 \<le> percent_tenths spent limit \<and> percent_tenths spent limit \<le> 1000 \<and>
     (percent_tenths spent limit = 1000 \<longleftrightarrow> y \<le> x) \<and> (x < y \<longrightarrow> percent_tenths spent limit = x * 1000 div y)"
proof -
  have v: "percent_tenths spent limit = (if y \<le> x then 1000 else x * 1000 div y)"
    using assms by (simp add: percent_tenths_def tdiv_nonneg)
  moreover have "0 \<le> x * 1000 div y" using assms(3,4) by (simp add: pos_imp_zdiv_nonneg_iff)
  moreover have "x * 1000 div y < 1000" if "x < y"
  proof -
    have "x * 1000 div y * y \<le> x * 1000" using assms(4) pos_mod_sign [of y "x * 1000"] div_mult_mod_eq [of "x * 1000" y] by linarith
    also have "\<dots> < 1000 * y" using that by simp
    finally show ?thesis using assms(4) by simp
  qed
  ultimately show ?thesis by auto
qed

subsection \<open>Names in the path\<close>

lemma upper_hex:
  assumes "n < 16"
  shows "is_hex_digit (''0123456789ABCDEF'' ! n)" and "digit_val (''0123456789ABCDEF'' ! n) = n"
proof -
  have "\<forall>n \<in> set [0..<16]. is_hex_digit (''0123456789ABCDEF'' ! n) \<and> digit_val (''0123456789ABCDEF'' ! n) = n"
    by (simp add: upt_rec is_hex_digit_def digit_val_def)
  with assms show "is_hex_digit (''0123456789ABCDEF'' ! n)" "digit_val (''0123456789ABCDEF'' ! n) = n" by simp_all
qed

lemma pct_decode_byte: "pct_decode (pct_byte b @ s) = bindR (pct_decode s) (\<lambda>r. Inr (b # r))"
proof -
  have "unat b < 256" using unsigned_less [of b] by simp
  then have "unat b div 16 < 16" "unat b mod 16 < 16" by auto
  with upper_hex show ?thesis by (simp add: pct_byte_def of_base_def div_mult_mod_eq)
qed

lemma pct_decode_bytes: "pct_decode (concat (map pct_byte bs) @ s) = bindR (pct_decode s) (\<lambda>r. Inr (bs @ r))"
  by (induction bs) (simp_all add: pct_decode_byte bindR_def split: sum.splits)

lemma pct_decode_encode: "pct_decode (encodeURIComponent s) = Inr (utf8 s)"
proof (induction s)
  case (Cons c s)
  have "is_unreserved c \<Longrightarrow> c \<noteq> CHR ''%''" by (auto simp: is_unreserved_def)
  with Cons show ?case
    by (cases "is_unreserved c") (simp_all add: encodeURIComponent_def pct_decode_bytes utf8_def)
qed (simp add: encodeURIComponent_def utf8_def)

lemma decodeURIComponent_encode: "decodeURIComponent (encodeURIComponent s) = Inr s"
  by (simp add: decodeURIComponent_def pct_decode_encode utf8_decode_encode)

lemma encodeURIComponent_nonempty: "s \<noteq> [] \<Longrightarrow> encodeURIComponent s \<noteq> []"
  using pct_decode_encode [of s] utf8_decode_encode [of s] by force

text \<open>
  The policy the owner asks for is the one the server looks up: whatever characters an agent's name has, the
  request the console builds for it reaches the policy route with exactly that name, and what the page receives is
  the route's answer.
\<close>

theorem policy_name_roundtrip:
  assumes "name \<noteq> []" and "policyRoute (sv_ctx sv) name w = (Inr j, w')"
  shows "api_policy (server_fetch pf opts wait cookie statusText) timeout name (g, (sv, w)) = (ApiOk (strip_json j), (g, (sv, w')))"
proof -
  let ?req = "proxied cookie (get_call (''/api/v1/policy/'' @ encodeURIComponent name))"
  have m: "policy_match (''/v1/policy/'' @ encodeURIComponent name) = Some (encodeURIComponent name)"
    using encodeURIComponent_nonempty [OF assms(1)] by (simp add: policy_match_def after_prefix_def)
  have "route pf opts wait ?req (g, (sv, w)) = in_snd (get_policy_route (encodeURIComponent name)) (g, (sv, w))"
    using m by (simp add: route_def proxied_def get_call_def or_else_def Let_def)
  also have "\<dots> = (Inr (respondJson [] 200 j), (g, (sv, w')))"
    using assms(2) by (simp add: in_snd_def get_policy_route_def decodeURIComponent_encode bind_io_def)
  finally have "serve pf opts wait ?req (g, (sv, w)) = (Inr (respondJson [] 200 j), (g, (sv, w')))"
    by (simp add: serve_def catch_io_def)
  then show ?thesis
    by (simp add: api_policy_def api_request_def get_call_def server_fetch_def bind_io_def rs_ok_def respondJson_def Let_def)
qed

section \<open>Witnesses\<close>

definition sample_console_platform :: "json \<Rightarrow> SimulatedAccount ServerPlatform" where
  "sample_console_platform j = sample_server_platform\<lparr>pf_parseJson := (\<lambda>_. Inr j)\<rparr>"

definition sample_escalation :: ApprovalRequest where
  "sample_escalation = \<lparr>ar_id = ''a1'', ar_intent = sample_intent 60, ar_reason = ''large'', ar_threshold = 100, ar_expiresAt = 99\<rparr>"

lemma sample_approve_text: "2 * length (approve_text ''a1'' True) \<le> BODY_LIMIT"
  by (simp add: approve_text_def JSON_stringify_def BODY_LIMIT_def stringify_string_def escape_char_def)

theorem owner_answer_settles_witness:
  "card_resolve (server_fetch (sample_console_platform (JObj [(''id'', JStr ''a1''), (''approved'', JBool True)]))
       (sample_server_options\<lparr>so_adminToken := None\<rparr>) (\<lambda>_. throw_io OddHexLength) None (\<lambda>_. [])) (\<lambda>_. False)
       (sample_card ''a1'' 5) True (newReplayGuard, (sample_server, sample_sim)) initial_stream =
     (Some ''no pending approval with that id'', (newReplayGuard, (sample_server, sample_sim)), initial_stream)"
proof -
  have "sv_approver sample_server = newDashboardApprover" by (simp add: sample_server_def)
  moreover have "hasDashboardSession d None req" for d req by (simp add: hasDashboardSession_def has_token_def)
  ultimately show ?thesis
    using owner_answer_settles [OF _ _ refl, where pf = "sample_console_platform (JObj [(''id'', JStr ''a1''), (''approved'', JBool True)])"
        and request = "sample_card ''a1'' 5" and approved = True and cookie = None and opts = "sample_server_options\<lparr>so_adminToken := None\<rparr>"
        and sv = sample_server and s = initial_stream] sample_approve_text
    by (simp add: sample_console_platform_def sample_card_def newDashboardApprover_def)
qed


theorem gauge_bounds_witness: "percent_tenths ''120'' ''480'' = 250"
proof -
  have "bigint_of_string ''120'' = Inr 120" "bigint_of_string ''480'' = Inr 480"
    by (simp_all add: bigint_of_string_def trim_def trimEnd_def is_space_def in_base_def is_hex_digit_def
        toLowerCase_def lower_char_def of_base_def digit_val_def)
  then show ?thesis using gauge_bounds [of "''120''" 120 "''480''" 480] by simp
qed

theorem policy_name_roundtrip_witness:
  "\<exists>j. api_policy (server_fetch sample_server_platform sample_server_options (\<lambda>_. throw_io OddHexLength) None (\<lambda>_. [])) (\<lambda>_. False)
     ''a/b c'' (newReplayGuard, (sample_server, sample_sim)) = (ApiOk j, (newReplayGuard, (sample_server, sample_sim)))"
proof -
  have "rc_resolvePolicyByName (sv_ctx sample_server) = None" by (simp add: sample_server_def sample_route_context_def)
  then obtain j where "policyRoute (sv_ctx sample_server) ''a/b c'' sample_sim = (Inr j, sample_sim)" by (simp add: policyRoute_def)
  then show ?thesis using policy_name_roundtrip [of "''a/b c''" sample_server sample_sim j sample_sim] by simp
qed

end
