(* ===== verification/ConsoleSettings.thy ===== *)
theory ConsoleSettings
  imports ConsoleApi
begin

text \<open>
  The policy editor of the console, \<^verbatim>\<open>apps/console/components/PolicySettings.tsx\<close>: reading the limits of the
  served document into the form, the patch a submission sends, and what the page shows for the answer. The amounts
  of a served document are always present, since \<^verbatim>\<open>resolvePolicy\<close> refuses a document without them; the two
  allowlists may be absent.
\<close>

section \<open>The form\<close>

record FormState =
  fs_maxTransaction :: string
  fs_dailySpend :: string
  fs_approvalThreshold :: string
  fs_minBalance :: string
  fs_allowedContracts :: string
  fs_allowedRecipients :: string

record WireLimits =
  wl_maxTransaction :: string
  wl_dailySpend :: string
  wl_approvalThreshold :: string
  wl_minBalance :: string
  wl_allowedContracts :: "string list option"
  wl_allowedRecipients :: "string list option"

definition EMPTY_FORM :: FormState where
  "EMPTY_FORM = \<lparr>fs_maxTransaction = [], fs_dailySpend = [], fs_approvalThreshold = [], fs_minBalance = [],
     fs_allowedContracts = [], fs_allowedRecipients = []\<rparr>"

definition join_lines :: "string list option \<Rightarrow> string result" where
  "join_lines l = (case l of None \<Rightarrow> Inl TypeErrorUndefined | Some xs \<Rightarrow> Inr (join [CHR 0x0A] xs))"

definition fromLimits :: "WireLimits \<Rightarrow> FormState result" where
  "fromLimits limits =
     bindR (join_lines (wl_allowedContracts limits)) (\<lambda>contracts.
     bindR (join_lines (wl_allowedRecipients limits)) (\<lambda>recipients.
       Inr \<lparr>fs_maxTransaction = toDisplay (wl_maxTransaction limits), fs_dailySpend = toDisplay (wl_dailySpend limits),
         fs_approvalThreshold = toDisplay (wl_approvalThreshold limits), fs_minBalance = toDisplay (wl_minBalance limits),
         fs_allowedContracts = contracts, fs_allowedRecipients = recipients\<rparr>))"

text \<open>A JSON value at the declared type of the limits.\<close>

definition json_strings :: "json \<Rightarrow> string list option" where
  "json_strings j = (case j of JArr vs \<Rightarrow> Some (List.map_filter json_text vs) | _ \<Rightarrow> None)"

definition read_limits :: "json \<Rightarrow> WireLimits option" where
  "read_limits j = (case (member ''maxTransaction'' j, member ''dailySpend'' j, member ''approvalThreshold'' j, member ''minBalance'' j,
       member ''allowedContracts'' j, member ''allowedRecipients'' j) of
      (Inr (JStr a), Inr (JStr b), Inr (JStr c), Inr (JStr d), Inr e, Inr f) \<Rightarrow>
        Some \<lparr>wl_maxTransaction = a, wl_dailySpend = b, wl_approvalThreshold = c, wl_minBalance = d,
          wl_allowedContracts = json_strings e, wl_allowedRecipients = json_strings f\<rparr>
    | _ \<Rightarrow> None)"

text \<open>\<^verbatim>\<open>a?.k\<close> and \<^verbatim>\<open>a ?? b\<close>.\<close>

definition opt_member :: "string \<Rightarrow> json \<Rightarrow> json" where
  "opt_member k j = (case member k j of Inl _ \<Rightarrow> JUndefined | Inr v \<Rightarrow> v)"

definition coalesce :: "json \<Rightarrow> json \<Rightarrow> json" where
  "coalesce a b = (if a = JNull \<or> a = JUndefined then b else a)"

definition extractLimits :: "json \<Rightarrow> json" where
  "extractLimits policy =
     (if \<not> is_object policy then JUndefined
      else coalesce (opt_member ''policies'' (opt_member ''document'' policy)) (opt_member ''policies'' policy))"

text \<open>What the page holds: the form and its two messages.\<close>

record Settings =
  se_form :: FormState
  se_loadError :: "string option"
  se_saveError :: "string option"
  se_saved :: "json option"

definition settings_load :: "'w fetch \<Rightarrow> (js_error \<Rightarrow> bool) \<Rightarrow> string \<Rightarrow> Settings \<Rightarrow> 'w \<Rightarrow> Settings result \<times> 'w" where
  "settings_load fetch timeout agent s0 w =
     (let s = s0\<lparr>se_loadError := None, se_saveError := None, se_saved := None\<rparr> in
      case api_policy fetch timeout agent w of
        (ApiFailed e _, w') \<Rightarrow> (Inr (s\<lparr>se_loadError := Some e\<rparr>), w')
      | (ApiOk v, w') \<Rightarrow>
          (case read_limits (extractLimits (opt_member ''policy'' v)) of
             None \<Rightarrow> (Inr (s\<lparr>se_loadError := Some ''The API response had no policies block to read.''\<rparr>), w')
           | Some limits \<Rightarrow> (bindR (fromLimits limits) (\<lambda>f. Inr (s\<lparr>se_form := f\<rparr>)), w')))"

definition requireAddresses :: "string \<Rightarrow> string \<Rightarrow> string list result" where
  "requireAddresses text label =
     (let entries = parseAddressList text in
      case find (\<lambda>entry. \<not> is_address entry) entries of
        Some bad \<Rightarrow> Inl (ErrorMessage (label @ '': '' @ [CHR 0x22] @ bad @ [CHR 0x22] @ '' is not a 20-byte address''))
      | None \<Rightarrow> Inr entries)"

definition settings_patch :: "FormState \<Rightarrow> json result" where
  "settings_patch form =
     bindR (toBaseUnits (fs_maxTransaction form)) (\<lambda>a.
     bindR (toBaseUnits (fs_dailySpend form)) (\<lambda>b.
     bindR (toBaseUnits (fs_approvalThreshold form)) (\<lambda>c.
     bindR (toBaseUnits (fs_minBalance form)) (\<lambda>d.
     bindR (requireAddresses (fs_allowedContracts form) ''Allowed contracts'') (\<lambda>e.
     bindR (requireAddresses (fs_allowedRecipients form) ''Allowed recipients'') (\<lambda>f.
       Inr (JObj [(''maxTransaction'', JStr a), (''dailySpend'', JStr b), (''approvalThreshold'', JStr c), (''minBalance'', JStr d),
         (''allowedContracts'', JArr (map JStr e)), (''allowedRecipients'', JArr (map JStr f))])))))))"

text \<open>\<open>message\<close> is \<^verbatim>\<open>error.message\<close>.\<close>

definition settings_submit :: "'w fetch \<Rightarrow> (js_error \<Rightarrow> bool) \<Rightarrow> (js_error \<Rightarrow> string) \<Rightarrow> Settings \<Rightarrow> 'w \<Rightarrow> Settings result \<times> 'w" where
  "settings_submit fetch timeout message s0 w =
     (let s = s0\<lparr>se_saveError := None, se_saved := None\<rparr> in
      case settings_patch (se_form s) of
        Inl e \<Rightarrow> (Inr (s\<lparr>se_saveError := Some (message e)\<rparr>), w)
      | Inr patch \<Rightarrow>
          (case api_updatePolicy fetch timeout patch w of
             (ApiFailed e _, w') \<Rightarrow> (Inr (s\<lparr>se_saveError := Some e\<rparr>), w')
           | (ApiOk v, w') \<Rightarrow>
               (case read_limits (opt_member ''policy'' v) of
                  None \<Rightarrow> (Inl TypeErrorUndefined, w')
                | Some limits \<Rightarrow> (bindR (fromLimits limits) (\<lambda>f. Inr (s\<lparr>se_saved := Some v, se_form := f\<rparr>)), w'))))"

section \<open>Properties\<close>

lemma is_address_chars:
  assumes "is_address a" and "c \<in> set a"
  shows "\<not> is_space c" and "c \<noteq> CHR '',''" and "c \<noteq> CHR 0x0A"
proof -
  have "set a \<subseteq> set (take 2 a) \<union> set (drop 2 a)" using set_append [of "take 2 a" "drop 2 a"] by simp
  then have "c = CHR ''0'' \<or> c = CHR ''x'' \<or> is_hex_digit c"
    using assms by (auto simp: is_address_def isHex_def list_all_iff)
  then show "\<not> is_space c" "c \<noteq> CHR '',''" "c \<noteq> CHR 0x0A" by (auto simp: is_hex_digit_def is_space_def Let_def)
qed

lemma splitOn_join: "xs \<noteq> [] \<Longrightarrow> \<forall>x \<in> set xs. c \<notin> set x \<Longrightarrow> splitOn c (join [c] xs) = xs"
  by (induction "[c]" xs rule: join.induct) (simp_all add: splitOn_free splitOn_once)

lemma parseAddressList_join:
  assumes "list_all is_address xs"
  shows "parseAddressList (join [CHR 0x0A] xs) = xs"
proof (cases "xs = []")
  case False
  have a: "is_address x" if "x \<in> set xs" for x using assms that by (simp add: list_all_iff)
  have "splitOn (CHR 0x0A) (join [CHR 0x0A] xs) = xs"
    using False is_address_chars(3) [OF a] by (intro splitOn_join) auto
  moreover have "concat (map (splitOn (CHR '','')) xs) = xs"
  proof -
    have "map (splitOn (CHR '','')) xs = map (\<lambda>x. [x]) xs"
      using is_address_chars(2) [OF a] by (intro map_cong refl splitOn_free) auto
    then show ?thesis by (simp only: concat_map_singleton) simp
  qed
  moreover have "map trim xs = xs" using is_address_chars(1) [OF a] by (intro map_idI trim_id) auto
  moreover have "filter (\<lambda>l. l \<noteq> []) xs = xs" using assms by (intro filter_True) (auto simp: is_address_def list_all_iff)
  moreover have "(char_of (10 :: nat) :: char) = CHR 0x0A" by code_simp
  ultimately show ?thesis by (simp add: parseAddressList_def)
qed (simp add: parseAddressList_def trim_def trimEnd_def)

lemma requireAddresses_join: "list_all is_address xs \<Longrightarrow> requireAddresses (join [CHR 0x0A] xs) label = Inr xs"
  using find_None_iff [of "\<lambda>entry. \<not> is_address entry" xs]
  by (simp add: requireAddresses_def parseAddressList_join list_all_iff Let_def)

lemma toBaseUnits_display_dec: "toBaseUnits (toDisplay (to_dec n)) = Inr (to_dec n)"
  by (simp add: toBaseUnits_toDisplay to_dec_all)

text \<open>The limits as the page receives them.\<close>

lemma read_limits_json:
  assumes "pl_maxTransaction p = Some a" "pl_dailySpend p = Some b" "pl_approvalThreshold p = Some c" "pl_minBalance p = Some d"
  shows "read_limits (strip_json (limits_json p)) = Some \<lparr>wl_maxTransaction = a, wl_dailySpend = b, wl_approvalThreshold = c,
     wl_minBalance = d, wl_allowedContracts = pl_allowedContracts p, wl_allowedRecipients = pl_allowedRecipients p\<rparr>"
proof -
  have "List.map_filter json_text (map (strip_json \<circ> JStr) l) = l" for l
    by (induction l) (simp_all add: map_filter_simps json_text_def)
  then show ?thesis using assms
    by (cases "pl_allowedContracts p"; cases "pl_allowedRecipients p")
      (simp_all add: read_limits_def limits_json_def opt_str_def opt_list_def member_def json_strings_def)
qed

lemma normalizeAddress_lower: "is_address v \<Longrightarrow> normalizeAddress (toLowerCase v) = normalizeAddress v"
  using normalizeAddress_idem [of v "toLowerCase v"] by (simp add: normalizeAddress_def)

lemma addressSet_lower: "list_all is_address xs \<Longrightarrow> addressSet (map toLowerCase xs @ ys) = addressSet (xs @ ys)"
proof -
  assume "list_all is_address xs"
  then have "mapR normalizeAddress (map toLowerCase xs @ ys) = mapR normalizeAddress (xs @ ys)"
    by (induction xs) (simp_all add: normalizeAddress_lower)
  then show ?thesis by (simp add: addressSet_def)
qed

lemma addressSet_is_address: "addressSet vs = Inr l \<Longrightarrow> list_all is_address vs"
  by (auto simp: addressSet_Inr list_all_iff normalizeAddress_def dest!: list_all2_in_set1 split: if_splits)

definition lowered :: "PolicyDocument \<Rightarrow> PolicyDocument" where
  "lowered d = d\<lparr>doc_policies := (doc_policies d)\<lparr>
     pl_allowedContracts := map_option (map toLowerCase) (pl_allowedContracts (doc_policies d)),
     pl_allowedRecipients := map_option (map toLowerCase) (pl_allowedRecipients (doc_policies d))\<rparr>\<rparr>"

lemma resolvePolicy_addresses:
  assumes "resolvePolicy d = Inr r" and "pl_allowedContracts (doc_policies d) = Some cs" and "pl_allowedRecipients (doc_policies d) = Some rs"
  shows "list_all is_address cs" and "list_all is_address rs"
  using assms addressSet_is_address [of "cs @ [doc_assetAddress d]"] addressSet_is_address [of rs]
  by (auto simp: resolvePolicy_def Let_def bindR_eq_Inr split: if_splits)

lemma resolvePolicy_lowered:
  assumes r: "resolvePolicy d = Inr r" and c: "pl_allowedContracts (doc_policies d) = Some cs"
    and s: "pl_allowedRecipients (doc_policies d) = Some rs"
  shows "resolvePolicy (lowered d) = Inr (r\<lparr>rp_document := lowered d, rp_hash := policyHash (lowered d)\<rparr>)"
proof -
  have l: "addressSet (map toLowerCase cs @ ys) = addressSet (cs @ ys)" "addressSet (map toLowerCase rs) = addressSet rs" for ys
    using addressSet_lower resolvePolicy_addresses [OF r c s] addressSet_lower [of rs "[]"] by simp_all
  have f: "doc_version (lowered d) = doc_version d" "doc_assetAddress (lowered d) = doc_assetAddress d"
    "doc_assetDecimals (lowered d) = doc_assetDecimals d" "doc_account (lowered d) = doc_account d" "doc_hook (lowered d) = doc_hook d"
    "pl_maxTransaction (doc_policies (lowered d)) = pl_maxTransaction (doc_policies d)"
    "pl_dailySpend (doc_policies (lowered d)) = pl_dailySpend (doc_policies d)"
    "pl_approvalThreshold (doc_policies (lowered d)) = pl_approvalThreshold (doc_policies d)"
    "pl_minBalance (doc_policies (lowered d)) = pl_minBalance (doc_policies d)"
    "pl_allowedContracts (doc_policies (lowered d)) = Some (map toLowerCase cs)"
    "pl_allowedRecipients (doc_policies (lowered d)) = Some (map toLowerCase rs)"
    using c s by (simp_all add: lowered_def)
  show ?thesis using r unfolding resolvePolicy_def f Let_def bindR_eq_Inr
    by (auto simp: bindR_eq_Inr c s l split: if_splits)
qed


lemma list_all_digit_no_space: "list_all is_digit s \<Longrightarrow> c \<in> set s \<Longrightarrow> \<not> is_space c"
  by (auto simp: list_all_iff is_digit_def is_space_def Let_def)

lemma padded_display:
  assumes "trim s = to_dec n" and "s \<noteq> trim s"
  shows "toDisplay s = s" and "toBaseUnits s = Inr (to_dec (n * 10 ^ 6))"
proof -
  have "\<not> list_all is_digit s" using assms(2) trim_id [of s] list_all_digit_no_space [of s] by auto
  then show "toDisplay s = s" by (simp add: toDisplay_def)
  have n: "to_dec n \<noteq> []" "list_all is_digit (to_dec n)" by (simp_all add: to_dec_all)
  have "of_dec (padEnd 6 (CHR ''0'') []) = 0" by (simp add: padEnd_def of_base_def digit_val_def numeral_eq_Suc)
  then have "int (of_dec (to_dec n)) * 10 ^ 6 + int (of_dec (if padEnd 6 (CHR ''0'') [] = [] then ''0'' else padEnd 6 (CHR ''0'') [])) =
      int (n * 10 ^ 6)" by (simp add: padEnd_def)
  then show "toBaseUnits s = Inr (to_dec (n * 10 ^ 6))"
    using assms(1) n is_unsigned_decimal_digits [OF n] whole_fraction_digits [OF n(2)]
    by (simp only: toBaseUnits_def Let_def if_True if_False not_True_eq_False prod.case list.size nat_less_le)
      (simp add: int_to_base_def nat_mult_distrib)
qed

text \<open>
  An amount written with blanks around it is a trap: the policy file may have them, and the limit is then the
  amount itself; but the editor shows such an amount as it stands, in base units, and saving the untouched form
  sends a limit a million times larger.
\<close>

theorem padded_limit_inflated:
  assumes "trim s = to_dec n" and "s \<noteq> trim s" and "10 ^ 6 \<le> n" and "wl_maxTransaction limits = s" and "fromLimits limits = Inr form"
    and "settings_patch form = Inr patch"
  shows "policy_amount ''maxTransaction'' (Some s) = Inr (int n) \<and> member ''maxTransaction'' patch = Inr (JStr (to_dec (n * 10 ^ 6))) \<and>
     policy_amount ''maxTransaction'' (Some (to_dec (n * 10 ^ 6))) = Inr (int n * 10 ^ 6)"
proof -
  have t: "trim (to_dec m) = to_dec m" for m using decimal_trim [OF to_dec_all to_dec_all] by blast
  have "parseBaseUnitPolicyAmount s = Inr (int n)"
    using assms(1,3) parseBaseUnit_to_dec [of n] by (simp add: parseBaseUnitPolicyAmount_def t Let_def split: if_splits)
  moreover have "fs_maxTransaction form = s"
    using assms(4,5) padded_display(1) [OF assms(1,2)] by (auto simp: fromLimits_def bindR_eq_Inr)
  then have "member ''maxTransaction'' patch = Inr (JStr (to_dec (n * 10 ^ 6)))"
    using assms(6) padded_display(2) [OF assms(1,2)] by (auto simp: settings_patch_def bindR_eq_Inr member_def or_else_def)
  moreover have "parseBaseUnitPolicyAmount (to_dec (n * 10 ^ 6)) = Inr (int n * 10 ^ 6)"
    using assms(3) by (simp add: parseBaseUnit_to_dec)
  ultimately show ?thesis by (simp add: policy_amount_def)
qed

section \<open>Witnesses\<close>

lemma sample_amount_texts:
  "to_dec 100000000 = ''100000000''" "to_dec 500000000 = ''500000000''" "to_dec 80000000 = ''80000000''" "to_dec 0 = ''0''"
  using to_dec_of_dec [of "''100000000''"] to_dec_of_dec [of "''500000000''"] to_dec_of_dec [of "''80000000''"]
  by (simp_all add: of_base_def digit_val_def is_digit_def to_base.simps [of 10 0])

definition sample_editable :: PolicyDocument where
  "sample_editable = sample_document\<lparr>doc_policies := sample_limits\<lparr>pl_allowedRecipients := Some []\<rparr>\<rparr>"

lemma sample_editable_resolves:
  "resolvePolicy sample_editable = Inr (sample_policy\<lparr>rp_document := sample_editable, rp_hash := policyHash sample_editable\<rparr>)"
proof -
  have f: "doc_version sample_editable = doc_version sample_document" "doc_assetAddress sample_editable = doc_assetAddress sample_document"
    "doc_assetDecimals sample_editable = doc_assetDecimals sample_document" "doc_account sample_editable = doc_account sample_document"
    "doc_hook sample_editable = doc_hook sample_document"
    "pl_maxTransaction (doc_policies sample_editable) = pl_maxTransaction (doc_policies sample_document)"
    "pl_dailySpend (doc_policies sample_editable) = pl_dailySpend (doc_policies sample_document)"
    "pl_approvalThreshold (doc_policies sample_editable) = pl_approvalThreshold (doc_policies sample_document)"
    "pl_minBalance (doc_policies sample_editable) = pl_minBalance (doc_policies sample_document)"
    "pl_allowedContracts (doc_policies sample_editable) = pl_allowedContracts (doc_policies sample_document)"
    "pl_allowedRecipients (doc_policies sample_editable) = Some []" "pl_allowedRecipients (doc_policies sample_document) = None"
    by (simp_all add: sample_editable_def sample_document_def sample_limits_def)
  have "resolvePolicy sample_document = Inr r \<Longrightarrow>
      resolvePolicy sample_editable = Inr (r\<lparr>rp_document := sample_editable, rp_hash := policyHash sample_editable\<rparr>)" for r
    unfolding resolvePolicy_def f Let_def bindR_eq_Inr by (auto simp: bindR_eq_Inr split: if_splits option.splits)
  then show ?thesis using sample_policy_resolves .
qed


theorem padded_limit_inflated_witness:
  "\<exists>form patch. fromLimits \<lparr>wl_maxTransaction = '' 100000000'', wl_dailySpend = ''500000000'', wl_approvalThreshold = ''80000000'',
       wl_minBalance = ''0'', wl_allowedContracts = Some [], wl_allowedRecipients = Some []\<rparr> = Inr form \<and>
     settings_patch form = Inr patch \<and> member ''maxTransaction'' patch = Inr (JStr (to_dec (100000000 * 10 ^ 6)))"
proof -
  let ?l = "\<lparr>wl_maxTransaction = '' 100000000'', wl_dailySpend = ''500000000'', wl_approvalThreshold = ''80000000'',
       wl_minBalance = ''0'', wl_allowedContracts = Some [], wl_allowedRecipients = Some []\<rparr>"
  have t: "trim '' 100000000'' = to_dec 100000000" unfolding sample_amount_texts by (simp add: trim_def trimEnd_def is_space_def)
  have n: "'' 100000000'' \<noteq> trim '' 100000000''" by (simp add: trim_def trimEnd_def is_space_def)
  let ?f = "\<lparr>fs_maxTransaction = toDisplay '' 100000000'', fs_dailySpend = toDisplay ''500000000'',
    fs_approvalThreshold = toDisplay ''80000000'', fs_minBalance = toDisplay ''0'', fs_allowedContracts = [], fs_allowedRecipients = []\<rparr>"
  have "fromLimits ?l = Inr ?f" by (simp add: fromLimits_def join_lines_def)
  then obtain form where f: "fromLimits ?l = Inr form" "fs_maxTransaction form = '' 100000000''"
    "fs_dailySpend form = toDisplay ''500000000''" "fs_approvalThreshold form = toDisplay ''80000000''" "fs_minBalance form = toDisplay ''0''"
    "fs_allowedContracts form = []" "fs_allowedRecipients form = []"
    using padded_display(1) [OF t n] by (metis FormState.select_convs)
  have "requireAddresses [] k = Inr []" for k using requireAddresses_join [of "[]" k] by simp
  then obtain patch where p: "settings_patch form = Inr patch"
    using f padded_display(2) [OF t n] toBaseUnits_display_dec [of 500000000] toBaseUnits_display_dec [of 80000000] toBaseUnits_display_dec [of 0]
    unfolding sample_amount_texts by (simp add: settings_patch_def)
  with padded_limit_inflated [OF t n _ _ f(1) p] f(1) show ?thesis by auto
qed

end
