(* ===== verification/ConsoleVerify.thy ===== *)
theory ConsoleVerify
  imports ConsoleSettings X402Client
begin

text \<open>
  The console's own verify route, \<^verbatim>\<open>apps/console/app/api/v1/verify/route.ts\<close>: it answers the API's payment
  challenge with the operator's Hedera account, and otherwise passes the request on. The network, the vendor's
  signing scheme, \<^verbatim>\<open>JSON.parse\<close> and the environment are parameters.
\<close>

section \<open>The route\<close>

record 'w ProxyPlatform =
  px_env :: "string \<Rightarrow> string option"
  px_parse :: "string \<Rightarrow> json result"
  px_parseHeader :: "string \<Rightarrow> json result"
  px_attempt :: "string \<Rightarrow> json \<Rightarrow> string option \<Rightarrow> ('w, FetchResponse) io"
  px_forward :: "string \<Rightarrow> (string \<times> string) list \<Rightarrow> string \<Rightarrow> ('w, nat \<times> string) io"
  px_scheme :: "string \<Rightarrow> string \<Rightarrow> string \<Rightarrow> json \<Rightarrow> ('w, json) io"
  px_message :: "js_error \<Rightarrow> string"
  px_shown :: "js_error \<Rightarrow> string"

datatype ProxyBody = JsonBody json | TextBody string

record ProxyReply =
  py_status :: nat
  py_body :: ProxyBody

definition API_URL :: "(string \<Rightarrow> string option) \<Rightarrow> string" where
  "API_URL env = (case env ''AGENTPROOF_API_URL'' of Some u \<Rightarrow> u
     | None \<Rightarrow> or_else (env ''API_PUBLIC_URL'') ''http://127.0.0.1:8402'')"

definition payer :: "'w ProxyPlatform \<Rightarrow> (ClientRequirements \<Rightarrow> ('w, string) io) option" where
  "payer pf = (case (env_set (px_env pf) ''HEDERA_ACCOUNT_ID'', env_set (px_env pf) ''HEDERA_PRIVATE_KEY'') of
      (Some accountId, Some privateKey) \<Rightarrow> Some (hedera_signPayment (px_scheme pf accountId privateKey
        (if px_env pf ''HEDERA_NETWORK'' = Some ''mainnet'' then ''mainnet'' else ''testnet'')))
    | _ \<Rightarrow> None)"

definition forward :: "'w ProxyPlatform \<Rightarrow> string option \<Rightarrow> string \<Rightarrow> string option \<Rightarrow> ('w, nat \<times> string) io" where
  "forward pf cookie body payment = px_forward pf (API_URL (px_env pf) @ ''/v1/verify'')
     ([(''Content-Type'', ''application/json'')] @ (case cookie of Some c \<Rightarrow> if c = [] then [] else [(''cookie'', c)] | None \<Rightarrow> []) @
      (case payment of Some p \<Rightarrow> if p = [] then [] else [(''X-PAYMENT'', p)] | None \<Rightarrow> [])) body"

definition proxy_client :: "'w ProxyPlatform \<Rightarrow> (ClientRequirements \<Rightarrow> ('w, string) io) \<Rightarrow> 'w X402ClientOptions" where
  "proxy_client pf signer = \<lparr>xc_attempt = px_attempt pf, xc_signPayment = signer, xc_authorise = None, xc_policyContext = None,
     xc_maxPricePerCall = Some (or_else (px_env pf ''X402_MAX_PRICE_ATOMIC'') ''1000000'')\<rparr>"

text \<open>\<^verbatim>\<open>{...data, settlement}\<close>; spreading anything but an object adds no member.\<close>

definition settlement_json :: "PaidResult \<Rightarrow> json" where
  "settlement_json r = (if pd_paid r then JObj [(''paid'', JBool True), (''transactionId'', opt_json (pd_transactionId r))] else JUndefined)"

definition with_settlement :: "PaidResult \<Rightarrow> json" where
  "with_settlement r = JObj (assign (case pd_data r of JObj es \<Rightarrow> es | _ \<Rightarrow> []) [(''settlement'', settlement_json r)])"

definition unpaid_reply :: "string \<Rightarrow> (nat \<times> string) result \<Rightarrow> ProxyReply" where
  "unpaid_reply reason unpaid = (case unpaid of
      Inl _ \<Rightarrow> \<lparr>py_status = 502, py_body = JsonBody (JObj [(''error'', JStr (''payment failed and the API is unreachable: '' @ reason))])\<rparr>
    | Inr (status, text) \<Rightarrow>
        if status = 402 then \<lparr>py_status = 402, py_body = JsonBody (JObj [(''error'', JStr (''this verification could not be paid for: '' @ reason))])\<rparr>
        else \<lparr>py_status = status, py_body = TextBody text\<rparr>)"

definition refusal_reason :: "'w ProxyPlatform \<Rightarrow> js_error \<Rightarrow> string" where
  "refusal_reason pf e = (case e of PaymentRefused _ \<Rightarrow> px_message pf e | _ \<Rightarrow> px_shown pf e)"

definition proxy_verify :: "'w ProxyPlatform \<Rightarrow> string option \<Rightarrow> string \<Rightarrow> ('w, ProxyReply) io" where
  "proxy_verify pf cookie body =
     bind_io (lift_io (px_parse pf body)) (\<lambda>parsed.
       case payer pf of
         Some signer \<Rightarrow> (\<lambda>w.
           case fetchPaid (px_parseHeader pf) (proxy_client pf signer) (API_URL (px_env pf) @ ''/v1/verify'') parsed w of
             (Inr r, w') \<Rightarrow> (Inr \<lparr>py_status = 200, py_body = JsonBody (with_settlement r)\<rparr>, w')
           | (Inl e, w') \<Rightarrow> (let (unpaid, w'') = forward pf cookie body None w' in (Inr (unpaid_reply (refusal_reason pf e) unpaid), w'')))
       | None \<Rightarrow> (\<lambda>w.
           case forward pf cookie body None w of
             (Inr (status, text), w') \<Rightarrow> (Inr \<lparr>py_status = status, py_body = TextBody text\<rparr>, w')
           | (Inl e, w') \<Rightarrow> (Inr \<lparr>py_status = 502, py_body = JsonBody (JObj [(''error'', JStr (px_message pf e))])\<rparr>, w')))"

section \<open>Properties\<close>

lemma with_settlement_member: "member ''settlement'' (with_settlement r) = Inr (settlement_json r)"
  by (simp add: with_settlement_def member_def assign_def update_conv' or_else_def)

text \<open>
  (C17) A settlement the page shows was paid, once and under the ceiling: when the route's answer carries a
  settlement, an operator account is configured, the API had challenged the request, the price it asked is within
  the ceiling (where both read as numbers), one payload was signed for it and sent, and the paid answer came back
  with a success status and nothing was called after it.
\<close>

theorem proxy_settlement_paid:
  assumes "proxy_verify pf cookie body w = (Inr reply, w')" and "py_body reply = JsonBody j" and "member ''settlement'' j = Inr (JObj es)"
  shows "\<exists>parsed signer first requirements rest w1 w2 payload second. px_parse pf body = Inr parsed \<and> payer pf = Some signer \<and>
     px_attempt pf (API_URL (px_env pf) @ ''/v1/verify'') parsed None w = (Inr first, w1) \<and> fr_status first = 402 \<and>
     fr_accepts first = Some (requirements # rest) \<and>
     (\<forall>a c m. or_else (px_env pf ''X402_MAX_PRICE_ATOMIC'') ''1000000'' = m \<and> m \<noteq> [] \<and> js_Number (cq_amount requirements) = Finite a \<and>
        js_Number m = Finite c \<longrightarrow> a \<le> c) \<and>
     signer requirements w1 = (Inr payload, w2) \<and>
     px_attempt pf (API_URL (px_env pf) @ ''/v1/verify'') parsed (Some payload) w2 = (Inr second, w') \<and>
     200 \<le> fr_status second \<and> fr_status second < 300 \<and> py_status reply = 200"
proof -
  from assms(1) obtain parsed where parsed: "px_parse pf body = Inr parsed" by (auto simp: proxy_verify_def bind_io_Inr lift_io_def)
  have u: "member ''settlement'' j \<noteq> Inr (JObj es)" if "py_body (unpaid_reply x y) = JsonBody j" for x y
    using that by (auto simp: unpaid_reply_def member_def or_else_def split: sum.splits prod.splits if_splits)
  obtain signer where signer: "payer pf = Some signer"
  proof (cases "payer pf")
    case None
    with assms parsed have False
      by (auto simp: proxy_verify_def bind_io_def member_def or_else_def split: sum.splits prod.splits)
    then show ?thesis ..
  qed blast
  let ?opts = "proxy_client pf signer"
  obtain r where r: "fetchPaid (px_parseHeader pf) ?opts (API_URL (px_env pf) @ ''/v1/verify'') parsed w = (Inr r, w')"
    and reply: "reply = \<lparr>py_status = 200, py_body = JsonBody (with_settlement r)\<rparr>"
  proof (cases "fetchPaid (px_parseHeader pf) ?opts (API_URL (px_env pf) @ ''/v1/verify'') parsed w")
    case (Pair x w1)
    show ?thesis
    proof (cases x)
      case (Inl e)
      then have "\<exists>y z. reply = unpaid_reply y z"
        using assms(1) parsed signer Pair by (auto simp: proxy_verify_def bind_io_def Let_def split: prod.splits)
      then show ?thesis using u assms(2,3) by blast
    next
      case (Inr r)
      then show ?thesis using that [of r] assms(1) parsed signer Pair by (simp add: proxy_verify_def bind_io_def)
    qed
  qed
  have "settlement_json r = JObj es" using assms(2,3) reply with_settlement_member [of r] by simp
  then have "pd_paid r" by (auto simp: settlement_json_def split: if_splits)
  from fetchPaid_paid [OF r this] show ?thesis
    using parsed signer reply by (auto simp: proxy_client_def checkPolicy_def)
qed

text \<open>
  With an operator account configured the route hides the API's failures: any answer other than a payment
  challenge, an error status included, is passed on as a success with the same members.
\<close>

theorem proxy_masks_errors:
  assumes "px_parse pf body = Inr parsed" and "payer pf = Some signer"
    and "px_attempt pf (API_URL (px_env pf) @ ''/v1/verify'') parsed None w = (Inr response, w')"
    and "fr_status response \<noteq> 402" and "fr_json response = Inr (JObj es)"
  shows "\<exists>es'. proxy_verify pf cookie body w = (Inr \<lparr>py_status = 200, py_body = JsonBody (JObj es')\<rparr>, w') \<and>
     (\<forall>k. k \<noteq> ''settlement'' \<longrightarrow> map_of es' k = map_of es k) \<and> map_of es' ''settlement'' = Some JUndefined"
proof -
  let ?r = "\<lparr>pd_data = JObj es, pd_paid = False, pd_transactionId = None\<rparr>"
  have "fetchPaid (px_parseHeader pf) (proxy_client pf signer) (API_URL (px_env pf) @ ''/v1/verify'') parsed w = (Inr ?r, w')"
    using assms(3-5) by (simp add: fetchPaid_def bind_io_def proxy_client_def)
  then have "proxy_verify pf cookie body w = (Inr \<lparr>py_status = 200, py_body = JsonBody (with_settlement ?r)\<rparr>, w')"
    using assms(1,2) by (simp add: proxy_verify_def bind_io_def)
  then show ?thesis by (simp add: with_settlement_def assign_def settlement_json_def update_conv')
qed

section \<open>Witnesses\<close>

definition sample_proxy :: "nat \<Rightarrow> nat ProxyPlatform" where
  "sample_proxy status = \<lparr>px_env = [''HEDERA_ACCOUNT_ID'' \<mapsto> ''0.0.1'', ''HEDERA_PRIVATE_KEY'' \<mapsto> ''k''], px_parse = (\<lambda>_. Inr JNull),
     px_parseHeader = (\<lambda>_. Inr JNull),
     px_attempt = (\<lambda>_ _ payment w. (Inr \<lparr>fr_status = (if payment = None then status else 200), fr_json = Inr (JObj [(''error'', JStr ''no'')]),
       fr_accepts = Some [sample_challenge], fr_paymentResponse = None\<rparr>, w)),
     px_forward = (\<lambda>_ _ _ w. (Inr (200, []), w)), px_scheme = (\<lambda>_ _ _ _ w. (Inr JNull, w + 1)), px_message = (\<lambda>_. []), px_shown = (\<lambda>_. [])\<rparr>"

lemma sample_payer: "payer (sample_proxy status) = Some (hedera_signPayment (\<lambda>_ w. (Inr JNull, w + 1)))"
  by (simp add: payer_def sample_proxy_def env_set_def)

theorem proxy_settlement_paid_witness:
  "\<exists>reply w' j es payload. proxy_verify (sample_proxy 402) None ''{}'' 0 = (Inr reply, w') \<and> py_body reply = JsonBody j \<and>
     member ''settlement'' j = Inr (JObj es) \<and> hedera_signPayment (\<lambda>_ w. (Inr JNull, w + 1)) sample_challenge 0 = (Inr payload, 1 :: nat)"
proof -
  have price: "js_Number ''1000000'' = Finite 1000000" by (simp add: js_Number_digits is_digit_def of_base_def digit_val_def)
  have big: "bigint_of_string ''10000'' = Inr 10000"
    by (simp add: bigint_of_string_def trim_def trimEnd_def is_space_def in_base_def is_hex_digit_def toLowerCase_def lower_char_def
        of_base_def digit_val_def)
  obtain reply w' j es where p: "proxy_verify (sample_proxy 402) None ''{}'' 0 = (Inr reply, w')" "py_body reply = JsonBody j"
    "member ''settlement'' j = Inr (JObj es)"
    by (simp add: proxy_verify_def bind_io_def sample_payer fetchPaid_def)
      (simp add: sample_proxy_def proxy_client_def checkPrice_def checkPolicy_def or_else_def price sample_prices sample_challenge_amount
        hedera_signPayment_def bind_io_def big second_attempt_def with_settlement_member settlement_json_def)
  from proxy_settlement_paid [OF p] obtain signer requirements rest w1 w2 payload where
    s: "payer (sample_proxy 402) = Some signer" "signer requirements w1 = (Inr payload, w2)" by blast
  have "\<exists>payload. hedera_signPayment (\<lambda>_ w. (Inr JNull, w + 1)) sample_challenge 0 = (Inr payload, 1 :: nat)"
    by (simp add: hedera_signPayment_def bind_io_def sample_challenge_amount big)
  with p show ?thesis by blast
qed

theorem proxy_masks_errors_witness:
  "\<exists>es'. proxy_verify (sample_proxy 400) None ''{}'' 0 = (Inr \<lparr>py_status = 200, py_body = JsonBody (JObj es')\<rparr>, 0) \<and>
     map_of es' ''error'' = Some (JStr ''no'')"
proof -
  have p: "px_parse (sample_proxy 400) ''{}'' = Inr JNull" by (simp add: sample_proxy_def)
  let ?r = "\<lparr>fr_status = 400, fr_json = Inr (JObj [(''error'', JStr ''no'')]), fr_accepts = Some [sample_challenge], fr_paymentResponse = None\<rparr>"
  have a: "px_attempt (sample_proxy 400) u b None 0 = (Inr ?r, 0)" for u b by (simp add: sample_proxy_def)
  have r: "fr_status ?r \<noteq> 402" "fr_json ?r = Inr (JObj [(''error'', JStr ''no'')])" by simp_all
  obtain es' where e: "proxy_verify (sample_proxy 400) None ''{}'' 0 = (Inr \<lparr>py_status = 200, py_body = JsonBody (JObj es')\<rparr>, 0)"
    and m: "\<forall>k. k \<noteq> ''settlement'' \<longrightarrow> map_of es' k = map_of [(''error'', JStr ''no'')] k"
    using proxy_masks_errors [OF p sample_payer a r, of None] by blast
  from m have "map_of es' ''error'' = Some (JStr ''no'')" by simp
  with e show ?thesis by blast
qed

end
