(* ===== verification/ConsoleBench.thy ===== *)
theory ConsoleBench
  imports ConsoleSettings
begin

text \<open>
  The two pages that put prepared actions in front of the policy: the attack bench
  (\<^verbatim>\<open>apps/console/components/AttackBench.tsx\<close>) and the self-playing demonstration
  (\<^verbatim>\<open>components/LiveDemo.tsx\<close>). Their presets, the actions they build with the SDK's encoders and the state of
  the bench are modelled; what they promise about each preset is compared with the engine under the policy the
  repository ships (\<^verbatim>\<open>agent.policy.json\<close>).
\<close>

section \<open>Actions\<close>

definition WETH_SEPOLIA :: Address where "WETH_SEPOLIA = ''0xfff9976782d46cc05630d1f6ebab18b2324d6b14''"

definition ATTACKER :: Address where "ATTACKER = ''0x000000000000000000000000000000000000dead''"

datatype Template = swap_in | swap_out | template_transfer | template_approve | unlimited_approve

record BenchAddrs =
  ba_asset :: string
  ba_router :: string
  ba_account :: string
  ba_agent :: string

definition FALLBACK :: BenchAddrs where
  "FALLBACK = \<lparr>ba_asset = ''0x1c7d4b196cb0c7b01d743fbc6116a902379c7238'', ba_router = ''0x3a9d48ab9751398bbfa63ad67599bb04e4bdf98b'',
     ba_account = ''0x00000000000000000000000000000000000000a1'', ba_agent = ''trader.agentproof.eth''\<rparr>"

text \<open>\<^verbatim>\<open>s || '0'\<close>; \<^verbatim>\<open>BigInt\<close> of the empty string is 0 as well.\<close>

definition or_zero :: "string \<Rightarrow> string" where
  "or_zero s = (if s = [] then ''0'' else s)"

definition bench_toBaseUnits :: "string \<Rightarrow> int result" where
  "bench_toBaseUnits amountUsdc =
     (let parts = splitOn (CHR ''.'') amountUsdc;
          whole = (case parts of [] \<Rightarrow> ''0'' | w # _ \<Rightarrow> w);
          frac = (case parts of _ # f # _ \<Rightarrow> f | _ \<Rightarrow> [])
      in bindR (bigint_of_string (or_zero whole)) (\<lambda>w.
         bindR (bigint_of_string (or_zero (take 6 (frac @ ''000000'')))) (\<lambda>f. Inr (w * 1000000 + f))))"

text \<open>What the page learns from the API's health and policy answers.\<close>

definition json_or :: "json \<Rightarrow> string \<Rightarrow> string" where
  "json_or j s = (case j of JStr t \<Rightarrow> t | _ \<Rightarrow> s)"

definition json_first :: "json \<Rightarrow> json" where
  "json_first j = (case j of JArr (v # _) \<Rightarrow> v | _ \<Rightarrow> JUndefined)"

definition bench_health :: "json \<Rightarrow> BenchAddrs \<Rightarrow> BenchAddrs" where
  "bench_health v a = a\<lparr>ba_account := json_or (opt_member ''account'' v) [], ba_agent := json_or (opt_member ''agent'' v) []\<rparr>"

definition bench_policy :: "json \<Rightarrow> BenchAddrs \<Rightarrow> BenchAddrs" where
  "bench_policy v a =
     (let policy = opt_member ''policy'' v; doc = coalesce (opt_member ''document'' policy) policy;
          address = opt_member ''address'' (opt_member ''asset'' doc) in
      case address of
        JStr asset \<Rightarrow> if asset = [] then a
          else a\<lparr>ba_asset := asset,
            ba_router := json_or (json_first (opt_member ''allowedContracts'' (opt_member ''policies'' doc))) (ba_router a),
            ba_account := json_or (json_first (opt_member ''allowedRecipients'' (opt_member ''policies'' doc))) (ba_account a)\<rparr>
      | _ \<Rightarrow> a)"

definition bench_load :: "'w fetch \<Rightarrow> (js_error \<Rightarrow> bool) \<Rightarrow> BenchAddrs \<Rightarrow> 'w \<Rightarrow> (string option \<times> BenchAddrs) \<times> 'w" where
  "bench_load fetch timeout a w =
     (case api_health fetch timeout w of
        (ApiFailed e _, w1) \<Rightarrow> ((Some e, a), w1)
      | (ApiOk v, w1) \<Rightarrow>
          let a1 = bench_health v a in
          (case api_policy fetch timeout (json_or (opt_member ''agent'' v) []) w1 of
             (ApiFailed _ _, w2) \<Rightarrow> ((None, a1), w2)
           | (ApiOk p, w2) \<Rightarrow> ((None, bench_policy p a1), w2)))"

definition swap_params :: "BenchAddrs \<Rightarrow> int \<Rightarrow> int \<Rightarrow> ExactParams" where
  "swap_params a amount bound = \<lparr>xe_recipient = ba_account a, xe_amount = amount, xe_bound = bound, xe_tokenIn = ba_asset a,
     xe_tokenOut = WETH_SEPOLIA, xe_fee = 3000\<rparr>"

definition with_target :: "string \<Rightarrow> Hex result \<Rightarrow> (string \<times> Hex) result" where
  "with_target t d = bindR d (\<lambda>x. Inr (t, x))"

definition buildAction :: "BenchAddrs \<Rightarrow> Template \<Rightarrow> string \<Rightarrow> string \<Rightarrow> (string \<times> Hex) result" where
  "buildAction addrs kind amountUsdc to =
     bindR (bench_toBaseUnits amountUsdc) (\<lambda>amountIn.
       case kind of
         swap_in \<Rightarrow> with_target (ba_router addrs) (encodeSwapExactIn (swap_params addrs amountIn 0))
       | swap_out \<Rightarrow> with_target (ba_router addrs) (encodeSwapExactOut (swap_params addrs 1 amountIn))
       | template_transfer \<Rightarrow> with_target (ba_asset addrs) (encodeErc20Transfer to amountIn)
       | template_approve \<Rightarrow> with_target (ba_asset addrs) (encodeErc20Approve to amountIn)
       | unlimited_approve \<Rightarrow> with_target (ba_asset addrs) (encodeErc20Approve (ba_router addrs) UNLIMITED_APPROVAL))"

section \<open>The presets\<close>

record Preset =
  pr_id :: string
  pr_name :: string
  pr_expect :: string
  pr_template :: Template
  pr_amount :: string
  pr_recipient :: "string option"

definition PRESETS :: "Preset list" where
  "PRESETS =
    [\<lparr>pr_id = ''ordinary'', pr_name = ''A normal trade'', pr_expect = ''Should go through'', pr_template = swap_in,
      pr_amount = ''80'', pr_recipient = None\<rparr>,
     \<lparr>pr_id = ''oversized'', pr_name = ''The AI bets too big'', pr_expect = ''Should be stopped '' @ em_dash @ '' over your limit'',
      pr_template = swap_in, pr_amount = ''250'', pr_recipient = None\<rparr>,
     \<lparr>pr_id = ''approval'', pr_name = ''The AI asks permission'', pr_expect = ''Should pause and wait for you'', pr_template = swap_in,
      pr_amount = ''100'', pr_recipient = None\<rparr>,
     \<lparr>pr_id = ''exact-out'', pr_name = ''The hidden price tag'', pr_expect = ''Should be priced on what it can actually spend'',
      pr_template = swap_out, pr_amount = ''250'', pr_recipient = None\<rparr>,
     \<lparr>pr_id = ''injection'', pr_name = ''The AI gets tricked'', pr_expect = ''Should be stopped '' @ em_dash @ '' unknown recipient'',
      pr_template = template_transfer, pr_amount = ''50'', pr_recipient = Some ATTACKER\<rparr>,
     \<lparr>pr_id = ''unlimited'', pr_name = ''A blank cheque'', pr_expect = ''Should be stopped '' @ em_dash @ '' always'',
      pr_template = unlimited_approve, pr_amount = ''0'', pr_recipient = None\<rparr>]"

text \<open>The click on a preset: the recipient it passes on.\<close>

definition preset_action :: "BenchAddrs \<Rightarrow> Preset \<Rightarrow> (string \<times> Hex) result" where
  "preset_action addrs p = buildAction addrs (pr_template p) (pr_amount p) (case pr_recipient p of Some r \<Rightarrow> r | None \<Rightarrow> ba_account addrs)"

section \<open>LiveDemo.tsx\<close>

datatype SceneKind = scene_swap | scene_transfer | scene_approve

record Scene =
  sc_id :: string
  sc_amount :: string
  sc_kind :: SceneKind
  sc_to :: "string option"
  sc_expect :: Decision

definition SCENES :: "Scene list" where
  "SCENES =
    [\<lparr>sc_id = ''ok'', sc_amount = ''80'', sc_kind = scene_swap, sc_to = None, sc_expect = ALLOW\<rparr>,
     \<lparr>sc_id = ''big'', sc_amount = ''250'', sc_kind = scene_swap, sc_to = None, sc_expect = BLOCK\<rparr>,
     \<lparr>sc_id = ''ask'', sc_amount = ''100'', sc_kind = scene_swap, sc_to = None, sc_expect = REQUIRE_APPROVAL\<rparr>,
     \<lparr>sc_id = ''inject'', sc_amount = ''50'', sc_kind = scene_transfer, sc_to = Some ATTACKER, sc_expect = BLOCK\<rparr>,
     \<lparr>sc_id = ''approve'', sc_amount = ''0'', sc_kind = scene_approve, sc_to = None, sc_expect = BLOCK\<rparr>]"

definition demo_build :: "BenchAddrs \<Rightarrow> Scene \<Rightarrow> (string \<times> Hex) result" where
  "demo_build addrs current =
     bindR (bench_toBaseUnits (sc_amount current)) (\<lambda>units.
       case sc_kind current of
         scene_swap \<Rightarrow> with_target (ba_router addrs) (encodeSwapExactIn (swap_params addrs units 0))
       | scene_transfer \<Rightarrow> with_target (ba_asset addrs) (encodeErc20Transfer (or_else (sc_to current) ATTACKER) units)
       | scene_approve \<Rightarrow> with_target (ba_asset addrs) (encodeErc20Approve (ba_router addrs) UNLIMITED_APPROVAL))"

definition next_scene :: "nat \<Rightarrow> nat" where
  "next_scene previous = (previous + 1) mod length SCENES"

text \<open>What the page shows: the API's decision, or the expected one when there is no verdict.\<close>

definition shown_decision :: "Decision option \<Rightarrow> Scene \<Rightarrow> Decision" where
  "shown_decision verdict scene = or_else verdict (sc_expect scene)"

section \<open>The state of the bench\<close>

record BenchState =
  be_verdict :: "json option"
  be_pending :: "ApprovalCard option"
  be_awaiting :: bool
  be_error :: "string option"
  be_busy :: bool
  be_ran :: "string option"

definition newBench :: BenchState where
  "newBench = \<lparr>be_verdict = None, be_pending = None, be_awaiting = False, be_error = None, be_busy = False, be_ran = None\<rparr>"

definition bench_on_approval :: "int \<Rightarrow> ApprovalCard \<Rightarrow> BenchState \<Rightarrow> BenchState" where
  "bench_on_approval now request s =
     (if \<not> be_awaiting s then s
      else if (case ac_expiresAt request of Some t \<Rightarrow> t \<noteq> 0 \<and> t \<le> now | None \<Rightarrow> False) then s
      else s\<lparr>be_pending := Some request\<rparr>)"

definition secondsLeft :: "int \<Rightarrow> int \<Rightarrow> int" where
  "secondsLeft expiresAt now = max 0 (- ((now - expiresAt) div 1000))"

definition bench_start :: "BenchState \<Rightarrow> BenchState" where
  "bench_start s = s\<lparr>be_busy := True, be_error := None, be_awaiting := True\<rparr>"

definition bench_body :: "BenchAddrs \<Rightarrow> string \<times> Hex \<Rightarrow> json" where
  "bench_body addrs action = JObj [(''agent'', JStr (ba_agent addrs)),
     (''action'', JObj [(''to'', JStr (fst action)), (''data'', JStr (snd action)), (''value'', JStr ''0''), (''chainId'', JNum 11155111)])]"

text \<open>The answer of \<^verbatim>\<open>fetch\<close> after \<^verbatim>\<open>response.json()\<close>: status and body, or the error either threw.\<close>

definition bench_settle :: "(nat \<times> json) result \<Rightarrow> (js_error \<Rightarrow> string) \<Rightarrow> string option \<Rightarrow> BenchState \<Rightarrow> BenchState" where
  "bench_settle response message label s =
     (let s1 = (case response of
          Inl e \<Rightarrow> s\<lparr>be_error := Some (message e)\<rparr>
        | Inr (status, parsed) \<Rightarrow>
            if \<not> (200 \<le> status \<and> status < 300) then
              s\<lparr>be_error := Some (case opt_member ''error'' parsed of JUndefined \<Rightarrow> bigint_to_string (int status)
                | JNull \<Rightarrow> bigint_to_string (int status) | j \<Rightarrow> js_string j)\<rparr>
            else s\<lparr>be_verdict := Some parsed, be_pending := None, be_ran := label\<rparr>)
      in s1\<lparr>be_awaiting := False, be_busy := False, be_pending := None\<rparr>)"

definition bench_answered :: "BenchState \<Rightarrow> BenchState" where
  "bench_answered s = (if be_pending s = None then s else s\<lparr>be_pending := None\<rparr>)"

text \<open>The buttons are disabled while a request is in flight; \<open>answered\<close> follows the call of \<^verbatim>\<open>api.approve\<close>.\<close>

inductive bench_move :: "BenchState \<Rightarrow> BenchState \<Rightarrow> bool" where
  approval: "bench_move s (bench_on_approval now request s)"
| start: "\<not> be_busy s \<Longrightarrow> bench_move s (bench_start s)"
| settle: "be_busy s \<Longrightarrow> bench_move s (bench_settle response message label s)"
| answer: "bench_move s (bench_answered s)"

section \<open>Properties\<close>

lemmas bench_defs = bench_on_approval_def bench_start_def bench_settle_def bench_answered_def newBench_def Let_def

text \<open>
  The bench asks for a decision only while one is awaited: in every reachable state an approval on screen
  belongs to a request still in flight, so replayed approvals of settled requests are never offered again.
\<close>

theorem bench_pending_awaited:
  assumes "bench_move\<^sup>*\<^sup>* newBench s"
  shows "(be_pending s \<noteq> None \<longrightarrow> be_awaiting s) \<and> be_awaiting s = be_busy s"
  using assms
proof (induction rule: rtranclp_induct)
  case base
  then show ?case by (simp add: newBench_def)
next
  case (step s s')
  from step(2,3) show ?case
    by (cases rule: bench_move.cases) (auto simp: bench_defs split: if_splits sum.splits prod.splits option.splits)
qed

section \<open>The shipped policy\<close>

definition shipped_document :: PolicyDocument where
  "shipped_document = \<lparr>doc_version = ''agentproof/v1'', doc_agent = ''trader.agentproof.eth'', doc_chainId = 11155111,
     doc_assetAddress = ''0x1c7d4b196cb0c7b01d743fbc6116a902379c7238'', doc_assetDecimals = 6,
     doc_policies = \<lparr>pl_maxTransaction = Some ''100000000'', pl_dailySpend = Some ''500000000'', pl_approvalThreshold = Some ''100000000'',
       pl_minBalance = Some ''10000000'',
       pl_allowedContracts = Some [''0x3a9d48ab9751398bbfa63ad67599bb04e4bdf98b'', ''0xe03a1074c86cfedd5c142c4f04f1a1536e203543''],
       pl_allowedRecipients = Some [''0x00000000000000000000000000000000000000a1'']\<rparr>,
     doc_hook = ''0xEbB1c3Ae1b502409E64DAA908bd7EDe9cf267E59'', doc_account = ''0x67B9Ee93208914fDD829fdAaF24E87D33f75d441''\<rparr>"

lemma shipped_amounts: "policy_amount k (Some ''100000000'') = Inr 100000000" "policy_amount k (Some ''500000000'') = Inr 500000000"
    "policy_amount k (Some ''10000000'') = Inr 10000000"
  by (simp_all add: policy_amount_def parseBaseUnitPolicyAmount_def trim_def trimEnd_def is_space_def is_digit_def
      of_base_def digit_val_def Let_def)

lemma shipped_addresses:
  "addressSet [''0x3a9d48ab9751398bbfa63ad67599bb04e4bdf98b'', ''0xe03a1074c86cfedd5c142c4f04f1a1536e203543'',
     ''0x1c7d4b196cb0c7b01d743fbc6116a902379c7238''] = Inr [''0x3a9d48ab9751398bbfa63ad67599bb04e4bdf98b'',
     ''0xe03a1074c86cfedd5c142c4f04f1a1536e203543'', ''0x1c7d4b196cb0c7b01d743fbc6116a902379c7238'']"
  "addressSet [''0x00000000000000000000000000000000000000a1''] = Inr [''0x00000000000000000000000000000000000000a1'']"
  "normalizeAddress ''0x1c7d4b196cb0c7b01d743fbc6116a902379c7238'' = Inr ''0x1c7d4b196cb0c7b01d743fbc6116a902379c7238''"
  "normalizeAddress ''0xEbB1c3Ae1b502409E64DAA908bd7EDe9cf267E59'' = Inr ''0xebb1c3ae1b502409e64daa908bd7ede9cf267e59''"
  "normalizeAddress ''0x67B9Ee93208914fDD829fdAaF24E87D33f75d441'' = Inr ''0x67b9ee93208914fdd829fdaaf24e87d33f75d441''"
  by code_simp+

lemma shipped_resolves:
  "\<exists>r. resolvePolicy shipped_document = Inr r \<and> rp_maxTransaction r = 100000000 \<and> rp_dailySpend r = 500000000 \<and>
     rp_approvalThreshold r = 100000000 \<and> rp_minBalance r = 10000000 \<and> rp_asset r = ba_asset FALLBACK \<and>
     rp_allowedContracts r = [ba_router FALLBACK, ''0xe03a1074c86cfedd5c142c4f04f1a1536e203543'', ba_asset FALLBACK] \<and>
     rp_allowedRecipients r = [ba_account FALLBACK]"
  by (simp add: resolvePolicy_def shipped_document_def shipped_amounts shipped_addresses FALLBACK_def Let_def)

section \<open>What the engine makes of a preset\<close>

definition bench_action :: "string \<times> Hex \<Rightarrow> Action" where
  "bench_action a = \<lparr>act_to = fst a, act_data = snd a, act_value = 0, act_chainId = 11155111, act_metadata = None\<rparr>"

definition template_spends :: "BenchAddrs \<Rightarrow> Template \<Rightarrow> int \<Rightarrow> int" where
  "template_spends addrs kind v = (case kind of template_approve \<Rightarrow> approvalOutflow v | unlimited_approve \<Rightarrow> UNBOUNDED | _ \<Rightarrow> v)"

definition template_party :: "BenchAddrs \<Rightarrow> Template \<Rightarrow> string \<Rightarrow> string" where
  "template_party addrs kind to = (case kind of swap_in \<Rightarrow> ba_account addrs | swap_out \<Rightarrow> ba_account addrs
     | unlimited_approve \<Rightarrow> ba_router addrs | _ \<Rightarrow> to)"

definition wf_addrs :: "BenchAddrs \<Rightarrow> bool" where
  "wf_addrs a \<longleftrightarrow> wf_address (ba_account a) \<and> erc20_token (ba_asset a) \<and> wf_address (ba_router a)"

lemma WETH_erc20: "erc20_token WETH_SEPOLIA"
  by code_simp

lemma swap_both_encode:
  assumes "wf_addrs addrs" and "uint256 x" and "uint256 y"
  shows "\<exists>d e. encodeSwapExactIn (swap_params addrs x y) = Inr d \<and> encodeSwapExactOut (swap_params addrs x y) = Inr e"
proof -
  let ?p = "swap_params addrs x y"
  have wf: "wf_address (xe_recipient ?p)" "wf_address (xe_tokenIn ?p)" "wf_address (xe_tokenOut ?p)" "xe_fee ?p < 2 ^ 24"
    "uint256 (xe_amount ?p)" "uint256 (xe_bound ?p)"
    using assms WETH_erc20 by (simp_all add: wf_addrs_def swap_params_def erc20_token_def)
  show ?thesis
    using encodes_single [OF wf(1,5,6) path_tokens(1) [OF wf(2-4)], of 0] encodes_single [OF wf(1,5,6) path_tokens(1) [OF wf(3,2,4)], of 1]
    by (simp add: encodeSwapExactIn_def encodeSwapExactOut_def encodeExactInInput_def encodeExactOutInput_def)
qed

lemma swap_template_decodes:
  assumes "wf_addrs addrs" and "dc_trackedAsset ctx = ba_asset addrs" and "uint256 x" and "uint256 y"
  shows "encodeSwapExactIn (swap_params addrs x y) = Inr d \<Longrightarrow> \<exists>i. registry_decode default_registry (bench_action (ba_router addrs, d)) ctx = Inr i \<and>
      in_kind i = SWAP \<and> in_counterparty i = Some (ba_account addrs) \<and> in_notionalUSDC i = x"
    and "encodeSwapExactOut (swap_params addrs x y) = Inr e \<Longrightarrow> \<exists>i. registry_decode default_registry (bench_action (ba_router addrs, e)) ctx = Inr i \<and>
      in_kind i = SWAP \<and> in_counterparty i = Some (ba_account addrs) \<and> in_notionalUSDC i = y"
proof -
  obtain d' e' where de: "encodeSwapExactIn (swap_params addrs x y) = Inr d'" "encodeSwapExactOut (swap_params addrs x y) = Inr e'"
    using swap_both_encode [OF assms(1,3,4)] by blast
  have "is_address (ba_router addrs)" "wf_address (ba_account addrs)" "erc20_token (ba_asset addrs)"
    using assms(1) by (simp_all add: wf_addrs_def wf_address_def)
  then have "\<exists>i j. registry_decode default_registry (bench_action (ba_router addrs, d')) ctx = Inr i \<and>
      registry_decode default_registry (bench_action (ba_router addrs, e')) ctx = Inr j \<and> in_kind i = SWAP \<and>
      in_counterparty i = Some (ba_account addrs) \<and> in_notionalUSDC i = x \<and> in_kind j = SWAP \<and>
      in_counterparty j = Some (ba_account addrs) \<and> in_notionalUSDC j = y"
    using swap_decodes [OF createDefaultRegistry_eq, of "swap_params addrs x y" "bench_action (ba_router addrs, d')"
        "bench_action (ba_router addrs, e')" ctx] de assms(2-4) WETH_erc20
    by (auto simp: bench_action_def swap_params_def)
  with de show "encodeSwapExactIn (swap_params addrs x y) = Inr d \<Longrightarrow> \<exists>i. registry_decode default_registry (bench_action (ba_router addrs, d)) ctx = Inr i \<and>
      in_kind i = SWAP \<and> in_counterparty i = Some (ba_account addrs) \<and> in_notionalUSDC i = x"
    "encodeSwapExactOut (swap_params addrs x y) = Inr e \<Longrightarrow> \<exists>i. registry_decode default_registry (bench_action (ba_router addrs, e)) ctx = Inr i \<and>
      in_kind i = SWAP \<and> in_counterparty i = Some (ba_account addrs) \<and> in_notionalUSDC i = y" by auto
qed

lemma template_decodes:
  assumes wf: "wf_addrs addrs" and tracked: "dc_trackedAsset ctx = ba_asset addrs" and to: "wf_address to"
    and v: "bench_toBaseUnits amount = Inr v" "uint256 v" and built: "buildAction addrs kind amount to = Inr a"
  shows "\<exists>i. registry_decode default_registry (bench_action a) ctx = Inr i \<and> in_kind i \<noteq> UNKNOWN \<and> in_target i = fst a \<and>
     in_counterparty i = Some (template_party addrs kind to) \<and> in_notionalUSDC i = template_spends addrs kind v"
proof -
  have n: "normalizeAddress (ba_asset addrs) = Inr (ba_asset addrs)" using wf by (simp add: wf_addrs_def erc20_token_def)
  have r: "wf_address (ba_router addrs)" using wf by (simp add: wf_addrs_def)
  have small: "uint256 0" "uint256 1" by (simp_all add: uint256_small)
  have target: "in_target i = fst a" if "registry_decode default_registry (bench_action a) ctx = Inr i" for i
  proof -
    have "normalizeAddress (fst a) = Inr (in_target i)"
      using default_reg.dec_target [of "bench_action a" ctx i] that by (simp add: bench_action_def)
    moreover have "normalizeAddress (fst a) = Inr (fst a)"
      using built v(1) n r by (cases kind) (auto simp: buildAction_def with_target_def bindR_eq_Inr)
    ultimately show ?thesis by simp
  qed
  have unlimited: "uint256 UNLIMITED_APPROVAL" "approvalOutflow UNLIMITED_APPROVAL = UNBOUNDED"
    by (simp_all add: uint256_def UINT256_MAX_def UNLIMITED_APPROVAL_def approvalOutflow_def isUnlimitedApproval_def)
  show ?thesis
  proof (cases kind)
    case swap_in
    then show ?thesis using built v target swap_template_decodes(1) [OF wf tracked v(2) small(1)]
      by (fastforce simp: buildAction_def with_target_def bindR_eq_Inr template_spends_def template_party_def)
  next
    case swap_out
    then show ?thesis using built v target swap_template_decodes(2) [OF wf tracked small(2) v(2)]
      by (fastforce simp: buildAction_def with_target_def bindR_eq_Inr template_spends_def template_party_def)
  next
    case template_transfer
    then obtain d where d: "a = (ba_asset addrs, d)" "encodeErc20Transfer to v = Inr d"
      using built v by (auto simp: buildAction_def with_target_def bindR_eq_Inr)
    then show ?thesis
      using erc20_transfer_roundtrip [OF createDefaultRegistry_eq, of to v "bench_action a" "ba_asset addrs" ctx] to v n tracked target template_transfer
      by (fastforce simp: bench_action_def template_spends_def template_party_def)
  next
    case template_approve
    then obtain d where d: "a = (ba_asset addrs, d)" "encodeErc20Approve to v = Inr d"
      using built v by (auto simp: buildAction_def with_target_def bindR_eq_Inr)
    then show ?thesis
      using erc20_approve_roundtrip [OF createDefaultRegistry_eq, of to v "bench_action a" "ba_asset addrs" ctx] to v n tracked target template_approve
      by (fastforce simp: bench_action_def template_spends_def template_party_def)
  next
    case unlimited_approve
    then obtain d where d: "a = (ba_asset addrs, d)" "encodeErc20Approve (ba_router addrs) UNLIMITED_APPROVAL = Inr d"
      using built v by (auto simp: buildAction_def with_target_def bindR_eq_Inr)
    then show ?thesis
      using erc20_approve_roundtrip [OF createDefaultRegistry_eq, of "ba_router addrs" UNLIMITED_APPROVAL "bench_action a" "ba_asset addrs" ctx]
        r n tracked target unlimited unlimited_approve
      by (fastforce simp: bench_action_def template_spends_def template_party_def)
  qed
qed

text \<open>
  The bench builds what it says: whichever template is chosen, the action decodes to the counterparty and
  the spend the page describes, an exact-output swap to the most it may take and an unlimited approval to an
  unbounded amount, so the attack shown is the attack the engine judges.
\<close>

theorem bench_action_priced:
  assumes "wf_addrs addrs" and "dc_trackedAsset ctx = ba_asset addrs" and "wf_address to"
    and "bench_toBaseUnits amount = Inr v" and "uint256 v" and "buildAction addrs kind amount to = Inr a"
  shows "\<exists>i. registry_decode default_registry (bench_action a) ctx = Inr i \<and> in_target i = fst a \<and>
     in_counterparty i = Some (case kind of swap_in \<Rightarrow> ba_account addrs | swap_out \<Rightarrow> ba_account addrs
       | unlimited_approve \<Rightarrow> ba_router addrs | _ \<Rightarrow> to) \<and>
     in_notionalUSDC i = (case kind of template_approve \<Rightarrow> approvalOutflow v | unlimited_approve \<Rightarrow> UNBOUNDED | _ \<Rightarrow> v)"
  using template_decodes [OF assms] unfolding template_party_def template_spends_def by blast

lemma built_verdict:
  assumes "buildEngine opts p = Inr e" and "so_pools opts = None"
  shows "verdict_of (eo_policies e) i st \<noteq> BLOCK \<longleftrightarrow> allow_rule (rp_allowedContracts p) (rp_allowedRecipients p) False i st \<and>
      max_rule (rp_maxTransaction p) i st \<and> (can_read opts \<longrightarrow> floor_rule (rp_minBalance p) i st) \<and> daily_rule (rp_dailySpend p) i st"
    and "verdict_of (eo_policies e) i st = ALLOW \<longleftrightarrow> verdict_of (eo_policies e) i st \<noteq> BLOCK \<and> in_notionalUSDC i < rp_approvalThreshold p"
proof -
  have ps: "eo_policies e = [AllowlistPolicy (rp_allowedContracts p) (rp_allowedRecipients p) False, MaxTransactionPolicy (rp_maxTransaction p)] @
      (if can_read opts then [MinBalancePolicy (rp_minBalance p)] else []) @ [DailySpendPolicy (rp_dailySpend p)] @
      [ApprovalThresholdPolicy (rp_approvalThreshold p)]"
    using assms unfolding buildEngine_def bindR_eq_Inr by auto
  show "verdict_of (eo_policies e) i st \<noteq> BLOCK \<longleftrightarrow> allow_rule (rp_allowedContracts p) (rp_allowedRecipients p) False i st \<and>
      max_rule (rp_maxTransaction p) i st \<and> (can_read opts \<longrightarrow> floor_rule (rp_minBalance p) i st) \<and> daily_rule (rp_dailySpend p) i st"
    "verdict_of (eo_policies e) i st = ALLOW \<longleftrightarrow> verdict_of (eo_policies e) i st \<noteq> BLOCK \<and> in_notionalUSDC i < rp_approvalThreshold p"
    unfolding ps
    by (cases "can_read opts"; auto simp: decision_of_def allowlist.decides max_transaction.decides min_balance.decides
        daily_spend.decides approval_threshold.decides threshold_rule_def)+
qed

lemma built_engine:
  assumes "buildEngine opts p = Inr e"
  shows "eo_decoders e = default_registry" and "eo_decoderContext e = \<lparr>dc_account = rp_account p, dc_trackedAsset = rp_asset p, dc_decimals = rp_decimals p\<rparr>"
  using assms default_registryI by (auto simp: buildEngine_def bindR_eq_Inr)

lemma demo_build_template:
  "demo_build addrs scene = buildAction addrs (case sc_kind scene of scene_swap \<Rightarrow> swap_in | scene_transfer \<Rightarrow> template_transfer
     | scene_approve \<Rightarrow> unlimited_approve) (sc_amount scene) (or_else (sc_to scene) ATTACKER)"
  by (cases "sc_kind scene") (simp_all add: demo_build_def buildAction_def)

lemma bench_amounts: "bench_toBaseUnits ''80'' = Inr 80000000" "bench_toBaseUnits ''250'' = Inr 250000000" "bench_toBaseUnits ''100'' = Inr 100000000"
  "bench_toBaseUnits ''50'' = Inr 50000000" "bench_toBaseUnits ''0'' = Inr 0"
  by (simp_all add: bench_toBaseUnits_def or_zero_def bigint_of_string_def trim_def trimEnd_def is_space_def in_base_def is_hex_digit_def
      toLowerCase_def lower_char_def of_base_def digit_val_def)

lemma fallback_wf: "wf_addrs FALLBACK" "wf_address ATTACKER"
  by code_simp+

lemma movesValue_notional:
  assumes "wf_context ctx" and "registry_decode default_registry a ctx = Inr i" and "0 < in_notionalUSDC i"
  shows "movesValue i"
proof -
  have "\<not> list_ex (\<lambda>f. aa_amount f > 0) fs \<Longrightarrow> tracked_outflow t fs \<le> 0" for t fs by (induction fs) auto
  moreover have "in_notionalUSDC i = tracked_outflow (dc_trackedAsset ctx) (in_outflow i)"
    using default_reg.dec_notional [OF assms(1), of a i] assms(2) by simp
  ultimately show ?thesis using assms(3) unfolding movesValue_def by (metis not_le)
qed


section \<open>Witnesses\<close>

theorem bench_pending_awaited_witness:
  "be_awaiting (bench_start newBench) \<and> be_pending (bench_on_approval 5 (sample_card ''a'' 9) (bench_start newBench)) = Some (sample_card ''a'' 9)"
proof -
  have "bench_move\<^sup>*\<^sup>* newBench (bench_on_approval 5 (sample_card ''a'' 9) (bench_start newBench))"
    by (rule rtranclp_trans [of _ _ "bench_start newBench"]) (auto intro!: bench_move.intros simp: newBench_def)
  from bench_pending_awaited [OF this] show ?thesis by (simp add: bench_defs sample_card_def)
qed

lemma scene_ok_builds: "\<exists>d. demo_build FALLBACK (hd SCENES) = Inr (ba_router FALLBACK, d)"
proof -
  have "uint256 80000000" "uint256 0" by (simp_all add: uint256_small)
  from swap_both_encode [OF fallback_wf(1) this] show ?thesis
    by (auto simp: demo_build_def SCENES_def bench_amounts with_target_def)
qed

theorem bench_action_priced_witness:
  "\<exists>a i. buildAction FALLBACK swap_in ''80'' ATTACKER = Inr a \<and> in_notionalUSDC i = 80000000 \<and>
     registry_decode default_registry (bench_action a) \<lparr>dc_account = ba_account FALLBACK, dc_trackedAsset = ba_asset FALLBACK, dc_decimals = 6\<rparr> = Inr i"
proof -
  let ?ctx = "\<lparr>dc_account = ba_account FALLBACK, dc_trackedAsset = ba_asset FALLBACK, dc_decimals = 6\<rparr>"
  obtain d where d: "buildAction FALLBACK swap_in ''80'' ATTACKER = Inr (ba_router FALLBACK, d)"
    using scene_ok_builds demo_build_template [of FALLBACK "hd SCENES"] by (auto simp: SCENES_def)
  have "uint256 80000000" by (simp add: uint256_small)
  from bench_action_priced [OF fallback_wf(1) _ fallback_wf(2) bench_amounts(1) this d, of ?ctx] d show ?thesis by auto
qed


end
