(* ===== verification/Recipe.thy ===== *)
theory Recipe
  imports ConsoleBench
begin

text \<open>
  \<^verbatim>\<open>recipes/verify-before-you-swap.ts\<close>: the recipe for agent frameworks that cannot embed the SDK. It decodes a quote and asks
  for a verdict over HTTP, and calls the caller's \<^verbatim>\<open>execute\<close> or stops. \<open>rp_post\<close> and \<open>rp_get\<close> are \<^verbatim>\<open>fetch\<close>, \<open>rp_message\<close> is the
  message of an error (the dash in one of them is written as a hyphen), and what the answers contain is JSON that the code casts and reads without a check.
\<close>

section \<open>The recipe\<close>

record SwapQuote =
  sq_to :: string
  sq_data :: string
  sq_value :: "string option"
  sq_chainId :: "int option"

record RecipeResponse =
  rr_status :: nat
  rr_json :: "json result"
  rr_text :: "string result"

record 'w RecipePlatform =
  rp_env :: "string \<Rightarrow> string option"
  rp_post :: "string \<Rightarrow> (string \<times> string) list \<Rightarrow> json \<Rightarrow> ('w, RecipeResponse) io"
  rp_get :: "string \<Rightarrow> ('w, RecipeResponse) io"
  rp_message :: "js_error \<Rightarrow> string"

record 'w RecipeOptions =
  rc_quote :: SwapQuote
  rc_execute :: "SwapQuote \<Rightarrow> ('w, string) io"
  rc_approve :: "(json \<Rightarrow> ('w, bool) io) option"
  rc_log :: "string \<Rightarrow> ('w, unit) io"

record RecipeResult =
  rx_executed :: bool
  rx_reason :: json
  rx_txHash :: "string option"
  rx_verdict :: "json option"

definition recipe_API :: "(string \<Rightarrow> string option) \<Rightarrow> string" where
  "recipe_API env = or_else (env ''AGENTPROOF_API_URL'') ''http://localhost:8402''"

definition recipe_AGENT :: "(string \<Rightarrow> string option) \<Rightarrow> string" where
  "recipe_AGENT env = or_else (env ''AGENT_NAME'') ''trader.agentproof.eth''"

definition status_ok :: "nat \<Rightarrow> bool" where
  "status_ok s = (200 \<le> s \<and> s < 300)"

definition priced_message :: "string \<Rightarrow> json \<Rightarrow> string" where
  "priced_message path price = path @ '' is priced at '' @ js_string (coalesce (opt_member ''amount'' price) (JStr ''?'')) @ '' on '' @
     js_string (coalesce (opt_member ''network'' price) (JStr ''?'')) @ ''. '' @
     ''Set X_PAYMENT to an x402 payload '' @ [CHR 0x2D] @ '' see packages/x402-client.''"

definition recipe_call :: "'w RecipePlatform \<Rightarrow> string \<Rightarrow> json \<Rightarrow> ('w, json) io" where
  "recipe_call pf path body =
     bind_io (rp_post pf (recipe_API (rp_env pf) @ path)
         ((''Content-Type'', ''application/json'') # (case env_set (rp_env pf) ''X_PAYMENT'' of Some p \<Rightarrow> [(''X-PAYMENT'', p)] | None \<Rightarrow> [])) body)
       (\<lambda>response.
          if rr_status response = 402 then
            bind_io (lift_io (bindR (rr_json response) (member ''accepts''))) (\<lambda>accepts.
              throw_io (ErrorMessage (priced_message path (json_first accepts))))
          else if \<not> status_ok (rr_status response) then
            bind_io (lift_io (rr_text response)) (\<lambda>text.
              throw_io (ErrorMessage (path @ '' returned '' @ bigint_to_string (int (rr_status response)) @ '': '' @ take 200 text)))
          else lift_io (rr_json response))"

definition quote_json :: "SwapQuote \<Rightarrow> json" where
  "quote_json q = JObj [(''to'', JStr (sq_to q)), (''data'', JStr (sq_data q)), (''value'', JStr (or_else (sq_value q) ''0'')),
     (''chainId'', JNum (or_else (sq_chainId q) 11155111))]"

definition recipe_decode :: "'w RecipePlatform \<Rightarrow> SwapQuote \<Rightarrow> ('w, json) io" where
  "recipe_decode pf quote = bind_io (recipe_call pf ''/v1/decode'' (quote_json quote)) (\<lambda>j. lift_io (member ''intent'' j))"

definition recipe_verify :: "'w RecipePlatform \<Rightarrow> SwapQuote \<Rightarrow> ('w, json) io" where
  "recipe_verify pf quote =
     recipe_call pf ''/v1/verify'' (JObj [(''agent'', JStr (recipe_AGENT (rp_env pf))), (''action'', quote_json quote)])"

text \<open>Iterating over a value: arrays and strings are iterable, nothing else is.\<close>

definition spread :: "json \<Rightarrow> json list result" where
  "spread j = (case j of JArr vs \<Rightarrow> Inr vs | JStr s \<Rightarrow> Inr (map (\<lambda>c. JStr [c]) s) | _ \<Rightarrow> Inl TypeErrorUndefined)"

definition json_falsy :: "json \<Rightarrow> bool" where
  "json_falsy j = (j \<in> {JUndefined, JNull, JBool False, JNum 0, JStr []})"

definition risk_note :: "json \<Rightarrow> string result" where
  "risk_note body =
     bindR (member ''risk'' body) (\<lambda>risk.
     bindR (member ''labels'' body) (\<lambda>labels.
     bindR (spread (coalesce labels (JArr []))) (\<lambda>ls.
       let note = join '', '' (map js_string (filter (\<lambda>j. \<not> json_falsy j) (risk # ls))) in
       Inr (if note = [] then ''no labels'' else note))))"

definition riskMetadata :: "'w RecipePlatform \<Rightarrow> json \<Rightarrow> ('w, (json \<times> string) option) io" where
  "riskMetadata pf intent =
     (case env_set (rp_env pf) ''TOKEN_RISK_API_URL'' of
        None \<Rightarrow> return_io None
      | Some url \<Rightarrow>
          bind_io (lift_io (member ''counterparty'' intent)) (\<lambda>counterparty.
            if json_falsy counterparty then return_io None
            else (\<lambda>w. case bind_io (rp_get pf (url @ ''/'' @ js_string counterparty)) (\<lambda>response.
                if \<not> status_ok (rr_status response) then return_io None
                else bind_io (lift_io (bindR (rr_json response) risk_note)) (\<lambda>note. return_io (Some (counterparty, note)))) w
              of (Inl _, w') \<Rightarrow> (Inr None, w') | (Inr r, w') \<Rightarrow> (Inr r, w'))))"

text \<open>The lines the verdict is reported in; \<^verbatim>\<open>padEnd\<close> is a method of strings only.\<close>

definition padded :: "json \<Rightarrow> string result" where
  "padded j = (case j of JStr s \<Rightarrow> Inr (padEnd 20 (CHR '' '') s) | _ \<Rightarrow> Inl TypeErrorUndefined)"

definition row_line :: "json \<Rightarrow> string result" where
  "row_line row =
     bindR (member ''passed'' row) (\<lambda>passed.
     bindR (bindR (member ''id'' row) padded) (\<lambda>name.
       Inr (''  '' @ (if json_falsy passed then ''FAIL'' else ''pass'') @ ''  '' @ name @ '' '' @
         js_string (coalesce (opt_member ''reason'' row) (opt_member ''name'' row)))))"

definition unevaluated_line :: "json \<Rightarrow> string result" where
  "unevaluated_line u =
     bindR (bindR (member ''policy'' u) padded) (\<lambda>name. Inr (''  n/a   '' @ name @ '' '' @ js_string (opt_member ''reason'' u)))"

fun log_lines :: "(string \<Rightarrow> ('w, unit) io) \<Rightarrow> string result list \<Rightarrow> ('w, unit) io" where
  "log_lines out [] = return_io ()"
| "log_lines out (l # ls) = bind_io (lift_io l) (\<lambda>line. bind_io (out line) (\<lambda>_. log_lines out ls))"

definition report_verdict :: "(string \<Rightarrow> ('w, unit) io) \<Rightarrow> json \<Rightarrow> ('w, unit) io" where
  "report_verdict out verdict =
     bind_io (lift_io (bindR (member ''policyRows'' verdict) (\<lambda>rows. spread (coalesce rows (JArr []))))) (\<lambda>rows.
     bind_io (log_lines out (map row_line rows)) (\<lambda>_.
     bind_io (lift_io (bindR (bindR (member ''enforcement'' verdict) (member ''unevaluatedPolicies'')) spread)) (\<lambda>us.
       log_lines out (map unevaluated_line us))))"

text \<open>\<^verbatim>\<open>data.length / 2 - 1\<close> as a number prints.\<close>

definition half_text :: "nat \<Rightarrow> string" where
  "half_text n = (if even n then bigint_to_string (int (n div 2) - 1)
     else if n = 1 then ''-0.5'' else bigint_to_string (int (n div 2) - 1) @ ''.5'')"

definition recipe_ask :: "'w RecipePlatform \<Rightarrow> 'w RecipeOptions \<Rightarrow> ('w, json) io" where
  "recipe_ask pf options =
     bind_io (recipe_decode pf (rc_quote options)) (\<lambda>intent.
     bind_io (lift_io (member ''summary'' intent)) (\<lambda>summary.
     bind_io (rc_log options (''decoded    '' @ js_string summary)) (\<lambda>_.
     bind_io (riskMetadata pf intent) (\<lambda>risk.
     bind_io (case risk of None \<Rightarrow> return_io ()
         | Some (c, note) \<Rightarrow> rc_log options (''risk       '' @ js_string c @ '': '' @ note)) (\<lambda>_.
       recipe_verify pf (rc_quote options))))))"

definition recipe_stop :: "'w RecipeOptions \<Rightarrow> string \<Rightarrow> json \<Rightarrow> json option \<Rightarrow> ('w, RecipeResult) io" where
  "recipe_stop options line reason verdict = bind_io (rc_log options (''stopped    '' @ line)) (\<lambda>_.
     return_io \<lparr>rx_executed = False, rx_reason = reason, rx_txHash = None, rx_verdict = verdict\<rparr>)"

definition recipe_execute :: "'w RecipeOptions \<Rightarrow> json \<Rightarrow> ('w, RecipeResult) io" where
  "recipe_execute options verdict =
     bind_io (rc_execute options (rc_quote options)) (\<lambda>txHash.
     bind_io (rc_log options (''executed   '' @ txHash)) (\<lambda>_.
       return_io \<lparr>rx_executed = True, rx_reason = coalesce (opt_member ''reason'' verdict) (JStr ''allowed''),
         rx_txHash = Some txHash, rx_verdict = Some verdict\<rparr>))"

definition recipe_act :: "'w RecipeOptions \<Rightarrow> json \<Rightarrow> ('w, RecipeResult) io" where
  "recipe_act options verdict =
     (let decision = opt_member ''decision'' verdict; reason = opt_member ''reason'' verdict in
      if decision = JStr ''BLOCK'' then
        recipe_stop options (js_string (coalesce reason (JStr ''policy refused''))) (coalesce reason (JStr ''policy refused'')) (Some verdict)
      else if decision = JStr ''REQUIRE_APPROVAL'' then
        (case rc_approve options of
           None \<Rightarrow> recipe_stop options ''approval required and no approver is wired up''
             (JStr ''approval required, no approver configured'') (Some verdict)
         | Some approve \<Rightarrow>
             bind_io (rc_log options (''approval   '' @ js_string (coalesce reason (JStr ''over the approval threshold'')))) (\<lambda>_.
             bind_io (approve verdict) (\<lambda>ok.
               if \<not> ok then recipe_stop options ''the owner declined'' (JStr ''owner declined'') (Some verdict)
               else recipe_execute options verdict)))
      else recipe_execute options verdict)"

definition verifyBeforeYouSwap :: "'w RecipePlatform \<Rightarrow> 'w RecipeOptions \<Rightarrow> ('w, RecipeResult) io" where
  "verifyBeforeYouSwap pf options =
     bind_io (rc_log options (''quote      '' @ sq_to (rc_quote options) @ '' ('' @ half_text (length (sq_data (rc_quote options))) @
       '' bytes of calldata)'')) (\<lambda>_ w.
       case recipe_ask pf options w of
         (Inl e, w') \<Rightarrow> bind_io (rc_log options (''stopped    AgentProof is unreachable: '' @ rp_message pf e)) (\<lambda>_.
             return_io \<lparr>rx_executed = False, rx_reason = JStr (''verification unavailable: '' @ rp_message pf e), rx_txHash = None,
               rx_verdict = None\<rparr>) w'
       | (Inr verdict, w') \<Rightarrow> bind_io (report_verdict (rc_log options) verdict) (\<lambda>_. recipe_act options verdict) w')"

section \<open>Properties\<close>

lemma recipe_ask_verifies:
  assumes "recipe_ask pf options w = (Inr verdict, w')"
  shows "\<exists>w1. recipe_verify pf (rc_quote options) w1 = (Inr verdict, w')"
  using assms by (auto simp: recipe_ask_def io_inversion)

lemma report_verdict_object:
  "report_verdict out verdict w = (Inr (), w') \<Longrightarrow> \<exists>es. verdict = JObj es"
  by (auto simp: report_verdict_def io_inversion bindR_eq_Inr member_def or_else_def spread_def coalesce_def split: json.splits)

lemma recipe_stop_result: "recipe_stop options line reason verdict w = (Inr r, w') \<Longrightarrow> \<not> rx_executed r"
  by (auto simp: recipe_stop_def io_inversion)

lemma recipe_act_executed:
  assumes "recipe_act options verdict w = (Inr r, w')" and "rx_executed r"
  obtains w1 w2 h where "opt_member ''decision'' verdict \<noteq> JStr ''BLOCK''"
    and "if opt_member ''decision'' verdict = JStr ''REQUIRE_APPROVAL''
       then \<exists>approve w0. rc_approve options = Some approve \<and> approve verdict w0 = (Inr True, w1) else w1 = w"
    and "rc_execute options (rc_quote options) w1 = (Inr h, w2)" and "rc_log options (''executed   '' @ h) w2 = (Inr (), w')"
    and "rx_verdict r = Some verdict" and "rx_txHash r = Some h"
proof -
  have "opt_member ''decision'' verdict \<noteq> JStr ''BLOCK'' \<and>
    (\<exists>w1. (if opt_member ''decision'' verdict = JStr ''REQUIRE_APPROVAL''
       then \<exists>approve w0. rc_approve options = Some approve \<and> approve verdict w0 = (Inr True, w1) else w1 = w) \<and>
     recipe_execute options verdict w1 = (Inr r, w'))"
    using assms by (auto simp: recipe_act_def Let_def io_inversion split: if_splits option.splits dest: recipe_stop_result)
  then show thesis using that unfolding recipe_execute_def io_inversion by auto
qed

lemma recipe_act_stopped:
  assumes "recipe_act options verdict w = (Inr r, w')" and "\<not> rx_executed r"
  shows "recipe_act (options\<lparr>rc_execute := f\<rparr>) verdict w = (Inr r, w')"
proof -
  have "\<not> recipe_execute options verdict w1 = (Inr r, w')" for w1
    using assms(2) by (auto simp: recipe_execute_def io_inversion)
  moreover have "recipe_stop (options\<lparr>rc_execute := f\<rparr>) = recipe_stop options"
    by (simp add: recipe_stop_def fun_eq_iff)
  ultimately show ?thesis using assms(1)
    by (auto simp: recipe_act_def Let_def io_inversion split: if_splits option.splits)
qed

lemma recipe_runs_verified:
  assumes "verifyBeforeYouSwap pf options w = (Inr r, w')"
  shows "(rx_executed r \<longrightarrow> (\<exists>verdict w1 w2 w4 w5 h.
       rx_verdict r = Some verdict \<and> rx_txHash r = Some h \<and>
       recipe_verify pf (rc_quote options) w1 = (Inr verdict, w2) \<and> opt_member ''decision'' verdict \<noteq> JStr ''BLOCK'' \<and>
       (if opt_member ''decision'' verdict = JStr ''REQUIRE_APPROVAL''
        then \<exists>approve w0. rc_approve options = Some approve \<and> approve verdict w0 = (Inr True, w4)
        else report_verdict (rc_log options) verdict w2 = (Inr (), w4)) \<and>
       rc_execute options (rc_quote options) w4 = (Inr h, w5) \<and> rc_log options (''executed   '' @ h) w5 = (Inr (), w'))) \<and>
     (\<not> rx_executed r \<longrightarrow> verifyBeforeYouSwap pf (options\<lparr>rc_execute := f\<rparr>) w = (Inr r, w'))"
proof -
  let ?line = "''quote      '' @ sq_to (rc_quote options) @ '' ('' @ half_text (length (sq_data (rc_quote options))) @ '' bytes of calldata)''"
  obtain w0 where w0: "rc_log options ?line w = (Inr (), w0)"
    using assms by (auto simp: verifyBeforeYouSwap_def bind_io_Inr)
  have ask: "recipe_ask pf (options\<lparr>rc_execute := f\<rparr>) = recipe_ask pf options"
    by (simp add: recipe_ask_def fun_eq_iff cong: option.case_cong)
  show ?thesis
  proof (cases "recipe_ask pf options w0")
    case (Pair a w2)
    show ?thesis
    proof (cases a)
      case (Inl e)
      with Pair w0 assms ask show ?thesis
        by (auto simp: verifyBeforeYouSwap_def bind_io_step io_inversion)
    next
      case (Inr verdict)
      with Pair w0 assms obtain w4 where w4: "report_verdict (rc_log options) verdict w2 = (Inr (), w4)"
        and act: "recipe_act options verdict w4 = (Inr r, w')"
        by (auto simp: verifyBeforeYouSwap_def bind_io_step io_inversion)
      obtain w1 where v: "recipe_verify pf (rc_quote options) w1 = (Inr verdict, w2)"
        using recipe_ask_verifies [of pf options w0 verdict w2] Pair Inr by blast
      have "verifyBeforeYouSwap pf (options\<lparr>rc_execute := f\<rparr>) w = recipe_act (options\<lparr>rc_execute := f\<rparr>) verdict w4"
        using w0 Pair Inr ask w4 by (simp add: verifyBeforeYouSwap_def bind_io_step)
      then have "\<not> rx_executed r \<longrightarrow> verifyBeforeYouSwap pf (options\<lparr>rc_execute := f\<rparr>) w = (Inr r, w')"
        using recipe_act_stopped [OF act] by simp
      moreover have "\<exists>w4 w5 h. rx_verdict r = Some verdict \<and> rx_txHash r = Some h \<and>
          opt_member ''decision'' verdict \<noteq> JStr ''BLOCK'' \<and>
          (if opt_member ''decision'' verdict = JStr ''REQUIRE_APPROVAL''
           then \<exists>approve w0. rc_approve options = Some approve \<and> approve verdict w0 = (Inr True, w4)
           else report_verdict (rc_log options) verdict w2 = (Inr (), w4)) \<and>
          rc_execute options (rc_quote options) w4 = (Inr h, w5) \<and> rc_log options (''executed   '' @ h) w5 = (Inr (), w')"
        if ex: "rx_executed r"
      proof -
        obtain w6 w5 h where x: "opt_member ''decision'' verdict \<noteq> JStr ''BLOCK''"
          "if opt_member ''decision'' verdict = JStr ''REQUIRE_APPROVAL''
            then \<exists>approve w0. rc_approve options = Some approve \<and> approve verdict w0 = (Inr True, w6) else w6 = w4"
          "rc_execute options (rc_quote options) w6 = (Inr h, w5)" "rc_log options (''executed   '' @ h) w5 = (Inr (), w')"
          "rx_verdict r = Some verdict" "rx_txHash r = Some h" by (rule recipe_act_executed [OF act ex])
        then show ?thesis using w4 by (intro exI [of _ w6] exI [of _ w5] exI [of _ h]) auto
      qed
      ultimately show ?thesis using v by blast
    qed
  qed
qed

text \<open>
  The recipe executes only what was verified: when it reports an execution, the API answered a request to verify
  exactly that quote with a success status and a verdict that is not BLOCK; if the verdict asks for approval, the
  caller's approver was asked about that verdict and said yes; and then \<^verbatim>\<open>execute\<close> was called once, with that quote, and
  its transaction is the one reported. When it reports no execution, \<^verbatim>\<open>execute\<close> played no part: with any other one
  the run is the same.
\<close>

theorem recipe_executes_verified:
  assumes "verifyBeforeYouSwap pf options w = (Inr r, w')"
  shows "(rx_executed r \<longrightarrow> (\<exists>verdict w1 w2 w4 w5 h.
       rx_verdict r = Some verdict \<and> rx_txHash r = Some h \<and>
       recipe_verify pf (rc_quote options) w1 = (Inr verdict, w2) \<and> opt_member ''decision'' verdict \<noteq> JStr ''BLOCK'' \<and>
       (if opt_member ''decision'' verdict = JStr ''REQUIRE_APPROVAL''
        then \<exists>approve w0. rc_approve options = Some approve \<and> approve verdict w0 = (Inr True, w4)
        else report_verdict (rc_log options) verdict w2 = (Inr (), w4)) \<and>
       rc_execute options (rc_quote options) w4 = (Inr h, w5) \<and> rc_log options (''executed   '' @ h) w5 = (Inr (), w'))) \<and>
     (\<not> rx_executed r \<longrightarrow> verifyBeforeYouSwap pf (options\<lparr>rc_execute := f\<rparr>) w = (Inr r, w'))"
  by (rule recipe_runs_verified [OF assms])

section \<open>Against the API\<close>

lemma gate_enter_reply: "gate_enter digest parse requirements header now g = (Inl reply, g1) \<Longrightarrow> \<not> status_ok (hr_status reply)"
  by (auto simp: gate_enter_def challenge_def respondJson_def status_ok_def Let_def split: option.splits if_splits prod.splits)

lemma gate_verified_reply: "gate_verified digest requirements h v g = (Some reply, g1) \<Longrightarrow> \<not> status_ok (hr_status reply)"
  by (auto simp: gate_verified_def challenge_def respondJson_def status_ok_def split: sum.splits if_splits)

lemma gate_success:
  assumes "gate digest parse message options f nonce resource header now work after (g, w) = (Inr reply, s')" and "status_ok (hr_status reply)"
  shows "\<exists>w1 w2. (w1 = w \<or> (\<exists>h r v. fc_verify f h r w = (v, w1))) \<and> work w1 = (Inr (hr_body reply), w2)"
proof (cases "xo_enabled options")
  case False
  then show ?thesis using assms
    by (auto simp: gate_def guarded_def io_inversion respondJson_def Let_def split: prod.splits)
next
  case True
  obtain requirements where q: "payment_requirements options resource nonce = Inr requirements"
    using True assms(1) by (auto simp: gate_def io_inversion)
  obtain h g1 where h: "gate_enter digest parse requirements header now g = (Inr h, g1)"
    using True assms q gate_enter_reply [of digest parse requirements header now g]
    by (cases "gate_enter digest parse requirements header now g"; cases "fst (gate_enter digest parse requirements header now g)")
      (auto simp: gate_def bind_io_def)
  obtain v w1 where v: "fc_verify f h requirements w = (v, w1)" by fastforce
  obtain g2 where g2: "gate_verified digest requirements h v g1 = (None, g2)"
    using True assms q h v gate_verified_reply [of digest requirements h v g1]
    by (cases "gate_verified digest requirements h v g1"; cases "fst (gate_verified digest requirements h v g1)")
      (auto simp: gate_def bind_io_def)
  obtain outcome w2 where "work w1 = (Inr outcome, w2)"
    and d: "guarded (gate_deliver message f after requirements h outcome) (gate_worked digest h (Inr outcome) g2, w2) = (Inr reply, s')"
    using True assms(1) q h v g2 by (auto simp: gate_def bind_io_def split: prod.splits sum.splits)
  moreover from d have "hr_body reply = outcome"
    by (auto simp: guarded_def gate_deliver_def gate_finish_def respondJson_def io_inversion Let_def split: prod.splits)
  ultimately show ?thesis using v by blast
qed

lemma priced_success:
  assumes "priced pf payments resource req work audit (g, sv, w) = (Inr reply, s')" and "status_ok (hr_status reply)"
  shows "\<exists>w1 t. work (None, (sv, w1)) = (Inr (hr_body reply), t)"
proof (cases payments)
  case None
  then have "\<exists>t. work (None, (sv, w)) = (Inr (hr_body reply), t)"
    using assms(1) by (auto simp: priced_def io_inversion respondJson_def split: prod.splits)
  then show ?thesis by blast
next
  case (Some p)
  obtain facilitator options where p: "p = (facilitator, options)" by fastforce
  let ?f = "lift_facilitator (lift_facilitator facilitator)"
  from assms(1) Some p obtain w2 nonce now s1 where
    g: "gate (pf_digest pf) (pf_parsePayment pf) (pf_message pf) options ?f nonce resource (hq_payment req) now work (\<lambda>_ _. audit)
      (g, (None, (sv, w2))) = (Inr reply, s1)"
    by (auto simp: priced_def Let_def split: prod.splits)
  obtain t1 t2 where t: "t1 = (None, (sv, w2)) \<or> (\<exists>h r v. fc_verify ?f h r (None, (sv, w2)) = (v, t1))"
    "work t1 = (Inr (hr_body reply), t2)" using gate_success [OF g assms(2)] by blast
  then have "\<exists>w1. t1 = (None, (sv, w1))" by (auto simp: lift_facilitator_def in_snd_def Let_def split: prod.splits)
  with t(2) show ?thesis by blast
qed

lemma strip_member:
  assumes "member k j = Inr v" and "v \<noteq> JUndefined"
  shows "member k (strip_json j) = Inr (strip_json v)"
proof -
  obtain es where es: "j = JObj es" "map_of es k = Some v"
    using assms by (auto simp: member_def or_else_def split: json.splits option.splits)
  have "map_of (map (\<lambda>(k, v). (k, strip_json v)) (filter (\<lambda>(_, v). v \<noteq> JUndefined) es)) k = Some (strip_json v)"
    using es(2) assms(2) by (induction es) (auto split: if_splits)
  then show ?thesis using es(1) by (simp add: member_def)
qed

text \<open>\<^verbatim>\<open>fetch\<close> of the server of \<^verbatim>\<open>packages/api\<close> at the base URL.\<close>

definition posted :: "string \<Rightarrow> string \<Rightarrow> (string \<times> string) list \<Rightarrow> json \<Rightarrow> HttpRequest" where
  "posted base url headers body = \<lparr>hq_method = ''POST'', hq_path = drop (length base) url, hq_cookie = None, hq_admin = None,
     hq_payment = map_of headers ''X-PAYMENT'', hq_chunks = [utf8 (JSON_stringify body)], hq_client = 0\<rparr>"

definition served_post ::
  "'w ServerPlatform \<Rightarrow> 'w ServerOptions \<Rightarrow> (nat \<Rightarrow> ('w server_world, ApprovalOutcome) io) \<Rightarrow> string \<Rightarrow> string \<Rightarrow> (string \<times> string) list \<Rightarrow> json \<Rightarrow>
   (ReplayGuard \<times> 'w server_world, RecipeResponse) io" where
  "served_post pf opts wait base url headers body =
     bind_io (serve pf opts wait (posted base url headers body)) (\<lambda>reply.
       return_io \<lparr>rr_status = hr_status reply, rr_json = Inr (strip_json (hr_body reply)), rr_text = Inr (JSON_stringify (hr_body reply))\<rparr>)"

definition verify_body :: "(string \<Rightarrow> string option) \<Rightarrow> SwapQuote \<Rightarrow> json" where
  "verify_body env quote = JObj [(''agent'', JStr (recipe_AGENT env)), (''action'', quote_json quote)]"

lemma serve_verify_ok:
  assumes "serve sp opts wait (posted base (base @ ''/v1/verify'') headers j) (g, (sv, w)) = (Inr reply, s')" and "status_ok (hr_status reply)"
  obtains body w1 t where "readJson (pf_parseJson sp) [utf8 (JSON_stringify j)] = Inr body"
    and "verify_work sp opts wait body (None, (sv, w1)) = (Inr (hr_body reply), t)"
proof -
  have "\<not> status_ok (hr_status (respondError a b e))" for a b e
    by (cases e) (simp_all add: respondError_def respondJson_def error_status_def status_ok_def del: js_includes.simps)
  moreover have "route sp opts wait (posted base (base @ ''/v1/verify'') headers j) =
      verify_route sp opts wait (posted base (base @ ''/v1/verify'') headers j)"
    by (simp add: route_def posted_def)
  ultimately have "verify_route sp opts wait (posted base (base @ ''/v1/verify'') headers j) (g, (sv, w)) = (Inr reply, s')"
    using assms by (auto simp: serve_def catch_io_def split: prod.splits sum.splits)
  then obtain body where "readJson (pf_parseJson sp) [utf8 (JSON_stringify j)] = Inr body"
    and p: "priced sp (map_option (\<lambda>p. (py_facilitator p, py_verify p)) (so_x402 opts)) ''/v1/verify'' (posted base (base @ ''/v1/verify'') headers j)
      (verify_work sp opts wait body) (publishAudit sp) (g, (sv, w)) = (Inr reply, s')"
    by (auto simp: verify_route_def io_inversion posted_def)
  with priced_success [OF p assms(2)] that show thesis by blast
qed

lemma resolved_decision:
  assumes "verifyRoute clock ctx body t = (Inr outcome, t')"
    and "if res_decision (vo_result outcome) = REQUIRE_APPROVAL
      then \<exists>k u approval u'. wait k u = (Inr approval, u') \<and> wire = resolved_body (vo_body outcome) approval
      else wire = vo_body outcome"
  shows "(\<exists>d. opt_member ''decision'' (strip_json wire) = JStr d \<and> d \<in> {''ALLOW'', ''BLOCK''}) \<and>
    (opt_member ''decision'' (strip_json wire) = JStr ''ALLOW'' \<longrightarrow> res_decision (vo_result outcome) = ALLOW \<or>
       res_decision (vo_result outcome) = REQUIRE_APPROVAL \<and> (\<exists>k u approval u'. wait k u = (Inr approval, u') \<and> ao_approved approval))"
proof (cases "res_decision (vo_result outcome) = REQUIRE_APPROVAL")
  case True
  with assms(2) obtain k u approval u' where a: "wait k u = (Inr approval, u')" "wire = resolved_body (vo_body outcome) approval" by auto
  have "member ''decision'' (strip_json wire) = Inr (JStr (if ao_approved approval then ''ALLOW'' else ''BLOCK''))"
    using strip_member [OF assign_decision] a(2) by simp
  with True a(1) show ?thesis by (auto simp: opt_member_def split: if_splits)
next
  case False
  have "member ''decision'' (strip_json wire) = Inr (JStr (decision_string (res_decision (vo_result outcome))))"
    using False assms(2) strip_member [OF verify_route_wire [OF assms(1)]] by simp
  with False show ?thesis by (cases "res_decision (vo_result outcome)") (auto simp: opt_member_def)
qed


section \<open>Witnesses\<close>

lemma log_lines_quiet: "list_all (\<lambda>l. \<exists>x. l = Inr x) ls \<Longrightarrow> log_lines (\<lambda>_. return_io ()) ls w = (Inr (), w)"
  by (induction ls) (auto simp: bind_io_def)

lemma report_quiet: "report_verdict (\<lambda>_. return_io ()) (strip_json (verify_wire ctx result)) w = (Inr (), w)"
proof -
  have "\<exists>x. row_line (strip_json (serialisePolicyRow r)) = Inr x" for r
    by (simp add: row_line_def serialisePolicyRow_def member_def padded_def or_else_def)
  then have r: "log_lines (\<lambda>_. return_io ()) (map row_line (map (\<lambda>r. strip_json (serialisePolicyRow r)) rs)) w = (Inr (), w)" for rs
    by (intro log_lines_quiet) (simp add: list_all_iff)
  have u: "log_lines (\<lambda>_. return_io ()) (map unevaluated_line (map (\<lambda>u. strip_json (case u of (p, r) \<Rightarrow> JObj [(''policy'', JStr p), (''reason'', JStr r)])) us)) w
      = (Inr (), w)" for us
    by (intro log_lines_quiet) (auto simp: list_all_iff unevaluated_line_def member_def padded_def)
  have "member ''policyRows'' (verify_wire ctx result) = Inr (JArr (map serialisePolicyRow (res_policyRows result)))"
    by (simp add: verify_wire_def member_def)
  from strip_member [OF this] have "member ''policyRows'' (strip_json (verify_wire ctx result)) =
      Inr (JArr (map (\<lambda>r. strip_json (serialisePolicyRow r)) (res_policyRows result)))" by (simp add: comp_def)
  moreover obtain enf where enf: "member ''enforcement'' (verify_wire ctx result) = Inr enf" "enf \<noteq> JUndefined"
    "member ''unevaluatedPolicies'' enf = Inr (JArr (map (\<lambda>u. case u of (p, r) \<Rightarrow> JObj [(''policy'', JStr p), (''reason'', JStr r)]) (rc_unevaluated ctx)))"
    by (simp add: verify_wire_def member_def)
  from strip_member [OF enf(1,2)] strip_member [OF enf(3)]
  have "bindR (member ''enforcement'' (strip_json (verify_wire ctx result))) (member ''unevaluatedPolicies'') =
      Inr (JArr (map (\<lambda>u. strip_json (case u of (p, r) \<Rightarrow> JObj [(''policy'', JStr p), (''reason'', JStr r)])) (rc_unevaluated ctx)))"
    by (simp add: comp_def)
  ultimately show ?thesis
    using r u by (simp add: report_verdict_def spread_def coalesce_def bind_io_def)
qed

definition sample_calldata :: Hex where
  "sample_calldata = (case encodeErc20Transfer sample_router 60 of Inr d \<Rightarrow> d | Inl _ \<Rightarrow> [])"

definition sample_quote :: SwapQuote where
  "sample_quote = \<lparr>sq_to = sample_token, sq_data = sample_calldata, sq_value = None, sq_chainId = Some 1\<rparr>"

definition sample_posted :: json where
  "sample_posted = JObj [(''to'', JStr sample_token), (''data'', JStr sample_calldata)]"

definition sample_api :: "SimulatedAccount ServerPlatform" where
  "sample_api = sample_server_platform\<lparr>pf_parseJson := (\<lambda>t. if t = JSON_stringify (verify_body (\<lambda>_. None) sample_quote)
     then Inr (sample_body sample_calldata) else Inr sample_posted)\<rparr>"

definition sample_recipe_platform :: "(ReplayGuard \<times> SimulatedAccount server_world) RecipePlatform" where
  "sample_recipe_platform = \<lparr>rp_env = (\<lambda>_. None),
     rp_post = served_post sample_api sample_server_options (\<lambda>_. throw_io OddHexLength) (recipe_API (\<lambda>_. None)),
     rp_get = (\<lambda>_. throw_io OddHexLength), rp_message = (\<lambda>_. [])\<rparr>"

definition sample_recipe :: "(ReplayGuard \<times> SimulatedAccount server_world) RecipeOptions" where
  "sample_recipe = \<lparr>rc_quote = sample_quote, rc_execute = (\<lambda>_. return_io ''0x01''), rc_approve = None, rc_log = (\<lambda>_. return_io ())\<rparr>"

lemma sample_calldata_encodes: "encodeErc20Transfer sample_router 60 = Inr sample_calldata"
  by (simp add: sample_calldata_def encodeErc20Transfer_def)

lemma escape_char_bound: "length (escape_char c) \<le> 6"
  using length_control_hex [of "of_char c"] by (simp add: escape_char_def Let_def)

lemma stringify_bound: "length (stringify_string s) \<le> 6 * length s + 2"
proof -
  have "length (concat (map escape_char s)) \<le> 6 * length s"
    by (induction s) (use escape_char_bound in \<open>auto simp: add_mono\<close>)
  then show ?thesis by (simp add: stringify_string_def)
qed

lemma sample_text_sizes:
  "2 * length (JSON_stringify (quote_json sample_quote)) \<le> BODY_LIMIT"
  "2 * length (JSON_stringify (verify_body (\<lambda>_. None) sample_quote)) \<le> BODY_LIMIT"
proof -
  have "is_address sample_router" using sample_wf by (simp add: wf_address_def)
  then have d: "length sample_calldata = 138" by (simp add: sample_calldata_def encodeErc20Transfer_def uint256_small)
  have "length (bigint_to_string 1) = 1" by code_simp
  moreover have "length sample_token = 42" using sample_wf by (simp add: wf_address_def is_address_def)
  ultimately show "2 * length (JSON_stringify (quote_json sample_quote)) \<le> BODY_LIMIT"
    "2 * length (JSON_stringify (verify_body (\<lambda>_. None) sample_quote)) \<le> BODY_LIMIT"
    using d stringify_bound [of sample_token] stringify_bound [of sample_calldata] stringify_bound [of "''0''"]
      stringify_bound [of "''to''"] stringify_bound [of "''data''"] stringify_bound [of "''value''"] stringify_bound [of "''chainId''"]
      stringify_bound [of "''agent''"] stringify_bound [of "''action''"] stringify_bound [of "recipe_AGENT (\<lambda>_. None)"]
    by (simp_all add: JSON_stringify_def quote_json_def verify_body_def sample_quote_def BODY_LIMIT_def recipe_AGENT_def)
qed

lemma sample_decodes: "\<exists>i. decodeRoute sample_route_context sample_posted = Inr (JObj [(''intent'', serialiseIntent i)])"
proof -
  let ?a = "\<lparr>act_to = sample_token, act_data = sample_calldata, act_value = 0, act_chainId = 11155111, act_metadata = None\<rparr>"
  have "isHex sample_calldata"
    using sample_calldata_encodes sample_wf by (intro encodeErc20Transfer_isHex [of sample_router 60]) (simp_all add: wf_address_def)
  then have a: "parseAction sample_posted = Inr ?a"
    using sample_wf by (simp add: sample_posted_def member_def parseAction_def is_object_def wf_address_def)
  obtain i where "engine_decode (rc_engine sample_route_context) ?a None = Inr i"
    using engine_decode_transfer [of "ap_engine sample_agent" sample_router 60 ?a] sample_wf sample_calldata_encodes
    by (auto simp: sample_agent_def sample_route_context_def uint256_small)
  with a show ?thesis by (auto simp: decodeRoute_def)
qed

lemma sample_decode_served:
  obtains i where "recipe_decode sample_recipe_platform sample_quote (g, (sample_server, w)) =
    (Inr (strip_json (serialiseIntent i)), (g, (sample_server, w)))"
proof -
  let ?b = "JSON_stringify (quote_json sample_quote)"
  obtain i where i: "decodeRoute sample_route_context sample_posted = Inr (JObj [(''intent'', serialiseIntent i)])"
    using sample_decodes by blast
  have "?b \<noteq> JSON_stringify (verify_body (\<lambda>_. None) sample_quote)"
    by (simp add: JSON_stringify_def quote_json_def verify_body_def stringify_string_def escape_char_def)
  then have "pf_parseJson sample_api ?b = Inr sample_posted" by (simp add: sample_api_def)
  moreover have "?b \<noteq> []" by (simp add: JSON_stringify_def quote_json_def)
  ultimately have "readJson (pf_parseJson sample_api) [utf8 ?b] = Inr sample_posted"
    using sample_text_sizes(1) by (intro readJson_body)
  then have "serve sample_api sample_server_options (\<lambda>_. throw_io OddHexLength)
      (posted b (b @ ''/v1/decode'') hs (quote_json sample_quote)) (g, (sample_server, w)) =
      (Inr (respondJson [] 200 (JObj [(''intent'', serialiseIntent i)])), (g, (sample_server, w)))" for b hs
    using i by (simp add: serve_def catch_io_def route_def posted_def decode_route_def bind_io_def priced_def in_snd_def
        sample_server_options_def sample_server_def)
  then have "recipe_decode sample_recipe_platform sample_quote (g, (sample_server, w)) =
      (Inr (strip_json (serialiseIntent i)), (g, (sample_server, w)))"
    by (simp add: recipe_decode_def recipe_call_def sample_recipe_platform_def served_post_def bind_io_def respondJson_def status_ok_def
        member_def env_set_def serialiseIntent_def)
  then show thesis by (rule that)
qed

lemma sample_verify_served:
  obtains result s' where "recipe_verify sample_recipe_platform sample_quote (g, (sample_server, sample_sim)) =
      (Inr (strip_json (verify_wire sample_route_context result)), s')" and "res_decision result = ALLOW"
proof -
  let ?b = "JSON_stringify (verify_body (\<lambda>_. None) sample_quote)"
  have "pf_parseJson sample_api ?b = Inr (sample_body sample_calldata)" by (simp add: sample_api_def)
  moreover have "?b \<noteq> []" by (simp add: JSON_stringify_def verify_body_def)
  ultimately have b: "readJson (pf_parseJson sample_api) [utf8 ?b] = Inr (sample_body sample_calldata)"
    using sample_text_sizes(2) by (intro readJson_body)
  have now: "pf_now sample_api = (\<lambda>w. (sa_clockMs w, w))" by (simp add: sample_api_def sample_server_platform_def)
  obtain out n w where out: "verifyRoute (\<lambda>w. (sa_clockMs w, w)) sample_route_context (sample_body sample_calldata) (0, sample_sim) = (Inr out, (n, w))"
    and allow: "res_decision (vo_result out) = ALLOW"
    using sample_verify_allows [OF sample_calldata_encodes] by auto
  have wire: "vo_body out = verify_wire sample_route_context (vo_result out)"
    using out by (auto simp: verifyRoute_def io_inversion Let_def split: prod.splits)
  have "run_verify sample_api (sample_body sample_calldata) (sample_server, sample_sim) = (Inr out, (sample_server\<lparr>sv_seq := n\<rparr>, w))"
    using out by (simp add: run_verify_def with_seq_def now) (simp add: sample_server_def)
  then obtain t where v: "verify_work sample_api sample_server_options (\<lambda>_. throw_io OddHexLength) (sample_body sample_calldata)
       (None, (sample_server, sample_sim)) = (Inr (vo_body out), (Some (vo_result out), t))" and t: "sv_audit (fst t) = None"
    using allow by (simp add: verify_work_def bind_io_def in_snd_def publish_event_def update_server_def sample_server_def)
  then have "serve sample_api sample_server_options (\<lambda>_. throw_io OddHexLength)
      (posted c (c @ ''/v1/verify'') hs (verify_body (\<lambda>_. None) sample_quote)) (g, (sample_server, sample_sim)) =
      (Inr (respondJson [] 200 (vo_body out)), (g, t))" for c hs
    using b by (cases t) (simp add: serve_def catch_io_def route_def posted_def verify_route_def bind_io_def priced_def publishAudit_def
        sample_server_options_def)
  then have "recipe_verify sample_recipe_platform sample_quote (g, (sample_server, sample_sim)) =
      (Inr (strip_json (vo_body out)), (g, t))"
    by (simp add: recipe_verify_def recipe_call_def sample_recipe_platform_def served_post_def bind_io_def respondJson_def status_ok_def
        env_set_def flip: verify_body_def)
  then show thesis using that allow by (simp add: wire)
qed

lemma sample_recipe_runs:
  obtains r w' where "verifyBeforeYouSwap sample_recipe_platform sample_recipe (newReplayGuard, (sample_server, sample_sim)) = (Inr r, w')"
    and "rx_executed r"
proof -
  let ?w = "(newReplayGuard, (sample_server, sample_sim))"
  obtain i where i: "recipe_decode sample_recipe_platform sample_quote ?w = (Inr (strip_json (serialiseIntent i)), ?w)"
    by (rule sample_decode_served)
  obtain result s' where v: "recipe_verify sample_recipe_platform sample_quote ?w =
      (Inr (strip_json (verify_wire sample_route_context result)), s')" and allow: "res_decision result = ALLOW"
    by (rule sample_verify_served)
  have "\<exists>m. member ''summary'' (strip_json (serialiseIntent i)) = Inr m" by (simp add: serialiseIntent_def member_def)
  moreover have "riskMetadata sample_recipe_platform j = return_io None" for j
    by (simp add: riskMetadata_def sample_recipe_platform_def env_set_def)
  ultimately have "recipe_ask sample_recipe_platform sample_recipe ?w = (Inr (strip_json (verify_wire sample_route_context result)), s')"
    using i v by (auto simp: recipe_ask_def sample_recipe_def bind_io_def)
  moreover have "opt_member ''decision'' (strip_json (verify_wire sample_route_context result)) = JStr ''ALLOW''"
    using allow by (simp add: verify_wire_def opt_member_def member_def)
  ultimately have "\<exists>r w'. verifyBeforeYouSwap sample_recipe_platform sample_recipe ?w = (Inr r, w') \<and> rx_executed r"
    by (cases s') (simp add: verifyBeforeYouSwap_def bind_io_def report_quiet recipe_act_def recipe_execute_def sample_recipe_def)
  then show thesis using that by blast
qed

theorem recipe_executes_verified_witness:
  "\<exists>r w' h. verifyBeforeYouSwap sample_recipe_platform sample_recipe (newReplayGuard, (sample_server, sample_sim)) = (Inr r, w') \<and>
     rx_txHash r = Some h"
proof -
  obtain r w' where "verifyBeforeYouSwap sample_recipe_platform sample_recipe (newReplayGuard, (sample_server, sample_sim)) = (Inr r, w')"
    "rx_executed r" by (rule sample_recipe_runs)
  with recipe_executes_verified [OF this(1)] show ?thesis by blast
qed


end
