(* ===== verification/Boot.thy ===== *)
theory Boot
  imports Recipe X402Client
begin

text \<open>
  How the API server comes up: \<^verbatim>\<open>createApiServerFromEnv\<close> and the construction part of \<^verbatim>\<open>createApiServer\<close> in
  \<^verbatim>\<open>packages/api/src/server.ts\<close>. The result is the options and the state the routes of \<^verbatim>\<open>Server\<close> run on, with a fresh replay
  guard. The adapters to the network, whose behaviour is modelled elsewhere, are constructed by the platform; the
  vendor's SDK behind \<^verbatim>\<open>createHederaSubmitter\<close> is a parameter. An environment variable that holds a number is read as a
  whole number (a liquidity floor as a rational); a text that is not a finite number counts as 0.
\<close>

section \<open>Options\<close>

record X402Config =
  bx_enabled :: bool
  bx_facilitatorUrl :: string
  bx_network :: string
  bx_asset :: string
  bx_assetDecimals :: nat
  bx_payTo :: string
  bx_priceVerify :: string
  bx_priceDecode :: string
  bx_baseUrl :: string

record HederaConfig =
  hd_accountId :: string
  hd_privateKey :: string
  hd_topicId :: string
  hd_network :: string

record ChainConfig =
  ch_rpcUrl :: string
  ch_chainId :: int
  ch_universalResolver :: "string option"

record UniswapGraph =
  ug_endpoint :: string
  ug_apiKey :: "string option"
  ug_minTvlUsd :: "rat option"

record 'w BootOptions =
  bo_policy :: PolicyDocument
  bo_policyPath :: "string option"
  bo_port :: int
  bo_x402 :: "X402Config option"
  bo_hedera :: "HederaConfig option"
  bo_chain :: "ChainConfig option"
  bo_graph :: "(string \<times> string) option"
  bo_uniswapGraph :: "UniswapGraph option"
  bo_mode :: "ApiMode option"
  bo_adminToken :: "string option"
  bo_facilitator :: "'w Facilitator option"

record 'w BootPlatform =
  bt_memory :: "'w StateProvider"
  bt_graph :: "string \<Rightarrow> string \<Rightarrow> Address \<Rightarrow> ChainReader option \<Rightarrow> 'w StateProvider"
  bt_chain :: "string \<Rightarrow> int \<Rightarrow> ChainReader"
  bt_identity :: "ChainReader \<Rightarrow> string \<Rightarrow> 'w IdentityProvider"
  bt_pools :: "string \<Rightarrow> string option \<Rightarrow> Address \<Rightarrow> Address \<Rightarrow> ('w, PoolState option) io"
  bt_http :: "'w FacilitatorHttp"
  bt_submitter :: "HederaConfig \<Rightarrow> ('w, unit) io"
  bt_proofs :: ProofRegistry
  bt_approvalTimeoutMs :: "string option"

section \<open>createApiServer\<close>

definition finite_number :: "js_number \<Rightarrow> rat" where
  "finite_number x = (case x of Finite q \<Rightarrow> q | _ \<Rightarrow> 0)"

definition env_whole :: "string option \<Rightarrow> int \<Rightarrow> int" where
  "env_whole v fallback = (case v of None \<Rightarrow> fallback | Some s \<Rightarrow> \<lfloor>finite_number (js_Number s)\<rfloor>)"

definition required :: "string option \<Rightarrow> string \<Rightarrow> string result" where
  "required v message = (case v of None \<Rightarrow> Inl (ErrorMessage message) | Some s \<Rightarrow> if s = [] then Inl (ErrorMessage message) else Inr s)"

definition chainOptions :: "'w BootOptions \<Rightarrow> ChainConfig option" where
  "chainOptions o' = (case bo_chain o' of None \<Rightarrow> None | Some c \<Rightarrow> if ch_rpcUrl c = [] then None else Some c)"

definition boot_chain :: "'w BootPlatform \<Rightarrow> 'w BootOptions \<Rightarrow> ChainReader option" where
  "boot_chain bt o' = map_option (\<lambda>c. bt_chain bt (ch_rpcUrl c) (ch_chainId c)) (chainOptions o')"

definition boot_state :: "'w BootPlatform \<Rightarrow> 'w BootOptions \<Rightarrow> ResolvedPolicy \<Rightarrow> 'w StateProvider result" where
  "boot_state bt o' policy =
     (if or_else (bo_mode o') Simulation = Production then
        bindR (required (map_option fst (bo_graph o')) ''GRAPH_ENDPOINT is required in production mode'') (\<lambda>endpoint.
        bindR (required (map_option snd (bo_graph o')) ''GRAPH_API_KEY is required in production mode'') (\<lambda>apiKey.
          Inr (bt_graph bt endpoint apiKey (rp_hook policy) (boot_chain bt o'))))
      else Inr (bt_memory bt))"

definition boot_identity :: "'w BootPlatform \<Rightarrow> 'w BootOptions \<Rightarrow> 'w IdentityProvider option" where
  "boot_identity bt o' = (case chainOptions o' of None \<Rightarrow> None
     | Some c \<Rightarrow> (case ch_universalResolver c of None \<Rightarrow> None
         | Some resolver \<Rightarrow> if resolver = [] then None else Some (bt_identity bt (bt_chain bt (ch_rpcUrl c) (ch_chainId c)) resolver)))"

definition boot_server_options :: "'w BootPlatform \<Rightarrow> 'w BootOptions \<Rightarrow> 'w StateProvider \<Rightarrow> 'w ServerOptions" where
  "boot_server_options bt o' state =
     \<lparr>so_mode = or_else (bo_mode o') Simulation, so_agent = doc_agent (bo_policy o'), so_policyPath = bo_policyPath o', so_state = state,
      so_proofs = bt_proofs bt, so_chain = boot_chain bt o', so_identity = boot_identity bt o',
      so_pools = map_option (\<lambda>u. bt_pools bt (ug_endpoint u) (ug_apiKey u)) (bo_uniswapGraph o'),
      so_minTvlUsd = Option.bind (bo_uniswapGraph o') ug_minTvlUsd, so_x402 = None, so_adminToken = bo_adminToken o',
      so_approvalTimeoutMs = env_whole (bt_approvalTimeoutMs bt) 60000\<rparr>"

text \<open>The fee payer is passed on when the facilitator advertised one.\<close>

definition gate_options :: "X402Config \<Rightarrow> string option \<Rightarrow> string \<Rightarrow> X402Options" where
  "gate_options x feePayer price =
     \<lparr>xo_network = bx_network x, xo_asset = bx_asset x, xo_payTo = bx_payTo x, xo_price = price, xo_assetDecimals = bx_assetDecimals x,
      xo_extra = (case feePayer of None \<Rightarrow> None | Some f \<Rightarrow> if f = [] then None else Some (Some f)), xo_baseUrl = bx_baseUrl x,
      xo_enabled = bx_enabled x\<rparr>"

definition boot_facilitator :: "'w BootPlatform \<Rightarrow> 'w ServerPlatform \<Rightarrow> 'w BootOptions \<Rightarrow> X402Config \<Rightarrow> ('w, 'w Facilitator \<times> string option) io" where
  "boot_facilitator bt pf o' x =
     (case bo_facilitator o' of
        Some f \<Rightarrow> return_io (f, None)
      | None \<Rightarrow>
          let b = \<lparr>bl_baseUrl = bx_facilitatorUrl x, bl_network = Some (bx_network x), bl_feePayer = None\<rparr> in
          bind_io (if bx_enabled x then assertSupported (bt_http bt) b else return_io b) (\<lambda>b'.
            return_io (blocky_facilitator (pf_message pf) (pf_parsePayment pf) (bt_http bt) b', bl_feePayer b')))"

definition boot_payments :: "'w BootPlatform \<Rightarrow> 'w ServerPlatform \<Rightarrow> 'w BootOptions \<Rightarrow> ('w, 'w Payments option) io" where
  "boot_payments bt pf o' =
     (case bo_x402 o' of
        None \<Rightarrow> return_io None
      | Some x \<Rightarrow> bind_io (boot_facilitator bt pf o' x) (\<lambda>(facilitator, feePayer). return_io (Some
          \<lparr>py_facilitator = facilitator, py_verify = gate_options x feePayer (bx_priceVerify x), py_decode = gate_options x feePayer (bx_priceDecode x)\<rparr>)))"

text \<open>A submitter that cannot be made leaves the server without an audit trail.\<close>

definition boot_audit :: "'w BootPlatform \<Rightarrow> 'w BootOptions \<Rightarrow> ('w, HcsAuditTrail option) io" where
  "boot_audit bt o' w =
     (case bo_hedera o' of
        None \<Rightarrow> (Inr None, w)
      | Some h \<Rightarrow> if hd_topicId h = [] then (Inr None, w)
          else (case bt_submitter bt h w of (Inr _, w') \<Rightarrow> (Inr (Some (newHcsAuditTrail True)), w') | (Inl _, w') \<Rightarrow> (Inr None, w')))"

definition createApiServer :: "'w BootPlatform \<Rightarrow> 'w ServerPlatform \<Rightarrow> 'w BootOptions \<Rightarrow> ('w, 'w ServerOptions \<times> 'w Server \<times> ReplayGuard) io" where
  "createApiServer bt pf o' =
     bind_io (lift_io (resolvePolicy (bo_policy o'))) (\<lambda>policy.
     bind_io (lift_io (boot_state bt o' policy)) (\<lambda>state.
     bind_io (lift_io (make_context pf (boot_server_options bt o' state) policy)) (\<lambda>context.
     bind_io (boot_payments bt pf o') (\<lambda>payments.
     bind_io (boot_audit bt o') (\<lambda>audit.
       return_io ((boot_server_options bt o' state)\<lparr>so_x402 := payments\<rparr>,
         \<lparr>sv_ctx = context, sv_seq = 0, sv_stream = newEventStream None, sv_approver = newDashboardApprover, sv_audit = audit\<rparr>, newReplayGuard))))))"

section \<open>createApiServerFromEnv\<close>

definition x402_from_env :: "(string \<Rightarrow> string option) \<Rightarrow> X402Config" where
  "x402_from_env env =
     \<lparr>bx_enabled = (env ''X402_ENABLED'' = Some ''true''),
      bx_facilitatorUrl = or_else (env ''X402_FACILITATOR_URL'') ''https://api.testnet.blocky402.com'',
      bx_network = (if env ''HEDERA_NETWORK'' = Some ''mainnet'' then ''hedera:mainnet'' else ''hedera:testnet''),
      bx_asset = or_else (env ''HEDERA_USDC_TOKEN_ID'') ''0.0.429274'', bx_assetDecimals = nat (env_whole (env ''HEDERA_ASSET_DECIMALS'') 6),
      bx_payTo = (case env ''X402_PAY_TO'' of Some s \<Rightarrow> s | None \<Rightarrow> or_else (env ''HEDERA_ACCOUNT_ID'') ''0.0.0''),
      bx_priceVerify = or_else (env ''X402_PRICE_VERIFY_USDC'') ''0.01'', bx_priceDecode = or_else (env ''X402_PRICE_DECODE_USDC'') ''0.005'',
      bx_baseUrl = or_else (env ''API_PUBLIC_URL'') ''http://localhost:8402''\<rparr>"

definition chain_from_env :: "(string \<Rightarrow> string option) \<Rightarrow> ChainConfig option" where
  "chain_from_env env = map_option (\<lambda>url. \<lparr>ch_rpcUrl = url, ch_chainId = env_whole (env ''CHAIN_ID'') 11155111,
     ch_universalResolver = env ''ENS_UNIVERSAL_RESOLVER''\<rparr>) (env_set env ''SEPOLIA_RPC_URL'')"

definition uniswap_from_env :: "(string \<Rightarrow> string option) \<Rightarrow> UniswapGraph option" where
  "uniswap_from_env env = map_option (\<lambda>url. \<lparr>ug_endpoint = url, ug_apiKey = env ''GRAPH_API_KEY'',
     ug_minTvlUsd = Some (case env ''UNISWAP_MIN_POOL_TVL_USD'' of None \<Rightarrow> 50000 | Some s \<Rightarrow> finite_number (js_Number s))\<rparr>)
     (env_set env ''UNISWAP_SUBGRAPH_ENDPOINT'')"

text \<open>The account id is not checked: \<^verbatim>\<open>env.HEDERA_ACCOUNT_ID!\<close>, where an absent one is read as the empty string here.\<close>

definition hedera_from_env :: "(string \<Rightarrow> string option) \<Rightarrow> HederaConfig option" where
  "hedera_from_env env =
     (case (env_set env ''HCS_AUDIT_TOPIC_ID'', env_set env ''HEDERA_PRIVATE_KEY'') of
        (Some topic, Some key) \<Rightarrow> Some \<lparr>hd_accountId = or_else (env ''HEDERA_ACCOUNT_ID'') [], hd_privateKey = key, hd_topicId = topic,
          hd_network = (if env ''HEDERA_NETWORK'' = Some ''mainnet'' then ''mainnet'' else ''testnet'')\<rparr>
      | _ \<Rightarrow> None)"

definition createApiServerFromEnv ::
  "'w BootPlatform \<Rightarrow> 'w ServerPlatform \<Rightarrow> PolicyDocument \<Rightarrow> (string \<Rightarrow> string option) \<Rightarrow> string option \<Rightarrow>
   ('w, 'w ServerOptions \<times> 'w Server \<times> ReplayGuard) io" where
  "createApiServerFromEnv bt pf policy env policyPath =
     bind_io (lift_io (readRuntimeConfig env policy)) (\<lambda>config.
       createApiServer bt pf \<lparr>bo_policy = policy, bo_policyPath = policyPath, bo_port = env_whole (env ''PORT'') 8402,
         bo_x402 = Some (x402_from_env env), bo_hedera = hedera_from_env env, bo_chain = chain_from_env env, bo_graph = cg_graph config,
         bo_uniswapGraph = uniswap_from_env env, bo_mode = Some (cg_mode config), bo_adminToken = cg_adminToken config, bo_facilitator = None\<rparr>)"

section \<open>Properties\<close>

lemma make_context_policy: "make_context pf opts policy = Inr ctx \<Longrightarrow> rc_policy ctx = policy"
  by (auto simp: make_context_def bindR_eq_Inr)

lemma make_context_x402: "make_context pf (opts\<lparr>so_x402 := p\<rparr>) policy = make_context pf opts policy"
  by (cases "so_chain opts") (simp_all add: make_context_def buildEngine_def can_read_def)

lemma createApiServer_Inr:
  assumes "createApiServer bt pf o' w = (Inr (opts, sv, g), w')"
  obtains policy state payments w1 where "resolvePolicy (bo_policy o') = Inr policy" and "boot_state bt o' policy = Inr state"
    and "opts = (boot_server_options bt o' state)\<lparr>so_x402 := payments\<rparr>" and "make_context pf opts policy = Inr (sv_ctx sv)"
    and "boot_payments bt pf o' w = (Inr payments, w1)" and "g = newReplayGuard"
  using assms unfolding createApiServer_def io_inversion by (auto simp: make_context_x402)

text \<open>
  (C26) A server that came up is the one the environment asked for: the preflight found nothing missing, the policy in
  force is the one resolved from the document and the engine was built from it; in production, and only there, the
  day's spend is read from the subgraph, with a chain reader beside it, never from memory; both priced routes are on
  exactly when payments are, and then the facilitator had confirmed that it settles on the configured network.
\<close>

theorem boot_sound:
  assumes "createApiServerFromEnv bt pf policy env path w = (Inr (opts, sv, g), w')"
  shows "preflight_missing env policy = [] \<and> resolvePolicy policy = Inr (rc_policy (sv_ctx sv)) \<and>
     make_context pf opts (rc_policy (sv_ctx sv)) = Inr (sv_ctx sv) \<and>
     (if env ''AGENTPROOF_MODE'' = Some ''production'' then so_mode opts = Production \<and> so_chain opts \<noteq> None \<and>
        (\<exists>endpoint key. env_set env ''GRAPH_ENDPOINT'' = Some endpoint \<and> env_set env ''GRAPH_API_KEY'' = Some key \<and>
           so_state opts = bt_graph bt endpoint key (rp_hook (rc_policy (sv_ctx sv))) (so_chain opts))
      else so_mode opts = Simulation \<and> so_state opts = bt_memory bt) \<and>
     (\<exists>p. so_x402 opts = Some p \<and> xo_enabled (py_verify p) = (env ''X402_ENABLED'' = Some ''true'') \<and>
        xo_enabled (py_decode p) = (env ''X402_ENABLED'' = Some ''true'') \<and>
        (env ''X402_ENABLED'' = Some ''true'' \<longrightarrow> (\<exists>b. fst (assertSupported (bt_http bt)
           \<lparr>bl_baseUrl = bx_facilitatorUrl (x402_from_env env), bl_network = Some (bx_network (x402_from_env env)), bl_feePayer = None\<rparr> w) = Inr b)))"
proof -
  obtain config where config: "readRuntimeConfig env policy = Inr config"
    and boot: "createApiServer bt pf \<lparr>bo_policy = policy, bo_policyPath = path, bo_port = env_whole (env ''PORT'') 8402,
         bo_x402 = Some (x402_from_env env), bo_hedera = hedera_from_env env, bo_chain = chain_from_env env, bo_graph = cg_graph config,
         bo_uniswapGraph = uniswap_from_env env, bo_mode = Some (cg_mode config), bo_adminToken = cg_adminToken config, bo_facilitator = None\<rparr> w =
       (Inr (opts, sv, g), w')" (is "createApiServer bt pf ?o w = _")
    using assms unfolding createApiServerFromEnv_def io_inversion by auto
  obtain pol state payments w1 where b: "resolvePolicy policy = Inr pol" "boot_state bt ?o pol = Inr state"
    "opts = (boot_server_options bt ?o state)\<lparr>so_x402 := payments\<rparr>" "make_context pf opts pol = Inr (sv_ctx sv)"
    "boot_payments bt pf ?o w = (Inr payments, w1)"
    using createApiServer_Inr [OF boot] by (metis BootOptions.select_convs(1))
  have p: "rc_policy (sv_ctx sv) = pol" using make_context_policy [OF b(4)] .
  have ok: "preflight_missing env policy = []"
    and c: "cg_mode config = (if env ''AGENTPROOF_MODE'' = Some ''production'' then Production else Simulation)"
    "cg_graph config = (case (env_set env ''GRAPH_ENDPOINT'', env_set env ''GRAPH_API_KEY'') of
        (Some endpoint, Some apiKey) \<Rightarrow> Some (endpoint, apiKey) | _ \<Rightarrow> None)"
    using config by (auto simp: readRuntimeConfig_def Let_def split: if_splits)
  have mode: "so_mode opts = cg_mode config" "so_state opts = state" "so_chain opts = boot_chain bt ?o" "so_x402 opts = payments"
    by (simp_all add: b(3) boot_server_options_def or_else_def)
  have source: "if env ''AGENTPROOF_MODE'' = Some ''production'' then so_mode opts = Production \<and> so_chain opts \<noteq> None \<and>
        (\<exists>endpoint key. env_set env ''GRAPH_ENDPOINT'' = Some endpoint \<and> env_set env ''GRAPH_API_KEY'' = Some key \<and>
           so_state opts = bt_graph bt endpoint key (rp_hook pol) (so_chain opts))
      else so_mode opts = Simulation \<and> so_state opts = bt_memory bt"
  proof (cases "env ''AGENTPROOF_MODE'' = Some ''production''")
    case True
    then obtain url endpoint key where v: "env_set env ''SEPOLIA_RPC_URL'' = Some url" "env_set env ''GRAPH_ENDPOINT'' = Some endpoint"
      "env_set env ''GRAPH_API_KEY'' = Some key"
      using ok by (auto simp: preflight_missing_def split: if_splits)
    then have "url \<noteq> []" "endpoint \<noteq> []" "key \<noteq> []" by (auto simp: env_set_def split: option.splits if_splits)
    with True v b(2) show ?thesis
      by (auto simp: mode c boot_state_def or_else_def required_def boot_chain_def chainOptions_def chain_from_env_def)
  next
    case False
    with b(2) show ?thesis by (simp add: mode c boot_state_def or_else_def)
  qed
  obtain f feePayer where f: "boot_facilitator bt pf ?o (x402_from_env env) w = (Inr (f, feePayer), w1)"
    and payments: "payments = Some \<lparr>py_facilitator = f, py_verify = gate_options (x402_from_env env) feePayer (bx_priceVerify (x402_from_env env)),
      py_decode = gate_options (x402_from_env env) feePayer (bx_priceDecode (x402_from_env env))\<rparr>"
    using b(5) by (auto simp: boot_payments_def io_inversion)
  have supported: "\<exists>b. fst (assertSupported (bt_http bt)
      \<lparr>bl_baseUrl = bx_facilitatorUrl (x402_from_env env), bl_network = Some (bx_network (x402_from_env env)), bl_feePayer = None\<rparr> w) = Inr b"
    if "env ''X402_ENABLED'' = Some ''true''"
  proof -
    have "bx_enabled (x402_from_env env)" using that by (simp add: x402_from_env_def)
    with f show ?thesis by (auto simp: boot_facilitator_def io_inversion)
  qed
  have "bx_enabled (x402_from_env env) = (env ''X402_ENABLED'' = Some ''true'')" by (simp add: x402_from_env_def)
  with supported payments mode(4) have "\<exists>p. so_x402 opts = Some p \<and> xo_enabled (py_verify p) = (env ''X402_ENABLED'' = Some ''true'') \<and>
      xo_enabled (py_decode p) = (env ''X402_ENABLED'' = Some ''true'') \<and>
      (env ''X402_ENABLED'' = Some ''true'' \<longrightarrow> (\<exists>b. fst (assertSupported (bt_http bt)
         \<lparr>bl_baseUrl = bx_facilitatorUrl (x402_from_env env), bl_network = Some (bx_network (x402_from_env env)), bl_feePayer = None\<rparr> w) = Inr b))"
    by (simp add: gate_options_def)
  then show ?thesis unfolding p by (intro conjI ok b(1) b(4) source)
qed

text \<open>
  (C36) A production server may come up with no owner at all: the preflight does not ask for \<^verbatim>\<open>AGENTPROOF_ADMIN_TOKEN\<close>, and
  on a server started without it every request has a session and may publish, so anyone can approve an escalated
  action or change the limits.
\<close>

theorem production_without_owner:
  assumes "createApiServerFromEnv bt pf policy env path w = (Inr (opts, sv, g), w')" and "env ''AGENTPROOF_MODE'' = Some ''production''"
    and "env ''AGENTPROOF_ADMIN_TOKEN'' = None"
  shows "so_mode opts = Production \<and> hasDashboardSession (pf_digest pf) (so_adminToken opts) req \<and> isInternalPublisher (so_adminToken opts) req"
proof -
  have "so_adminToken opts = None \<and> so_mode opts = Production"
    using assms unfolding createApiServerFromEnv_def io_inversion
    by (auto simp: readRuntimeConfig_def Let_def boot_server_options_def or_else_def split: if_splits elim!: createApiServer_Inr)
  then show ?thesis by (simp add: hasDashboardSession_def isInternalPublisher_def has_token_def)
qed

section \<open>Witnesses\<close>

definition sample_production :: "string \<Rightarrow> string option" where
  "sample_production k = map_of [(''AGENTPROOF_MODE'', ''production''), (''SEPOLIA_RPC_URL'', ''http://rpc''), (''GRAPH_ENDPOINT'', ''http://graph''),
     (''GRAPH_API_KEY'', ''key'')] k"

definition sample_boot :: "SimulatedAccount BootPlatform" where
  "sample_boot = \<lparr>bt_memory = account_provider, bt_graph = (\<lambda>_ _ _ _. account_provider),
     bt_chain = (\<lambda>_ _. \<lparr>cr_chainId = 11155111, cr_getErc20Balance = (\<lambda>_ _. Inr 0), cr_call = (\<lambda>_ _. Inr ''0x''), cr_getBlockTimestamp = Inr 0\<rparr>),
     bt_identity = (\<lambda>_ _. \<lparr>ip_resolvePolicyHash = (\<lambda>_. throw_io OddHexLength), ip_resolveAccount = (\<lambda>_. throw_io OddHexLength),
       ip_resolveHook = (\<lambda>_. throw_io OddHexLength), ip_resolveStatus = (\<lambda>_. throw_io OddHexLength)\<rparr>),
     bt_pools = (\<lambda>_ _ _ _. return_io None),
     bt_http = \<lparr>fh_supported = (\<lambda>_. return_io None), fh_verify = (\<lambda>_ _. throw_io OddHexLength), fh_settle = (\<lambda>_ _. throw_io OddHexLength)\<rparr>,
     bt_submitter = (\<lambda>_. throw_io OddHexLength), bt_proofs = notRun, bt_approvalTimeoutMs = None\<rparr>"

lemma sample_boot_up: "\<exists>opts sv g w'. createApiServerFromEnv sample_boot sample_server_platform shipped_document sample_production None w = (Inr (opts, sv, g), w')"
proof -
  have "preflight_missing sample_production shipped_document = []" by code_simp
  then have config: "readRuntimeConfig sample_production shipped_document = Inr \<lparr>cg_mode = Production, cg_adminToken = None, cg_graph = Some (''http://graph'', ''key'')\<rparr>"
    by (simp add: readRuntimeConfig_def sample_production_def env_set_def)
  obtain rp where rp: "resolvePolicy shipped_document = Inr rp" using shipped_resolves by blast
  have e: "bx_enabled (x402_from_env sample_production) = False" "hedera_from_env sample_production = None"
    by (simp_all add: x402_from_env_def hedera_from_env_def sample_production_def env_set_def)
  have m: "make_context pf opts rp \<noteq> Inl x" for pf :: "SimulatedAccount ServerPlatform" and opts x
    by (simp add: make_context_def buildEngine_def createDefaultRegistry_eq)
  show ?thesis
    using config rp e m
    by (simp add: createApiServerFromEnv_def createApiServer_def bind_io_def boot_state_def required_def or_else_def boot_payments_def
        boot_facilitator_def boot_audit_def split: sum.splits prod.splits)
qed

theorem boot_sound_witness:
  "\<exists>opts sv g w'. createApiServerFromEnv sample_boot sample_server_platform shipped_document sample_production None sample_sim = (Inr (opts, sv, g), w') \<and>
     so_chain opts \<noteq> None"
proof -
  obtain opts sv g w' where up: "createApiServerFromEnv sample_boot sample_server_platform shipped_document sample_production None sample_sim = (Inr (opts, sv, g), w')"
    using sample_boot_up by blast
  have "sample_production ''AGENTPROOF_MODE'' = Some ''production''" by (simp add: sample_production_def)
  with boot_sound [OF up] up show ?thesis by auto
qed

theorem production_without_owner_witness:
  "\<exists>opts sv g w'. createApiServerFromEnv sample_boot sample_server_platform shipped_document sample_production None sample_sim = (Inr (opts, sv, g), w') \<and>
     hasDashboardSession (pf_digest sample_server_platform) (so_adminToken opts) (sample_http ''POST'' ''/v1/approve'')"
proof -
  obtain opts sv g w' where up: "createApiServerFromEnv sample_boot sample_server_platform shipped_document sample_production None sample_sim = (Inr (opts, sv, g), w')"
    using sample_boot_up by blast
  have "sample_production ''AGENTPROOF_MODE'' = Some ''production''" "sample_production ''AGENTPROOF_ADMIN_TOKEN'' = None"
    by (simp_all add: sample_production_def)
  with production_without_owner [OF up] up show ?thesis by blast
qed

end
