(* ===== verification/Agents.thy ===== *)
theory Agents
  imports Recipe X402Client
begin

text \<open>
  The demonstration agents of \<^verbatim>\<open>apps/agents\<close>: the trader (\<^verbatim>\<open>trader/index.ts\<close>), which proposes swaps a language model
  sized, the researcher (\<^verbatim>\<open>researcher/index.ts\<close>), which pays for queries over x402, and the models behind a port
  (\<^verbatim>\<open>shared/llm.ts\<close>). Both run on a simulated account with an in-memory state provider, both of which are part of the
  world next to whatever else the model or the network does (\<open>'m\<close>). Log lines are left out, and so is the
  optional \<^verbatim>\<open>onDecision\<close> of the options, which only observes.
\<close>

section \<open>shared/llm.ts\<close>

text \<open>
  A proposal is whatever JSON the model produced, cast to the interface: its three members that are read are kept
  unchecked. The numbers of a signal are only printed; they are kept as JavaScript prints them.
\<close>

record TradeProposal =
  tp_reasoning :: json
  tp_action :: json
  tp_amountUsdc :: json

record PriceSignal =
  sg_pair :: string
  sg_price :: string
  sg_changePct24h :: string
  sg_note :: string

text \<open>A model answers a proposal, or \<^verbatim>\<open>undefined\<close>.\<close>

type_synonym 'm AgentModel = "PriceSignal \<Rightarrow> string list \<Rightarrow> ('m, TradeProposal option) io"

text \<open>\<^verbatim>\<open>ScriptedModel\<close>: its state is the index; past the end the last proposal is repeated.\<close>

definition scripted_propose :: "TradeProposal list \<Rightarrow> nat AgentModel" where
  "scripted_propose transcript signal memory index =
     (Inr (if transcript = [] then None else Some (transcript ! min index (length transcript - 1))), index + 1)"

definition signal_json :: "PriceSignal \<Rightarrow> string" where
  "signal_json s = ''{'' @ stringify_string ''pair'' @ '':'' @ stringify_string (sg_pair s) @ '','' @ stringify_string ''price'' @ '':'' @ sg_price s @ '','' @
     stringify_string ''changePct24h'' @ '':'' @ sg_changePct24h s @ '','' @ stringify_string ''note'' @ '':'' @ stringify_string (sg_note s) @ ''}''"

definition SYSTEM_PROMPT :: string where
  "SYSTEM_PROMPT = ''You are a DeFi trading agent managing a USDC treasury. You size positions by conviction. '' @
     ''Respond with JSON only: {'' @ [CHR 0x22] @ ''reasoning'' @ [CHR 0x22] @ '':string,'' @ [CHR 0x22] @ ''action'' @ [CHR 0x22] @ '':'' @
     [CHR 0x22] @ ''SWAP'' @ [CHR 0x22] @ ''|'' @ [CHR 0x22] @ ''HOLD'' @ [CHR 0x22] @ '','' @ [CHR 0x22] @ ''amountUsdc'' @ [CHR 0x22] @ '':string,'' @
     [CHR 0x22] @ ''confidence'' @ [CHR 0x22] @ '':number}. '' @ ''No markdown, no prose outside the JSON.''"

definition user_prompt :: "PriceSignal \<Rightarrow> string list \<Rightarrow> string" where
  "user_prompt signal memory = ''Signal: '' @ signal_json signal @ [CHR 0x0A] @ ''Recent context: '' @ join '' | '' memory @ [CHR 0x0A] @
     ''What do you propose?''"

definition prompt_messages :: "PriceSignal \<Rightarrow> string list \<Rightarrow> json" where
  "prompt_messages signal memory = JArr [JObj [(''role'', JStr ''system''), (''content'', JStr SYSTEM_PROMPT)],
     JObj [(''role'', JStr ''user''), (''content'', JStr (user_prompt signal memory))]]"

text \<open>\<^verbatim>\<open>s.replace(/```json|```/g, '')\<close>.\<close>

definition fence :: string where "fence = replicate 3 (CHR 0x60)"

function strip_fences :: "string \<Rightarrow> string" where
  "strip_fences s = (case s of [] \<Rightarrow> []
     | c # r \<Rightarrow> if take 7 s = fence @ ''json'' then strip_fences (drop 7 s)
         else if take 3 s = fence then strip_fences (drop 3 s) else c # strip_fences r)"
  by pat_completeness auto

termination
  by (relation "measure length") auto

definition read_proposal :: "json \<Rightarrow> TradeProposal result" where
  "read_proposal j =
     bindR (member ''reasoning'' j) (\<lambda>r. bindR (member ''action'' j) (\<lambda>a. bindR (member ''amountUsdc'' j) (\<lambda>m.
       Inr \<lparr>tp_reasoning = r, tp_action = a, tp_amountUsdc = m\<rparr>)))"

text \<open>
  \<open>post\<close> is \<^verbatim>\<open>fetch\<close> of the completions endpoint: status, text and JSON of the response. \<open>parse\<close> is \<^verbatim>\<open>JSON.parse\<close>.
\<close>

definition openrouter_body :: "string \<Rightarrow> PriceSignal \<Rightarrow> string list \<Rightarrow> json" where
  "openrouter_body model signal memory = JObj [(''model'', JStr model), (''temperature'', JNum 0), (''messages'', prompt_messages signal memory)]"

definition completion_text :: "json \<Rightarrow> string" where
  "completion_text body = trim (strip_fences (js_string (coalesce
     (opt_member ''content'' (opt_member ''message'' (json_first (opt_member ''choices'' body)))) (JStr []))))"

definition openrouter_propose ::
  "(string \<Rightarrow> string option) \<Rightarrow> (string \<Rightarrow> json result) \<Rightarrow> (string \<Rightarrow> json \<Rightarrow> ('m, nat \<times> string \<times> json result) io) \<Rightarrow> string option \<Rightarrow> 'm AgentModel" where
  "openrouter_propose env parse post model signal memory =
     (case env_set env ''OPENROUTER_API_KEY'' of
        None \<Rightarrow> throw_io (ErrorMessage ''OPENROUTER_API_KEY is not set'')
      | Some apiKey \<Rightarrow>
          let name = (case model of Some m \<Rightarrow> m | None \<Rightarrow> or_else (env ''OPENROUTER_MODEL'') ''openai/gpt-4o-mini'') in
          bind_io (post apiKey (openrouter_body name signal memory)) (\<lambda>(status, text, body).
            if \<not> (200 \<le> status \<and> status < 300) then
              throw_io (ErrorMessage (''OpenRouter '' @ bigint_to_string (int status) @ '': '' @ text))
            else bind_io (lift_io body) (\<lambda>b.
              bind_io (lift_io (parse (completion_text b))) (\<lambda>j. bind_io (lift_io (read_proposal j)) (\<lambda>p. return_io (Some p))))))"

text \<open>\<open>invoke\<close> is the vendor's \<^verbatim>\<open>llm.invoke\<close> inside a graph of one node.\<close>

definition langgraph_propose :: "(string \<Rightarrow> json result) \<Rightarrow> (json \<Rightarrow> ('m, string) io) \<Rightarrow> 'm AgentModel" where
  "langgraph_propose parse invoke signal memory =
     bind_io (invoke (prompt_messages signal memory)) (\<lambda>content.
     bind_io (lift_io (parse (trim (strip_fences content)))) (\<lambda>j.
       if json_falsy j then throw_io (ErrorMessage ''Model returned no proposal'')
       else bind_io (lift_io (read_proposal j)) (\<lambda>p. return_io (Some p))))"

section \<open>The sandbox\<close>

record 'm AgentEnv =
  ae_account :: SimulatedAccount
  ae_state :: MemoryState
  ae_outer :: 'm

definition outer_io :: "('m, 'a) io \<Rightarrow> ('m AgentEnv, 'a) io" where
  "outer_io m w = (let (r, o') = m (ae_outer w) in (r, w\<lparr>ae_outer := o'\<rparr>))"

definition outer_clock :: "('m \<Rightarrow> int \<times> 'm) \<Rightarrow> 'm AgentEnv \<Rightarrow> int \<times> 'm AgentEnv" where
  "outer_clock clock w = (let (t, o') = clock (ae_outer w) in (t, w\<lparr>ae_outer := o'\<rparr>))"

definition memory_provider :: "'m AgentEnv StateProvider" where
  "memory_provider = \<lparr>sp_getDailySpend = (\<lambda>a d w. (Inr (memory_getDailySpend (ae_state w) a d), w)),
     sp_getBalance = (\<lambda>a t w. (Inr (memory_getBalance (ae_state w) a t), w)),
     sp_recordExecution = (\<lambda>a i h w. (Inr (), w\<lparr>ae_state := memory_recordExecution a i h (ae_state w)\<rparr>))\<rparr>"

definition sandbox_executor :: "'m AgentEnv Executor" where
  "sandbox_executor = simulated_executor ae_account (\<lambda>s w. w\<lparr>ae_account := s\<rparr>)"

definition base_amount :: "string option \<Rightarrow> int result" where
  "base_amount a = (case a of None \<Rightarrow> Inl TypeErrorUndefined | Some s \<Rightarrow> parseBaseUnitPolicyAmount s)"

definition sandbox_account :: "PolicyDocument \<Rightarrow> Hex \<Rightarrow> string list option \<Rightarrow> int \<Rightarrow> SimulatedAccount result" where
  "sandbox_account policy hash allowedTargets nowMs =
     bindR (base_amount (pl_maxTransaction (doc_policies policy))) (\<lambda>maxTransaction.
     bindR (base_amount (pl_dailySpend (doc_policies policy))) (\<lambda>dailyLimit.
     bindR (base_amount (pl_minBalance (doc_policies policy))) (\<lambda>minBalance.
     bindR (usdc ''1000'') (\<lambda>balance.
       case allowedTargets of None \<Rightarrow> Inl TypeErrorUndefined
       | Some targets \<Rightarrow>
           newSimulatedAccount (doc_account policy) \<lparr>sc_asset = doc_assetAddress policy, sc_maxTransaction = maxTransaction,
             sc_dailyLimit = dailyLimit, sc_minBalance = minBalance, sc_policyHash = hash, sc_allowedTargets = targets\<rparr>
             balance None nowMs))))"

definition sandbox_state :: "PolicyDocument \<Rightarrow> MemoryState result" where
  "sandbox_state policy = bindR (usdc ''1000'') (\<lambda>balance.
     Inr (memory_setBalance (doc_account policy) (doc_assetAddress policy) balance (newMemoryState [])))"

definition sandbox_config :: "('m \<Rightarrow> int \<times> 'm) \<Rightarrow> PolicyDocument \<Rightarrow> 'm AgentEnv AgentProofConfig" where
  "sandbox_config clock policy = \<lparr>cf_policy = Inl policy, cf_state = memory_provider, cf_identity = None, cf_approver = None,
     cf_enforcement = Some \<lparr>ef_executor = sandbox_executor, ef_hook = None, ef_account = None, ef_chain = None\<rparr>,
     cf_decoders = None, cf_proofs = None, cf_clock = outer_clock clock, cf_allowUnknownSelectors = False,
     cf_onDecision = None, cf_onAuditRecord = None\<rparr>"

section \<open>trader/index.ts\<close>

definition SIGNALS :: "PriceSignal list" where
  "SIGNALS = [\<lparr>sg_pair = ''ETH/USDC'', sg_price = ''3180.42'', sg_changePct24h = ''-1.2'', sg_note = ''range-bound, low volatility''\<rparr>,
     \<lparr>sg_pair = ''ETH/USDC'', sg_price = ''2910.1'', sg_changePct24h = ''-8.6'', sg_note = ''sharp drawdown, unusual volume''\<rparr>]"

definition TRANSCRIPT :: "TradeProposal list" where
  "TRANSCRIPT = [\<lparr>tp_reasoning = JStr ''Range-bound. A small position is proportionate.'', tp_action = JStr ''SWAP'', tp_amountUsdc = JStr ''80''\<rparr>,
     \<lparr>tp_reasoning = JStr (''An 8.6% drawdown on unusual volume is the strongest signal in the window. '' @
        ''Sizing up to capture the reversion.''), tp_action = JStr ''SWAP'', tp_amountUsdc = JStr ''250''\<rparr>]"

text \<open>The model given, or the first one whose key is set.\<close>

definition trader_model :: "(string \<Rightarrow> string option) \<Rightarrow> 'm AgentModel option \<Rightarrow> 'm AgentModel \<Rightarrow> 'm AgentModel \<Rightarrow> 'm AgentModel \<Rightarrow> 'm AgentModel" where
  "trader_model env given openrouter langgraph scripted =
     (case given of Some model \<Rightarrow> model
      | None \<Rightarrow> if env_set env ''OPENROUTER_API_KEY'' \<noteq> None then openrouter
          else if env_set env ''OPENAI_API_KEY'' \<noteq> None then langgraph else scripted)"

definition buildSwap :: "Address \<Rightarrow> Address \<Rightarrow> int \<Rightarrow> Address \<Rightarrow> Action result" where
  "buildSwap router tokenIn amountIn recipient =
     bindR (encodeSwapExactIn \<lparr>xe_recipient = recipient, xe_amount = amountIn, xe_bound = 0, xe_tokenIn = tokenIn,
         xe_tokenOut = WETH_SEPOLIA, xe_fee = 3000\<rparr>) (\<lambda>d.
       Inr \<lparr>act_to = router, act_data = d, act_value = 0, act_chainId = 11155111, act_metadata = None\<rparr>)"

definition memory_line :: "PriceSignal \<Rightarrow> TradeProposal \<Rightarrow> string" where
  "memory_line signal proposal = sg_pair signal @ '' @ '' @ sg_price signal @ '': '' @ js_string (tp_action proposal)"

text \<open>An amount that is not a string has no \<^verbatim>\<open>trim\<close>.\<close>

definition trade_action :: "PolicyDocument \<Rightarrow> Address \<Rightarrow> TradeProposal \<Rightarrow> Action result" where
  "trade_action policy router proposal =
     bindR (case tp_amountUsdc proposal of JStr a \<Rightarrow> parsePolicyAmount a 6 | _ \<Rightarrow> Inl TypeErrorUndefined) (\<lambda>amount.
       buildSwap router (doc_assetAddress policy) amount (doc_account policy))"

fun trade_loop :: "'m AgentModel \<Rightarrow> 'm AgentEnv ProtectedAccount \<Rightarrow> PolicyDocument \<Rightarrow> Address \<Rightarrow> PriceSignal list \<Rightarrow> string list \<Rightarrow>
   PolicyResult list \<Rightarrow> ('m AgentEnv agent_world, PolicyResult list) io" where
  "trade_loop model protected policy router [] memory results = return_io results"
| "trade_loop model protected policy router (signal # signals) memory results =
     bind_io (outside (outer_io (model signal memory))) (\<lambda>answer.
       case answer of
         None \<Rightarrow> throw_io TypeErrorUndefined
       | Some proposal \<Rightarrow>
           let memory' = memory @ [memory_line signal proposal] in
           if tp_action proposal \<noteq> JStr ''SWAP'' \<or> json_falsy (tp_amountUsdc proposal) then
             trade_loop model protected policy router signals memory' results
           else
             bind_io (lift_io (trade_action policy router proposal)) (\<lambda>action.
             bind_io (pa_execute protected action) (\<lambda>result.
               trade_loop model protected policy router signals memory' (results @ [result]))))"

text \<open>
  The account and the state are created first, then the instance; the engine's sequence number starts at 0. The clock
  and what else the platform supplies act on the outer part of the world only. The result is that of the run and the
  world it left, if the sandbox could be built.
\<close>

definition sandbox :: "('m \<Rightarrow> int \<times> 'm) \<Rightarrow> PolicyDocument \<Rightarrow> Hex \<Rightarrow> string list option \<Rightarrow> 'm \<Rightarrow> 'm AgentEnv result" where
  "sandbox clock policy hash targets m =
     (let (nowMs, m1) = clock m in
      bindR (sandbox_account policy hash targets nowMs) (\<lambda>account. bindR (sandbox_state policy) (\<lambda>state.
        Inr \<lparr>ae_account = account, ae_state = state, ae_outer = m1\<rparr>)))"

definition sandbox_platform :: "('m \<Rightarrow> int \<times> 'm) \<Rightarrow> Hex \<Rightarrow> 'm AgentEnv Platform" where
  "sandbox_platform clock salt = \<lparr>pt_readPolicy = (\<lambda>_. Inl TypeErrorUndefined), pt_proofFiles = (\<lambda>_. Inr []),
     pt_parseProof = (\<lambda>_. Inl TypeErrorUndefined), pt_proofSummary = (\<lambda>_. Inr None), pt_salt = salt, pt_dateNow = outer_clock clock\<rparr>"

definition runTrader ::
  "('m \<Rightarrow> int \<times> 'm) \<Rightarrow> Hex \<Rightarrow> 'm AgentModel \<Rightarrow> PolicyDocument \<Rightarrow> Address \<Rightarrow> 'm \<Rightarrow> PolicyResult list result \<times> 'm AgentEnv option" where
  "runTrader clock salt model policy router m =
     (case sandbox clock policy ''0x00'' (pl_allowedContracts (doc_policies policy)) m of
        Inl e \<Rightarrow> (Inl e, None)
      | Inr w \<Rightarrow>
          (case createAgentProof (sandbox_platform clock salt) (sandbox_config clock policy) w of
             (Inl e, w1) \<Rightarrow> (Inl e, Some w1)
           | (Inr ap, w1) \<Rightarrow>
               let (r, s) = trade_loop model (protect ap None) policy router SIGNALS [] [] (0, w1) in (r, Some (snd s))))"

section \<open>researcher/index.ts\<close>

definition serviceEvm :: "(string \<Rightarrow> string option) \<Rightarrow> Address result" where
  "serviceEvm env =
     (let serviceId = (case env ''X402_PAY_TO'' of Some s \<Rightarrow> s | None \<Rightarrow> or_else (env ''HEDERA_ACCOUNT_ID'') ''0.0.10447814'') in
      bindR (bigint_of_string (last (splitOn (CHR ''.'') serviceId))) (\<lambda>num. Inr (''0x'' @ padStart 40 (CHR ''0'') (int_to_base 16 num))))"

definition researcher_policy :: "(string \<Rightarrow> string option) \<Rightarrow> PolicyDocument \<Rightarrow> Address \<Rightarrow> PolicyDocument result" where
  "researcher_policy env policy facilitator =
     bindR (serviceEvm env) (\<lambda>service.
       case (pl_allowedContracts (doc_policies policy), pl_allowedRecipients (doc_policies policy)) of
         (Some contracts, Some recipients) \<Rightarrow>
           Inr (policy\<lparr>doc_policies := (doc_policies policy)\<lparr>pl_allowedContracts := Some (contracts @ [toLowerCase facilitator]),
             pl_allowedRecipients := Some (recipients @ [service])\<rparr>\<rparr>)
       | _ \<Rightarrow> Inl TypeErrorUndefined)"

text \<open>
  The world of a run: the decisions collected so far, next to the world of the agent. \<open>attempt\<close> and \<open>sign\<close> are the HTTP
  request and the signer, which act on the outer part.
\<close>

type_synonym 'm research_world = "PolicyResult list \<times> 'm AgentEnv agent_world"

definition researching :: "('m AgentEnv agent_world, 'a) io \<Rightarrow> ('m research_world, 'a) io" where
  "researching m s = (let (r, s') = m (snd s) in (r, (fst s, s')))"

definition researcher_authorise :: "'m AgentEnv ProtectedAccount \<Rightarrow> Action \<Rightarrow> ClientRequirements \<Rightarrow> ('m research_world, bool) io" where
  "researcher_authorise protected action requirements =
     bind_io (researching (pa_check protected action)) (\<lambda>decision.
     bind_io (modify_io (\<lambda>(rs, s). (rs @ [decision], s))) (\<lambda>_. return_io (res_decision decision = ALLOW)))"

definition researcher_client ::
  "(string \<Rightarrow> json \<Rightarrow> string option \<Rightarrow> ('m, FetchResponse) io) \<Rightarrow> (ClientRequirements \<Rightarrow> ('m, string) io) \<Rightarrow> 'm AgentEnv ProtectedAccount \<Rightarrow>
   PolicyDocument \<Rightarrow> Address \<Rightarrow> 'm research_world X402ClientOptions" where
  "researcher_client attempt sign protected policy facilitator =
     \<lparr>xc_attempt = (\<lambda>url body payment. researching (outside (outer_io (attempt url body payment)))),
      xc_signPayment = (\<lambda>r. researching (outside (outer_io (sign r)))),
      xc_authorise = Some (researcher_authorise protected),
      xc_policyContext = Some \<lparr>px_facilitator = facilitator, px_token = doc_assetAddress policy, px_chainId = doc_chainId policy\<rparr>,
      xc_maxPricePerCall = Some ''1000000''\<rparr>"

definition query_body :: "PolicyDocument \<Rightarrow> string \<Rightarrow> json" where
  "query_body policy query = JObj [(''agent'', JStr (doc_agent policy)), (''action'', JObj [(''to'', JStr (doc_account policy)),
     (''data'', JStr ''0x''), (''value'', JStr ''0''), (''chainId'', JNum (doc_chainId policy)), (''metadata'', JObj [(''query'', JStr query)])])]"

text \<open>A query that fails is abandoned and the next one is tried.\<close>

fun query_loop :: "(string \<Rightarrow> json result) \<Rightarrow> 'w X402ClientOptions \<Rightarrow> PolicyDocument \<Rightarrow> string \<Rightarrow> string list \<Rightarrow> json list \<Rightarrow> 'w \<Rightarrow> json list \<times> 'w" where
  "query_loop parse client policy serviceUrl [] answers w = (answers, w)"
| "query_loop parse client policy serviceUrl (query # queries) answers w =
     (case fetchPaid parse client (serviceUrl @ ''/v1/verify'') (query_body policy query) w of
        (Inr r, w') \<Rightarrow> query_loop parse client policy serviceUrl queries (answers @ [pd_data r]) w'
      | (Inl _, w') \<Rightarrow> query_loop parse client policy serviceUrl queries answers w')"

record 'm ResearcherOptions =
  ro_policy :: PolicyDocument
  ro_serviceUrl :: string
  ro_signer :: "ClientRequirements \<Rightarrow> ('m, string) io"
  ro_facilitator :: Address
  ro_queries :: "string list"

definition runResearcher ::
  "(string \<Rightarrow> string option) \<Rightarrow> (string \<Rightarrow> json result) \<Rightarrow> (string \<Rightarrow> json \<Rightarrow> string option \<Rightarrow> ('m, FetchResponse) io) \<Rightarrow>
   ('m \<Rightarrow> int \<times> 'm) \<Rightarrow> Hex \<Rightarrow> 'm ResearcherOptions \<Rightarrow> 'm \<Rightarrow> (json list \<times> PolicyResult list \<times> 'm AgentEnv) result" where
  "runResearcher env parse attempt clock salt options m =
     bindR (researcher_policy env (ro_policy options) (ro_facilitator options)) (\<lambda>policy.
     bindR (sandbox clock policy ''0x00'' (map_option (\<lambda>cs. cs @ [ro_facilitator options]) (pl_allowedContracts (doc_policies policy))) m) (\<lambda>w.
       case createAgentProof (sandbox_platform clock salt) (sandbox_config clock policy) w of
         (Inl e, _) \<Rightarrow> Inl e
       | (Inr ap, w1) \<Rightarrow>
           let (answers, rs, s) = query_loop parse
                 (researcher_client attempt (ro_signer options) (protect ap None) policy (ro_facilitator options))
                 policy (ro_serviceUrl options) (ro_queries options) [] ([], 0, w1)
           in Inr (answers, rs, snd s)))"

section \<open>Frames of computations\<close>

text \<open>
  A computation is kept by a relation on worlds when the world it leaves is related to the one it started in, whatever
  its result. For a reflexive and transitive relation this composes, and an agent is kept by it when its ports are.
\<close>

definition kept_by :: "('w \<Rightarrow> 'w \<Rightarrow> bool) \<Rightarrow> ('w, 'a) io \<Rightarrow> bool" where
  "kept_by R m = (\<forall>w. R w (snd (m w)))"

lemma outside_snd: "snd (snd (outside m s)) = snd (m (snd s))"
  by (simp add: outside_def split: prod.splits)

locale io_frame =
  fixes R :: "'w \<Rightarrow> 'w \<Rightarrow> bool"
  assumes R_refl: "R w w" and R_trans: "R u v \<Longrightarrow> R v w \<Longrightarrow> R u w"
begin

lemma pure: "kept_by R (return_io x)" "kept_by R (throw_io e)" "kept_by R (lift_io r)"
  by (simp_all add: kept_by_def R_refl)

lemma bind_when:
  assumes "kept_by R m" and "\<And>w x w'. m w = (Inr x, w') \<Longrightarrow> R w' (snd (f x w'))"
  shows "kept_by R (bind_io m f)"
proof -
  have "R w (snd (bind_io m f w))" for w
  proof (cases "m w")
    case (Pair r w')
    with assms(1) have "R w w'" unfolding kept_by_def by (metis snd_conv)
    with Pair assms(2) [of w _ w'] show ?thesis by (cases r) (auto simp: bind_io_def intro: R_trans)
  qed
  then show ?thesis by (simp add: kept_by_def)
qed

lemma bind: "kept_by R m \<Longrightarrow> (\<And>x. kept_by R (f x)) \<Longrightarrow> kept_by R (bind_io m f)"
  by (rule bind_when) (auto simp: kept_by_def)

lemma both: "kept_by R m \<Longrightarrow> kept_by R n \<Longrightarrow> kept_by R (both_io m n)"
  by (auto simp: kept_by_def both_io_def Let_def split: prod.splits) (metis R_trans snd_conv)

lemma clock: "(\<And>w. R w (snd (c w))) \<Longrightarrow> kept_by R (read_clock c)"
  by (simp add: kept_by_def read_clock_def split: prod.splits) (metis snd_conv)

lemma outside: "kept_by R m \<Longrightarrow> kept_by (\<lambda>s s'. R (snd s) (snd s')) (outside m)"
  by (auto simp: kept_by_def outside_def Let_def split: prod.splits) (metis snd_conv)

lemma lifted: "io_frame (\<lambda>(s :: 'b \<times> 'w) s'. R (snd s) (snd s'))"
  by unfold_locales (auto intro: R_refl R_trans)

lemmas rules = pure bind both clock

end

text \<open>An agent whose reads, clocks, observers and approver respect the relation.\<close>

locale agent_frame = io_frame R for R :: "'w \<Rightarrow> 'w \<Rightarrow> bool" +
  fixes ap :: "'w AgentProof"
  assumes clock_reads: "R w (snd (cf_clock (ap_config ap) w))" and date_reads: "R w (snd (ap_dateNow ap w))"
    and state_reads: "kept_by R (sp_getDailySpend (cf_state (ap_config ap)) a d)"
      "kept_by R (sp_getBalance (cf_state (ap_config ap)) a t)"
    and observes: "cf_onDecision (ap_config ap) = Some f \<Longrightarrow> kept_by R (f r)"
      "cf_onAuditRecord (ap_config ap) = Some g \<Longrightarrow> kept_by R (g q)"
    and asks: "cf_approver (ap_config ap) = Some approver \<Longrightarrow> kept_by R (ap_request approver request)"
begin

lemma gather: "kept_by R (gatherState ap)"
  unfolding gatherState_def Let_def
  by (intro bind both clock clock_reads state_reads) (auto simp: pure split: prod.splits)

lemma publishes: "kept_by R (publish ap r)"
  unfolding publish_def
  by (intro bind) (auto split: option.splits intro: observes pure)

lemma evaluates: "kept_by (\<lambda>s s'. R (snd s) (snd s')) (evaluate_io ap intent state)"
  using date_reads by (auto simp: kept_by_def evaluate_io_def Let_def split: prod.splits) (metis snd_conv)

lemma seeks: "kept_by R (seekApproval ap r)"
  unfolding seekApproval_def Let_def
  by (auto split: option.splits intro!: bind clock clock_reads asks pure)

lemma check: "kept_by (\<lambda>s s'. R (snd s) (snd s')) (agent_check ap action)"
  unfolding agent_check_def
  by (intro io_frame.bind [OF lifted] io_frame.pure [OF lifted] outside gather publishes evaluates)

lemma decide: "kept_by (\<lambda>s s'. R (snd s) (snd s')) (agent_decide ap action)"
  unfolding agent_decide_def
  by (intro io_frame.bind [OF lifted] io_frame.pure [OF lifted] outside gather evaluates)
    (auto intro: io_frame.pure [OF lifted] outside seeks)

lemma submits:
  assumes "\<And>q. kept_by R (ex_send (he_executor e) q)"
    and "\<And>f q signature. res_approvalRequest r \<noteq> None \<Longrightarrow> ex_sendAsOwner (he_executor e) = Some f \<Longrightarrow> kept_by R (f q signature)"
    and "\<And>a i h. kept_by R (sp_recordExecution (cf_state (ap_config ap)) a i h)"
  shows "kept_by R (agent_submit ap (Some e) intent r)"
  unfolding agent_submit_def Let_def
  using assms by (auto simp: enforcer_execute_def executeWithOwnerApproval_def split: option.splits intro!: bind publishes pure)

lemma execute_when:
  assumes "\<And>s intent r s'. agent_decide ap action s = (Inr (intent, r), s') \<Longrightarrow> kept_by R (agent_submit ap (Some e) intent r)"
  shows "kept_by (\<lambda>s s'. R (snd s) (snd s')) (agent_execute ap action (Some e))"
  unfolding agent_execute_def
  by (intro io_frame.bind_when [OF lifted] decide) (use assms in \<open>auto simp: kept_by_def outside_snd split: prod.splits\<close>)

lemma execute:
  assumes "\<And>q. kept_by R (ex_send (he_executor e) q)"
    and "\<And>f q signature. ex_sendAsOwner (he_executor e) = Some f \<Longrightarrow> kept_by R (f q signature)"
    and "\<And>a i h. kept_by R (sp_recordExecution (cf_state (ap_config ap)) a i h)"
  shows "kept_by (\<lambda>s s'. R (snd s) (snd s')) (agent_execute ap action (Some e))"
  by (rule execute_when) (rule submits; use assms in simp)

end

text \<open>With no approver nothing is approved, so nothing goes through the owner key.\<close>

locale unattended_frame = agent_frame R ap for R :: "'w \<Rightarrow> 'w \<Rightarrow> bool" and ap +
  assumes unattended: "cf_approver (ap_config ap) = None"
begin

lemma session_key_only: "agent_decide ap action s = (Inr (intent, r), s') \<Longrightarrow> res_approvalRequest r = None"
  by (auto simp: agent_decide_def io_inversion seekApproval_def unattended evaluate_io_def Let_def evaluate_def engine_result_def
      split: if_splits prod.splits)

lemma execute_session:
  assumes "\<And>q. kept_by R (ex_send (he_executor e) q)"
    and "\<And>a i h. kept_by R (sp_recordExecution (cf_state (ap_config ap)) a i h)"
  shows "kept_by (\<lambda>s s'. R (snd s) (snd s')) (agent_execute ap action (Some e))"
  by (rule execute_when) (rule submits; use assms session_key_only in simp)

end

section \<open>The sandboxed agent\<close>

definition sandbox_agent :: "('m \<Rightarrow> int \<times> 'm) \<Rightarrow> Hex \<Rightarrow> PolicyDocument \<Rightarrow> ResolvedPolicy \<Rightarrow> DecoderRegistry \<Rightarrow> 'm AgentEnv AgentProof" where
  "sandbox_agent clock salt policy rp reg = \<lparr>ap_policy = rp,
     ap_engine = \<lparr>eo_decoders = reg, eo_policies = default_policies rp False,
       eo_decoderContext = \<lparr>dc_account = rp_account rp, dc_trackedAsset = rp_asset rp, dc_decimals = rp_decimals rp\<rparr>,
       eo_proofs = Some (prf_byPolicy notRun)\<rparr>,
     ap_enforcer = make_enforcer (sandbox_config clock policy) rp, ap_proofs = notRun, ap_config = sandbox_config clock policy,
     ap_salt = salt, ap_dateNow = outer_clock clock\<rparr>"

lemma sandbox_starts:
  assumes "createAgentProof (sandbox_platform clock salt) (sandbox_config clock policy) w = (r, w1)"
  shows "w1 = w \<and> (\<forall>ap. r = Inr ap \<longrightarrow> (\<exists>rp reg. resolvePolicy policy = Inr rp \<and> createDefaultRegistry = Inr reg \<and>
    ap = sandbox_agent clock salt policy rp reg))"
proof (cases "resolvePolicy policy")
  case (Inl e)
  then show ?thesis using assms by (simp add: createAgentProof_def sandbox_config_def bind_io_def) auto
next
  case (Inr rp)
  then show ?thesis using assms
    by (auto simp: createAgentProof_def sandbox_config_def sandbox_platform_def sandbox_agent_def
        bind_io_def check_identity_def load_registry_def check_hook_def make_enforcer_def split: sum.splits)
qed

lemma sandbox_enforcer: "ap_enforcer (sandbox_agent clock salt policy rp reg) =
    Some \<lparr>he_account = rp_account rp, he_hook = rp_hook rp, he_executor = sandbox_executor, he_chain = None\<rparr>"
  by (simp add: sandbox_agent_def make_enforcer_def sandbox_config_def)

lemma outer_frame: "ae_account (snd (outer_clock clock w)) = ae_account w" "ae_state (snd (outer_clock clock w)) = ae_state w"
    "ae_account (snd (outer_io m w)) = ae_account w" "ae_state (snd (outer_io m w)) = ae_state w"
  by (simp_all add: outer_clock_def outer_io_def Let_def split: prod.splits)

lemma memory_frame: "snd (sp_getDailySpend memory_provider a d w) = w" "snd (sp_getBalance memory_provider a t w) = w"
    "ae_account (snd (sp_recordExecution memory_provider a i h w)) = ae_account w"
  by (simp_all add: memory_provider_def)

text \<open>
  The accounting of a simulated account over a run within one day: the log lists what left, no entry is over the
  per-transaction limit, and the day's window covers it all.
\<close>

definition books :: "int \<Rightarrow> int \<Rightarrow> SimulatedAccount \<Rightarrow> bool" where
  "books cap opening a = (sim_inv a \<and> 0 \<le> cap \<and> sc_maxTransaction (sa_config a) \<le> cap \<and> sa_windowDay a = sim_today a \<and>
     list_all (\<lambda>e. 0 \<le> sl_outflow e \<and> sl_outflow e \<le> cap) (sa_log a) \<and>
     sa_balance a = opening - sum_list (map sl_outflow (sa_log a)) \<and> sum_list (map sl_outflow (sa_log a)) \<le> sa_windowSpent a)"

definition moves_by_book :: "int \<Rightarrow> 'm AgentEnv \<Rightarrow> 'm AgentEnv \<Rightarrow> bool" where
  "moves_by_book cap w w' = (\<forall>opening. books cap opening (ae_account w) \<longrightarrow>
     books cap opening (ae_account w') \<and> sa_config (ae_account w') = sa_config (ae_account w))"

definition untouched :: "'m AgentEnv \<Rightarrow> 'm AgentEnv \<Rightarrow> bool" where
  "untouched w w' = (ae_account w' = ae_account w \<and> ae_state w' = ae_state w)"

interpretation trader: unattended_frame "moves_by_book cap" "sandbox_agent clock salt policy rp reg" for cap clock salt policy rp reg
  by unfold_locales
    (auto simp: moves_by_book_def kept_by_def sandbox_agent_def sandbox_config_def memory_frame outer_frame)

interpretation researcher: unattended_frame untouched "sandbox_agent clock salt policy rp reg" for clock salt policy rp reg
  by unfold_locales
    (auto simp: untouched_def kept_by_def sandbox_agent_def sandbox_config_def memory_frame outer_frame)

section \<open>Properties\<close>

lemma send_books:
  assumes "books cap opening a" and "sim_send q a = (r, a')"
  shows "books cap opening a' \<and> sa_config a' = sa_config a"
proof -
  have send: "sendUnchecked q a = (r, a')" using assms(2) by (simp add: sim_send_def)
  have inv: "sim_inv a" using assms(1) by (simp add: books_def)
  note sp = sendUnchecked_spends [OF send inv]
  from send show ?thesis
  proof (cases rule: sendUnchecked_cases)
    case (refused e)
    then show ?thesis using assms(1) by simp
  next
    case (executed target moved r1 s1)
    have m: "0 \<le> moved" using applyTransfer_range [OF executed(2)] inv by (simp add: sim_inv_def)
    note f = postCheck_frame [OF executed(3)] and w = postCheck_window [OF executed(3), of moved]
    show ?thesis
    proof (cases r1)
      case (Inl e)
      with executed(4) have "a' = s1" by auto
      then show ?thesis using sp f w m assms(1) Inl by (auto simp: books_def spends_def sim_today_def)
    next
      case (Inr u)
      then have a': "a' = s1\<lparr>sa_nonce := sa_nonce s1 + 1, sa_log := sa_log a @ [\<lparr>sl_txHash = sim_txHash s1 (uo_data q), sl_target = target,
          sl_outflow = moved, sl_spentToday = sa_windowSpent s1\<rparr>]\<rparr>"
        using send executed f by (simp add: sendUnchecked_def Let_def)
      then show ?thesis using sp f w m assms(1) Inr by (auto simp: books_def spends_def sim_today_def)
    qed
  qed
qed

lemma trader_sends: "kept_by (moves_by_book cap) (ex_send sandbox_executor q)"
proof -
  have "moves_by_book cap w (w\<lparr>ae_account := a'\<rparr>)" if "sim_send q (ae_account w) = (r, a')" for w r a'
    using that send_books [of cap _ "ae_account w" q r a'] by (auto simp: moves_by_book_def)
  then show ?thesis by (auto simp: kept_by_def sandbox_executor_def simulated_executor_def Let_def split: prod.splits)
qed

lemma trader_records: "kept_by (moves_by_book cap) (sp_recordExecution memory_provider a i h)"
  by (simp add: kept_by_def moves_by_book_def memory_frame)

lemma trade_loop_books:
  "kept_by (\<lambda>s s'. moves_by_book cap (snd s) (snd s'))
     (trade_loop model (protect (sandbox_agent clock salt policy rp reg) None) doc router signals memory results)"
proof (induction signals arbitrary: memory results)
  case Nil
  show ?case unfolding trade_loop.simps by (rule io_frame.pure [OF trader.lifted])
next
  case (Cons signal signals)
  let ?ap = "sandbox_agent clock salt policy rp reg"
  have m: "kept_by (moves_by_book cap) (outer_io (model signal memory))"
    by (simp add: kept_by_def moves_by_book_def outer_frame)
  have p: "pa_execute (protect ?ap None) a = agent_execute ?ap a (ap_enforcer ?ap)" for a
    by (simp add: protect_def sandbox_enforcer)
  have x: "kept_by (\<lambda>s s'. moves_by_book cap (snd s) (snd s')) (pa_execute (protect ?ap None) a)" for a
    unfolding p sandbox_enforcer
    by (rule trader.execute_session) (use trader_sends trader_records in \<open>simp_all add: sandbox_agent_def sandbox_config_def\<close>)
  show ?case
    unfolding trade_loop.simps Let_def
    by (intro io_frame.bind [OF trader.lifted] trader.outside m)
      (auto split: option.splits intro!: io_frame.bind [OF trader.lifted] io_frame.pure [OF trader.lifted] x Cons.IH)
qed

lemma usdc_thousand: "usdc ''1000'' = Inr 1000000000"
proof -
  have "replicate 6 (CHR ''0'') = ''000000''" by (simp add: numeral_eq_Suc)
  then show ?thesis
    by (simp add: usdc_def parsePolicyAmount_def USDC_DECIMALS_def trim_def trimEnd_def is_space_def is_decimal_def startsMinus_def whole_fraction_def
        is_unsigned_decimal_def is_digit_def of_base_def digit_val_def padEnd_def Let_def)
qed

lemma sandbox_opens:
  assumes "sandbox clock policy hash targets m = Inr w" and "base_amount (pl_dailySpend (doc_policies policy)) = Inr limit"
    and "base_amount (pl_maxTransaction (doc_policies policy)) = Inr largest"
  shows "largest \<le> cap \<Longrightarrow> books cap 1000000000 (ae_account w)" and "sc_dailyLimit (sa_config (ae_account w)) = limit"
    and "sc_maxTransaction (sa_config (ae_account w)) = largest" and "sa_log (ae_account w) = []" and "ms_spend (ae_state w) = []"
proof -
  have nonneg: "0 \<le> x" if "base_amount a = Inr x" for a x
    using that by (auto simp: base_amount_def parseBaseUnitPolicyAmount_def Let_def split: option.splits if_splits)
  obtain cs t minBalance where acc: "newSimulatedAccount (doc_account policy) \<lparr>sc_asset = doc_assetAddress policy, sc_maxTransaction = largest,
             sc_dailyLimit = limit, sc_minBalance = minBalance, sc_policyHash = hash, sc_allowedTargets = cs\<rparr> 1000000000 None t =
      Inr (ae_account w)" and st: "sandbox_state policy = Inr (ae_state w)"
    using assms usdc_thousand by (auto simp: sandbox_def sandbox_account_def bindR_eq_Inr split: option.splits prod.splits)
  then obtain allowed where "\<lparr>sa_chainId = 11155111, sa_address = doc_account policy,
      sa_config = \<lparr>sc_asset = doc_assetAddress policy, sc_maxTransaction = largest, sc_dailyLimit = limit, sc_minBalance = minBalance,
        sc_policyHash = hash, sc_allowedTargets = cs\<rparr>, sa_balance = 1000000000, sa_windowDay = t div 1000 div 86400, sa_windowSpent = 0,
      sa_nonce = 0, sa_clockMs = t, sa_allowed = js_set allowed, sa_log = []\<rparr> = ae_account w"
    by (auto simp: newSimulatedAccount_def bindR_eq_Inr Let_def sim_today_def)
  note a = this [symmetric]
  show "largest \<le> cap \<Longrightarrow> books cap 1000000000 (ae_account w)" "sc_dailyLimit (sa_config (ae_account w)) = limit" "sa_log (ae_account w) = []"
    "sc_maxTransaction (sa_config (ae_account w)) = largest"
    using nonneg [OF assms(2)] nonneg [OF assms(3)] unfolding a by (simp_all add: books_def sim_inv_def sim_today_def)
  show "ms_spend (ae_state w) = []" using st usdc_thousand by (simp add: sandbox_state_def memory_setBalance_def newMemoryState_def) (metis MemoryState.select_convs(1))
qed

text \<open>
  (C18) The trader is bounded whatever its model proposes: after a run, however it ends, everything that left the
  account is in its log, no entry is over the policy's \<^verbatim>\<open>maxTransaction\<close>, the entries together are within its \<^verbatim>\<open>dailySpend\<close>,
  and the balance is the opening 1000 USDC less exactly those entries.
\<close>

theorem trader_bounded:
  assumes "runTrader clock salt model policy router m = (r, Some w)"
    and "base_amount (pl_dailySpend (doc_policies policy)) = Inr limit"
    and "base_amount (pl_maxTransaction (doc_policies policy)) = Inr largest"
  shows "list_all (\<lambda>e. 0 \<le> sl_outflow e \<and> sl_outflow e \<le> largest) (sa_log (ae_account w)) \<and>
     sum_list (map sl_outflow (sa_log (ae_account w))) \<le> limit \<and>
     sa_balance (ae_account w) = 1000000000 - sum_list (map sl_outflow (sa_log (ae_account w)))"
proof -
  obtain w0 where w0: "sandbox clock policy ''0x00'' (pl_allowedContracts (doc_policies policy)) m = Inr w0"
    using assms(1) by (auto simp: runTrader_def split: sum.splits)
  note opens = sandbox_opens [OF w0 assms(2,3)]
  obtain x w1 where c: "createAgentProof (sandbox_platform clock salt) (sandbox_config clock policy) w0 = (x, w1)" by fastforce
  have "moves_by_book largest w0 w"
  proof (cases x)
    case (Inl e)
    then show ?thesis using assms(1) w0 c sandbox_starts [OF c] trader.R_refl by (auto simp: runTrader_def)
  next
    case (Inr ap)
    then obtain rp reg where "ap = sandbox_agent clock salt policy rp reg" and "w1 = w0" using sandbox_starts [OF c] by blast
    then show ?thesis using assms(1) w0 c Inr
        trade_loop_books [of largest model clock salt policy rp reg policy router SIGNALS "[]" "[]", unfolded kept_by_def, rule_format, of "(0, w0)"]
      by (auto simp: runTrader_def Let_def split: prod.splits)
  qed
  with opens(1) [OF order_refl] have "books largest 1000000000 (ae_account w)" "sa_config (ae_account w) = sa_config (ae_account w0)"
    by (auto simp: moves_by_book_def)
  then show ?thesis using opens(2,3) by (auto simp: books_def sim_inv_def)
qed

text \<open>The researcher's world: decisions are only appended, and neither the account nor the accumulator moves.\<close>

definition only_checks :: "'m research_world \<Rightarrow> 'm research_world \<Rightarrow> bool" where
  "only_checks s s' = ((\<exists>ds. fst s' = fst s @ ds) \<and> untouched (snd (snd s)) (snd (snd s')))"

interpretation checks: io_frame only_checks
  by unfold_locales (auto simp: only_checks_def untouched_def)

lemma researching_checks:
  assumes "kept_by (\<lambda>s s'. untouched (snd s) (snd s')) m"
  shows "kept_by only_checks (researching m)"
  using assms by (auto simp: kept_by_def only_checks_def researching_def Let_def split: prod.splits) (metis snd_conv)

lemma researching_fst: "fst (snd (researching m s)) = fst s"
  by (simp add: researching_def Let_def split: prod.splits)

lemma outer_untouched: "kept_by (\<lambda>s s'. untouched (snd s) (snd s')) (outside (outer_io m))"
  by (rule researcher.outside) (simp add: kept_by_def untouched_def outer_frame)

lemma client_checks:
  "kept_by only_checks (fetchPaid parse (researcher_client attempt sign (protect (sandbox_agent clock salt policy rp reg) None) doc facilitator) url body)"
proof -
  let ?c = "researcher_client attempt sign (protect (sandbox_agent clock salt policy rp reg) None) doc facilitator"
  have a: "kept_by only_checks (xc_attempt ?c u b p)" and g: "kept_by only_checks (xc_signPayment ?c r)" for u b p r
    unfolding researcher_client_def by (simp_all add: researching_checks outer_untouched)
  have "kept_by only_checks (modify_io (\<lambda>(rs, s). (rs @ [d], s)))" for d
    by (auto simp: kept_by_def only_checks_def untouched_def)
  then have "kept_by only_checks (researcher_authorise (protect (sandbox_agent clock salt policy rp reg) None) act req)" for act req
    unfolding researcher_authorise_def
    by (intro checks.bind checks.pure researching_checks) (simp add: protect_def researcher.check)
  then have p: "kept_by only_checks (checkPolicy ?c r)" for r
    unfolding checkPolicy_def
    by (auto simp: researcher_client_def intro!: checks.bind checks.pure)
  show ?thesis
    unfolding fetchPaid_def
    by (intro checks.bind a) (auto split: option.splits list.splits intro!: checks.bind checks.pure a g p)
qed

lemma query_loop_checks:
  assumes "query_loop parse (researcher_client attempt sign (protect (sandbox_agent clock salt policy rp reg) None) doc facilitator) pol url qs answers s = (answers', s')"
  shows "only_checks s s'"
  using assms
proof (induction qs arbitrary: answers s)
  case (Cons q qs)
  obtain r s1 where f: "fetchPaid parse (researcher_client attempt sign (protect (sandbox_agent clock salt policy rp reg) None) doc facilitator)
      (url @ ''/v1/verify'') (query_body pol q) s = (r, s1)" by (rule prod.exhaust)
  with client_checks have "only_checks s s1" unfolding kept_by_def by (metis snd_conv)
  moreover have "only_checks s1 s'" using Cons.prems f by (cases r) (auto intro: Cons.IH)
  ultimately show ?case by (rule checks.R_trans)
qed (simp add: checks.R_refl)

text \<open>
  (C40) The researcher's payments are checked but never booked: whatever the service, the signer and the queries are, a
  run leaves the account as it was opened, with an empty log, and the day's spend at 0, so each payment is judged
  against an untouched daily budget.
\<close>

theorem researcher_never_accumulates:
  assumes "runResearcher env parse attempt clock salt options m = Inr (answers, decisions, w)"
  shows "sa_balance (ae_account w) = 1000000000 \<and> sa_log (ae_account w) = [] \<and> (\<forall>a d. memory_getDailySpend (ae_state w) a d = 0)"
proof -
  obtain policy w0 where w0: "sandbox clock policy ''0x00'' (map_option (\<lambda>cs. cs @ [ro_facilitator options]) (pl_allowedContracts (doc_policies policy))) m = Inr w0"
    and rest: "(case createAgentProof (sandbox_platform clock salt) (sandbox_config clock policy) w0 of
         (Inl e, _) \<Rightarrow> Inl e
       | (Inr ap, w1) \<Rightarrow>
           let (answers, rs, s) = query_loop parse
                 (researcher_client attempt (ro_signer options) (protect ap None) policy (ro_facilitator options))
                 policy (ro_serviceUrl options) (ro_queries options) [] ([], 0, w1)
           in Inr (answers, rs, snd s)) = Inr (answers, decisions, w)"
    using assms by (auto simp: runResearcher_def bindR_eq_Inr)
  obtain x w1 where c: "createAgentProof (sandbox_platform clock salt) (sandbox_config clock policy) w0 = (x, w1)" by fastforce
  with rest obtain ap where x: "x = Inr ap" by (cases x) auto
  obtain rp reg where ap: "ap = sandbox_agent clock salt policy rp reg" and w1: "w1 = w0" using sandbox_starts [OF c] x by blast
  obtain n where q: "query_loop parse (researcher_client attempt (ro_signer options) (protect ap None) policy (ro_facilitator options))
      policy (ro_serviceUrl options) (ro_queries options) [] ([], 0, w0) = (answers, decisions, n, w)"
    using rest c x w1 by (auto simp: Let_def split: prod.splits)
  have u: "untouched w0 w" using query_loop_checks [OF q [unfolded ap]] by (simp add: only_checks_def)
  obtain limit largest where "base_amount (pl_dailySpend (doc_policies policy)) = Inr limit"
    "base_amount (pl_maxTransaction (doc_policies policy)) = Inr largest"
    using w0 by (auto simp: sandbox_def sandbox_account_def bindR_eq_Inr split: prod.splits)
  note opens = sandbox_opens [OF w0 this]
  from opens(1) [OF order_refl] opens(4,5) u show ?thesis
    by (simp add: untouched_def books_def memory_getDailySpend_def or_else_def)
qed

text \<open>
  The researcher pays only what the engine allowed: a query marked paid was asked about once, the decision
  was appended to the results, it is ALLOW, and it was taken by the policies on the intent decoded from the payment
  the challenge asked for.
\<close>

theorem researcher_pays_allowed:
  assumes "fetchPaid parse (researcher_client attempt sign (protect (sandbox_agent clock salt policy rp reg) None) doc facilitator) url body
      (rs, n, w) = (Inr r, (rs', n', w'))" and "pd_paid r"
  shows "\<exists>requirements action decision state. rs' = rs @ [decision] \<and> res_decision decision = ALLOW \<and>
     payment_action \<lparr>px_facilitator = facilitator, px_token = doc_assetAddress doc, px_chainId = doc_chainId doc\<rparr> requirements = Inr action \<and>
     engine_decode (ap_engine (sandbox_agent clock salt policy rp reg)) action None = Inr (res_intent decision) \<and>
     verdict_of (default_policies rp False) (res_intent decision) state = ALLOW"
proof -
  let ?ap = "sandbox_agent clock salt policy rp reg"
  let ?c = "researcher_client attempt sign (protect ?ap None) doc facilitator"
  obtain first requirements w1 w2 w3 payload second where f: "xc_attempt ?c url body None (rs, n, w) = (Inr first, w1)"
    and p: "checkPolicy ?c requirements w1 = (Inr (), w2)"
    and g: "xc_signPayment ?c requirements w2 = (Inr payload, w3)" "xc_attempt ?c url body (Some payload) w3 = (Inr second, (rs', n', w'))"
    using fetchPaid_paid [OF assms] by blast
  have fst: "fst w1 = rs" "fst w3 = fst w2" "rs' = fst w3"
    using f g by (simp_all add: researcher_client_def) (metis researching_fst fst_conv snd_conv)+
  obtain action where a: "payment_action \<lparr>px_facilitator = facilitator, px_token = doc_assetAddress doc, px_chainId = doc_chainId doc\<rparr> requirements = Inr action"
    and auth: "researcher_authorise (protect ?ap None) action requirements w1 = (Inr True, w2)"
    using checkPolicy_ok [OF p] by (auto simp: researcher_client_def)
  obtain decision u where d: "agent_check ?ap action (snd w1) = (Inr decision, u)" "w2 = (fst w1 @ [decision], u)" "res_decision decision = ALLOW"
    using auth by (auto simp: researcher_authorise_def io_inversion researching_def protect_def Let_def split: prod.splits)
  obtain intent state t0 t1 where i: "engine_decode (ap_engine ?ap) action None = Inr intent"
    "evaluate_io ?ap intent state t0 = (Inr decision, t1)"
    using d(1) unfolding agent_check_def io_inversion by auto
  from i(2) obtain now where "decision = fst (evaluate (ap_engine ?ap) intent state now (fst t0))" by (rule evaluate_io_Inr)
  then have "res_intent decision = intent" "verdict_of (default_policies rp False) intent state = ALLOW"
    using d(3) by (simp_all add: evaluate_simps sandbox_agent_def)
  then show ?thesis using a i(1) d(2,3) fst by auto
qed

section \<open>Witnesses\<close>

lemma shipped_base_amounts: "base_amount (Some ''100000000'') = Inr 100000000" "base_amount (Some ''500000000'') = Inr 500000000"
    "base_amount (Some ''10000000'') = Inr 10000000"
  using shipped_amounts [of "[]"] by (auto simp: base_amount_def policy_amount_def bindR_eq_Inr split: if_splits)

lemma shipped_sandbox:
  assumes "mapR normalizeAddress (targets @ [doc_assetAddress shipped_document]) = Inr allowed"
  shows "\<exists>w. sandbox clock (shipped_document\<lparr>doc_policies := (doc_policies shipped_document)\<lparr>pl_allowedContracts := cs, pl_allowedRecipients := rs\<rparr>\<rparr>)
     hash (Some targets) m = Inr w"
  using assms
  by (simp add: sandbox_def sandbox_account_def sandbox_state_def shipped_document_def shipped_base_amounts usdc_thousand newSimulatedAccount_def Let_def
      split: prod.splits)

lemma shipped_sandbox_opens:
  "\<exists>w. sandbox clock shipped_document hash (pl_allowedContracts (doc_policies shipped_document)) m = Inr w"
proof -
  have "shipped_document\<lparr>doc_policies := (doc_policies shipped_document)\<lparr>pl_allowedContracts := pl_allowedContracts (doc_policies shipped_document),
      pl_allowedRecipients := pl_allowedRecipients (doc_policies shipped_document)\<rparr>\<rparr> = shipped_document" by simp
  moreover have "\<not> isl (mapR normalizeAddress ([''0x3a9d48ab9751398bbfa63ad67599bb04e4bdf98b'', ''0xe03a1074c86cfedd5c142c4f04f1a1536e203543''] @
      [doc_assetAddress shipped_document]))" by code_simp
  moreover have "pl_allowedContracts (doc_policies shipped_document) =
      Some [''0x3a9d48ab9751398bbfa63ad67599bb04e4bdf98b'', ''0xe03a1074c86cfedd5c142c4f04f1a1536e203543'']" by (simp add: shipped_document_def)
  ultimately show ?thesis using shipped_sandbox sum.collapse(2) by metis
qed

lemma runTrader_ends:
  assumes "sandbox clock policy ''0x00'' (pl_allowedContracts (doc_policies policy)) m = Inr w0"
  shows "\<exists>r w. runTrader clock salt model policy router m = (r, Some w)"
proof -
  obtain x w1 where c: "createAgentProof (sandbox_platform clock salt) (sandbox_config clock policy) w0 = (x, w1)" by fastforce
  show ?thesis
  proof (cases x)
    case (Inr ap)
    obtain r s where "trade_loop model (protect ap None) policy router SIGNALS [] [] (0, w1) = (r, s)" by (rule prod.exhaust)
    with Inr c assms show ?thesis by (simp add: runTrader_def)
  qed (use assms c in \<open>simp add: runTrader_def\<close>)
qed

lemma runResearcher_ends:
  assumes "researcher_policy env (ro_policy options) (ro_facilitator options) = Inr policy"
    and "sandbox clock policy ''0x00'' (map_option (\<lambda>cs. cs @ [ro_facilitator options]) (pl_allowedContracts (doc_policies policy))) m = Inr w"
    and "createAgentProof (sandbox_platform clock salt) (sandbox_config clock policy) w = (Inr ap, w1)"
  shows "\<exists>answers decisions w'. runResearcher env parse attempt clock salt options m = Inr (answers, decisions, w')"
proof -
  obtain answers rs n w' where "query_loop parse (researcher_client attempt (ro_signer options) (protect ap None) policy (ro_facilitator options))
      policy (ro_serviceUrl options) (ro_queries options) [] ([], 0, w1) = (answers, rs, n, w')" by (metis prod_cases4)
  with assms show ?thesis by (simp add: runResearcher_def)
qed

theorem trader_bounded_witness:
  "\<exists>r w. runTrader (\<lambda>m. (0, m)) ''0x'' (scripted_propose TRANSCRIPT) shipped_document (ba_router FALLBACK) 0 = (r, Some w) \<and>
     sum_list (map sl_outflow (sa_log (ae_account w))) \<le> 500000000"
proof -
  obtain w0 where w0: "sandbox (\<lambda>m. (0, m)) shipped_document ''0x00'' (pl_allowedContracts (doc_policies shipped_document)) (0 :: nat) = Inr w0"
    using shipped_sandbox_opens [of "\<lambda>m. (0, m)" "''0x00''" 0] by blast
  obtain r w where run: "runTrader (\<lambda>m. (0, m)) ''0x'' (scripted_propose TRANSCRIPT) shipped_document (ba_router FALLBACK) 0 = (r, Some w)"
    using runTrader_ends [OF w0] by blast
  have "base_amount (pl_dailySpend (doc_policies shipped_document)) = Inr 500000000"
    "base_amount (pl_maxTransaction (doc_policies shipped_document)) = Inr 100000000"
    by (simp_all add: shipped_document_def shipped_base_amounts)
  with run trader_bounded [OF run] show ?thesis by blast
qed


definition sample_research_facilitator :: Address where
  "sample_research_facilitator = ''0x00000000000000000000000000000000000000fa''"

definition sample_research :: "nat ResearcherOptions" where
  "sample_research = \<lparr>ro_policy = shipped_document, ro_serviceUrl = ''http://localhost:8402'', ro_signer = (\<lambda>_ m. (Inr ''sig'', m + 1)),
     ro_facilitator = sample_research_facilitator, ro_queries = [''gas'']\<rparr>"

definition sample_attempt :: "string \<Rightarrow> json \<Rightarrow> string option \<Rightarrow> (nat, FetchResponse) io" where
  "sample_attempt url body payment m = (Inr \<lparr>fr_status = (if payment = None then 402 else 200), fr_json = Inr JNull,
     fr_accepts = Some [sample_challenge], fr_paymentResponse = None\<rparr>, m)"

lemma sample_research_policy:
  "researcher_policy (\<lambda>k. if k = ''X402_PAY_TO'' then Some ''0.0.1'' else None) shipped_document sample_research_facilitator =
     Inr (shipped_document\<lparr>doc_policies := (doc_policies shipped_document)\<lparr>
       pl_allowedContracts := Some [''0x3a9d48ab9751398bbfa63ad67599bb04e4bdf98b'', ''0xe03a1074c86cfedd5c142c4f04f1a1536e203543'', sample_research_facilitator],
       pl_allowedRecipients := Some [''0x00000000000000000000000000000000000000a1'', ''0x0000000000000000000000000000000000000001'']\<rparr>\<rparr>)"
proof -
  have "serviceEvm (\<lambda>k. if k = ''X402_PAY_TO'' then Some ''0.0.1'' else None) = Inr ''0x0000000000000000000000000000000000000001''"
    by code_simp
  moreover have "toLowerCase sample_research_facilitator = sample_research_facilitator" by code_simp
  ultimately show ?thesis by (simp add: researcher_policy_def shipped_document_def)
qed

theorem researcher_never_accumulates_witness:
  "\<exists>answers decisions w. runResearcher (\<lambda>k. if k = ''X402_PAY_TO'' then Some ''0.0.1'' else None) (\<lambda>_. Inr JNull) sample_attempt (\<lambda>m. (0, m)) ''0x''
      sample_research 0 = Inr (answers, decisions, w) \<and> sa_balance (ae_account w) = 1000000000"
proof -
  let ?cs = "[''0x3a9d48ab9751398bbfa63ad67599bb04e4bdf98b'', ''0xe03a1074c86cfedd5c142c4f04f1a1536e203543'', sample_research_facilitator]"
  let ?rs = "[''0x00000000000000000000000000000000000000a1'', ''0x0000000000000000000000000000000000000001'']"
  let ?d = "shipped_document\<lparr>doc_policies := (doc_policies shipped_document)\<lparr>pl_allowedContracts := Some ?cs, pl_allowedRecipients := Some ?rs\<rparr>\<rparr>"
  have "\<not> isl (mapR normalizeAddress ((?cs @ [sample_research_facilitator]) @ [doc_assetAddress shipped_document]))" by code_simp
  then obtain w0 where w0: "sandbox (\<lambda>m. (0, m)) ?d ''0x00'' (Some (?cs @ [sample_research_facilitator])) (0 :: nat) = Inr w0"
    using shipped_sandbox sum.collapse(2) by metis
  have "\<not> isl (addressSet (?cs @ [doc_assetAddress shipped_document]))" "\<not> isl (addressSet ?rs)" by code_simp+
  then have "\<exists>xs. addressSet (?cs @ [doc_assetAddress shipped_document]) = Inr xs" "\<exists>xs. addressSet ?rs = Inr xs"
    by (metis sum.collapse(2))+
  then obtain rp where "resolvePolicy ?d = Inr rp"
    by (auto simp: resolvePolicy_def shipped_document_def shipped_amounts shipped_addresses Let_def)
  then have c: "createAgentProof (sandbox_platform (\<lambda>m. (0, m)) ''0x'') (sandbox_config (\<lambda>m. (0, m)) ?d) w0 =
      (Inr (sandbox_agent (\<lambda>m. (0, m)) ''0x'' ?d rp default_registry), w0)"
    by (simp add: createAgentProof_def sandbox_config_def sandbox_platform_def sandbox_agent_def createDefaultRegistry_eq
        bind_io_def check_identity_def load_registry_def check_hook_def make_enforcer_def)
  obtain answers decisions w where run: "runResearcher (\<lambda>k. if k = ''X402_PAY_TO'' then Some ''0.0.1'' else None) (\<lambda>_. Inr JNull) sample_attempt (\<lambda>m. (0, m)) ''0x''
      sample_research 0 = Inr (answers, decisions, w)"
    using runResearcher_ends [of _ sample_research ?d, OF _ _ c] w0 sample_research_policy by (fastforce simp: sample_research_def)
  with researcher_never_accumulates [OF run] show ?thesis by blast
qed

text \<open>A policy wide enough for the sample challenge, and a sandbox with funds.\<close>

definition sample_research_rules :: ResolvedPolicy where
  "sample_research_rules = sample_policy\<lparr>rp_maxTransaction := 10 ^ 12, rp_dailySpend := 10 ^ 12, rp_approvalThreshold := 10 ^ 12,
     rp_allowedContracts := [sample_hook], rp_allowedRecipients := [sample_router]\<rparr>"

definition sample_env :: "nat AgentEnv" where
  "sample_env = \<lparr>ae_account = sample_sim, ae_state = memory_setBalance sample_account sample_token (10 ^ 12) (newMemoryState []), ae_outer = 0\<rparr>"

abbreviation sample_researcher :: "nat AgentEnv AgentProof" where
  "sample_researcher \<equiv> sandbox_agent (\<lambda>m. (0, m)) ''0x'' sample_document sample_research_rules default_registry"

lemma sample_research_check:
  assumes "payment_action \<lparr>px_facilitator = sample_hook, px_token = sample_token, px_chainId = n\<rparr> sample_challenge = Inr action"
  shows "\<exists>decision. agent_check sample_researcher action (0, sample_env) = (Inr decision, (1, sample_env)) \<and> res_decision decision = ALLOW"
proof -
  have v: "bigint_micro (js_Number (cq_amount sample_challenge)) = Inr 10000000000"
    by (simp add: sample_challenge_amount sample_prices bigint_micro_def js_round_def floor_eq_iff)
  note reads = payment_action_reads [OF assms _ _ v]
  let ?ctx = "\<lparr>dc_account = sample_account, dc_trackedAsset = sample_token, dc_decimals = 6\<rparr>"
  obtain i where i: "x402_decode action ?ctx = Inr (Some i)" "in_target i = sample_hook" "in_counterparty i = Some sample_router"
    "in_notionalUSDC i = 10000000000" "in_kind i = X402_PAYMENT"
    using reads sample_wf by (simp add: x402_decode_def uint256_def UINT256_MAX_def sample_challenge_def)
  have "registry_decode default_registry action ?ctx = Inr i"
    using i(1) reads(1) sample_wf candidates_x402 by (intro registry_first) (auto simp: x402Decoder_def uint256_def UINT256_MAX_def sample_challenge_def)
  then have d: "engine_decode (ap_engine sample_researcher) action None = Inr i"
    by (simp add: engine_decode_def merge_context_def sandbox_agent_def sample_research_rules_def sample_policy_def)
  let ?st = "\<lparr>st_account = sample_account, st_dayUtc = utcDay 0, st_dailySpend = 0, st_balance = 10 ^ 12, st_asset = sample_token, st_now = 0, st_pool = None\<rparr>"
  have g: "gatherState sample_researcher sample_env = (Inr ?st, sample_env)"
    by (simp add: gatherState_def bind_io_def read_clock_def both_io_def sandbox_agent_def sandbox_config_def memory_provider_def outer_clock_def
        sample_env_def sample_research_rules_def sample_policy_def memory_getDailySpend_def memory_getBalance_def memory_setBalance_def newMemoryState_def or_else_def Let_def)
  have "verdict_of (default_policies sample_research_rules False) i ?st = ALLOW"
    using default_policies_verdict [of sample_research_rules False i ?st] i by (simp add: rule_defs sample_research_rules_def sample_policy_def)
  then have v: "verdict_of (eo_policies (ap_engine sample_researcher)) i ?st = ALLOW" by (simp add: sandbox_agent_def)
  have t: "ap_dateNow sample_researcher sample_env = (0, sample_env)" by (simp add: sandbox_agent_def outer_clock_def sample_env_def)
  let ?r = "fst (evaluate (ap_engine sample_researcher) i ?st 0 0)"
  have e: "evaluate_io sample_researcher i ?st (0, sample_env) = (Inr ?r, (1, sample_env))"
    using t evaluate_simps(6) [of "ap_engine sample_researcher" i ?st 0 0]
    by (cases "evaluate (ap_engine sample_researcher) i ?st 0 0") (simp add: evaluate_io_def)
  have p: "publish sample_researcher q w = (Inr (), w)" for q w by (simp add: publish_def sandbox_agent_def sandbox_config_def)
  have "agent_check sample_researcher action (0, sample_env) = (Inr ?r, (1, sample_env))"
    unfolding agent_check_def using d g e p by (simp add: bind_io_def outside_def)
  moreover have "res_decision ?r = ALLOW" using v by (simp add: evaluate_simps)
  ultimately show ?thesis by blast
qed

lemma fetchPaid_delivers:
  assumes "xc_attempt c url body None w = (Inr first, w1)" and "fr_status first = 402" and "fr_json first = Inr j" and "fr_accepts first = Some (q # qs)"
    and "checkPrice c q = Inr ()" and "checkPolicy c q w1 = (Inr (), w2)" and "xc_signPayment c q w2 = (Inr payload, w3)"
    and "xc_attempt c url body (Some payload) w3 = (Inr second, w4)"
  shows "fetchPaid parse c url body w = (second_attempt parse second, w4)"
  using assms by (simp add: fetchPaid_def bind_io_def)

theorem researcher_pays_allowed_witness:
  "\<exists>r rs' n' w'. fetchPaid (\<lambda>_. Inr JNull) (researcher_client sample_attempt (\<lambda>_ m. (Inr ''sig'', m + 1)) (protect sample_researcher None)
      sample_document sample_hook) [] JNull ([], 0, sample_env) = (Inr r, (rs', n', w')) \<and> pd_paid r \<and> map res_decision rs' = [ALLOW]"
proof -
  let ?c = "researcher_client sample_attempt (\<lambda>_ m. (Inr ''sig'', m + 1)) (protect sample_researcher None) sample_document sample_hook"
  let ?ctx = "\<lparr>px_facilitator = sample_hook, px_token = sample_token, px_chainId = 84532\<rparr>"
  obtain action where "payment_action ?ctx sample_challenge = Inr action"
    using sample_payment_action by (auto simp: payment_action_def x402PaymentAction_def sample_context_def bindR_eq_Inr)
  moreover from sample_research_check [OF this] obtain decision where
    "agent_check sample_researcher action (0, sample_env) = (Inr decision, (1, sample_env))" "res_decision decision = ALLOW" by blast
  ultimately have p: "checkPolicy ?c sample_challenge ([], 0, sample_env) = (Inr (), ([decision], 1, sample_env))"
    by (simp add: checkPolicy_def researcher_client_def researcher_authorise_def researching_def protect_def bind_io_def sample_document_def)
  have price: "checkPrice ?c sample_challenge = Inr ()"
    by (simp add: checkPrice_def researcher_client_def sample_prices sample_challenge_amount js_Number_digits is_digit_def of_base_def digit_val_def)
  have attempts: "xc_attempt ?c u b x s = (Inr \<lparr>fr_status = (if x = None then 402 else 200), fr_json = Inr JNull,
      fr_accepts = Some [sample_challenge], fr_paymentResponse = None\<rparr>, s)" for u b x s
    by (cases s) (simp add: researcher_client_def sample_attempt_def researching_def outside_def outer_io_def Let_def)
  obtain s' where sign: "xc_signPayment ?c sample_challenge ([decision], 1, sample_env) = (Inr ''sig'', s')"
    by (simp add: researcher_client_def researching_def outside_def outer_io_def Let_def)
  obtain r where run: "fetchPaid (\<lambda>_. Inr JNull) ?c [] JNull ([], 0, sample_env) = (Inr r, s')" "pd_paid r"
    using fetchPaid_delivers [OF attempts _ _ _ price p sign attempts] by (auto simp: second_attempt_def)
  moreover obtain rs' n' w' where "s' = (rs', n', w')" by (rule prod_cases3)
  ultimately have run: "fetchPaid (\<lambda>_. Inr JNull) ?c [] JNull ([], 0, sample_env) = (Inr r, (rs', n', w'))" "pd_paid r" by simp_all
  from researcher_pays_allowed [OF run] run show ?thesis by auto
qed

end
