(* ===== verification/Demo.thy ===== *)
theory Demo
  imports Agents
begin

text \<open>
  The demonstration \<^verbatim>\<open>scripts/demo-runner.ts\<close>, run without a live backend: one agent on a simulated account under
  the shipped policy, taken through a tampered policy file, legitimate and hostile actions, an escalation, salami
  slicing and an attempt to bypass the SDK. With it the reading of the live configuration
  (\<^verbatim>\<open>scripts/live-backend.ts\<close>). What is only printed is left out; the texts of the thoughts, which contain characters
  outside the model's strings, are parameters.
\<close>

section \<open>live-backend.ts\<close>

record LiveConfig =
  lv_rpcUrl :: string
  lv_bundlerUrl :: string
  lv_agentSessionKey :: string
  lv_account :: string
  lv_ownerKey :: "string option"
  lv_chainId :: js_number
  lv_universalResolver :: "string option"

definition live_missing :: "(string \<Rightarrow> string option) \<Rightarrow> string list" where
  "live_missing env = filter (\<lambda>k. env_set env k = None) [''SEPOLIA_RPC_URL'', ''BUNDLER_URL'', ''AGENT_SESSION_KEY'', ''SMART_ACCOUNT_ADDRESS'']"

definition readLiveConfig :: "(string \<Rightarrow> string option) \<Rightarrow> LiveConfig option" where
  "readLiveConfig env =
     (if env ''AGENTPROOF_LIVE'' \<noteq> Some ''true'' then None
      else if live_missing env \<noteq> [] then None
      else Some \<lparr>lv_rpcUrl = or_else (env ''SEPOLIA_RPC_URL'') [], lv_bundlerUrl = or_else (env ''BUNDLER_URL'') [],
        lv_agentSessionKey = or_else (env ''AGENT_SESSION_KEY'') [], lv_account = toLowerCase (or_else (env ''SMART_ACCOUNT_ADDRESS'') []),
        lv_ownerKey = env ''OWNER_PRIVATE_KEY'', lv_chainId = js_Number (or_else (env ''CHAIN_ID'') ''11155111''),
        lv_universalResolver = map_option toLowerCase (env_set env ''ENS_UNIVERSAL_RESOLVER'')\<rparr>)"

section \<open>Publishing\<close>

text \<open>
  What the script is given: the environment, whether a terminal is attached, the clock, \<^verbatim>\<open>fetch\<close> of the dashboard, the
  answer typed at the prompt, the message of an error, the files under \<^verbatim>\<open>proofs/\<close> and the texts.
\<close>

record 'm DemoPlatform =
  dp_env :: "string \<Rightarrow> string option"
  dp_isTTY :: bool
  dp_clock :: "'m \<Rightarrow> int \<times> 'm"
  dp_fetch :: "string \<Rightarrow> json \<Rightarrow> ('m, unit) io"
  dp_prompt :: "ApprovalRequest \<Rightarrow> ('m, string) io"
  dp_message :: "js_error \<Rightarrow> string"
  dp_files :: "'m AgentEnv Platform"
  dp_thought :: "nat \<Rightarrow> json"
  dp_resolvedVia :: string

definition DASHBOARD_URL :: "(string \<Rightarrow> string option) \<Rightarrow> string option" where
  "DASHBOARD_URL env = (if env ''AGENTPROOF_DASHBOARD'' = Some ''off'' then None
     else Some (or_else (env ''AGENTPROOF_DASHBOARD_URL'') ''http://localhost:8402''))"

text \<open>A failure to reach the dashboard is caught.\<close>

definition demo_publish :: "'m DemoPlatform \<Rightarrow> string \<Rightarrow> json \<Rightarrow> ('m AgentEnv, unit) io" where
  "demo_publish p kind data w =
     (case DASHBOARD_URL (dp_env p) of
        None \<Rightarrow> (Inr (), w)
      | Some url \<Rightarrow> if url = [] then (Inr (), w)
          else (Inr (), snd (outer_io (dp_fetch p (url @ ''/v1/publish'') (JObj [(''type'', JStr kind), (''data'', data)])) w)))"

definition pending_json :: "ApprovalRequest \<Rightarrow> json" where
  "pending_json r = JObj [(''id'', JStr (ar_id r)), (''reason'', JStr (ar_reason r)), (''threshold'', JStr (bigint_to_string (ar_threshold r))),
     (''intent'', JObj [(''summary'', JStr (in_summary (ar_intent r))), (''notionalUSDC'', JStr (bigint_to_string (in_notionalUSDC (ar_intent r))))]),
     (''interactive'', JBool False), (''state'', JStr ''pending'')]"

definition demo_console :: "'m DemoPlatform \<Rightarrow> ApprovalRequest \<Rightarrow> ('m, ApprovalOutcome) io" where
  "demo_console p r =
     (if dp_env p ''AGENTPROOF_AUTO_APPROVE'' = Some ''true'' \<or> \<not> dp_isTTY p then return_io (console_request True [] r)
      else bind_io (dp_prompt p r) (\<lambda>answer. return_io (console_request False answer r)))"

definition DemoApprover :: "'m DemoPlatform \<Rightarrow> 'm AgentEnv Approver" where
  "DemoApprover p = \<lparr>ap_request = (\<lambda>r.
     bind_io (demo_publish p ''approval'' (pending_json r)) (\<lambda>_.
     bind_io (outer_io (demo_console p r)) (\<lambda>outcome.
     bind_io (demo_publish p ''approval'' (JObj [(''id'', JStr (ar_id r)),
         (''state'', JStr (if ao_approved outcome then ''approved'' else ''declined''))])) (\<lambda>_. return_io outcome))))\<rparr>"

definition decisionPayload :: "PolicyResult \<Rightarrow> SimulatedAccount \<Rightarrow> int \<Rightarrow> json" where
  "decisionPayload result simulated dailyLimit = JObj
     [(''decision'', JStr (decision_string (res_decision result))), (''reason'', JStr (res_reason result)),
      (''sequence'', JNum (int (res_sequence result))),
      (''intent'', JObj [(''summary'', JStr (in_summary (res_intent result))), (''notionalUSDC'', JStr (bigint_to_string (in_notionalUSDC (res_intent result)))),
         (''kind'', JStr (kind_string (in_kind (res_intent result)))), (''target'', JStr (in_target (res_intent result))),
         (''counterparty'', case in_counterparty (res_intent result) of None \<Rightarrow> JNull | Some c \<Rightarrow> JStr c)]),
      (''violations'', JArr (map (\<lambda>v. JObj [(''policy'', JStr (pv_policy v)), (''message'', JStr (pv_message v)),
         (''provenance'', JStr (provenance_string (pv_provenance v))), (''limit'', JStr (bigint_to_string (pv_limit v))),
         (''observed'', JStr (bigint_to_string (pv_observed v)))]) (res_violations result))),
      (''checks'', JArr (map check_json (res_checks result))),
      (''proof'', case res_proof result of None \<Rightarrow> JNull | Some f \<Rightarrow> proof_json f),
      (''txHash'', case res_txHash result of None \<Rightarrow> JNull | Some h \<Rightarrow> JStr h), (''explorerUrl'', JNull),
      (''dailySpent'', JStr (bigint_to_string (sim_spentToday simulated))), (''dailyLimit'', JStr (bigint_to_string dailyLimit))]"

definition stubIdentity :: "Hex \<Rightarrow> 'w IdentityProvider" where
  "stubIdentity hash = \<lparr>ip_resolvePolicyHash = (\<lambda>_. return_io hash), ip_resolveAccount = (\<lambda>_. return_io ''0x0000000000000000000000000000000000000000''),
     ip_resolveHook = (\<lambda>_. return_io ''0x0000000000000000000000000000000000000000''), ip_resolveStatus = (\<lambda>_. return_io ''active'')\<rparr>"

section \<open>The instance\<close>

definition demo_onDecision :: "'m DemoPlatform \<Rightarrow> Address \<Rightarrow> PolicyResult \<Rightarrow> ('m AgentEnv, unit) io" where
  "demo_onDecision p account result =
     (if res_decision result = ALLOW \<and> or_else (res_txHash result) [] \<noteq> [] then
        bind_io (read_clock (outer_clock (dp_clock p))) (\<lambda>now.
          modify_io (\<lambda>w. w\<lparr>ae_state := memory_addSpend account (now div 1000 div 86400) (in_notionalUSDC (res_intent result)) (ae_state w)\<rparr>))
      else return_io ())"

definition demo_platform :: "'m DemoPlatform \<Rightarrow> 'm AgentEnv Platform" where
  "demo_platform p = (dp_files p)\<lparr>pt_dateNow := outer_clock (dp_clock p)\<rparr>"

definition demo_config :: "'m DemoPlatform \<Rightarrow> PolicyDocument \<Rightarrow> 'm AgentEnv AgentProofConfig" where
  "demo_config p policy = (sandbox_config (dp_clock p) policy)\<lparr>cf_approver := Some (DemoApprover p), cf_proofs := Some (Inr ''../proofs''),
     cf_onDecision := Some (demo_onDecision p (doc_account policy))\<rparr>"

text \<open>\<^verbatim>\<open>act\<close>: the account is read after the action.\<close>

definition post_decision :: "'m DemoPlatform \<Rightarrow> int \<Rightarrow> PolicyResult \<Rightarrow> ('m AgentEnv agent_world, unit) io" where
  "post_decision p dailyLimit result s = outside (demo_publish p ''decision'' (decisionPayload result (ae_account (snd s)) dailyLimit)) s"

definition demo_act :: "'m DemoPlatform \<Rightarrow> 'm AgentEnv ProtectedAccount \<Rightarrow> int \<Rightarrow> json \<Rightarrow> Action \<Rightarrow> ('m AgentEnv agent_world, PolicyResult) io" where
  "demo_act p protected dailyLimit thought action =
     bind_io (outside (demo_publish p ''thought'' thought)) (\<lambda>_.
     bind_io (pa_execute protected action) (\<lambda>result.
     bind_io (post_decision p dailyLimit result) (\<lambda>_. return_io result)))"

section \<open>Scenes\<close>

definition demo_call :: "PolicyDocument \<Rightarrow> Address \<Rightarrow> Hex \<Rightarrow> Action" where
  "demo_call policy to data = \<lparr>act_to = to, act_data = data, act_value = 0, act_chainId = doc_chainId policy, act_metadata = None\<rparr>"

definition demo_swap :: "PolicyDocument \<Rightarrow> Address \<Rightarrow> Address \<Rightarrow> string \<Rightarrow> Action result" where
  "demo_swap policy router payTo amount =
     bindR (usdc amount) (\<lambda>v. bindR (encodeSwapExactIn \<lparr>xe_recipient = payTo, xe_amount = v, xe_bound = 0, xe_tokenIn = doc_assetAddress policy,
         xe_tokenOut = WETH_SEPOLIA, xe_fee = 3000\<rparr>) (\<lambda>d. Inr (demo_call policy router d)))"

definition demo_swap_out :: "PolicyDocument \<Rightarrow> Address \<Rightarrow> Address \<Rightarrow> string \<Rightarrow> Action result" where
  "demo_swap_out policy router payTo most =
     bindR (usdc most) (\<lambda>v. bindR (encodeSwapExactOut \<lparr>xe_recipient = payTo, xe_amount = 1, xe_bound = v, xe_tokenIn = doc_assetAddress policy,
         xe_tokenOut = WETH_SEPOLIA, xe_fee = 3000\<rparr>) (\<lambda>d. Inr (demo_call policy router d)))"

definition demo_scenes :: "PolicyDocument \<Rightarrow> Address \<Rightarrow> Address \<Rightarrow> Action result list" where
  "demo_scenes policy router payTo =
     [demo_swap policy router payTo ''80'', demo_swap policy router payTo ''250'', demo_swap_out policy router payTo ''250'',
      bindR (usdc ''50'') (\<lambda>v. bindR (encodeErc20Transfer ATTACKER v) (\<lambda>d. Inr (demo_call policy (doc_assetAddress policy) d))),
      demo_swap policy router payTo ''100'',
      bindR (encodeErc20Approve router UNLIMITED_APPROVAL) (\<lambda>d. Inr (demo_call policy (doc_assetAddress policy) d))]"

fun demo_acts :: "'m DemoPlatform \<Rightarrow> 'm AgentEnv ProtectedAccount \<Rightarrow> int \<Rightarrow> nat \<Rightarrow> Action result list \<Rightarrow> ('m AgentEnv agent_world, unit) io" where
  "demo_acts p protected dailyLimit n [] = return_io ()"
| "demo_acts p protected dailyLimit n (a # actions) =
     bind_io (lift_io a) (\<lambda>action. bind_io (demo_act p protected dailyLimit (dp_thought p n) action) (\<lambda>_.
       demo_acts p protected dailyLimit (n + 1) actions))"

fun salami :: "'m DemoPlatform \<Rightarrow> 'm AgentEnv ProtectedAccount \<Rightarrow> int \<Rightarrow> Action result \<Rightarrow> nat \<Rightarrow> ('m AgentEnv agent_world, unit) io" where
  "salami p protected dailyLimit a 0 = return_io ()"
| "salami p protected dailyLimit a (Suc n) =
     bind_io (lift_io a) (\<lambda>action. bind_io (pa_execute protected action) (\<lambda>result.
     bind_io (post_decision p dailyLimit result) (\<lambda>_. salami p protected dailyLimit a n)))"

text \<open>
  The tampered file: what is reported is whether the SDK started with it. Starting does not read the state provider, so
  the one of the run stands for the fresh one.
\<close>

definition tampered :: "PolicyDocument \<Rightarrow> PolicyDocument" where
  "tampered policy = policy\<lparr>doc_policies := (doc_policies policy)\<lparr>pl_maxTransaction := Some ''250''\<rparr>\<rparr>"

definition tamper_config :: "'m DemoPlatform \<Rightarrow> PolicyDocument \<Rightarrow> 'm AgentEnv IdentityProvider \<Rightarrow> 'm AgentEnv AgentProofConfig" where
  "tamper_config p policy identity = (sandbox_config (dp_clock p) (tampered policy))\<lparr>cf_identity := Some identity, cf_enforcement := None\<rparr>"

definition demo_tamper :: "'m DemoPlatform \<Rightarrow> PolicyDocument \<Rightarrow> ('m AgentEnv, bool) io" where
  "demo_tamper p policy w =
     (case createAgentProof (demo_platform p) (tamper_config p policy (stubIdentity (policyHash policy))) w of
        (Inr _, w') \<Rightarrow> (Inr True, w') | (Inl _, w') \<Rightarrow> (Inr False, w'))"

text \<open>
  The bypass: a day later, the session key signs a transfer itself. An error that is a revert of the account is what
  the script hopes for; any other one ends it. What is reported is whether the account accepted it.
\<close>

definition isPolicyRevert :: "(js_error \<Rightarrow> string) \<Rightarrow> js_error \<Rightarrow> bool" where
  "isPolicyRevert message e \<longleftrightarrow> (case e of PolicyRevert _ _ \<Rightarrow> True | _ \<Rightarrow>
     list_ex (\<lambda>s. js_includes s (message e)) [''Exceeds'', ''TargetNotAllowed'', ''BelowMinBalance''])"

definition revert_text :: "(js_error \<Rightarrow> string) \<Rightarrow> js_error \<Rightarrow> string" where
  "revert_text message e = (case e of PolicyRevert code _ \<Rightarrow> code | _ \<Rightarrow> message e)"

definition bypass_json :: "string \<Rightarrow> int \<Rightarrow> int \<Rightarrow> json" where
  "bypass_json detail amount dailyLimit = JObj [(''decision'', JStr ''BLOCK''), (''reason'', JStr (''bypass reverted on the account model: '' @ detail)),
     (''sequence'', JNum 999), (''intent'', JObj [(''summary'', JStr ''direct 250 USDC transfer, session key, no SDK''),
       (''notionalUSDC'', JStr (bigint_to_string amount)), (''kind'', JStr ''TRANSFER'')]), (''violations'', JArr []), (''checks'', JArr []),
     (''proof'', JNull), (''dailyLimit'', JStr (bigint_to_string dailyLimit))]"

definition bypass_send :: "PolicyDocument \<Rightarrow> Address \<Rightarrow> ('m AgentEnv, Hex) io" where
  "bypass_send policy router =
     bind_io (lift_io (bindR (usdc ''250'') (encodeErc20Transfer router))) (\<lambda>d w.
       let (r, a) = sendUnchecked \<lparr>uo_account = doc_account policy, uo_to = doc_assetAddress policy, uo_data = d, uo_value = 0, uo_nonce = None\<rparr> (ae_account w)
       in (r, w\<lparr>ae_account := a\<rparr>))"

definition demo_bypass :: "'m DemoPlatform \<Rightarrow> PolicyDocument \<Rightarrow> Address \<Rightarrow> int \<Rightarrow> ('m AgentEnv, bool) io" where
  "demo_bypass p policy router dailyLimit =
     bind_io (demo_publish p ''thought'' (dp_thought p 7)) (\<lambda>_.
     bind_io (modify_io (\<lambda>w. w\<lparr>ae_account := sim_advance 86400000 (ae_account w)\<rparr>)) (\<lambda>_ w.
       case bypass_send policy router w of
         (Inr _, w1) \<Rightarrow> (Inr True, w1)
       | (Inl e, w1) \<Rightarrow>
           if \<not> isPolicyRevert (dp_message p) e then (Inl e, w1)
           else bind_io (lift_io (usdc ''250'')) (\<lambda>v.
             bind_io (demo_publish p ''decision'' (bypass_json (revert_text (dp_message p) e) v dailyLimit)) (\<lambda>_. return_io False)) w1))"

section \<open>The run\<close>

definition identity_record :: "'m DemoPlatform \<Rightarrow> PolicyDocument \<Rightarrow> Hex \<Rightarrow> json" where
  "identity_record p policy hash = JObj [(''name'', JStr (doc_agent policy)), (''account'', JStr (doc_account policy)), (''policyHash'', JStr hash),
     (''hook'', JStr (doc_hook policy)), (''status'', JStr ''active''), (''resolvedVia'', JStr (dp_resolvedVia p)), (''verified'', JBool False),
     (''matchesLocal'', JBool True)]"

text \<open>Everything up to the bypass; whether the SDK started with the tampered file.\<close>

definition demo_guarded :: "'m DemoPlatform \<Rightarrow> 'm AgentEnv AgentProof \<Rightarrow> PolicyDocument \<Rightarrow> Address \<Rightarrow> Address \<Rightarrow> int \<Rightarrow> ('m AgentEnv agent_world, bool) io" where
  "demo_guarded p ap policy router payTo dailyLimit =
     bind_io (outside (demo_publish p ''identity'' (identity_record p policy (rp_hash (ap_policy ap))))) (\<lambda>_.
     bind_io (outside (demo_tamper p policy)) (\<lambda>started.
     bind_io (demo_acts p (protect ap None) dailyLimit 0 (demo_scenes policy router payTo)) (\<lambda>_.
     bind_io (outside (demo_publish p ''thought'' (dp_thought p 6))) (\<lambda>_.
     bind_io (salami p (protect ap None) dailyLimit (demo_swap policy router payTo ''40'') 14) (\<lambda>_. return_io started)))))"

definition demo_run :: "'m DemoPlatform \<Rightarrow> 'm AgentEnv AgentProof \<Rightarrow> PolicyDocument \<Rightarrow> Address \<Rightarrow> Address \<Rightarrow> int \<Rightarrow> ('m AgentEnv agent_world, nat) io" where
  "demo_run p ap policy router payTo dailyLimit =
     bind_io (demo_guarded p ap policy router payTo dailyLimit) (\<lambda>started.
     bind_io (outside (demo_bypass p policy router dailyLimit)) (\<lambda>accepted. return_io (if started \<or> accepted then 1 else 0)))"

text \<open>
  \<^verbatim>\<open>main\<close>, with the policy read: the exit code and the world left, if the account could be built. An empty list of
  contracts leaves the router undefined, and the first use of it fails; here the run fails at once.
\<close>

definition demo_main :: "'m DemoPlatform \<Rightarrow> PolicyDocument \<Rightarrow> 'm \<Rightarrow> nat result \<times> 'm AgentEnv option" where
  "demo_main p policy m =
     (case pl_allowedContracts (doc_policies policy) of
        Some (router # _) \<Rightarrow>
          let payTo = (case pl_allowedRecipients (doc_policies policy) of Some (r # _) \<Rightarrow> r | _ \<Rightarrow> doc_account policy) in
          (case bindR (base_amount (pl_dailySpend (doc_policies policy))) (\<lambda>dailyLimit.
              bindR (sandbox (dp_clock p) policy (policyHash policy) (pl_allowedContracts (doc_policies policy)) m) (\<lambda>w. Inr (dailyLimit, w))) of
             Inl e \<Rightarrow> (Inl e, None)
           | Inr (dailyLimit, w) \<Rightarrow>
               (case createAgentProof (demo_platform p) (demo_config p policy) w of
                  (Inl e, w1) \<Rightarrow> (Inl e, Some w1)
                | (Inr ap, w1) \<Rightarrow> let (r, s) = demo_run p ap policy router payTo dailyLimit (0, w1) in (r, Some (snd s))))
      | _ \<Rightarrow> (Inl TypeErrorUndefined, None))"

section \<open>The tampered file\<close>

lemma tampered_refused: "\<exists>e. resolvePolicy (tampered policy) = Inl e"
proof -
  have "policy_amount ''maxTransaction'' (Some ''250'') = Inl (LooksLikeDisplayUnits ''250'')"
    by (simp add: policy_amount_def parseBaseUnitPolicyAmount_def trim_def trimEnd_def is_space_def is_digit_def Let_def)
  then show ?thesis
    by (cases "resolvePolicy (tampered policy)") (auto simp: resolvePolicy_def tampered_def bindR_eq_Inr Let_def split: if_splits)
qed

lemma tamper_start: "resolvePolicy (tampered policy) = Inl e \<Longrightarrow> createAgentProof pf (tamper_config p policy identity) w = (Inl e, w)"
  by (simp add: createAgentProof_def tamper_config_def sandbox_config_def bind_io_def)

lemma demo_tamper_False: "demo_tamper p policy w = (Inr False, w)"
  using tampered_refused [of policy] by (auto simp: demo_tamper_def tamper_start)

section \<open>The demonstrated agent\<close>

definition demo_agent :: "'m DemoPlatform \<Rightarrow> PolicyDocument \<Rightarrow> ResolvedPolicy \<Rightarrow> DecoderRegistry \<Rightarrow> 'm AgentEnv AgentProof" where
  "demo_agent p policy rp reg = (let proofs = load_registry (demo_platform p) (demo_config p policy) in \<lparr>ap_policy = rp,
     ap_engine = \<lparr>eo_decoders = reg, eo_policies = default_policies rp False,
       eo_decoderContext = \<lparr>dc_account = rp_account rp, dc_trackedAsset = rp_asset rp, dc_decimals = rp_decimals rp\<rparr>,
       eo_proofs = Some (prf_byPolicy proofs)\<rparr>,
     ap_enforcer = make_enforcer (demo_config p policy) rp, ap_proofs = proofs, ap_config = demo_config p policy,
     ap_salt = pt_salt (dp_files p), ap_dateNow = outer_clock (dp_clock p)\<rparr>)"

lemma demo_starts:
  assumes "createAgentProof (demo_platform p) (demo_config p policy) w = (r, w1)"
  shows "w1 = w \<and> (\<forall>ap. r = Inr ap \<longrightarrow> (\<exists>rp reg. ap = demo_agent p policy rp reg))"
proof (cases "resolvePolicy policy")
  case (Inl e)
  then show ?thesis using assms by (simp add: createAgentProof_def demo_config_def sandbox_config_def bind_io_def) auto
next
  case (Inr rp)
  then show ?thesis using assms
    by (auto simp: createAgentProof_def demo_config_def sandbox_config_def demo_platform_def demo_agent_def
        bind_io_def check_identity_def check_hook_def make_enforcer_def Let_def split: sum.splits)
qed

lemma demo_enforcer: "ap_enforcer (demo_agent p policy rp reg) =
    Some \<lparr>he_account = rp_account rp, he_hook = rp_hook rp, he_executor = sandbox_executor, he_chain = None\<rparr>"
  by (simp add: demo_agent_def make_enforcer_def demo_config_def sandbox_config_def Let_def)

text \<open>
  With an approver the owner key may be used, whose limit is that of the day. What the account allows stays as it is.
\<close>

definition demo_moves :: "int \<Rightarrow> 'm AgentEnv \<Rightarrow> 'm AgentEnv \<Rightarrow> bool" where
  "demo_moves cap w w' = (\<forall>opening. books cap opening (ae_account w) \<and> sc_dailyLimit (sa_config (ae_account w)) \<le> cap \<longrightarrow>
     books cap opening (ae_account w') \<and> sa_config (ae_account w') = sa_config (ae_account w) \<and> sa_allowed (ae_account w') = sa_allowed (ae_account w))"

lemma demo_moves_account: "ae_account w' = ae_account w \<Longrightarrow> demo_moves cap w w'"
  by (simp add: demo_moves_def)

lemma publish_account: "ae_account (snd (demo_publish p kind data w)) = ae_account w"
  by (simp add: demo_publish_def outer_frame split: option.splits)

lemma publish_never_fails: "demo_publish p kind data w = (Inr (), snd (demo_publish p kind data w))"
  by (simp add: demo_publish_def split: option.splits)

lemma publishes_moves: "kept_by (demo_moves cap) (demo_publish p kind data)"
  by (simp add: kept_by_def demo_moves_account publish_account)

interpretation booked: io_frame "demo_moves cap" for cap
  by unfold_locales (auto simp: demo_moves_def)

lemma outer_moves: "kept_by (demo_moves cap) (outer_io m)"
  by (simp add: kept_by_def demo_moves_account outer_frame)

lemma approver_moves: "kept_by (demo_moves cap) (ap_request (DemoApprover p) r)"
  by (simp add: DemoApprover_def booked.bind booked.pure publishes_moves outer_moves)

lemma onDecision_moves: "kept_by (demo_moves cap) (demo_onDecision p account r)"
proof -
  have "kept_by (demo_moves cap) (modify_io (\<lambda>w. w\<lparr>ae_state := f w\<rparr>))" for f
    by (simp add: kept_by_def demo_moves_account)
  then show ?thesis
    by (auto simp: demo_onDecision_def demo_moves_account outer_frame intro!: booked.bind booked.pure booked.clock)
qed

interpretation shown: agent_frame "demo_moves cap" "demo_agent p policy rp reg" for cap p policy rp reg
  by unfold_locales
    (auto simp: demo_agent_def demo_config_def sandbox_config_def Let_def memory_frame demo_moves_account outer_frame
      approver_moves [unfolded kept_by_def] onDecision_moves [unfolded kept_by_def] kept_by_def)

lemma send_allowed: "sendUnchecked q a = (r, a') \<Longrightarrow> sa_allowed a' = sa_allowed a"
  by (auto simp: sendUnchecked_def Let_def dest!: postCheck_frame(5) split: sum.splits prod.splits)

lemma owner_books:
  assumes "books cap opening a" and "sc_dailyLimit (sa_config a) \<le> cap" and "sim_sendAsOwner q a = (r, a')"
  shows "books cap opening a' \<and> sa_config a' = sa_config a \<and> sa_allowed a' = sa_allowed a"
proof -
  let ?o = "set_maxTransaction (sc_dailyLimit (sa_config a)) a"
  obtain s1 where s1: "sendUnchecked q ?o = (r, s1)" "a' = set_maxTransaction (sc_maxTransaction (sa_config a)) s1"
    using assms(3) by (auto simp: sim_sendAsOwner_def Let_def split: prod.splits)
  have "books cap opening ?o" using assms(1,2) by (simp add: books_def sim_inv_def set_maxTransaction_def sim_today_def)
  from send_books [OF this] s1(1) have "books cap opening s1" "sa_config s1 = sa_config ?o" by (simp_all add: sim_send_def)
  then show ?thesis using assms(1) send_allowed [OF s1(1)]
    by (simp add: s1(2) books_def sim_inv_def set_maxTransaction_def sim_today_def)
qed

lemma demo_sends: "kept_by (demo_moves cap) (ex_send sandbox_executor q)"
    "ex_sendAsOwner sandbox_executor = Some f \<Longrightarrow> kept_by (demo_moves cap) (f q signature)"
proof -
  have "demo_moves cap w (w\<lparr>ae_account := a'\<rparr>)" if "sim_send q (ae_account w) = (r, a')" for w r a'
    using that send_books [of cap _ "ae_account w" q r a'] send_allowed by (auto simp: demo_moves_def sim_send_def)
  then show "kept_by (demo_moves cap) (ex_send sandbox_executor q)"
    by (auto simp: kept_by_def sandbox_executor_def simulated_executor_def Let_def split: prod.splits)
  have "demo_moves cap w (w\<lparr>ae_account := a'\<rparr>)" if "sim_sendAsOwner q (ae_account w) = (r, a')" for w r a'
    using that owner_books [of cap _ "ae_account w" q r a'] by (auto simp: demo_moves_def)
  then show "ex_sendAsOwner sandbox_executor = Some f \<Longrightarrow> kept_by (demo_moves cap) (f q signature)"
    by (auto simp: kept_by_def sandbox_executor_def simulated_executor_def Let_def split: prod.splits)
qed

lemma demo_executes:
  "kept_by (\<lambda>s s'. demo_moves cap (snd s) (snd s')) (pa_execute (protect (demo_agent p policy rp reg) None) action)"
proof -
  have "pa_execute (protect (demo_agent p policy rp reg) None) action =
      agent_execute (demo_agent p policy rp reg) action (ap_enforcer (demo_agent p policy rp reg))" by (simp add: protect_def demo_enforcer)
  moreover have "kept_by (demo_moves cap) (sp_recordExecution (cf_state (ap_config (demo_agent p policy rp reg))) a i h)" for a i h
    by (simp add: kept_by_def demo_agent_def demo_config_def sandbox_config_def Let_def demo_moves_account memory_frame)
  ultimately show ?thesis unfolding demo_enforcer by (simp only:) (rule shown.execute; simp add: demo_sends)
qed

lemma demo_guarded_moves:
  "kept_by (\<lambda>s s'. demo_moves cap (snd s) (snd s')) (demo_guarded p (demo_agent p policy rp reg) policy router payTo dailyLimit)"
proof -
  note frame = io_frame.bind [OF booked.lifted] io_frame.pure [OF booked.lifted] booked.outside publishes_moves demo_executes
  have post: "kept_by (\<lambda>s s'. demo_moves cap (snd s) (snd s')) (post_decision p dailyLimit r)" for r
    by (simp add: kept_by_def post_decision_def outside_snd demo_moves_account publish_account)
  have act: "kept_by (\<lambda>s s'. demo_moves cap (snd s) (snd s')) (demo_act p (protect (demo_agent p policy rp reg) None) dailyLimit thought a)" for thought a
    unfolding demo_act_def by (intro frame post)
  have "kept_by (\<lambda>s s'. demo_moves cap (snd s) (snd s')) (demo_acts p (protect (demo_agent p policy rp reg) None) dailyLimit n actions)" for n actions
    by (induction actions arbitrary: n) (simp_all only: demo_acts.simps, intro frame, intro frame act)
  moreover have "kept_by (\<lambda>s s'. demo_moves cap (snd s) (snd s')) (salami p (protect (demo_agent p policy rp reg) None) dailyLimit a n)" for a n
    by (induction n) (simp_all only: salami.simps, intro frame, intro frame post)
  moreover have "kept_by (demo_moves cap) (demo_tamper p policy)"
    by (simp add: kept_by_def demo_tamper_False booked.R_refl)
  ultimately show ?thesis unfolding demo_guarded_def by (intro frame)
qed

section \<open>Properties\<close>

lemma usdc_bypass: "usdc ''250'' = Inr 250000000"
proof -
  have "replicate 6 (CHR ''0'') = ''000000''" by (simp add: numeral_eq_Suc)
  then show ?thesis
    by (simp add: usdc_def parsePolicyAmount_def USDC_DECIMALS_def trim_def trimEnd_def is_space_def is_decimal_def startsMinus_def whole_fraction_def
        is_unsigned_decimal_def is_digit_def of_base_def digit_val_def padEnd_def Let_def)
qed

text \<open>What the account of the shipped policy starts with.\<close>

definition shipped_account :: "SimulatedAccount \<Rightarrow> bool" where
  "shipped_account a = (sc_asset (sa_config a) = ba_asset FALLBACK \<and> sc_maxTransaction (sa_config a) = 100000000 \<and>
     sc_dailyLimit (sa_config a) = 500000000 \<and> ba_asset FALLBACK \<in> set (sa_allowed a) \<and> ba_router FALLBACK \<in> set (sa_allowed a))"

lemma new_account_allows:
  assumes "newSimulatedAccount address config balance chainId nowMs = Inr a" and "mapR normalizeAddress (sc_allowedTargets config @ [sc_asset config]) = Inr xs"
  shows "sa_config a = config" and "sa_allowed a = js_set xs"
  using assms by (auto simp: newSimulatedAccount_def Let_def)

lemma shipped_opens:
  assumes "sandbox clock shipped_document hash (pl_allowedContracts (doc_policies shipped_document)) m = Inr w"
  shows "books 500000000 1000000000 (ae_account w)" and "shipped_account (ae_account w)"
proof -
  have amounts: "base_amount (pl_dailySpend (doc_policies shipped_document)) = Inr 500000000"
    "base_amount (pl_maxTransaction (doc_policies shipped_document)) = Inr 100000000"
    by (simp_all add: shipped_document_def shipped_base_amounts)
  show "books 500000000 1000000000 (ae_account w)" by (rule sandbox_opens(1) [OF assms amounts]) simp
  obtain targets config t where acc: "newSimulatedAccount (doc_account shipped_document) config 1000000000 None t = Inr (ae_account w)"
    "sc_asset config = ba_asset FALLBACK" "sc_allowedTargets config = targets" "targets = [ba_router FALLBACK, ''0xe03a1074c86cfedd5c142c4f04f1a1536e203543'']"
    using assms usdc_thousand
    by (auto simp: sandbox_def sandbox_account_def bindR_eq_Inr shipped_document_def FALLBACK_def split: option.splits prod.splits)
  have "mapR normalizeAddress ([ba_router FALLBACK, ''0xe03a1074c86cfedd5c142c4f04f1a1536e203543''] @ [ba_asset FALLBACK]) =
      Inr [ba_router FALLBACK, ''0xe03a1074c86cfedd5c142c4f04f1a1536e203543'', ba_asset FALLBACK]" by code_simp
  moreover have "ba_router FALLBACK \<in> set (js_set [ba_router FALLBACK, ''0xe03a1074c86cfedd5c142c4f04f1a1536e203543'', ba_asset FALLBACK]) \<and>
    ba_asset FALLBACK \<in> set (js_set [ba_router FALLBACK, ''0xe03a1074c86cfedd5c142c4f04f1a1536e203543'', ba_asset FALLBACK])" by code_simp
  ultimately show "shipped_account (ae_account w)"
    using new_account_allows [OF acc(1)] acc(2-4) sandbox_opens(2,3) [OF assms amounts] by (simp add: shipped_account_def del: js_set.simps)
qed

text \<open>The account refuses the direct transfer, and is left as it was.\<close>

lemma bypass_refused:
  assumes "shipped_account (ae_account w)" and "250000000 \<le> sa_balance (ae_account w)"
  shows "\<exists>detail. bypass_send shipped_document (ba_router FALLBACK) w = (Inl (PolicyRevert ''ExceedsMaxTransaction'' detail), w)"
proof -
  have wf: "wf_address (ba_router FALLBACK)" using fallback_wf by (simp add: wf_addrs_def)
  then have "\<exists>d. encodeErc20Transfer (ba_router FALLBACK) 250000000 = Inr d"
    using bigint_address_wf [of "ba_router FALLBACK"] by (simp add: encodeErc20Transfer_def)
  then obtain d where d: "encodeErc20Transfer (ba_router FALLBACK) 250000000 = Inr d" ..
  let ?q = "\<lparr>uo_account = doc_account shipped_document, uo_to = doc_assetAddress shipped_document, uo_data = d, uo_value = 0, uo_nonce = None\<rparr>"
  have "normalizeAddress (doc_assetAddress shipped_document) = Inr (ba_asset FALLBACK)" by code_simp
  moreover obtain detail where
    "postCheck (sa_balance (ae_account w)) (sim_today (ae_account w)) ((ae_account w)\<lparr>sa_balance := sa_balance (ae_account w) - 250000000\<rparr>) =
      (Inl (PolicyRevert ''ExceedsMaxTransaction'' detail), ae_account w)"
    using assms(1) by (simp add: postCheck_def shipped_account_def Let_def)
  ultimately have "sendUnchecked ?q (ae_account w) = (Inl (PolicyRevert ''ExceedsMaxTransaction'' detail), ae_account w)"
    using send_transfer [of "ba_router FALLBACK" 250000000 ?q "ae_account w"] d wf assms by (simp add: shipped_account_def uint256_def UINT256_MAX_def)
  then show ?thesis using d usdc_bypass by (simp add: bypass_send_def bind_io_def)
qed

lemma demo_bypass_refused:
  assumes "shipped_account (ae_account w)" and "250000000 \<le> sa_balance (ae_account w)"
  obtains w' where "demo_bypass p shipped_document (ba_router FALLBACK) limit w = (Inr False, w')"
    and "sa_log (ae_account w') = sa_log (ae_account w)" and "sa_balance (ae_account w') = sa_balance (ae_account w)"
proof -
  obtain w1 where w1: "demo_publish p ''thought'' (dp_thought p 7) w = (Inr (), w1)" "ae_account w1 = ae_account w"
    using publish_account publish_never_fails by metis
  let ?w2 = "w1\<lparr>ae_account := sim_advance 86400000 (ae_account w1)\<rparr>"
  have "shipped_account (ae_account ?w2)" "250000000 \<le> sa_balance (ae_account ?w2)"
    using assms w1(2) by (simp_all add: shipped_account_def sim_advance_def)
  from bypass_refused [OF this] obtain detail where
    send: "bypass_send shipped_document (ba_router FALLBACK) ?w2 = (Inl (PolicyRevert ''ExceedsMaxTransaction'' detail), ?w2)" by blast
  obtain w3 where w3: "demo_publish p ''decision'' (bypass_json ''ExceedsMaxTransaction'' 250000000 limit) ?w2 = (Inr (), w3)" "ae_account w3 = ae_account ?w2"
    using publish_account publish_never_fails by metis
  have "demo_bypass p shipped_document (ba_router FALLBACK) limit w = (Inr False, w3)"
    using w1(1) send w3(1) by (simp add: demo_bypass_def bind_io_def isPolicyRevert_def revert_text_def usdc_bypass)
  then show ?thesis using that w1(2) w3(2) by (simp add: sim_advance_def)
qed

lemma books_after:
  assumes "books 500000000 1000000000 a" and "shipped_account a"
  shows "list_all (\<lambda>e. 0 \<le> sl_outflow e \<and> sl_outflow e \<le> 500000000) (sa_log a) \<and> sum_list (map sl_outflow (sa_log a)) \<le> 500000000 \<and>
     sa_balance a = 1000000000 - sum_list (map sl_outflow (sa_log a))"
  using assms by (auto simp: books_def sim_inv_def shipped_account_def)


text \<open>
  The tampering scene says nothing about the published hash. The edited file is refused for every identity, one
  that publishes the hash of the edited file included, with the same error and before the identity is asked: its limit
  \<^verbatim>\<open>250\<close> is not an amount in base units.
\<close>

theorem tamper_scene_vacuous:
  "\<exists>e. \<forall>identity w. createAgentProof (demo_platform p) (tamper_config p policy identity) w = (Inl e, w)"
  using tampered_refused [of policy] tamper_start by blast

definition sample_demo :: "nat DemoPlatform" where
  "sample_demo = \<lparr>dp_env = (\<lambda>_. None), dp_isTTY = False, dp_clock = (\<lambda>m. (0, m)), dp_fetch = (\<lambda>_ _ m. (Inr (), m + 1)), dp_prompt = (\<lambda>_ m. (Inr ''n'', m)),
     dp_message = (\<lambda>_. []), dp_files = sandbox_platform (\<lambda>m. (0, m)) ''0x'', dp_thought = (\<lambda>_. JNull), dp_resolvedVia = []\<rparr>"


end
