(* ===== verification/Spec2Isabelle.thy ===== *)
theory Spec2Isabelle
  imports HookIndex HookSim ConsoleVerify Boot Demo
begin

text \<open>
  AgentProof guards the spending of an autonomous agent. An agent proposes an action (a target, calldata, a
  value); the SDK decodes it to a normalised intent, gathers the state the policies need, evaluates the
  policies and either submits the action, refuses it, or asks a human. The same limits are installed
  on-chain in a hook of the agent's account, an API sells verifications over HTTP behind an x402 payment
  gate, and a subgraph indexes the hook's events, from which the SDK reads the spend of the day. A console shows
  the owner what is decided, takes approvals and edits the policy; agents, a recipe and a demonstration script use it all.

  \<^bold>\<open>Foundations.\<close>
  \<^item> \<^verbatim>\<open>Prelude\<close>: exceptions as \<open>js_error + 'a\<close> with \<open>bindR\<close> and \<open>mapR\<close>, the slice of
    \<^verbatim>\<open>String.prototype\<close> the code uses. \<^verbatim>\<open>Numerals\<close>: \<^verbatim>\<open>toString(base)\<close> and \<^verbatim>\<open>BigInt(s)\<close>, inverse to each other.
  \<^item> \<^verbatim>\<open>Hex\<close> (\<^verbatim>\<open>sdk/src/utils/hex.ts\<close>) and \<^verbatim>\<open>Units\<close> (\<^verbatim>\<open>sdk/src/utils/units.ts\<close>,
    \<^verbatim>\<open>apps/console/lib/usdc.ts\<close>): byte strings, ABI words and addresses as instances of the locale
    \<open>codec\<close>; amounts in base units and their text.
  \<^item> \<^verbatim>\<open>Types\<close> (\<^verbatim>\<open>sdk/src/core/types.ts\<close>): the interfaces as records, decisions ordered by severity.
  \<^item> \<^verbatim>\<open>Effects\<close>: asynchronous code as \<open>'w \<Rightarrow> 'a result \<times> 'w\<close> over a world \<open>'w\<close> that
    stays a type variable; a rejected promise keeps the effects made before it.
  \<^item> \<^verbatim>\<open>Keccak\<close> (\<^verbatim>\<open>sdk/src/crypto/keccak.ts\<close>): the masked bigint permutation, which refines
    Keccak-f[1600] on 64-bit words; the published digest of the empty string is evaluated.

  \<^bold>\<open>Decoding and deciding.\<close>
  \<^item> \<^verbatim>\<open>Decode\<close>, \<^verbatim>\<open>UniswapV4\<close> (\<^verbatim>\<open>sdk/src/decode/\<close>): the selector registry and the ERC-20, native, x402
    and Universal Router decoders. Each is an instance of the locale \<open>selector_decoder\<close> (the intent
    keeps action, target and selector, its notional is the tracked outflow, an unknown one is unbounded),
    and so is the default registry.
  \<^item> \<^verbatim>\<open>Calldata\<close> (\<^verbatim>\<open>sdk/src/testing/calldata.ts\<close>): the encoders and their round trips through the registry.
  \<^item> \<^verbatim>\<open>Policies\<close> (\<^verbatim>\<open>sdk/src/policies/index.ts\<close>): P1 to P7, instances of the locales \<open>policy_rule\<close> (a
    verdict is the failure of a rule) and \<open>monotone_rule\<close> (a smaller intent passes where a larger one does).
  \<^item> \<^verbatim>\<open>PolicyEngine\<close> (\<^verbatim>\<open>sdk/src/core/PolicyEngine.ts\<close>): the loop over the policies; its verdict is the
    most severe of the single verdicts, and rows, violations and proof references are those up to the first block.
  \<^item> \<^verbatim>\<open>PolicyDoc\<close> (\<^verbatim>\<open>sdk/src/core/policy.ts\<close>): canonical JSON, the policy hash and validation. The
    text is independent of key order and determines the document.

  \<^bold>\<open>The guarded account.\<close>
  \<^item> \<^verbatim>\<open>State\<close> (\<^verbatim>\<open>sdk/src/state/\<close>, \<^verbatim>\<open>ports/\<close>): the memory, subgraph and pool providers; their cache is an instance
    of the locale \<open>ttl_cache\<close>.
  \<^item> \<^verbatim>\<open>Privacy\<close> (\<^verbatim>\<open>sdk/src/privacy/\<close>, \<^verbatim>\<open>utils/logger.ts\<close>): redaction, commitments, amount buckets, the
    public audit record.
  \<^item> \<^verbatim>\<open>Enforcement\<close> (\<^verbatim>\<open>sdk/src/enforcement/\<close>, \<^verbatim>\<open>proofs/\<close>), \<^verbatim>\<open>Approval\<close> (\<^verbatim>\<open>sdk/src/approval/\<close>): the hook
    check, the proof registry, and the console, dashboard and Ledger approvers; the dashboard is a step
    relation over requests, answers and timers.
  \<^item> \<^verbatim>\<open>AgentProof\<close> (\<^verbatim>\<open>sdk/src/core/AgentProof.ts\<close>): start-up with its bindings, and check, decide, approve,
    submit and record.
  \<^item> \<^verbatim>\<open>SimulatedAccount\<close> (\<^verbatim>\<open>sdk/src/testing/SimulatedAccount.ts\<close>): the account with the hook as a state
    machine; its spend rule refines \<^verbatim>\<open>PolicyLib.evaluate\<close> of \<^verbatim>\<open>contracts/src/lib/PolicyLib.sol\<close> on 256-bit words.
  \<^item> \<^verbatim>\<open>Hook\<close> (\<^verbatim>\<open>contracts/src/AgentPolicyHook.sol\<close>, \<^verbatim>\<open>lib/ExecutionLib.sol\<close>, \<^verbatim>\<open>lib/PolicyLib.sol\<close>): the contract on machine
    words, installation and removal included, as a step relation over its calls. \<^verbatim>\<open>HookIndex\<close> joins it to the subgraph,
    \<^verbatim>\<open>HookSim\<close> to the simulated account.
  \<^item> \<^verbatim>\<open>Identity\<close> (\<^verbatim>\<open>sdk/src/identity/ENSIdentity.ts\<close>), \<^verbatim>\<open>Adapters\<close> (\<^verbatim>\<open>sdk/src/adapters/\<close>): ENS records
    through the Universal Resolver, the JSON-RPC reader, the two executors and the viem signer.

  \<^bold>\<open>The service.\<close>
  \<^item> \<^verbatim>\<open>X402\<close> (\<^verbatim>\<open>api/src/x402/\<close>): replay guard, facilitator client, payment gate and audit queue. The gate is
    given twice: as one sequential call, and as steps of concurrent requests over the shared guard, where
    other requests may run at every \<^verbatim>\<open>await\<close>.
  \<^item> \<^verbatim>\<open>X402Client\<close> (\<^verbatim>\<open>x402-client/src/\<close>): the client that pays a challenge under a price ceiling and a policy.
  \<^item> \<^verbatim>\<open>Routes\<close>, \<^verbatim>\<open>Server\<close> (\<^verbatim>\<open>api/src/config.ts\<close>, \<^verbatim>\<open>http.ts\<close>, \<^verbatim>\<open>stream.ts\<close>, \<^verbatim>\<open>routes/index.ts\<close>,
    \<^verbatim>\<open>server.ts\<close>): the preflight, the event stream, every route, sessions, bodies and the dispatch. \<^verbatim>\<open>Boot\<close> (\<^verbatim>\<open>server.ts\<close>):
    the construction of a server from its environment.
  \<^item> \<^verbatim>\<open>Subgraph\<close> (\<^verbatim>\<open>subgraphs/agent-history/src/mapping.ts\<close>): the event handlers over the entity store.

  \<^bold>\<open>The console and the agents.\<close>
  \<^item> \<^verbatim>\<open>ConsoleStream\<close> (\<^verbatim>\<open>apps/console/lib/useStream.ts\<close>): the live view as a machine over the events of the browser; the
    server's stream and this view compose.
  \<^item> \<^verbatim>\<open>ConsoleApi\<close> (\<^verbatim>\<open>lib/api.ts\<close>, \<^verbatim>\<open>format.ts\<close>, \<^verbatim>\<open>components/LoginGate.tsx\<close>, \<^verbatim>\<open>Approvals.tsx\<close>): the browser's requests,
    proxied to the routes of \<^verbatim>\<open>Server\<close>, and what the sign-in form and the approval card do with the answers.
    \<^verbatim>\<open>ConsoleSettings\<close> (\<^verbatim>\<open>PolicySettings.tsx\<close>): the policy editor. \<^verbatim>\<open>ConsoleVerify\<close> (\<^verbatim>\<open>app/api/v1/verify/route.ts\<close>): the
    proxy that pays for the page. \<^verbatim>\<open>ConsoleBench\<close> (\<^verbatim>\<open>AttackBench.tsx\<close>, \<^verbatim>\<open>LiveDemo.tsx\<close>, \<^verbatim>\<open>agent.policy.json\<close>): the attacks,
    the scenes and the shipped policy.
  \<^item> \<^verbatim>\<open>Recipe\<close> (\<^verbatim>\<open>recipes/verify-before-you-swap.ts\<close>): a client that verifies before it executes, on its own and against
    \<^verbatim>\<open>Server\<close>. \<^verbatim>\<open>Agents\<close> (\<^verbatim>\<open>apps/agents/\<close>): the trader, the researcher and their models; the locales \<open>io_frame\<close>, \<open>agent_frame\<close>
    and \<open>unattended_frame\<close> carry a relation on worlds through everything an agent does. \<^verbatim>\<open>Demo\<close> (\<^verbatim>\<open>scripts/demo-runner.ts\<close>,
    \<^verbatim>\<open>live-backend.ts\<close>): the demonstration on the simulated account.

  \<^bold>\<open>What is shown.\<close> This theory holds the properties that span the layers: for a transfer of the tracked asset the SDK
  blocks exactly when the simulated account refuses, and exactly when the contract reverts. Around it: whatever the SDK lets through
  satisfies every limit of the document (and has an approval above the threshold); a refusal never reaches
  the executor; what is submitted is what was decided; an instance starts only under the hash its identity
  and its hook publish. Over any run of the simulated account the outflow of a UTC day stays within
  the limit. A served ALLOW was decided by the engine or approved; without a session neither the policy nor an
  approval changes; a payment serves one request however requests interleave, and nothing is settled for
  work that failed; the client pays once and only after price and policy agreed. The subgraph's entities are
  the exact totals of the events, so the spend the SDK reads from it is the sum the hook recorded, and the window the
  contract itself reports gives the same figure. Over any sequence of calls the contract keeps the daily limit.

  End to end: an escalation the server opens appears on the owner's screen, and the answer given there settles it; the
  screen shows the last verdicts published; saving the policy editor unchanged changes nothing; the scenes of the page
  are decided as announced; what the recipe executes was allowed by the server or approved by the owner; the trader
  and the demonstration stay within the shipped limits whatever the model or the operator says; a server that came up
  runs the policy it was given and reads production spend from the subgraph.

  Some theorems describe behaviour one would not want: \<open>session_from_health\<close> in \<^verbatim>\<open>Server\<close> (the public health page
  contains all that the session cookie is made of), \<open>production_without_owner\<close> in \<^verbatim>\<open>Boot\<close> (a production server starts without
  an admin token, and then every request is the owner's), \<open>policy_sees_scaled_amount\<close> in \<^verbatim>\<open>X402Client\<close> (the policy callback
  is shown a million times the payment), \<open>reinstall_keeps_targets\<close> in \<^verbatim>\<open>Hook\<close> (uninstalling keeps the allowed targets),
  \<open>researcher_never_accumulates\<close> in \<^verbatim>\<open>Agents\<close> (its payments never reach the daily accumulator), \<open>drop_is_unauthorized\<close> in
  \<^verbatim>\<open>ConsoleStream\<close> (the reconnection is dead code), \<open>padded_limit_inflated\<close> in \<^verbatim>\<open>ConsoleSettings\<close> (blanks around an amount make the
  editor multiply it), \<open>proxy_masks_errors\<close> in \<^verbatim>\<open>ConsoleVerify\<close> (errors are passed on as successes) and
  \<open>tamper_scene_vacuous\<close> in \<^verbatim>\<open>Demo\<close> (the tampering scene does not exercise the published hash).

  \<^bold>\<open>Parameters.\<close> Code outside the repository is an argument of the definitions that use it: SHA-256,
  \<^verbatim>\<open>JSON.parse\<close> and base64 parsing, URL parsing, \<^verbatim>\<open>fetch\<close>, clocks, random identifiers and salts, files, the
  terminal, the browser's event source and timers, the language models, the Ledger device, viem, the Hedera signing scheme, the facilitator and the bundler. A pending
  approval is settled by an arbitrary interlude of other activity (\<open>wait\<close>), about which the theorems assume
  only what they name.

  \<^bold>\<open>Bounds.\<close> Every loop is structural or has a termination measure; none uses fuel. Polling for a
  receipt recurses on the remaining attempts, thirty as in the code. The body limit, the replay window and
  the size of the guard are the constants of the code; typed arrays end at \<open>2 ^ 32\<close> bytes. Amounts are
  unbounded integers where the code has \<^verbatim>\<open>bigint\<close>, 64- and 256-bit words in the contract's rule, and
  32-bit words for the subgraph's \<^verbatim>\<open>i32\<close> counters.

  \<^bold>\<open>Modelling choices.\<close> Strings hold characters up to U+00FF; dashes and ellipses in messages are
  kept as bytes or as hyphens and nothing computes over them. Numbers are exact rationals with
  infinities and NaN where the code tests for them; rounding of doubles is not modelled. Thrown errors are
  values of \<open>js_error\<close>, one constructor per throw site. Two awaited calls started together run one
  after the other.

  \<^bold>\<open>Not modelled.\<close> The contract that registers ENS names; the markup of the console's pages and the components
  that only render, with their tables of addresses and texts; the scripts that install the hook, verify a deployment
  and capture fixtures, and the live backend of the demonstration, which are sequences of RPC calls; the Hedera
  submitter, a call of the vendor's SDK; log lines, listening sockets and the heartbeats of the event stream.
\<close>

section \<open>The two layers agree\<close>

lemma sdk_transfer_iff:
  assumes "createAgentProof platform config w0 = (Inr ap, w1)" and "cf_decoders config = None"
    and "encodeErc20Transfer to amount = Inr (act_data action)" "wf_address to" "uint256 amount" "0 < amount"
    and "normalizeAddress (act_to action) = Inr (rp_asset (ap_policy ap))"
    and "agent_check ap action (n, w) = (Inr r, t)" "gatherState ap w = (Inr state, w')"
  shows "wf_policy (ap_policy ap)"
    and "res_decision r \<noteq> BLOCK \<longleftrightarrow>
      to \<in> set (rp_allowedRecipients (ap_policy ap)) \<union> set (rp_allowedContracts (ap_policy ap)) \<and>
      amount \<le> rp_maxTransaction (ap_policy ap) \<and> st_dailySpend state + amount \<le> rp_dailySpend (ap_policy ap) \<and>
      rp_minBalance (ap_policy ap) \<le> st_balance state - amount"
proof -
  let ?p = "ap_policy ap" and ?u = "cf_allowUnknownSelectors config"
  obtain d where d: "resolvePolicy d = Inr ?p" using assms(1) by (rule createAgentProof_Inr)
  show wf: "wf_policy ?p" by (rule resolvePolicy_fields [OF d])
  have pol: "eo_policies (ap_engine ap) = default_policies ?p ?u" using assms(1) by (rule createAgentProof_Inr)
  have ctx: "dc_trackedAsset (eo_decoderContext (ap_engine ap)) = rp_asset ?p"
    using assms(1) by (rule createAgentProof_Inr) simp
  have "cf_decoders config = None \<longrightarrow> createDefaultRegistry = Inr (eo_decoders (ap_engine ap))"
    using assms(1) by (rule createAgentProof_Inr)
  with assms(2) have dec: "eo_decoders (ap_engine ap) = default_registry" by (intro default_registryI) simp
  obtain i where i: "engine_decode (ap_engine ap) action None = Inr i" "in_kind i = TRANSFER" "in_counterparty i = Some to"
    "in_target i = rp_asset ?p" "in_notionalUSDC i = amount" "movesValue i \<longleftrightarrow> 0 < amount"
    using engine_decode_transfer [OF dec assms(3-5), unfolded ctx, OF assms(7)] by metis
  obtain now where "r = fst (evaluate (ap_engine ap) i state now n)"
    using assms(8,9) i(1) by (auto simp: agent_check_def io_inversion simp del: io_run elim!: evaluate_io_Inr)
  then have "res_decision r = verdict_of (default_policies ?p ?u) i state" by (simp add: evaluate_simps pol)
  then show "res_decision r \<noteq> BLOCK \<longleftrightarrow> to \<in> set (rp_allowedRecipients ?p) \<union> set (rp_allowedContracts ?p) \<and>
      amount \<le> rp_maxTransaction ?p \<and> st_dailySpend state + amount \<le> rp_dailySpend ?p \<and>
      rp_minBalance ?p \<le> st_balance state - amount"
    using default_policies_verdict(2) [of ?p ?u i state] i wf assms(6) by (auto simp: rule_defs wf_policy_def)
qed



definition sample_layer_account :: SimulatedAccount where
  "sample_layer_account = sample_sim\<lparr>sa_config := \<lparr>sc_asset = sample_token, sc_maxTransaction = 100000000,
     sc_dailyLimit = 500000000, sc_minBalance = 0, sc_policyHash = policyHash sample_document,
     sc_allowedTargets = [sample_router]\<rparr>, sa_allowed := [sample_router, sample_token]\<rparr>"

lemma sample_checked:
  assumes d: "encodeErc20Transfer sample_router 60 = Inr d"
  obtains state r t where "gatherState sample_agent sample_sim = (Inr state, sample_sim)"
    "st_dailySpend state = sim_spentToday sample_sim" "st_balance state = sa_balance sample_sim"
    "agent_check sample_agent (sample_call d) (0, sample_sim) = (Inr r, t)" "res_decision r \<noteq> BLOCK"
proof -
  obtain i r where x: "agent_decide sample_agent (sample_call d) (0, sample_sim) = (Inr (i, r), (1, sample_sim))"
    "res_decision r = ALLOW" by (rule sample_decides [OF d]) auto
  have dec: "engine_decode (ap_engine sample_agent) (sample_call d) None = Inr i" using x(1) by (rule agent_decide_Inr)
  obtain state where g: "gatherState sample_agent sample_sim = (Inr state, sample_sim)"
    and st: "st_dailySpend state = sim_spentToday sample_sim" "st_balance state = sa_balance sample_sim"
    by (simp add: sample_state_read)
  obtain r' t where e: "evaluate_io sample_agent i state (0, sample_sim) = (Inr r', t)"
    by (metis (no_types, lifting) evaluate_io_def case_prod_beta')
  have "agent_decide sample_agent (sample_call d) (0, sample_sim) =
      bind_io (if res_decision r' = REQUIRE_APPROVAL then outside (seekApproval sample_agent r') else return_io r')
        (\<lambda>decided. return_io (i, decided)) t"
    by (simp add: agent_decide_def bind_io_def outside_def dec g e)
  then have "res_decision r' \<noteq> BLOCK" using x by (auto simp: bind_io_def split: if_splits)
  moreover have "agent_check sample_agent (sample_call d) (0, sample_sim) = (Inr r', t)"
    by (cases t) (simp add: agent_check_def bind_io_def outside_def dec g e publish_sample)
  ultimately show thesis using that [OF g st] by blast
qed

lemma sample_no_decoders: "cf_decoders sample_agent_config = None"
  by (simp add: sample_agent_config_def)


definition sample_contract :: AgentPolicyHook where
  "sample_contract = allow_targets 7 [evm_of sample_router, evm_of sample_token]
     (newAgentPolicyHook\<lparr>hk_config := (hk_config newAgentPolicyHook)(7 := \<lparr>hc_asset = evm_of sample_token,
        hc_maxTransaction = 100000000, hc_dailyLimit = 500000000, hc_minBalance = 0, hc_policyHash = 5, hc_installed = True\<rparr>)\<rparr>)"

lemma sample_contract_simps [simp]:
  "hk_config sample_contract 7 = \<lparr>hc_asset = evm_of sample_token, hc_maxTransaction = 100000000, hc_dailyLimit = 500000000,
     hc_minBalance = 0, hc_policyHash = 5, hc_installed = True\<rparr>" "hk_window sample_contract 7 = zero_window"
  "hk_allowedTarget sample_contract 7 x \<longleftrightarrow> x = evm_of sample_router \<or> x = evm_of sample_token"
  by (auto simp: sample_contract_def newAgentPolicyHook_def allow_targets_def allowed_fold)


end
